(* ===== verification/Prelude.thy ===== *)
theory Prelude
  imports "HOL-Library.Word"
begin

text \<open>
  Shared vocabulary of the development: the C integer types as words, byte buffers with the
  writes and reads the codecs perform at fixed offsets, the kernel's error numbers as a
  datatype, and the generic lemmas the components use.

  Conventions. A pointer parameter that the code rejects when it is \<open>NULL\<close> is an object of the
  model, so the \<open>NULL\<close> tests have no counterpart; a (pointer, length) pair is a byte list and
  its length. A function that writes through an output pointer returns what it writes. A
  negative return value \<open>-E\<dots>\<close> is \<open>Inl E\<dots>\<close>; success is \<open>Inr\<close> of the results. \<open>size_t\<close>
  quantities that the code has bounded before it computes with them are \<open>nat\<close>.
\<close>

unbundle bit_operations_syntax

type_synonym u8 = "8 word"
type_synonym u16 = "16 word"
type_synonym u32 = "32 word"
type_synonym u64 = "64 word"
type_synonym s16 = "16 word"
type_synonym bytes = "u8 list"

datatype errno =
    EINVAL | EPROTO | EMSGSIZE | ENOSPC | EBADMSG | EALREADY | EAGAIN | EOVERFLOW
  | ERANGE | ENOENT | ETIMEDOUT | ECONNREFUSED | EACCES | EEXIST | EOPNOTSUPP | ENODEV
  | ENOMEM | ENETDOWN | EKEYREJECTED | EKEYREVOKED | EKEYEXPIRED | ENOKEY | EHOSTUNREACH | ENOBUFS
  | EPERM | EIO | EBUSY | EADDRINUSE | ESTALE | ENONET | ESHUTDOWN | ECONNRESET | ENOTCONN
  | EXDEV

type_synonym 'a res = "errno + 'a"

text \<open>Constants of \<open>src/proto/melodi.h\<close> and \<open>src/proto/mapping.h\<close> that several components use.\<close>

abbreviation (input) MELODI_NODE_ID_SIZE :: nat where "MELODI_NODE_ID_SIZE \<equiv> 33"
abbreviation (input) MELODI_MESSAGE_MTU :: nat where "MELODI_MESSAGE_MTU \<equiv> 4096"
abbreviation (input) MELODI_BROADCAST_MTU :: nat where "MELODI_BROADCAST_MTU \<equiv> 512"
abbreviation (input) MELODI_FRAME_MTU_MAX :: nat where "MELODI_FRAME_MTU_MAX \<equiv> MELODI_MESSAGE_MTU + 80"
abbreviation (input) MELODI_NODE_ID_SCHEME_ED25519 :: u8 where "MELODI_NODE_ID_SCHEME_ED25519 \<equiv> 1"
abbreviation (input) MELODI_NATIVE_LOCATOR_INVALID :: u32 where "MELODI_NATIVE_LOCATOR_INVALID \<equiv> 0"
abbreviation (input) MELODI_NATIVE_LOCATOR_BROADCAST :: u32 where "MELODI_NATIVE_LOCATOR_BROADCAST \<equiv> 0xffffffff"

named_theorems codec_simps \<open>reads of a buffer after writes to it\<close>

subsection \<open>Buffers: a write at an offset, a read at an offset\<close>

definition poke :: "nat \<Rightarrow> 'a list \<Rightarrow> 'a list \<Rightarrow> 'a list" where
  "poke off bs buf = take off buf @ bs @ drop (off + length bs) buf"

definition chunk :: "nat \<Rightarrow> nat \<Rightarrow> 'a list \<Rightarrow> 'a list" where
  "chunk off n buf = take n (drop off buf)"

lemma length_poke [simp, codec_simps]:
  "off + length bs \<le> length buf \<Longrightarrow> length (poke off bs buf) = length buf"
  by (simp add: poke_def)

lemma length_chunk [simp]: "length (chunk off n buf) = min n (length buf - off)"
  by (simp add: chunk_def min.commute)

lemma chunk_0_all [simp]: "chunk 0 (length bs) bs = bs"
  by (simp add: chunk_def)

lemma chunk_poke_same [codec_simps]:
  "off \<le> length buf \<Longrightarrow> n = length bs \<Longrightarrow> chunk off n (poke off bs buf) = bs"
  by (simp add: chunk_def poke_def)

lemma chunk_poke_other [codec_simps]:
  "k + n \<le> off \<or> off + length bs \<le> k \<Longrightarrow> off + length bs \<le> length buf
    \<Longrightarrow> chunk k n (poke off bs buf) = chunk k n buf"
  by (auto simp: chunk_def poke_def drop_take min_def add.commute)

lemma nth_poke_same [codec_simps]:
  "off \<le> k \<Longrightarrow> k < off + length bs \<Longrightarrow> off \<le> length buf
    \<Longrightarrow> poke off bs buf ! k = bs ! (k - off)"
  by (auto simp: poke_def nth_append)

lemma nth_poke_other [codec_simps]:
  "k < off \<or> off + length bs \<le> k \<Longrightarrow> off + length bs \<le> length buf
    \<Longrightarrow> poke off bs buf ! k = buf ! k"
  by (auto simp: poke_def nth_append)

lemma drop_poke_same [codec_simps]:
  "off + length bs \<le> length buf \<Longrightarrow> k = off + length bs \<Longrightarrow> drop k (poke off bs buf) = drop k buf"
  by (simp add: poke_def)

text \<open>
  Sequential filling of a buffer: \<open>agree n out bs\<close> says that the first \<open>n\<close> octets of \<open>out\<close>
  are those of \<open>bs\<close>. Writing the next field extends the agreement.
\<close>

definition agree :: "nat \<Rightarrow> 'a list \<Rightarrow> 'a list \<Rightarrow> bool" where
  "agree n out bs \<longleftrightarrow> length out = length bs \<and> take n out = take n bs"

lemma agree_0: "length out = length bs \<Longrightarrow> agree 0 out bs"
  by (simp add: agree_def)

lemma agree_poke:
  assumes "agree off out bs" and "v = chunk off n bs" and "off + n \<le> length bs" and "m = off + n"
  shows "agree m (poke off v out) bs"
proof -
  have "length v = n" using assms(2,3) by simp
  then have "take m (poke off v out) = take off out @ v"
    using assms by (simp add: poke_def agree_def)
  also have "\<dots> = take off bs @ take n (drop off bs)"
    using assms(1,2) by (simp add: agree_def chunk_def)
  also have "\<dots> = take m bs" using assms(4) by (simp add: take_add)
  finally show ?thesis using assms \<open>length v = n\<close> by (simp add: agree_def)
qed

lemma agree_eq: "agree n out bs \<Longrightarrow> length bs \<le> n \<Longrightarrow> out = bs"
  by (metis agree_def take_all)

text \<open>Writes in ascending order build up a prefix; adjacent reads join to a longer one.\<close>

lemma poke_fill: "length pre = off \<Longrightarrow> poke off bs (pre @ rest) = (pre @ bs) @ drop (length bs) rest"
  by (simp add: poke_def)

lemma poke_start: "poke 0 bs rest = bs @ drop (length bs) rest"
  by (simp add: poke_def)

lemma chunk_join: "b = a + n \<Longrightarrow> chunk a n xs @ chunk b m xs = chunk a (n + m) xs"
  by (simp add: chunk_def take_add) (simp add: add.commute)

lemma chunk_join_append: "b = a + n \<Longrightarrow> chunk a n xs @ chunk b m xs @ ys = chunk a (n + m) xs @ ys"
  by (simp add: chunk_join flip: append_assoc)

lemma chunk_nth: "k < length xs \<Longrightarrow> [xs ! k] = chunk k 1 xs"
  by (simp add: chunk_def take_Suc hd_drop_conv_nth)

lemma chunk_drop: "n = length xs - k \<Longrightarrow> chunk k n xs = drop k xs"
  by (simp add: chunk_def)

lemma chunk_0: "chunk 0 n xs = take n xs"
  by (simp add: chunk_def)

lemma chunk_append_skip: "length xs \<le> k \<Longrightarrow> chunk k n (xs @ ys) = chunk (k - length xs) n ys"
  by (simp add: chunk_def)

lemma chunk_append_take: "length xs = n \<Longrightarrow> chunk 0 n (xs @ ys) = xs"
  by (simp add: chunk_def)

subsection \<open>Fixed-width fields\<close>

text \<open>
  The interface between the header codecs and the integer codecs they call: \<open>put\<close> produces
  \<open>width\<close> octets, \<open>get\<close> reads \<open>width\<close> octets, and the two are inverse in both directions.
\<close>

locale fixed_field =
  fixes put :: "'v \<Rightarrow> bytes" and get :: "bytes \<Rightarrow> 'v" and width :: nat
  assumes length_put: "length (put v) = width"
    and get_take: "get (take width xs) = get xs"
    and get_put: "get (put v) = v"
    and put_get: "length xs = width \<Longrightarrow> put (get xs) = xs"
begin

lemma get_chunk: "get (chunk k width xs) = get (drop k xs)"
  by (simp add: chunk_def get_take)

lemma get_poke_same:
  "off + width \<le> length buf \<Longrightarrow> get (drop off (poke off (put v) buf)) = v"
  using get_chunk [of off "poke off (put v) buf"]
  by (simp add: chunk_poke_same length_put get_put)

lemma get_poke_other:
  "k + width \<le> off \<or> off + length bs \<le> k \<Longrightarrow> off + length bs \<le> length buf
    \<Longrightarrow> get (drop k (poke off bs buf)) = get (drop k buf)"
  using chunk_poke_other [of k width off bs buf] by (metis get_chunk)

lemma get_put_append: "get (put v @ ys) = v"
  by (metis append_eq_conv_conj get_put get_take length_put)

lemma put_inject: "put v = put w \<longleftrightarrow> v = w"
  by (metis get_put)

lemma put_get_chunk: "k + width \<le> length xs \<Longrightarrow> put (get (drop k xs)) = chunk k width xs"
  by (metis get_chunk length_chunk put_get add_le_imp_le_diff add.commute min.absorb1)

end

subsection \<open>Lists and words\<close>

lemma nth_list_update_if: "j < length xs \<Longrightarrow> xs[i := x] ! j = (if i = j then x else xs ! j)"
  by simp

lemma mod_add_neq:
  assumes "a < b" and "b < a + m"
  shows "(s + b) mod m \<noteq> (s + a) mod (m :: nat)"
proof
  assume "(s + b) mod m = (s + a) mod m"
  then have "m dvd b - a" using assms by (simp add: mod_eq_dvd_iff_nat)
  with assms show False by (auto dest: dvd_imp_le)
qed

lemma mod_add_inject:
  "a < m \<Longrightarrow> b < m \<Longrightarrow> (s + a) mod m = (s + b) mod (m :: nat) \<longleftrightarrow> a = b"
  using mod_add_neq [of a b m s] mod_add_neq [of b a m s] by (cases a b rule: linorder_cases) auto

lemma unat_ucast_up:
  "LENGTH('a::len) \<le> LENGTH('b::len) \<Longrightarrow> unat (ucast (x :: 'a word) :: 'b word) = unat x"
  by (metis bintr_uint nat_take_bit_eq take_bit_length_eq uint_up_ucast is_up
      unat_eq_nat_uint)

lemma unat_less_64: "unat (x :: u64) < 18446744073709551616"
  using unsigned_less [of x, where 'a = nat] by simp

lemma unat_drop_bit_less: "w \<noteq> 0 \<Longrightarrow> unat (drop_bit 1 w) < unat (w :: 'a::len word)"
  by (subst unat_drop_bit_eq) (simp add: drop_bit_eq_div unat_gt_0)

lemma and_one_iff_bit: "w AND 1 \<noteq> 0 \<longleftrightarrow> bit (w :: 'a::len word) 0"
  by (simp add: and_one_eq bit_0 mod_2_eq_odd)

lemma bit_beyond_u8 [simp]: "8 \<le> n \<Longrightarrow> \<not> bit (b :: u8) n"
  using bit_imp_le_length [of b n] by auto

lemma bit_beyond_u32 [simp]: "32 \<le> n \<Longrightarrow> \<not> bit (b :: u32) n"
  using bit_imp_le_length [of b n] by auto

lemma ucast_u16_split:
  "push_bit 8 (ucast (ucast (drop_bit 8 v) :: u8)) OR ucast (ucast v :: u8) = (v :: u16)"
  by (rule bit_word_eqI) (auto simp: bit_simps)


lemma ucast_u32_split:
  "push_bit 24 (ucast (ucast (drop_bit 24 v) :: u8)) OR push_bit 16 (ucast (ucast (drop_bit 16 v) :: u8)) OR
   push_bit 8 (ucast (ucast (drop_bit 8 v) :: u8)) OR ucast (ucast v :: u8) = (v :: u32)"
proof (rule bit_word_eqI)
  fix n assume "n < LENGTH(32)"
  then consider "n < 8" | "8 \<le> n" "n < 16" | "16 \<le> n" "n < 24" | "24 \<le> n" "n < 32" by auto linarith
  then show "bit (push_bit 24 (ucast (ucast (drop_bit 24 v) :: u8)) OR push_bit 16 (ucast (ucast (drop_bit 16 v) :: u8)) OR
   push_bit 8 (ucast (ucast (drop_bit 8 v) :: u8)) OR ucast (ucast v :: u8) :: u32) n = bit v n"
    by cases (auto simp: bit_simps)
qed


subsection \<open>Numbers in a radix\<close>

definition radix :: "nat \<Rightarrow> nat \<Rightarrow> nat list \<Rightarrow> nat" where
  "radix b v ds = foldl (\<lambda>v d. v * b + d) v ds"

lemma radix_simps [simp]: "radix b v [] = v" "radix b v (d # ds) = radix b (v * b + d) ds"
  "radix b v (xs @ ys) = radix b (radix b v xs) ys"
  by (simp_all add: radix_def)

lemma radix_inject:
  assumes "length xs = length ys" "\<forall>d\<in>set xs. d < b" "\<forall>d\<in>set ys. d < b" "radix b v xs = radix b w ys"
  shows "xs = ys \<and> v = w"
  using assms
proof (induction xs arbitrary: ys rule: rev_induct)
  case (snoc x xs)
  then obtain y ys' where ys: "ys = ys' @ [y]" by (metis length_0_conv rev_exhaust snoc_eq_iff_butlast)
  have eq: "radix b v xs * b + x = radix b w ys' * b + y" and lt: "x < b" "y < b"
    using snoc.prems ys by auto
  from eq lt have "x = y" by (metis add.commute mod_less mod_mult_self1)
  moreover from this eq lt have "radix b v xs = radix b w ys'" by simp
  ultimately show ?case using snoc.IH [of ys'] snoc.prems ys by simp
qed simp

subsection \<open>Slots of fixed arrays\<close>

text \<open>
  The tables of the kernel module are arrays of slots; a scan returns the index of the first slot
  with a property, as the loops that return a pointer into the array do.
\<close>

definition find_slot :: "('a \<Rightarrow> bool) \<Rightarrow> 'a list \<Rightarrow> nat option" where
  "find_slot P xs = (let k = length (takeWhile (\<lambda>x. \<not> P x) xs) in if k < length xs then Some k else None)"

lemma find_slot_Some_iff: "find_slot P xs = Some k \<longleftrightarrow> k < length xs \<and> P (xs ! k) \<and> (\<forall>j<k. \<not> P (xs ! j))"
proof
  assume "find_slot P xs = Some k"
  then have k: "k = length (takeWhile (\<lambda>x. \<not> P x) xs)" "k < length xs"
    by (auto simp: find_slot_def Let_def split: if_splits)
  then have "P (xs ! k)" using nth_length_takeWhile [of "\<lambda>x. \<not> P x" xs] by simp
  moreover have "\<not> P (xs ! j)" if "j < k" for j
    using that k by (metis nth_mem set_takeWhileD takeWhile_nth)
  ultimately show "k < length xs \<and> P (xs ! k) \<and> (\<forall>j<k. \<not> P (xs ! j))" using k by blast
next
  assume k: "k < length xs \<and> P (xs ! k) \<and> (\<forall>j<k. \<not> P (xs ! j))"
  then have "takeWhile (\<lambda>x. \<not> P x) xs = take k xs"
    by (intro takeWhile_eq_take_P_nth) auto
  then show "find_slot P xs = Some k" using k by (simp add: find_slot_def Let_def)
qed

lemma find_slot_None_iff: "find_slot P xs = None \<longleftrightarrow> (\<forall>x\<in>set xs. \<not> P x)"
proof
  assume "find_slot P xs = None"
  then have "length (takeWhile (\<lambda>x. \<not> P x) xs) = length xs"
    using length_takeWhile_le [of "\<lambda>x. \<not> P x" xs] by (auto simp: find_slot_def Let_def split: if_splits)
  then have "takeWhile (\<lambda>x. \<not> P x) xs = xs" by (metis takeWhile_eq_take take_all order_refl)
  then show "\<forall>x\<in>set xs. \<not> P x" by (metis takeWhile_eq_all_conv)
next
  assume "\<forall>x\<in>set xs. \<not> P x"
  then have "takeWhile (\<lambda>x. \<not> P x) xs = xs" by simp
  then have "length (takeWhile (\<lambda>x. \<not> P x) xs) = length xs" by (rule arg_cong)
  then show "find_slot P xs = None" unfolding find_slot_def Let_def by simp
qed

lemma find_slot_lessD: "find_slot P xs = Some k \<Longrightarrow> k < length xs" "find_slot P xs = Some k \<Longrightarrow> P (xs ! k)"
  by (simp_all add: find_slot_Some_iff)

lemma sum_list_store:
  "i < length xs \<Longrightarrow> sum_list (map f (xs[i := y])) + f (xs ! i) = sum_list (map f xs) + (f y :: nat)"
  by (induction xs arbitrary: i) (auto split: nat.splits)

lemma sum_list_slot: "i < length xs \<Longrightarrow> f (xs ! i) \<le> sum_list (map f xs)" for f :: "'a \<Rightarrow> nat"
  by (simp add: member_le_sum_list)

lemma list_all_store: "list_all P xs \<Longrightarrow> P y \<Longrightarrow> list_all P (xs[i := y])"
  using set_update_subset_insert [of xs i y] by (auto simp: list_all_iff)

end
