(* ===== verification/Replay.thy ===== *)
theory Replay
  imports Prelude
begin

text \<open>
  The anti-replay window of \<open>src/proto/replay.c\<close>: the highest counter accepted so far and a
  bitmap of the last 64 counters, bit \<open>i\<close> standing for \<open>highest - i\<close>. The specification is
  the set of all counters accepted so far; the window is shown to decide it exactly.
\<close>

subsection \<open>Model\<close>

abbreviation MELODI_REPLAY_WINDOW_BITS :: u64 where
  "MELODI_REPLAY_WINDOW_BITS \<equiv> 64"

record melodi_replay_window =
  highest :: u64
  bitmap :: u64

definition melodi_replay_reset :: melodi_replay_window where
  "melodi_replay_reset = \<lparr>highest = 0, bitmap = 0\<rparr>"

definition melodi_replay_seen :: "melodi_replay_window \<Rightarrow> u64 \<Rightarrow> bool" where
  "melodi_replay_seen window counter =
     (if counter = 0 then True
      else if counter > highest window then False
      else let distance = highest window - counter in
        distance \<ge> MELODI_REPLAY_WINDOW_BITS \<or>
        bitmap window AND push_bit (unat distance) 1 \<noteq> 0)"

definition melodi_replay_mark ::
  "melodi_replay_window \<Rightarrow> u64 \<Rightarrow> melodi_replay_window res" where
  "melodi_replay_mark window counter =
     (if counter = 0 then Inl EINVAL
      else if counter > highest window then
        let distance = counter - highest window in
        Inr (window\<lparr>bitmap := (if distance \<ge> MELODI_REPLAY_WINDOW_BITS then 1
                               else push_bit (unat distance) (bitmap window) OR 1),
                    highest := counter\<rparr>)
      else let distance = highest window - counter in
        if distance \<ge> MELODI_REPLAY_WINDOW_BITS \<or>
           bitmap window AND push_bit (unat distance) 1 \<noteq> 0
        then Inl EALREADY
        else Inr (window\<lparr>bitmap := bitmap window OR push_bit (unat distance) 1\<rparr>))"

subsection \<open>Interface\<close>

text \<open>The counters a filter lets through, in order; a rejected counter leaves it unchanged.\<close>

primrec accepted :: "('s \<Rightarrow> 'c \<Rightarrow> 's res) \<Rightarrow> 's \<Rightarrow> 'c list \<Rightarrow> 'c list" where
  "accepted mark s [] = []"
| "accepted mark s (c # cs) =
     (case mark s c of Inl _ \<Rightarrow> accepted mark s cs | Inr s' \<Rightarrow> c # accepted mark s' cs)"

text \<open>
  What the receive path relies on: \<open>R s S\<close> relates a filter to the set of counters it has
  accepted, a counter is accepted only if it is new, and it is then in the set.
\<close>

locale replay_filter =
  fixes init :: 's and mark :: "'s \<Rightarrow> 'c \<Rightarrow> 's res" and R :: "'s \<Rightarrow> 'c set \<Rightarrow> bool"
  assumes R_init: "R init {}"
    and mark_fresh: "R s S \<Longrightarrow> mark s c = Inr s' \<Longrightarrow> c \<notin> S"
    and mark_R: "R s S \<Longrightarrow> mark s c = Inr s' \<Longrightarrow> R s' (insert c S)"
begin

lemma accepted_distinct_from:
  "R s S \<Longrightarrow> distinct (accepted mark s cs) \<and> set (accepted mark s cs) \<inter> S = {}"
proof (induction cs arbitrary: s S)
  case (Cons c cs)
  show ?case
  proof (cases "mark s c")
    case (Inr s')
    with Cons.prems have "c \<notin> S" and "R s' (insert c S)"
      by (auto dest: mark_fresh mark_R)
    with Cons.IH [of s' "insert c S"] Inr show ?thesis by auto
  qed (use Cons in auto)
qed simp

lemma accepted_distinct: "distinct (accepted mark init cs)"
  using accepted_distinct_from [OF R_init] by simp

end

subsection \<open>Specification and refinement\<close>

text \<open>\<open>S\<close> is the set of all counters accepted since the reset.\<close>

definition replay_spec :: "u64 set \<Rightarrow> u64 \<Rightarrow> u64 set res" where
  "replay_spec S c =
     (if c = 0 then Inl EINVAL
      else if c \<in> S \<or> (\<exists>h\<in>S. unat c + 64 \<le> unat h) then Inl EALREADY
      else Inr (insert c S))"

definition replay_rel :: "melodi_replay_window \<Rightarrow> u64 set \<Rightarrow> bool" where
  "replay_rel w S \<longleftrightarrow>
     0 \<notin> S \<and> (\<forall>c\<in>S. c \<le> highest w) \<and> (S = {} \<longrightarrow> highest w = 0) \<and>
     (S \<noteq> {} \<longrightarrow> highest w \<in> S) \<and>
     (\<forall>c. c \<noteq> 0 \<and> c \<le> highest w \<and> unat (highest w) - unat c < 64 \<longrightarrow>
        (c \<in> S \<longleftrightarrow> bit (bitmap w) (unat (highest w) - unat c)))"

lemma and_single_bit: "(w AND push_bit n 1 \<noteq> 0) \<longleftrightarrow> bit (w :: u64) n"
  by (metis and_exp_eq_0_iff_not_bit bit_imp_le_length push_bit_of_1)

lemma unat_diff_le: "(a::u64) \<le> b \<Longrightarrow> unat (b - a) = unat b - unat a"
  by (simp add: unat_sub)

lemma window_distance: "64 \<le> (d :: u64) \<longleftrightarrow> 64 \<le> unat d"
  by (simp add: word_le_nat_alt)

lemmas replay_word = and_single_bit and_exp_eq_0_iff_not_bit unat_diff_le window_distance not_less word_less_nat_alt
  word_le_nat_alt


lemma replay_rel_reset: "replay_rel melodi_replay_reset {}"
  by (simp add: replay_rel_def melodi_replay_reset_def)

lemma replay_relD:
  assumes "replay_rel w S" and "c \<noteq> 0" and "c \<le> highest w"
    and "unat (highest w) - unat c < 64"
  shows "c \<in> S \<longleftrightarrow> bit (bitmap w) (unat (highest w) - unat c)"
  using assms by (simp add: replay_rel_def)

lemma replay_rel_too_old:
  assumes "replay_rel w S" and "c \<noteq> 0" and "c \<le> highest w"
  shows "(\<exists>h\<in>S. unat c + 64 \<le> unat h) \<longleftrightarrow> 64 \<le> unat (highest w) - unat c"
proof
  assume "\<exists>h\<in>S. unat c + 64 \<le> unat h"
  then obtain h where "h \<in> S" and h: "unat c + 64 \<le> unat h" by blast
  with assms(1) have "unat h \<le> unat (highest w)"
    by (auto simp: replay_rel_def word_le_nat_alt)
  with h show "64 \<le> unat (highest w) - unat c" by simp
next
  assume old: "64 \<le> unat (highest w) - unat c"
  then have "highest w \<noteq> 0" by (auto simp: unat_eq_zero)
  with assms(1) have "highest w \<in> S" by (auto simp: replay_rel_def)
  with old show "\<exists>h\<in>S. unat c + 64 \<le> unat h" by (intro bexI [of _ "highest w"]) auto
qed

lemma replay_rel_above:
  assumes rel: "replay_rel w S" and above: "highest w < c"
    and bits: "\<And>i. i < 64 \<Longrightarrow> bit b i \<longleftrightarrow>
      i = 0 \<or> (unat c - unat (highest w) \<le> i \<and> bit (bitmap w) (i - (unat c - unat (highest w))))"
  shows "replay_rel (w\<lparr>bitmap := b, highest := c\<rparr>) (insert c S)"
proof -
  have le: "x \<le> highest w \<Longrightarrow> x \<le> c" for x using above by simp
  have gt: "unat (highest w) < unat c" using above by (simp add: word_less_nat_alt)
  have c0: "c \<noteq> 0" using above by (metis word_not_simps(1))
  have mem: "x \<in> insert c S \<longleftrightarrow> bit b (unat c - unat x)"
    if x: "x \<noteq> 0" "x \<le> c" "unat c - unat x < 64" for x
  proof (cases "x \<le> highest w")
    case True
    have xh: "unat x \<le> unat (highest w)" using True by (simp add: word_le_nat_alt)
    have "unat c - unat x - (unat c - unat (highest w)) = unat (highest w) - unat x"
      using gt xh by simp
    moreover have "x \<noteq> c" using True above by auto
    ultimately show ?thesis
      using replay_relD [OF rel x(1) True] bits [OF x(3)] gt xh x(3) by auto
  next
    case False
    then have xh: "unat (highest w) < unat x" by (simp add: word_le_nat_alt)
    have notS: "x \<notin> S" using rel False by (auto simp: replay_rel_def)
    have "\<not> unat c - unat (highest w) \<le> unat c - unat x"
      using xh x(2) by (simp add: word_le_nat_alt)
    then have "bit b (unat c - unat x) \<longleftrightarrow> unat c - unat x = 0" using bits [OF x(3)] by simp
    also have "\<dots> \<longleftrightarrow> x = c"
      using x(2) by (auto simp: word_le_nat_alt word_unat_eq_iff)
    finally show ?thesis using notS by simp
  qed
  show ?thesis
    using rel le c0 mem by (auto simp: replay_rel_def)
qed

lemma replay_rel_within:
  assumes rel: "replay_rel w S" and c: "c \<noteq> 0" "c \<le> highest w"
    and near: "unat (highest w) - unat c < 64"
  shows "replay_rel (w\<lparr>bitmap := bitmap w OR push_bit (unat (highest w) - unat c) 1\<rparr>) (insert c S)"
proof -
  have "x = c" if "x \<le> highest w" "unat (highest w) - unat x = unat (highest w) - unat c" for x
    using that c by (metis diff_diff_cancel word_le_nat_alt word_unat_eq_iff)
  moreover have "highest w \<in> S" using rel c by (auto simp: replay_rel_def)
  ultimately show ?thesis
    using rel c near by (auto simp: replay_rel_def bit_simps)
qed

lemma melodi_replay_mark_refines:
  assumes rel: "replay_rel w S"
  shows "rel_sum (=) replay_rel (melodi_replay_mark w c) (replay_spec S c)"
proof -
  consider "c = 0" | (above) "c \<noteq> 0" "highest w < c" | (within) "c \<noteq> 0" "c \<le> highest w"
    by fastforce
  then show ?thesis
  proof cases
    case above
    have "c \<notin> S" and "\<not> (\<exists>h\<in>S. unat c + 64 \<le> unat h)"
      using rel above by (auto simp: replay_rel_def word_le_nat_alt word_less_nat_alt)
    moreover have "unat (c - highest w) = unat c - unat (highest w)"
      using above by (simp add: unat_diff_le)
    ultimately show ?thesis
      using above
      by (auto simp: melodi_replay_mark_def replay_spec_def Let_def window_distance bit_simps
               intro!: replay_rel_above [OF rel])
  next
    case within
    then show ?thesis
      using replay_relD [OF rel within] replay_rel_too_old [OF rel within]
        replay_rel_within [OF rel within]
      by (auto simp: melodi_replay_mark_def replay_spec_def Let_def replay_word)
  qed (simp add: melodi_replay_mark_def replay_spec_def)
qed

interpretation window: replay_filter melodi_replay_reset melodi_replay_mark replay_rel
proof unfold_locales
  fix s S c s'
  assume rel: "replay_rel s S" and mark: "melodi_replay_mark s c = Inr s'"
  from melodi_replay_mark_refines [OF rel, of c] mark
  show "c \<notin> S" and "replay_rel s' (insert c S)"
    by (auto simp: replay_spec_def split: if_splits)
qed (rule replay_rel_reset)

subsection \<open>Properties\<close>

text \<open>The answers a filter gives to a sequence of counters, \<open>None\<close> for accepted.\<close>

primrec answers :: "('s \<Rightarrow> 'c \<Rightarrow> 's res) \<Rightarrow> 's \<Rightarrow> 'c list \<Rightarrow> errno option list" where
  "answers mark s [] = []"
| "answers mark s (c # cs) =
     (case mark s c of Inl e \<Rightarrow> Some e # answers mark s cs | Inr s' \<Rightarrow> None # answers mark s' cs)"

lemma answers_refine:
  "replay_rel w S \<Longrightarrow> answers melodi_replay_mark w cs = answers replay_spec S cs"
proof (induction cs arbitrary: w S)
  case (Cons c cs)
  from melodi_replay_mark_refines [OF Cons.prems, of c] Cons.IH [OF Cons.prems] Cons.IH
  show ?case by (auto simp: rel_sum.simps split: sum.splits)
qed simp

text \<open>
  C1. Refinement: on every sequence of counters the window gives, one by one, the answers of
  the specification that remembers every counter accepted since the reset: zero is invalid, a
  counter already accepted or 64 or more behind the highest is refused, any other is accepted.
\<close>

theorem replay_window_refines_set:
  "answers melodi_replay_mark melodi_replay_reset cs = answers replay_spec {} cs"
  by (rule answers_refine) (rule replay_rel_reset)

text \<open>C9. Safety: no counter is accepted twice, whatever the order of arrival.\<close>

theorem replay_accepts_once:
  "distinct (accepted melodi_replay_mark melodi_replay_reset cs)"
  by (rule window.accepted_distinct)

text \<open>
  The early test agrees with the commit: \<open>melodi_replay_seen\<close> holds exactly when
  \<open>melodi_replay_mark\<close> would refuse the counter.
\<close>

lemma replay_seen_iff_mark_refuses:
  "melodi_replay_seen w c \<longleftrightarrow> (\<exists>e. melodi_replay_mark w c = Inl e)"
  by (auto simp: melodi_replay_seen_def melodi_replay_mark_def Let_def)

end
