(* ===== verification/Airtime.thy ===== *)
theory Airtime
  imports Prelude
begin

text \<open>
  The sliding airtime budget of \<open>src/proto/airtime.c\<close>: one hour as a ring of 360 buckets of ten
  seconds, the sum of the buckets kept beside them, and an admission test that either charges
  the cost of a transmission or says how long to wait.
\<close>

subsection \<open>Model\<close>

abbreviation (input) MELODI_AIRTIME_BUCKETS :: nat where "MELODI_AIRTIME_BUCKETS \<equiv> 360"
abbreviation (input) MELODI_AIRTIME_SLOT_MS :: u64 where "MELODI_AIRTIME_SLOT_MS \<equiv> 10000"
abbreviation (input) MELODI_AIRTIME_WINDOW_US :: u64 where "MELODI_AIRTIME_WINDOW_US \<equiv> 3600000000"

record melodi_airtime_window =
  buckets :: "u32 list"
  epoch_slot :: u64
  total_us :: u64
  initialized :: bool

definition melodi_airtime_reset :: melodi_airtime_window where
  "melodi_airtime_reset =
     \<lparr>buckets = replicate MELODI_AIRTIME_BUCKETS 0, epoch_slot = 0, total_us = 0,
      initialized = False\<rparr>"

text \<open>The body of the expiry loop: the bucket of slot \<open>base + index\<close> leaves the window.\<close>

definition melodi_airtime_expire ::
  "u64 \<Rightarrow> nat \<Rightarrow> melodi_airtime_window \<Rightarrow> melodi_airtime_window" where
  "melodi_airtime_expire base index window =
     (let expired = unat ((base + of_nat index) mod 360) in
      window\<lparr>total_us := total_us window - ucast (buckets window ! expired),
             buckets := (buckets window)[expired := 0]\<rparr>)"

definition melodi_airtime_advance ::
  "melodi_airtime_window \<Rightarrow> u64 \<Rightarrow> melodi_airtime_window" where
  "melodi_airtime_advance window slot =
     (if \<not> initialized window \<or> slot < epoch_slot window
      then melodi_airtime_reset\<lparr>epoch_slot := slot, initialized := True\<rparr>
      else
        let elapsed = slot - epoch_slot window;
            window' =
              (if elapsed \<ge> 360
               then window\<lparr>buckets := replicate MELODI_AIRTIME_BUCKETS 0, total_us := 0\<rparr>
               else fold (melodi_airtime_expire (epoch_slot window))
                      [1..<Suc (unat elapsed)] window)
        in window'\<lparr>epoch_slot := slot\<rparr>)"

text \<open>
  The loop that looks for the first future slot at which the cost fits: the number of slots to
  wait, or \<open>None\<close> when the loop runs out.
\<close>

function melodi_airtime_search ::
  "melodi_airtime_window \<Rightarrow> u64 \<Rightarrow> u64 \<Rightarrow> u64 \<Rightarrow> nat \<Rightarrow> nat option" where
  "melodi_airtime_search window slot room remaining index =
     (if index \<le> MELODI_AIRTIME_BUCKETS then
        let expired = unat ((slot + of_nat index) mod 360);
            remaining' = remaining - ucast (buckets window ! expired)
        in if remaining' \<le> room then Some index
           else melodi_airtime_search window slot room remaining' (Suc index)
      else None)"
  by pat_completeness auto
termination
  by (relation "measure (\<lambda>(_, _, _, _, index). 361 - index)") auto

declare melodi_airtime_search.simps [simp del]

text \<open>
  The result is the new window, the value stored through \<open>wait_ms\<close> (\<open>None\<close> when it is not
  written) and the return value.
\<close>

definition melodi_airtime_admit ::
  "melodi_airtime_window \<Rightarrow> u64 \<Rightarrow> u64 \<Rightarrow> u64 \<Rightarrow>
     melodi_airtime_window \<times> u64 option \<times> unit res" where
  "melodi_airtime_admit window now_ms budget_us cost_us =
     (if budget_us = 0 \<or> cost_us = 0 \<or> budget_us > MELODI_AIRTIME_WINDOW_US
      then (window, None, Inl EINVAL)
      else if cost_us > budget_us then (window, Some 0, Inl EMSGSIZE)
      else
        let slot = now_ms div MELODI_AIRTIME_SLOT_MS;
            window = melodi_airtime_advance window slot
        in if total_us window \<le> budget_us - cost_us then
             let index = unat (slot mod 360) in
             (window\<lparr>buckets := (buckets window)[index := buckets window ! index + ucast cost_us],
                     total_us := total_us window + cost_us\<rparr>,
              Some 0, Inr ())
           else
             (case melodi_airtime_search window slot (budget_us - cost_us) (total_us window) 1 of
                Some index \<Rightarrow>
                  (window,
                   Some (of_nat index * MELODI_AIRTIME_SLOT_MS - now_ms mod MELODI_AIRTIME_SLOT_MS),
                   Inl EAGAIN)
              | None \<Rightarrow> (window, Some 0, Inl EOVERFLOW)))"

subsection \<open>The invariant\<close>

definition bucket_sum :: "u32 list \<Rightarrow> nat" where
  "bucket_sum bs = sum_list (map unat bs)"

definition airtime_inv :: "melodi_airtime_window \<Rightarrow> bool" where
  "airtime_inv w \<longleftrightarrow> length (buckets w) = 360 \<and> unat (total_us w) = bucket_sum (buckets w)
     \<and> bucket_sum (buckets w) \<le> 3600000000"

lemma bucket_sum_replicate [simp]: "bucket_sum (replicate n 0) = 0"
  by (simp add: bucket_sum_def)

lemma bucket_le_sum: "j < length bs \<Longrightarrow> unat (bs ! j) \<le> bucket_sum bs"
  unfolding bucket_sum_def by (metis elem_le_sum_list length_map nth_map)

lemma bucket_sum_update:
  "j < length bs \<Longrightarrow> bucket_sum (bs[j := v]) = bucket_sum bs - unat (bs ! j) + unat v"
proof (induction bs arbitrary: j)
  case (Cons b bs)
  show ?case
  proof (cases j)
    case (Suc k)
    with Cons have "unat (bs ! k) \<le> bucket_sum bs" by (simp add: bucket_le_sum)
    with Suc Cons show ?thesis by (simp add: bucket_sum_def)
  qed (simp add: bucket_sum_def)
qed simp

lemma airtime_inv_reset: "airtime_inv melodi_airtime_reset"
  by (simp add: airtime_inv_def melodi_airtime_reset_def)

text \<open>What the expiry loop does to the buckets, on natural numbers.\<close>

primrec expire_upto :: "nat \<Rightarrow> nat \<Rightarrow> u32 list \<Rightarrow> u32 list" where
  "expire_upto e 0 bs = bs"
| "expire_upto e (Suc d) bs = (expire_upto e d bs)[(e + Suc d) mod 360 := 0]"

lemma length_expire_upto [simp]: "length (expire_upto e d bs) = length bs"
  by (induction d) auto

lemma nth_expire_upto:
  "j < length bs \<Longrightarrow>
    expire_upto e d bs ! j = (if \<exists>i\<in>{1..d}. j = (e + i) mod 360 then 0 else bs ! j)"
  by (induction d) (auto simp: nth_list_update_if atLeastAtMostSuc_conv)

lemma slot_index:
  "unat (base :: u64) + i < 2 ^ 64 \<Longrightarrow> unat ((base + of_nat i) mod 360) = (unat base + i) mod 360"
  by (simp add: unat_mod_distrib unat_word_ariths unat_of_nat take_bit_eq_mod)

lemma melodi_airtime_expire_inv:
  assumes inv: "airtime_inv w" and "unat base + i < 2 ^ 64"
  defines "w' \<equiv> melodi_airtime_expire base i w"
  shows "airtime_inv w' \<and> buckets w' = (buckets w)[(unat base + i) mod 360 := 0]
    \<and> epoch_slot w' = epoch_slot w \<and> initialized w' = initialized w"
proof -
  let ?j = "(unat base + i) mod 360" and ?bs = "buckets w"
  have j: "?j < length ?bs" using inv by (simp add: airtime_inv_def)
  have le: "unat (?bs ! ?j) \<le> unat (total_us w)"
    using bucket_le_sum [OF j] inv by (simp add: airtime_inv_def)
  then have "unat (total_us w - ucast (?bs ! ?j)) = unat (total_us w) - unat (?bs ! ?j)"
    by (simp add: unat_sub word_le_nat_alt unat_ucast_up)
  then show ?thesis
    using inv j slot_index [OF assms(2)]
    by (auto simp: w'_def melodi_airtime_expire_def Let_def airtime_inv_def bucket_sum_update)
qed

lemma fold_expire_inv:
  assumes "airtime_inv w" and "unat base + d < 2 ^ 64"
  defines "w' \<equiv> fold (melodi_airtime_expire base) [1..<Suc d] w"
  shows "airtime_inv w' \<and> buckets w' = expire_upto (unat base) d (buckets w)
    \<and> epoch_slot w' = epoch_slot w \<and> initialized w' = initialized w"
  using assms(2) unfolding w'_def
proof (induction d)
  case (Suc d)
  then show ?case
    using melodi_airtime_expire_inv [where base = base and i = "Suc d"] by auto
qed (simp add: assms(1))

lemma expire_all_sum:
  assumes "length bs = 360"
  shows "bucket_sum (expire_upto e 360 bs) = 0"
proof -
  have hit: "\<exists>i\<in>{1..360}. j = (e + i) mod 360" if "j < 360" for j
  proof (cases "e mod 360 < j")
    case True
    have "(e + (j - e mod 360)) mod 360 = (e mod 360 + (j - e mod 360)) mod 360"
      by (metis mod_add_left_eq)
    with True that show ?thesis by (intro bexI [of _ "j - e mod 360"]) auto
  next
    case False
    have "(e + (360 + j - e mod 360)) mod 360 = (e mod 360 + (360 + j - e mod 360)) mod 360"
      by (metis mod_add_left_eq)
    also have "e mod 360 + (360 + j - e mod 360) = 360 + j"
      using mod_less_divisor [of 360 e] by simp
    finally show ?thesis
      using False that by (intro bexI [of _ "360 + j - e mod 360"]) auto
  qed
  have "expire_upto e 360 bs = replicate 360 0"
    using assms hit by (intro nth_equalityI) (simp_all add: nth_expire_upto)
  then show ?thesis by simp
qed

text \<open>After \<open>d\<close> slots the window holds what \<open>d\<close> expiries leave.\<close>

lemma melodi_airtime_advance_inv:
  assumes "airtime_inv w"
  shows "airtime_inv (melodi_airtime_advance w slot)"
    and "epoch_slot (melodi_airtime_advance w slot) = slot"
    and "initialized (melodi_airtime_advance w slot)"
proof -
  have "slot \<ge> epoch_slot w \<Longrightarrow> unat (epoch_slot w) + unat (slot - epoch_slot w) < 2 ^ 64"
    using unat_less_64 [of slot] by (simp add: unat_sub word_le_nat_alt)
  note fold_expire_inv [OF assms this]
  then show "airtime_inv (melodi_airtime_advance w slot)"
    and "epoch_slot (melodi_airtime_advance w slot) = slot"
    and "initialized (melodi_airtime_advance w slot)"
    using assms
    by (auto simp: melodi_airtime_advance_def Let_def not_less airtime_inv_def
        melodi_airtime_reset_def)
qed

lemma melodi_airtime_advance_sum:
  assumes inv: "airtime_inv w" and init: "initialized w"
    and slot: "unat slot = unat (epoch_slot w) + d"
  shows "bucket_sum (buckets (melodi_airtime_advance w slot)) =
    bucket_sum (expire_upto (unat (epoch_slot w)) (min d 360) (buckets w))"
proof -
  have le: "epoch_slot w \<le> slot" using slot by (simp add: word_le_nat_alt)
  then have d: "unat (slot - epoch_slot w) = d" using slot by (simp add: unat_sub)
  then have far: "360 \<le> slot - epoch_slot w \<longleftrightarrow> 360 \<le> d" by (simp add: word_le_nat_alt)
  have "unat (epoch_slot w) + d < 2 ^ 64" using slot unat_less_64 [of slot] by simp
  from fold_expire_inv [OF inv this] show ?thesis
    using inv init le d far expire_all_sum [of "buckets w"]
    by (auto simp: melodi_airtime_advance_def Let_def not_less airtime_inv_def min_def)
qed


text \<open>The search finds the least number of slots after which the cost fits.\<close>

lemma melodi_airtime_search_step:
  fixes slot remaining :: u64
  assumes inv: "airtime_inv w" and slot: "unat slot + 360 < 2 ^ 64" and "i < 360"
    and rest: "unat remaining = bucket_sum (expire_upto (unat slot) i (buckets w))"
  shows "unat (remaining - ucast (buckets w ! unat ((slot + of_nat (Suc i)) mod 360))) =
    bucket_sum (expire_upto (unat slot) (Suc i) (buckets w))"
proof -
  let ?j = "(unat slot + Suc i) mod 360" and ?bs = "expire_upto (unat slot) i (buckets w)"
  have j: "?j < length ?bs" using inv by (simp add: airtime_inv_def)
  have "?j \<noteq> (unat slot + k) mod 360" if "k \<in> {1..i}" for k
    using mod_add_neq [of k "Suc i" 360 "unat slot"] that \<open>i < 360\<close> by simp
  then have same: "?bs ! ?j = buckets w ! ?j" using j by (simp add: nth_expire_upto)
  have "unat (?bs ! ?j) \<le> unat remaining" using bucket_le_sum [OF j] rest by simp
  then show ?thesis
    using slot_index [of slot "Suc i"] slot \<open>i < 360\<close> same rest bucket_sum_update [OF j, of 0]
    by (simp add: unat_sub word_le_nat_alt unat_ucast_up)
qed

lemma melodi_airtime_search_least:
  assumes inv: "airtime_inv w" and slot: "unat slot + 360 < 2 ^ 64"
    and "unat remaining = bucket_sum (expire_upto (unat slot) i (buckets w))" and "i \<le> 359"
  shows "\<exists>k. melodi_airtime_search w slot room remaining (Suc i) = Some k \<and> i < k \<and> k \<le> 360 \<and>
    bucket_sum (expire_upto (unat slot) k (buckets w)) \<le> unat room \<and>
    (\<forall>m. i < m \<and> m < k \<longrightarrow> unat room < bucket_sum (expire_upto (unat slot) m (buckets w)))"
  using assms(3,4)
proof (induction "359 - i" arbitrary: i remaining rule: less_induct)
  case less
  let ?r = "remaining - ucast (buckets w ! unat ((slot + of_nat (Suc i)) mod 360))"
  let ?sum = "\<lambda>k. bucket_sum (expire_upto (unat slot) k (buckets w))"
  have step: "unat ?r = ?sum (Suc i)"
    using less.prems by (intro melodi_airtime_search_step [OF inv slot]) auto
  note unfold = melodi_airtime_search.simps [of w slot room remaining "Suc i"]
  show ?case
  proof (cases "?r \<le> room")
    case True
    then have "melodi_airtime_search w slot room remaining (Suc i) = Some (Suc i)"
      using less.prems by (simp add: unfold Let_def)
    with True step less.prems show ?thesis by (auto simp: word_le_nat_alt)
  next
    case False
    have "?sum 360 = 0" using inv by (simp add: expire_all_sum airtime_inv_def)
    with False step have i: "Suc i \<le> 359"
      using less.prems by (cases "i = 359") (auto simp: word_le_nat_alt)
    then have "359 - Suc i < 359 - i" by simp
    from less.hyps [OF this step i] obtain k
      where k: "melodi_airtime_search w slot room ?r (Suc (Suc i)) = Some k" "Suc i < k" "k \<le> 360"
        "?sum k \<le> unat room" "\<forall>m. Suc i < m \<and> m < k \<longrightarrow> unat room < ?sum m"
      by blast
    have "melodi_airtime_search w slot room remaining (Suc i) = Some k"
      using False k(1) less.prems by (simp add: unfold Let_def)
    moreover have "unat room < ?sum m" if "i < m" "m < k" for m
      using that k(5) False step by (cases "m = Suc i") (auto simp: word_le_nat_alt)
    ultimately show ?thesis using k by auto
  qed
qed


subsection \<open>Admission\<close>

definition admissible :: "u64 \<Rightarrow> u64 \<Rightarrow> bool" where
  "admissible budget cost \<longleftrightarrow> budget \<noteq> 0 \<and> cost \<noteq> 0 \<and> budget \<le> 3600000000 \<and> cost \<le> budget"

lemma slot_bound: "unat (now div 10000 :: u64) + 360 < 2 ^ 64"
proof -
  have "unat (now div 10000) = unat now div 10000" by (simp add: unat_div_distrib)
  then show ?thesis using unat_less_64 [of now] by simp
qed

lemma admit_room: "admissible b c \<Longrightarrow> unat (b - c) = unat b - unat c"
  by (simp add: admissible_def unat_sub)

lemma melodi_airtime_admit_cases:
  fixes w now b c
  defines "w' \<equiv> melodi_airtime_advance w (now div 10000)"
  assumes inv: "airtime_inv w" and adm: "admissible b c"
  obtains (fits) "bucket_sum (buckets w') \<le> unat b - unat c"
      "melodi_airtime_admit w now b c =
        (w'\<lparr>buckets := (buckets w')[unat (now div 10000 mod 360) :=
                        buckets w' ! unat (now div 10000 mod 360) + ucast c],
            total_us := total_us w' + c\<rparr>, Some 0, Inr ())"
  | (wait) k where "unat b - unat c < bucket_sum (buckets w')"
      "melodi_airtime_admit w now b c =
        (w', Some (of_nat k * 10000 - now mod 10000), Inl EAGAIN)"
      "0 < k" "k \<le> 360"
      "bucket_sum (expire_upto (unat (now div 10000)) k (buckets w')) \<le> unat b - unat c"
      "\<And>m. m < k \<Longrightarrow>
        unat b - unat c < bucket_sum (expire_upto (unat (now div 10000)) m (buckets w'))"
proof -
  note inv' = melodi_airtime_advance_inv [OF inv, of "now div 10000", folded w'_def]
  have total: "unat (total_us w') = bucket_sum (buckets w')"
    using inv' by (simp add: airtime_inv_def)
  have good: "\<not> (b = 0 \<or> c = 0 \<or> b > 3600000000)" "\<not> c > b"
    using adm by (auto simp: admissible_def)
  show thesis
  proof (cases "total_us w' \<le> b - c")
    case True
    then show thesis
      using good total admit_room [OF adm] w'_def
      by (intro fits) (simp_all add: melodi_airtime_admit_def Let_def word_le_nat_alt)
  next
    case False
    from melodi_airtime_search_least [OF inv'(1) slot_bound, of "total_us w'" now 0 "b - c"]
    obtain k where k: "melodi_airtime_search w' (now div 10000) (b - c) (total_us w') 1 = Some k"
      "0 < k" "k \<le> 360" "bucket_sum (expire_upto (unat (now div 10000)) k (buckets w')) \<le> unat (b - c)"
      "\<forall>m. 0 < m \<and> m < k \<longrightarrow>
         unat (b - c) < bucket_sum (expire_upto (unat (now div 10000)) m (buckets w'))"
      using total by auto
    have over: "unat (b - c) < bucket_sum (buckets w')"
      using False total by (simp add: word_le_nat_alt)
    show thesis
    proof (rule wait [of k])
      show "unat b - unat c < bucket_sum (expire_upto (unat (now div 10000)) m (buckets w'))"
        if "m < k" for m
        using that k(5) over admit_room [OF adm] by (cases m) auto
    qed (use False good k over admit_room [OF adm] w'_def in
          \<open>simp_all add: melodi_airtime_admit_def Let_def\<close>)
  qed
qed


lemma melodi_airtime_admit_rejects:
  "\<not> admissible b c \<Longrightarrow> fst (melodi_airtime_admit w now b c) = w \<and>
    snd (snd (melodi_airtime_admit w now b c)) \<in> {Inl EINVAL, Inl EMSGSIZE}"
  by (auto simp: melodi_airtime_admit_def admissible_def)

lemma charge_inv:
  assumes inv: "airtime_inv w" and j: "j < 360"
    and adm: "admissible b c" and fits: "bucket_sum (buckets w) \<le> unat b - unat c"
  defines "w' \<equiv> w\<lparr>buckets := (buckets w)[j := buckets w ! j + ucast c], total_us := total_us w + c\<rparr>"
  shows "airtime_inv w'" and "unat (buckets w' ! j) = unat (buckets w ! j) + unat c"
    and "bucket_sum (buckets w') \<le> unat b"
proof -
  have len: "j < length (buckets w)" using inv j by (simp add: airtime_inv_def)
  have bounds: "unat c \<le> unat b" "unat b \<le> 3600000000"
    using adm by (auto simp: admissible_def word_le_nat_alt)
  have c32: "unat (ucast c :: u32) = unat c"
    using bounds by (simp add: unsigned_ucast_eq take_bit_nat_eq_self)
  have small: "unat (buckets w ! j) + unat c \<le> unat b"
    using bucket_le_sum [OF len] fits bounds by simp
  then have sum: "unat (buckets w ! j + ucast c) = unat (buckets w ! j) + unat c"
    using bounds c32 by (simp add: unat_word_ariths)
  have total: "unat (total_us w + c) = unat (total_us w) + unat c"
    using inv fits bounds by (simp add: unat_word_ariths airtime_inv_def)
  have new: "bucket_sum (buckets w') = bucket_sum (buckets w) + unat c"
    using bucket_sum_update [OF len] sum bucket_le_sum [OF len] by (simp add: w'_def)
  show "unat (buckets w' ! j) = unat (buckets w ! j) + unat c" using sum len by (simp add: w'_def)
  show "bucket_sum (buckets w') \<le> unat b" using new fits bounds by simp
  then show "airtime_inv w'"
    using inv total new bounds by (simp add: airtime_inv_def w'_def)
qed

lemma mod_360_less: "unat (x mod 360 :: u64) < 360"
  by (simp add: unat_mod_distrib)

lemma melodi_airtime_admit_inv:
  assumes inv: "airtime_inv w"
  shows "airtime_inv (fst (melodi_airtime_admit w now b c))"
proof (cases "admissible b c")
  case True
  note inv' = melodi_airtime_advance_inv [OF inv, of "now div 10000"]
  from inv True show ?thesis
  proof (cases rule: melodi_airtime_admit_cases [where now = now])
    case fits
    then show ?thesis using charge_inv(1) [OF inv'(1) mod_360_less True] by simp
  qed (use inv' in simp)
qed (use inv melodi_airtime_admit_rejects in simp)

lemma melodi_airtime_admit_at:
  assumes inv: "airtime_inv w" and adm: "admissible b c" and init: "initialized w"
    and now: "unat now div 10000 = unat (epoch_slot w) + m" and "m \<le> 360"
  shows "snd (melodi_airtime_admit w now b c) = (Some 0, Inr ()) \<longleftrightarrow>
      bucket_sum (expire_upto (unat (epoch_slot w)) m (buckets w)) \<le> unat b - unat c"
    and "unat b - unat c < bucket_sum (expire_upto (unat (epoch_slot w)) m (buckets w)) \<Longrightarrow>
      snd (snd (melodi_airtime_admit w now b c)) = Inl EAGAIN"
proof -
  have "unat (now div 10000) = unat (epoch_slot w) + m"
    using now by (simp add: unat_div_distrib)
  from melodi_airtime_advance_sum [OF inv init this] \<open>m \<le> 360\<close>
  have sum: "bucket_sum (buckets (melodi_airtime_advance w (now div 10000))) =
    bucket_sum (expire_upto (unat (epoch_slot w)) m (buckets w))" by simp
  show "snd (melodi_airtime_admit w now b c) = (Some 0, Inr ()) \<longleftrightarrow>
      bucket_sum (expire_upto (unat (epoch_slot w)) m (buckets w)) \<le> unat b - unat c"
    by (cases rule: melodi_airtime_admit_cases [OF inv adm, of now]) (use sum in auto)
  show "unat b - unat c < bucket_sum (expire_upto (unat (epoch_slot w)) m (buckets w)) \<Longrightarrow>
      snd (snd (melodi_airtime_admit w now b c)) = Inl EAGAIN"
    by (cases rule: melodi_airtime_admit_cases [OF inv adm, of now]) (use sum in auto)
qed

text \<open>
  Bounds: on every window that keeps the invariant (the sum of the 360 buckets is the
  running total and is at most one hour) an admission keeps it, whatever the time, the budget
  and the cost; in particular neither the 32 bit buckets nor the total ever wrap.
\<close>

theorem airtime_admit_preserves_invariant:
  assumes "airtime_inv w"
  shows "airtime_inv (fst (melodi_airtime_admit w now_ms budget_us cost_us))"
  using assms by (rule melodi_airtime_admit_inv)

text \<open>The overflow return of the admission is unreachable from such a window.\<close>

lemma airtime_admit_no_overflow:
  assumes "airtime_inv w"
  shows "snd (snd (melodi_airtime_admit w now_ms budget_us cost_us)) \<noteq> Inl EOVERFLOW"
proof (cases "admissible budget_us cost_us")
  case True
  with assms show ?thesis
    by (cases rule: melodi_airtime_admit_cases [where now = now_ms]) auto
next
  case False
  then show ?thesis using melodi_airtime_admit_rejects [of budget_us cost_us w now_ms] by auto
qed

lemma round_to_slot:
  fixes n k r q :: nat
  assumes "q * 10000 + r = n" and "r < 10000" and "0 < k"
  shows "n + (k * 10000 - r) = (q + k) * 10000"
proof -
  have "r \<le> k * 10000" using assms by (cases k) auto
  then show ?thesis using assms(1) by (auto simp: algebra_simps)
qed

lemma airtime_wait_value:
  assumes "0 < k" and "k \<le> 360"
  shows "unat (of_nat k * 10000 - now mod 10000 :: u64) = k * 10000 - unat now mod 10000"
proof -
  have "unat (of_nat k * 10000 :: u64) = k * 10000"
    using assms by (simp add: unat_word_ariths unat_of_nat take_bit_nat_eq_self)
  moreover have "unat (now mod 10000 :: u64) = unat now mod 10000"
    by (simp add: unat_mod_distrib)
  moreover have "unat now mod 10000 \<le> k * 10000"
    using assms mod_less_divisor [of 10000 "unat now"] by (cases k) auto
  ultimately show ?thesis by (simp add: unat_sub word_le_nat_alt)
qed

text \<open>
  C10. The reported wait is exact: when an admission asks to wait \<open>d\<close> milliseconds, the same
  request is admitted \<open>d\<close> milliseconds later, is refused again at any earlier moment, and
  \<open>d\<close> is positive and at most one hour.
\<close>

theorem airtime_wait_exact:
  assumes inv: "airtime_inv w"
    and again: "melodi_airtime_admit w now b c = (w', Some d, Inl EAGAIN)"
    and later: "unat now + 3600000 < 2 ^ 64"
  shows "0 < d \<and> unat d \<le> 3600000 \<and>
    snd (melodi_airtime_admit w' (now + d) b c) = (Some 0, Inr ()) \<and>
    (\<forall>e<d. snd (snd (melodi_airtime_admit w' (now + e) b c)) = Inl EAGAIN)"
proof -
  let ?q = "unat now div 10000"
  have adm: "admissible b c" using again melodi_airtime_admit_rejects [of b c w now] by force
  from inv adm obtain k where k: "0 < k" "k \<le> 360"
    and w': "w' = melodi_airtime_advance w (now div 10000)"
    and d: "d = of_nat k * 10000 - now mod 10000"
    and fits: "bucket_sum (expire_upto ?q k (buckets w')) \<le> unat b - unat c"
    and over: "\<And>m. m < k \<Longrightarrow> unat b - unat c < bucket_sum (expire_upto ?q m (buckets w'))"
    by (cases rule: melodi_airtime_admit_cases [where now = now])
      (use again in \<open>auto simp: unat_div_distrib\<close>)
  note adv = melodi_airtime_advance_inv [OF inv, of "now div 10000", folded w']
  have epoch: "unat (epoch_slot w') = ?q" using adv by (simp add: unat_div_distrib)
  have dn: "unat d = k * 10000 - unat now mod 10000" using airtime_wait_value [OF k] d by simp
  have r: "unat now mod 10000 < 10000" by simp
  have plus: "unat (now + e) = unat now + unat e" if "unat e \<le> unat d" for e
    using that dn later k by (simp add: unat_word_ariths)
  have sum: "unat now + unat d = (?q + k) * 10000"
    using round_to_slot [OF div_mult_mod_eq r k(1)] dn by simp
  then have "(unat now + unat d) div 10000 = ?q + k" by simp
  then have "snd (melodi_airtime_admit w' (now + d) b c) = (Some 0, Inr ())"
    using melodi_airtime_admit_at(1) [OF adv(1) adm adv(3), of "now + d" k] fits k epoch plus [of d]
    by simp
  moreover have "snd (snd (melodi_airtime_admit w' (now + e) b c)) = Inl EAGAIN" if "e < d" for e
  proof -
    have e: "unat e < unat d" using that by (simp add: word_less_nat_alt)
    have "unat now + unat e < (?q + k) * 10000" using e sum by simp
    then have "(unat now + unat e) div 10000 < ?q + k" by (simp add: div_less_iff_less_mult)
    then obtain m where "(unat now + unat e) div 10000 = ?q + m" "m < k"
      by (metis div_le_mono le_add1 le_add_diff_inverse nat_add_left_cancel_less)
    then show ?thesis
      using melodi_airtime_admit_at(2) [OF adv(1) adm adv(3), of "now + e" m] over k epoch e
        plus [of e] by simp
  qed
  ultimately show ?thesis using dn r k by (auto simp: word_less_nat_alt)
qed


subsection \<open>The duty cycle\<close>

text \<open>
  The history of a window as a log of (slot, cost) pairs; \<open>load P log\<close> is the airtime of the
  entries whose slot satisfies \<open>P\<close>.
\<close>

definition load :: "(nat \<Rightarrow> bool) \<Rightarrow> (nat \<times> nat) list \<Rightarrow> nat" where
  "load P log = (\<Sum>(s, c)\<leftarrow>log. if P s then c else 0)"

definition log_rel :: "melodi_airtime_window \<Rightarrow> (nat \<times> nat) list \<Rightarrow> bool" where
  "log_rel w log \<longleftrightarrow> airtime_inv w \<and> (\<not> initialized w \<longrightarrow> log = []) \<and>
     (\<forall>s\<in>fst ` set log. s \<le> unat (epoch_slot w)) \<and>
     (\<forall>j<360. unat (buckets w ! j) = load (\<lambda>s. s mod 360 = j \<and> unat (epoch_slot w) < s + 360) log)"

lemma load_simps [simp]:
  "load P [] = 0" "load P (xs @ ys) = load P xs + load P ys"
  "load P [(s, c)] = (if P s then c else 0)"
  by (simp_all add: load_def)

lemma load_cong: "(\<And>s. s \<in> fst ` set log \<Longrightarrow> P s = Q s) \<Longrightarrow> load P log = load Q log"
  unfolding load_def by (rule arg_cong [of _ _ sum_list]) (force intro: map_cong)

lemma load_mono: "(\<And>s. s \<in> fst ` set log \<Longrightarrow> P s \<Longrightarrow> Q s) \<Longrightarrow> load P log \<le> load Q log"
  by (induction log) (auto simp: load_def)

lemma load_False: "load (\<lambda>_. False) log = 0"
  by (induction log) (auto simp: load_def)

lemma load_split: "load (\<lambda>s. Q s) log = (\<Sum>j<360. load (\<lambda>s. s mod 360 = j \<and> Q s) log)"
proof (induction log)
  case (Cons x log)
  obtain s c where x: "x = (s, c)" by force
  have "(\<Sum>j<360. if s mod 360 = j \<and> Q s then c else 0) = (if Q s then c else 0)"
    by (cases "Q s") simp_all
  with Cons x show ?case by (simp add: load_def sum.distrib)
qed (simp add: load_def)

lemma bucket_sum_nth: "bucket_sum bs = (\<Sum>j<length bs. unat (bs ! j))"
  by (simp add: bucket_sum_def sum_list_sum_nth atLeast0LessThan)

lemma log_rel_sum:
  "log_rel w log \<Longrightarrow> bucket_sum (buckets w) = load (\<lambda>s. unat (epoch_slot w) < s + 360) log"
  by (subst load_split) (simp add: log_rel_def airtime_inv_def bucket_sum_nth)

lemma log_rel_reset: "log_rel melodi_airtime_reset []"
  using airtime_inv_reset by (simp add: log_rel_def melodi_airtime_reset_def)

lemma expire_load:
  assumes old: "\<forall>s\<in>fst ` set log. s \<le> e" and j: "j < length bs"
    and b: "unat (bs ! j) = load (\<lambda>s. s mod 360 = j \<and> e < s + 360) log"
  shows "unat (expire_upto e d bs ! j) = load (\<lambda>s. s mod 360 = j \<and> e + d < s + 360) log"
proof (cases "\<exists>i\<in>{1..d}. j = (e + i) mod 360")
  case True
  then obtain i where i: "1 \<le> i" "i \<le> d" "j = (e + i) mod 360" by auto
  have "\<not> (s mod 360 = j \<and> e + d < s + 360)" if "s \<in> fst ` set log" for s
  proof
    assume same: "s mod 360 = j \<and> e + d < s + 360"
    have "s \<le> e" using that old by blast
    then have "0 < e + i - s" and "e + i - s < 0 + 360" and "s + (e + i - s) = e + i"
      using same i by auto
    from mod_add_neq [OF this(1,2), of s] this(3) same i show False by simp
  qed
  then have "load (\<lambda>s. s mod 360 = j \<and> e + d < s + 360) log = load (\<lambda>_. False) log"
    by (intro load_cong) auto
  then show ?thesis using True j by (simp add: nth_expire_upto load_False)
next
  case False
  have "e + d < s + 360" if "s mod 360 = j" "e < s + 360" for s
  proof (rule ccontr)
    assume "\<not> e + d < s + 360"
    then have "s + 360 - e \<in> {1..d}" and "(e + (s + 360 - e)) mod 360 = j" using that by auto
    with False show False by metis
  qed
  then have "load (\<lambda>s. s mod 360 = j \<and> e < s + 360) log =
    load (\<lambda>s. s mod 360 = j \<and> e + d < s + 360) log"
    by (intro load_cong) auto
  then show ?thesis using False j b by (simp add: nth_expire_upto)
qed

lemma log_rel_advance:
  assumes rel: "log_rel w log" and le: "initialized w \<Longrightarrow> epoch_slot w \<le> slot"
  shows "log_rel (melodi_airtime_advance w slot) log"
proof -
  let ?w = "melodi_airtime_advance w slot" and ?e = "unat (epoch_slot w)"
  have inv: "airtime_inv w" using rel by (simp add: log_rel_def)
  note adv = melodi_airtime_advance_inv [OF inv, of slot]
  have mem: "\<forall>s\<in>fst ` set log. s \<le> unat slot"
    using rel le by (force simp: log_rel_def word_le_nat_alt)
  have "unat (buckets ?w ! j) = load (\<lambda>s. s mod 360 = j \<and> unat slot < s + 360) log"
    if j: "j < 360" for j
  proof (cases "initialized w")
    case False
    with rel j show ?thesis
      by (simp add: log_rel_def melodi_airtime_advance_def melodi_airtime_reset_def)
  next
    case True
    let ?d = "unat (slot - epoch_slot w)"
    have d: "unat slot = ?e + ?d" using le [OF True] by (simp add: unat_sub word_le_nat_alt)
    have len: "j < length (buckets w)" using inv j by (simp add: airtime_inv_def)
    show ?thesis
    proof (cases "360 \<le> slot - epoch_slot w")
      case far: True
      then have "360 \<le> ?d" by (simp add: word_le_nat_alt)
      then have "load (\<lambda>s. s mod 360 = j \<and> unat slot < s + 360) log = load (\<lambda>_. False) log"
        using rel d by (intro load_cong) (force simp: log_rel_def)
      then show ?thesis
        using far True le j
        by (auto simp: melodi_airtime_advance_def Let_def load_False)
    next
      case False
      have "?e + ?d < 2 ^ 64" using d unat_less_64 [of slot] by simp
      from fold_expire_inv [OF inv this] False True le
      have "buckets ?w = expire_upto ?e ?d (buckets w)"
        by (auto simp: melodi_airtime_advance_def Let_def)
      then show ?thesis
        using expire_load [of log ?e j "buckets w" ?d] rel len j d by (simp add: log_rel_def)
    qed
  qed
  then show ?thesis using adv mem by (simp add: log_rel_def)
qed


lemma log_rel_charge:
  assumes rel: "log_rel w log" and init: "initialized w" and adm: "admissible b c"
    and fits: "bucket_sum (buckets w) \<le> unat b - unat c"
  defines "j \<equiv> unat (epoch_slot w mod 360)"
  shows "log_rel (w\<lparr>buckets := (buckets w)[j := buckets w ! j + ucast c], total_us := total_us w + c\<rparr>)
    (log @ [(unat (epoch_slot w), unat c)])"
proof -
  have inv: "airtime_inv w" using rel by (simp add: log_rel_def)
  have j: "j < 360" and jn: "j = unat (epoch_slot w) mod 360"
    by (simp_all add: j_def unat_mod_distrib)
  note charge = charge_inv [OF inv j adm fits]
  have len: "length (buckets w) = 360" using inv by (simp add: airtime_inv_def)
  show ?thesis
    unfolding log_rel_def
  proof (intro conjI allI impI)
    fix i :: nat assume "i < 360"
    then show "unat (buckets (w\<lparr>buckets := (buckets w)[j := buckets w ! j + ucast c],
        total_us := total_us w + c\<rparr>) ! i) =
      load (\<lambda>s. s mod 360 = i \<and> unat (epoch_slot (w\<lparr>buckets := (buckets w)[j := buckets w ! j + ucast c],
        total_us := total_us w + c\<rparr>)) < s + 360) (log @ [(unat (epoch_slot w), unat c)])"
      using rel charge(2) len jn by (auto simp: log_rel_def nth_list_update_if)
  qed (use rel init charge(1) in \<open>auto simp: log_rel_def\<close>)
qed

text \<open>The log of a run of admission requests (time, cost) against one budget.\<close>

primrec admit_log :: "melodi_airtime_window \<Rightarrow> u64 \<Rightarrow> (u64 \<times> u64) list \<Rightarrow> (nat \<times> nat) list" where
  "admit_log w b [] = []"
| "admit_log w b (r # rs) =
     (case melodi_airtime_admit w (fst r) b (snd r) of
        (w', _, Inr _) \<Rightarrow> (unat (fst r) div 10000, unat (snd r)) # admit_log w' b rs
      | (w', _, Inl _) \<Rightarrow> admit_log w' b rs)"

definition within_budget :: "u64 \<Rightarrow> (nat \<times> nat) list \<Rightarrow> bool" where
  "within_budget b log \<longleftrightarrow> (\<forall>a. load (\<lambda>s. a \<le> s \<and> s < a + 360) log \<le> unat b)"

lemma within_budget_snoc:
  assumes "within_budget b log" and "load (\<lambda>s. e < s + 360) log + c \<le> unat b"
  shows "within_budget b (log @ [(e, c)])"
  unfolding within_budget_def
proof
  fix a
  show "load (\<lambda>s. a \<le> s \<and> s < a + 360) (log @ [(e, c)]) \<le> unat b"
  proof (cases "a \<le> e \<and> e < a + 360")
    case True
    then have "load (\<lambda>s. a \<le> s \<and> s < a + 360) log \<le> load (\<lambda>s. e < s + 360) log"
      by (intro load_mono) auto
    with True assms(2) show ?thesis by simp
  qed (use assms(1) in \<open>auto simp: within_budget_def\<close>)
qed

lemma admit_log_within_budget:
  assumes "log_rel w log" and "within_budget b log" and "sorted (map fst rs)"
    and "\<And>r. r \<in> set rs \<Longrightarrow> initialized w \<Longrightarrow> epoch_slot w \<le> fst r div 10000"
  shows "within_budget b (log @ admit_log w b rs)"
  using assms
proof (induction rs arbitrary: w log)
  case (Cons r rs)
  obtain now c where r: "r = (now, c)" by force
  let ?slot = "now div 10000" and ?w = "melodi_airtime_advance w (now div 10000)"
  have inv: "airtime_inv w" using Cons.prems by (simp add: log_rel_def)
  have rel: "log_rel ?w log" using log_rel_advance [OF Cons.prems(1)] Cons.prems(4) [of r] r by simp
  note adv = melodi_airtime_advance_inv [OF inv, of ?slot]
  have later: "?slot \<le> fst r' div 10000" if "r' \<in> set rs" for r'
    using Cons.prems(3) that r
    by (auto simp: word_le_nat_alt unat_div_distrib intro!: div_le_mono)
  show ?case
  proof (cases "admissible b c")
    case True
    with inv show ?thesis
    proof (cases rule: melodi_airtime_admit_cases [where now = now])
      case fits
      let ?w' = "fst (melodi_airtime_admit w now b c)"
      let ?log' = "log @ [(unat now div 10000, unat c)]"
      have rel': "log_rel ?w' ?log'"
        using log_rel_charge [OF rel adv(3) True fits(1)] fits(2) adv(2)
        by (simp add: unat_div_distrib)
      have "load (\<lambda>s. unat now div 10000 < s + 360) log + unat c \<le> unat b"
        using log_rel_sum [OF rel] fits(1) adv(2) True
        by (auto simp: unat_div_distrib admissible_def word_le_nat_alt)
      then have "within_budget b ?log'" using Cons.prems(2) by (intro within_budget_snoc)
      then have "within_budget b (?log' @ admit_log ?w' b rs)"
        using Cons.prems(3) rel' later fits(2) adv(2) r by (intro Cons.IH) auto
      then show ?thesis using fits(2) r by simp
    next
      case (wait k)
      then show ?thesis using Cons.IH [OF rel Cons.prems(2)] Cons.prems(3) later adv(2) r by simp
    qed
  next
    case False
    from melodi_airtime_admit_rejects [OF this, of w now]
    obtain x e where "melodi_airtime_admit w now b c = (w, x, Inl e)"
      by (cases "melodi_airtime_admit w now b c") auto
    then show ?thesis using Cons r by simp
  qed
qed simp




subsection \<open>Example window\<close>

definition example_window :: melodi_airtime_window where
  "example_window = \<lparr>buckets = (replicate 360 0)[6 := 100], epoch_slot = 5, total_us = 100,
     initialized = True\<rparr>"

lemma example_window_inv: "airtime_inv example_window"
  by (simp add: example_window_def airtime_inv_def bucket_sum_update)

lemma example_window_waits:
  "melodi_airtime_admit example_window 50000 100 50 = (example_window, Some 10000, Inl EAGAIN)"
  by (simp add: example_window_def melodi_airtime_admit_def melodi_airtime_advance_def
      melodi_airtime_search.simps)

theorem airtime_admit_preserves_invariant_witness:
  "airtime_inv example_window \<and>
   airtime_inv (fst (melodi_airtime_admit example_window 70000 100 50))"
  using airtime_admit_preserves_invariant [OF example_window_inv] example_window_inv by simp

theorem airtime_wait_exact_witness:
  "melodi_airtime_admit example_window 50000 100 50 = (example_window, Some 10000, Inl EAGAIN) \<and>
   snd (melodi_airtime_admit example_window (50000 + 10000) 100 50) = (Some 0, Inr ())"
  using airtime_wait_exact [OF example_window_inv example_window_waits] example_window_waits
  by simp

end
