(* ===== verification/Ordering.thy ===== *)
theory Ordering
  imports Prelude
begin

text \<open>
  The reordering window of \<open>src/proto/ordering.c\<close>. Markers are the non-zero 32 bit values, used
  cyclically; \<open>expected\<close> is the next marker to deliver and bit \<open>i\<close> of \<open>pending\<close> stands for the
  marker \<open>i + 1\<close> places after it. The specification counts markers without wrap-around: a
  number \<open>E\<close> of the next delivery and the set of numbers held back.
\<close>

subsection \<open>Model\<close>

abbreviation (input) MELODI_ORDER_WINDOW :: u32 where "MELODI_ORDER_WINDOW \<equiv> 32"
abbreviation (input) MELODI_ORDER_GAP_MS :: u64 where "MELODI_ORDER_GAP_MS \<equiv> 5000"
abbreviation (input) MELODI_ORDER_MODULUS :: u64 where "MELODI_ORDER_MODULUS \<equiv> 0xffffffff"
abbreviation (input) MELODI_ORDER_U32_MAX :: u32 where "MELODI_ORDER_U32_MAX \<equiv> 0xffffffff"
abbreviation (input) MELODI_ORDER_U64_MAX :: u64 where "MELODI_ORDER_U64_MAX \<equiv> 0xffffffffffffffff"

datatype melodi_order_result = MELODI_ORDER_HELD | MELODI_ORDER_RELEASED | MELODI_ORDER_DUPLICATE

record melodi_order_state =
  order_deadline_ms :: u64
  order_expected :: u32
  order_pending :: u32

definition melodi_order_deadline :: "u64 \<Rightarrow> u64 res" where
  "melodi_order_deadline now_ms =
     (if now_ms > MELODI_ORDER_U64_MAX - MELODI_ORDER_GAP_MS then Inl EOVERFLOW
      else Inr (now_ms + MELODI_ORDER_GAP_MS))"

definition melodi_order_next :: "u32 \<Rightarrow> u32" where
  "melodi_order_next marker = (if marker = MELODI_ORDER_U32_MAX then 1 else marker + 1)"

fun melodi_order_advance :: "u32 \<Rightarrow> nat \<Rightarrow> u32" where
  "melodi_order_advance marker 0 = marker"
| "melodi_order_advance marker (Suc count) = melodi_order_advance (melodi_order_next marker) count"

definition melodi_order_distance :: "u32 \<Rightarrow> u32 \<Rightarrow> u32 res" where
  "melodi_order_distance expected marker =
     (if expected = 0 \<or> marker = 0 then Inl EINVAL
      else let expected_index = ucast expected - 1 :: u64;
               marker_index = ucast marker - 1 :: u64;
               distance = (if marker_index \<ge> expected_index then marker_index - expected_index
                           else MELODI_ORDER_MODULUS - (expected_index - marker_index))
           in Inr (ucast distance))"

text \<open>The loop of \<open>melodi_order_release\<close> over \<open>(state->expected, bits, count)\<close>.\<close>

function melodi_order_release_loop :: "u32 \<Rightarrow> u32 \<Rightarrow> u8 \<Rightarrow> u32 \<times> u32 \<times> u8" where
  "melodi_order_release_loop expected bits count =
     (if bits AND 1 \<noteq> 0
      then melodi_order_release_loop (melodi_order_next expected) (drop_bit 1 bits) (count + 1)
      else (expected, bits, count))"
  by pat_completeness auto
termination
  by (relation "measure (\<lambda>(_, bits, _). unat bits)")
     (auto simp del: One_nat_def intro!: unat_drop_bit_less)

declare melodi_order_release_loop.simps [simp del]

definition melodi_order_release ::
  "melodi_order_state \<Rightarrow> u32 \<Rightarrow> u32 \<Rightarrow> melodi_order_state \<times> u32 \<times> u8" where
  "melodi_order_release state marker bits =
     (case melodi_order_release_loop (melodi_order_next marker) bits 1 of
        (expected', bits', count) \<Rightarrow>
          let state = state\<lparr>order_expected := expected', order_pending := drop_bit 1 bits'\<rparr>;
              state = (if order_pending state = 0 then state\<lparr>order_deadline_ms := 0\<rparr> else state)
          in (state, marker, count))"

definition melodi_order_reset :: melodi_order_state where
  "melodi_order_reset = \<lparr>order_deadline_ms = 0, order_expected = 1, order_pending = 0\<rparr>"

text \<open>
  The results are the new state, the values stored through \<open>release_marker\<close> and
  \<open>release_count\<close> (\<open>None\<close> when they are not written) and the return value.
\<close>

definition melodi_order_admit ::
  "melodi_order_state \<Rightarrow> u32 \<Rightarrow> u64 \<Rightarrow>
     melodi_order_state \<times> (u32 \<times> u8) option \<times> melodi_order_result res" where
  "melodi_order_admit state marker now_ms =
     (if order_expected state = 0 then (state, None, Inl EINVAL)
      else case melodi_order_distance (order_expected state) marker of
        Inl error \<Rightarrow> (state, Some (0, 0), Inl error)
      | Inr forward \<Rightarrow>
          if forward = 0 then
            let (state', release) = melodi_order_release state marker (order_pending state)
            in (state', Some release, Inr MELODI_ORDER_RELEASED)
          else if forward \<le> MELODI_ORDER_WINDOW then
            let bit = push_bit (unat (forward - 1)) 1 in
            if order_pending state AND bit \<noteq> 0
            then (state, Some (0, 0), Inr MELODI_ORDER_DUPLICATE)
            else
              (case (if order_deadline_ms state = 0 then melodi_order_deadline now_ms
                     else Inr (order_deadline_ms state)) of
                 Inl error \<Rightarrow> (state, Some (0, 0), Inl error)
               | Inr deadline \<Rightarrow>
                   (state\<lparr>order_deadline_ms := deadline, order_pending := order_pending state OR bit\<rparr>,
                    Some (0, 0), Inr MELODI_ORDER_HELD))
          else
            let backward = ucast (MELODI_ORDER_MODULUS - ucast forward) :: u32 in
            (state, Some (0, 0),
             if backward \<le> MELODI_ORDER_WINDOW then Inr MELODI_ORDER_DUPLICATE else Inl ERANGE))"

text \<open>
  The loop of \<open>melodi_order_poll\<close> that skips the missing markers. The caller has checked that
  some bit is set; the test for zero only makes the function total.
\<close>

function melodi_order_skip :: "u32 \<Rightarrow> u8 \<Rightarrow> u32 \<times> u8" where
  "melodi_order_skip bits skipped =
     (if bits = 0 \<or> bits AND 1 \<noteq> 0 then (bits, skipped)
      else melodi_order_skip (drop_bit 1 bits) (skipped + 1))"
  by pat_completeness auto
termination
  by (relation "measure (\<lambda>(bits, _). unat bits)")
     (auto simp del: One_nat_def intro!: unat_drop_bit_less)

declare melodi_order_skip.simps [simp del]

definition melodi_order_poll ::
  "melodi_order_state \<Rightarrow> u64 \<Rightarrow>
     melodi_order_state \<times> (u32 \<times> u8) option \<times> melodi_order_result res" where
  "melodi_order_poll state now_ms =
     (if order_expected state = 0 then (state, None, Inl EINVAL)
      else if order_pending state = 0 \<or> now_ms < order_deadline_ms state
      then (state, Some (0, 0), Inr MELODI_ORDER_HELD)
      else
        let (bits, skipped) = melodi_order_skip (order_pending state) 0;
            marker = melodi_order_advance (order_expected state) (unat (skipped + 1));
            bits = drop_bit 1 bits;
            (state', release) = melodi_order_release state marker bits
        in if order_pending state' = 0 then (state', Some release, Inr MELODI_ORDER_RELEASED)
           else case melodi_order_deadline now_ms of
             Inl error \<Rightarrow> (state', Some release, Inl error)
           | Inr deadline \<Rightarrow>
               (state'\<lparr>order_deadline_ms := deadline\<rparr>, Some release, Inr MELODI_ORDER_RELEASED))"


subsection \<open>Markers as numbers\<close>

text \<open>The marker of the \<open>n\<close>-th message of a flow, counting from zero.\<close>

definition marker_of :: "nat \<Rightarrow> u32" where
  "marker_of n = of_nat (n mod 4294967295 + 1)"

lemma unat_marker_of: "unat (marker_of n) = n mod 4294967295 + 1"
  by (simp add: marker_of_def unat_of_nat take_bit_nat_eq_self del: of_nat_Suc of_nat_add)

lemma marker_of_neq_0 [simp]: "marker_of n \<noteq> 0"
  using unat_marker_of [of n] by (metis Zero_not_Suc add.commute plus_1_eq_Suc unat_0)

lemma marker_of_eq_iff: "marker_of a = marker_of b \<longleftrightarrow> a mod 4294967295 = b mod 4294967295"
  by (simp add: word_unat_eq_iff unat_marker_of)

lemma melodi_order_next_marker_of: "melodi_order_next (marker_of n) = marker_of (Suc n)"
proof (cases "n mod 4294967295 = 4294967294")
  case True
  then have "marker_of n = 0xffffffff" by (simp add: word_unat_eq_iff unat_marker_of)
  with True show ?thesis
    by (simp add: melodi_order_next_def word_unat_eq_iff unat_marker_of mod_Suc)
next
  case False
  have "n mod 4294967295 < 4294967295" by simp
  with False have small: "n mod 4294967295 + 2 < 4294967296" by simp
  then have "unat (marker_of n + 1) = n mod 4294967295 + 2"
    by (simp add: unat_word_ariths unat_marker_of)
  moreover have "marker_of n \<noteq> 0xffffffff" using False by (simp add: word_unat_eq_iff unat_marker_of)
  ultimately show ?thesis
    using False by (simp add: melodi_order_next_def word_unat_eq_iff unat_marker_of mod_Suc)
qed

lemma melodi_order_advance_marker_of:
  "melodi_order_advance (marker_of n) k = marker_of (n + k)"
  by (induction k arbitrary: n) (simp_all add: melodi_order_next_marker_of)

lemma melodi_order_distance_marker_of:
  assumes "m \<noteq> 0"
  obtains f where "melodi_order_distance (marker_of E) m = Inr f"
    and "unat f < 4294967295" and "m = marker_of (E + unat f)"
proof -
  let ?e = "E mod 4294967295"
  obtain i where i: "unat m = Suc i" "i < 4294967295"
    using unsigned_less [of m, where 'a = nat] assms by (cases "unat m") (auto simp: unat_eq_zero)
  have e64: "unat (ucast (marker_of E) - 1 :: u64) = ?e"
    by (simp add: unat_sub word_le_nat_alt unat_ucast_up unat_marker_of)
  have m64: "unat (ucast m - 1 :: u64) = i"
    using i by (simp add: unat_sub word_le_nat_alt unat_ucast_up)
  define d where "d = (if ?e \<le> i then i - ?e else 4294967295 - (?e - i))"
  have d: "d < 4294967295" and eq: "(E + d) mod 4294967295 = i"
  proof -
    show "d < 4294967295" using i mod_less_divisor [of 4294967295 E] by (auto simp: d_def)
    have "(E + d) mod 4294967295 = (?e + d) mod 4294967295" by (simp add: mod_add_left_eq)
    also have "?e + d = i \<or> ?e + d = i + 4294967295"
      using i mod_less_divisor [of 4294967295 E] by (auto simp: d_def)
    then have "(?e + d) mod 4294967295 = i" using i by auto
    finally show "(E + d) mod 4294967295 = i" .
  qed
  define A B :: u64 where "A = ucast m - 1" and "B = ucast (marker_of E) - 1"
  let ?d64 = "if A \<ge> B then A - B else 0xffffffff - (B - A)"
  have "unat ?d64 = d"
    using e64 [folded B_def] m64 [folded A_def] i mod_less_divisor [of 4294967295 E]
    by (auto simp: d_def word_le_nat_alt unat_sub)
  then have "unat (ucast ?d64 :: u32) = d"
    using d by (simp only: unsigned_ucast_eq) (simp add: take_bit_nat_eq_self)
  moreover have "m = marker_of (E + d)"
    using eq i by (simp add: word_unat_eq_iff unat_marker_of)
  ultimately show thesis
    using assms d
    by (intro that [of "ucast ?d64"]) (simp_all only: melodi_order_distance_def Let_def A_def B_def
        marker_of_neq_0 if_False simp_thms)
qed

subsection \<open>Releasing a run\<close>

lemma melodi_order_release_loop_run:
  "\<exists>k\<le>32. melodi_order_release_loop (marker_of n) bits c =
      (marker_of (n + k), drop_bit k bits, c + of_nat k)
    \<and> (\<forall>i<k. bit bits i) \<and> \<not> bit bits k"
proof (induction "unat bits" arbitrary: bits n c rule: less_induct)
  case less
  show ?case
  proof (cases "bit bits 0")
    case True
    then have "unat (drop_bit 1 bits) < unat bits" by (intro unat_drop_bit_less) auto
    from less [OF this, of "Suc n" "c + 1"] obtain k where
      k: "melodi_order_release_loop (marker_of (Suc n)) (drop_bit 1 bits) (c + 1) =
          (marker_of (Suc n + k), drop_bit k (drop_bit 1 bits), c + 1 + of_nat k)"
        "\<forall>i<k. bit bits (Suc i)" "\<not> bit bits (Suc k)"
      by (auto simp: bit_drop_bit_eq)
    have "bit bits k" using True k(2) by (cases k) auto
    then have "k < 32" using bit_imp_le_length [of bits k] by simp
    moreover have "\<forall>i<Suc k. bit bits i" using True k(2) by (auto simp: less_Suc_eq_0_disj)
    ultimately show ?thesis
      using True k
      by (intro exI [of _ "Suc k"])
         (simp add: melodi_order_release_loop.simps [of "marker_of n"] and_one_iff_bit
           melodi_order_next_marker_of add.assoc)
  next
    case False
    then show ?thesis
      by (intro exI [of _ 0])
         (simp add: melodi_order_release_loop.simps [of "marker_of n"] and_one_iff_bit)
  qed
qed


subsection \<open>Abstract state\<close>

text \<open>\<open>E\<close> messages of the flow are delivered or skipped; \<open>P\<close> are the numbers held back.\<close>

definition holds :: "u32 \<Rightarrow> nat \<Rightarrow> nat set \<Rightarrow> bool" where
  "holds bits E P \<longleftrightarrow> P \<subseteq> {E + 1..E + 32} \<and> (\<forall>i<32. bit bits i \<longleftrightarrow> E + 1 + i \<in> P)"

definition order_rel :: "melodi_order_state \<Rightarrow> nat \<Rightarrow> nat set \<Rightarrow> bool" where
  "order_rel st E P \<longleftrightarrow> order_expected st = marker_of E \<and> holds (order_pending st) E P"

lemma order_rel_reset: "order_rel melodi_order_reset 0 {}"
  by (simp add: order_rel_def holds_def melodi_order_reset_def marker_of_def)

lemma holds_bit: "holds bits E P \<Longrightarrow> bit bits i \<longleftrightarrow> E + 1 + i \<in> P"
  using bit_imp_le_length [of bits i] by (cases "i < 32") (auto simp: holds_def)

lemma holds_empty: "holds bits E P \<Longrightarrow> bits = 0 \<longleftrightarrow> P = {}"
proof
  assume h: "holds bits E P" and "bits = 0"
  then have "E + 1 + i \<notin> P" for i using holds_bit [OF h, of i] by simp
  moreover have "n = E + 1 + (n - E - 1)" if "n \<in> P" for n
    using h that by (auto simp: holds_def)
  ultimately show "P = {}" by (metis equals0I)
next
  assume "holds bits E P" and "P = {}"
  then show "bits = 0" by (intro bit_word_eqI) (simp add: holds_bit)
qed

lemma holds_drop:
  assumes "holds bits E P"
  shows "holds (drop_bit k bits) (E + k) (P \<inter> {E + k + 1..})"
  using assms holds_bit [OF assms] by (auto simp: holds_def bit_drop_bit_eq algebra_simps)

lemma holds_finite: "holds bits E P \<Longrightarrow> finite P"
  by (auto simp: holds_def intro: finite_subset)

text \<open>Delivering number \<open>E\<close> delivers the whole run that was waiting for it.\<close>

lemma melodi_order_release_run:
  assumes h: "holds bits E P"
  obtains k st' where "melodi_order_release st (marker_of E) bits = (st', marker_of E, of_nat k)"
    and "0 < k" "k \<le> 33" "{E + 1..<E + k} \<subseteq> P" "E + k \<notin> P"
    and "order_rel st' (E + k) (P \<inter> {E + k + 1..})"
    and "order_deadline_ms st' = (if order_pending st' = 0 then 0 else order_deadline_ms st)"
proof -
  from melodi_order_release_loop_run [of "Suc E" bits 1] obtain k where k: "k \<le> 32"
    "melodi_order_release_loop (marker_of (Suc E)) bits 1 =
      (marker_of (Suc E + k), drop_bit k bits, 1 + of_nat k)"
    "\<forall>i<k. bit bits i" "\<not> bit bits k" by blast
  let ?st = "let st = st\<lparr>order_expected := marker_of (E + Suc k),
                         order_pending := drop_bit (Suc k) bits\<rparr>
    in if order_pending st = 0 then st\<lparr>order_deadline_ms := 0\<rparr> else st"
  have "melodi_order_release st (marker_of E) bits = (?st, marker_of E, of_nat (Suc k))"
    using k(2)
    by (simp add: melodi_order_release_def melodi_order_next_marker_of Let_def drop_bit_Suc
        flip: drop_bit_half)
  moreover have "{E + 1..<E + Suc k} \<subseteq> P"
  proof
    fix n assume "n \<in> {E + 1..<E + Suc k}"
    then have "n = E + 1 + (n - E - 1)" and "n - E - 1 < k" by auto
    with k(3) holds_bit [OF h] show "n \<in> P" by metis
  qed
  moreover have "E + Suc k \<notin> P" using holds_bit [OF h, of k] k(4) by simp
  ultimately show thesis
    using k(1) holds_drop [OF h, of "Suc k"]
    by (intro that [of ?st "Suc k"]) (auto simp: order_rel_def Let_def)
qed

text \<open>What an admission does, by the distance of its marker from the expected one.\<close>

lemma melodi_order_admit_release:
  assumes "order_rel st E P"
  obtains k st' where
    "melodi_order_admit st (marker_of E) now = (st', Some (marker_of E, of_nat k), Inr MELODI_ORDER_RELEASED)"
    and "0 < k" "k \<le> 33" "{E + 1..<E + k} \<subseteq> P" "E + k \<notin> P"
    and "order_rel st' (E + k) (P \<inter> {E + k + 1..})"
proof -
  from assms have h: "holds (order_pending st) E P" and e: "order_expected st = marker_of E"
    by (simp_all add: order_rel_def)
  have d: "melodi_order_distance (marker_of E) (marker_of E) = Inr 0"
    by (simp add: melodi_order_distance_def Let_def)
  from h show thesis
    by (rule melodi_order_release_run [where st = st])
       (rule that, auto simp: melodi_order_admit_def e d)
qed


lemma melodi_order_distance_add:
  assumes "f < 4294967295"
  shows "melodi_order_distance (marker_of E) (marker_of (E + f)) = Inr (of_nat f)"
proof -
  obtain g where g: "melodi_order_distance (marker_of E) (marker_of (E + f)) = Inr g"
    "unat g < 4294967295" "marker_of (E + f) = marker_of (E + unat g)"
    using melodi_order_distance_marker_of [OF marker_of_neq_0] by blast
  then have "f = unat g" using assms by (simp add: marker_of_eq_iff mod_add_inject)
  with g show ?thesis by simp
qed

lemma unat_of_nat_u32: "f < 4294967296 \<Longrightarrow> unat (of_nat f :: u32) = f"
  by (simp add: unat_of_nat take_bit_nat_eq_self)

lemma melodi_order_admit_within:
  assumes rel: "order_rel st E P" and f: "0 < f" "f \<le> 32"
  shows "E + f \<in> P \<Longrightarrow>
      melodi_order_admit st (marker_of (E + f)) now = (st, Some (0, 0), Inr MELODI_ORDER_DUPLICATE)"
    and "E + f \<notin> P \<Longrightarrow> order_deadline_ms st = 0 \<and> 18446744073709546615 < unat now \<Longrightarrow>
      melodi_order_admit st (marker_of (E + f)) now = (st, Some (0, 0), Inl EOVERFLOW)"
    and "E + f \<notin> P \<Longrightarrow> \<not> (order_deadline_ms st = 0 \<and> 18446744073709546615 < unat now) \<Longrightarrow>
      \<exists>st'. melodi_order_admit st (marker_of (E + f)) now = (st', Some (0, 0), Inr MELODI_ORDER_HELD)
        \<and> order_rel st' E (insert (E + f) P)"
proof -
  from rel have h: "holds (order_pending st) E P" and e: "order_expected st = marker_of E"
    by (simp_all add: order_rel_def)
  have u: "unat (of_nat f :: u32) = f" using f by (simp add: unat_of_nat_u32)
  have d: "melodi_order_distance (marker_of E) (marker_of (E + f)) = Inr (of_nat f)"
    using f by (intro melodi_order_distance_add) simp
  have near: "(of_nat f :: u32) \<noteq> 0" "(of_nat f :: u32) \<le> 32"
    using u f by (auto simp: word_le_nat_alt word_unat_eq_iff)
  have sub: "unat (of_nat f - 1 :: u32) = f - Suc 0"
    using u f by (simp add: unat_sub word_le_nat_alt)
  have mem: "bit (order_pending st) (f - Suc 0) \<longleftrightarrow> E + f \<in> P"
    using holds_bit [OF h, of "f - 1"] f by simp
  have over: "18446744073709546615 < now \<longleftrightarrow> 18446744073709546615 < unat now"
    by (simp add: word_less_nat_alt)
  note admit = melodi_order_admit_def [of st "marker_of (E + f)" now]
    e d near sub mem and_exp_eq_0_iff_not_bit Let_def
  show "E + f \<in> P \<Longrightarrow>
      melodi_order_admit st (marker_of (E + f)) now = (st, Some (0, 0), Inr MELODI_ORDER_DUPLICATE)"
    by (simp add: admit)
  show "E + f \<notin> P \<Longrightarrow> order_deadline_ms st = 0 \<and> 18446744073709546615 < unat now \<Longrightarrow>
      melodi_order_admit st (marker_of (E + f)) now = (st, Some (0, 0), Inl EOVERFLOW)"
    using over by (simp add: admit melodi_order_deadline_def)
  assume new: "E + f \<notin> P"
    and time: "\<not> (order_deadline_ms st = 0 \<and> 18446744073709546615 < unat now)"
  have "holds (order_pending st OR push_bit (f - 1) 1) E (insert (E + f) P)"
    using h f holds_bit [OF h] by (auto simp: holds_def bit_simps)
  then show "\<exists>st'. melodi_order_admit st (marker_of (E + f)) now = (st', Some (0, 0), Inr MELODI_ORDER_HELD)
        \<and> order_rel st' E (insert (E + f) P)"
    using new time over
    by (auto simp: admit melodi_order_deadline_def order_rel_def)
qed

lemma melodi_order_admit_beyond:
  assumes rel: "order_rel st E P" and f: "32 < f" "f < 4294967295"
  shows "melodi_order_admit st (marker_of (E + f)) now =
    (st, Some (0, 0), if 4294967295 - f \<le> 32 then Inr MELODI_ORDER_DUPLICATE else Inl ERANGE)"
proof -
  from rel have e: "order_expected st = marker_of E" by (simp add: order_rel_def)
  have u: "unat (of_nat f :: u32) = f" using f by (simp add: unat_of_nat_u32)
  have d: "melodi_order_distance (marker_of E) (marker_of (E + f)) = Inr (of_nat f)"
    using f by (intro melodi_order_distance_add) simp
  have far: "(of_nat f :: u32) \<noteq> 0" "\<not> (of_nat f :: u32) \<le> 32"
    using u f by (auto simp: word_le_nat_alt word_unat_eq_iff)
  have "unat (0xffffffff - ucast (of_nat f :: u32) :: u64) = 4294967295 - f"
    using u f by (simp add: unat_sub word_le_nat_alt unat_ucast_up)
  then have "unat (ucast (0xffffffff - ucast (of_nat f :: u32) :: u64) :: u32) = 4294967295 - f"
    by (simp only: unsigned_ucast_eq) (simp add: take_bit_nat_eq_self)
  then have "ucast (0xffffffff - ucast (of_nat f :: u32) :: u64) \<le> (32 :: u32) \<longleftrightarrow> 4294967295 - f \<le> 32"
    by (simp add: word_le_nat_alt)
  with e d far show ?thesis by (simp add: melodi_order_admit_def Let_def)
qed


text \<open>What a poll does once the deadline has passed: it gives up on the missing numbers.\<close>

lemma melodi_order_skip_run:
  assumes "bits \<noteq> 0"
  shows "\<exists>k<32. melodi_order_skip bits c = (drop_bit k bits, c + of_nat k)
    \<and> bit bits k \<and> (\<forall>i<k. \<not> bit bits i)"
  using assms
proof (induction "unat bits" arbitrary: bits c rule: less_induct)
  case less
  show ?case
  proof (cases "bit bits 0")
    case True
    then show ?thesis
      by (intro exI [of _ 0]) (simp add: melodi_order_skip.simps [of bits] and_one_iff_bit)
  next
    case False
    have "drop_bit 1 bits \<noteq> 0"
    proof
      assume z: "drop_bit 1 bits = 0"
      have "\<not> bit bits n" for n
      proof (cases n)
        case (Suc m)
        then show ?thesis using arg_cong [OF z, of "\<lambda>w. bit w m"] by (simp add: bit_drop_bit_eq)
      qed (use False in simp)
      with less.prems show False by (metis bit_eqI bit_0_eq bot_apply bot_bool_def)
    qed
    moreover have "unat (drop_bit 1 bits) < unat bits"
      using less.prems by (intro unat_drop_bit_less) auto
    ultimately obtain k where k: "melodi_order_skip (drop_bit 1 bits) (c + 1) =
          (drop_bit k (drop_bit 1 bits), c + 1 + of_nat k)"
        "bit bits (Suc k)" "\<forall>i<k. \<not> bit bits (Suc i)"
      using less.hyps [of "drop_bit 1 bits" "c + 1"] by (auto simp: bit_drop_bit_eq)
    have "Suc k < 32" using bit_imp_le_length [OF k(2)] by simp
    moreover have "\<forall>i<Suc k. \<not> bit bits i" using False k(3) by (auto simp: less_Suc_eq_0_disj)
    ultimately show ?thesis
      using False k less.prems
      by (intro exI [of _ "Suc k"])
         (simp add: melodi_order_skip.simps [of bits] and_one_iff_bit add.assoc)
  qed
qed

lemma melodi_order_poll_release:
  assumes rel: "order_rel st E P" and due: "P \<noteq> {}" "order_deadline_ms st \<le> now"
  obtains L k st' r where
    "melodi_order_poll st now = (st', Some (marker_of L, of_nat k), r)"
    and "r = Inr MELODI_ORDER_RELEASED \<or> r = Inl EOVERFLOW"
    and "L \<in> P" "\<forall>n\<in>P. L \<le> n" "0 < k" "k \<le> 33" "{L..<L + k} \<subseteq> P" "L + k \<notin> P"
    and "order_rel st' (L + k) (P \<inter> {L + k + 1..})"
proof -
  from rel have h: "holds (order_pending st) E P" and e: "order_expected st = marker_of E"
    by (simp_all add: order_rel_def)
  have pend: "order_pending st \<noteq> 0" using holds_empty [OF h] due by simp
  obtain j where j: "j < 32" "melodi_order_skip (order_pending st) 0 = (drop_bit j (order_pending st), of_nat j)"
    "bit (order_pending st) j" "\<forall>i<j. \<not> bit (order_pending st) i"
    using melodi_order_skip_run [OF pend, of 0] by auto
  define L where "L = E + Suc j"
  have L: "L \<in> P" using j(3) holds_bit [OF h, of j] by (simp add: L_def)
  have least: "L \<le> n" if "n \<in> P" for n
  proof (rule ccontr)
    assume "\<not> L \<le> n"
    moreover have "E + 1 \<le> n" using h that by (auto simp: holds_def)
    ultimately have "n = E + 1 + (n - E - 1)" "n - E - 1 < j" by (auto simp: L_def)
    with j(4) holds_bit [OF h] that show False by metis
  qed
  have h': "holds (drop_bit (Suc j) (order_pending st)) L (P \<inter> {L + 1..})"
    using holds_drop [OF h, of "Suc j"] by (simp add: L_def)
  have u: "unat (of_nat j + 1 :: u8) = Suc j"
    using j(1) by (simp add: unat_word_ariths unat_of_nat take_bit_nat_eq_self)
  from h' obtain k st' where k: "melodi_order_release st (marker_of L) (drop_bit (Suc j) (order_pending st)) =
      (st', marker_of L, of_nat k)" "0 < k" "k \<le> 33" "{L + 1..<L + k} \<subseteq> P \<inter> {L + 1..}"
      "L + k \<notin> P \<inter> {L + 1..}" "order_rel st' (L + k) (P \<inter> {L + 1..} \<inter> {L + k + 1..})"
    by (rule melodi_order_release_run [where st = st])
  define st'' where "st'' = (if order_pending st' = 0 then st'
    else case melodi_order_deadline now of Inl _ \<Rightarrow> st' | Inr d \<Rightarrow> st'\<lparr>order_deadline_ms := d\<rparr>)"
  have cut: "P \<inter> {L + 1..} \<inter> {L + k + 1..} = P \<inter> {L + k + 1..}" by auto
  have same: "order_expected st'' = order_expected st'" "order_pending st'' = order_pending st'"
    by (simp_all add: st''_def split: sum.splits)
  have rel': "order_rel st'' (L + k) (P \<inter> {L + k + 1..})"
    using k(6) unfolding order_rel_def same cut .
  have "{L..<L + k} = insert L {L + 1..<L + k}" using k(2) by auto
  then have run: "{L..<L + k} \<subseteq> P" using k(4) L by simp
  define r where "r = (if order_pending st' = 0 then Inr MELODI_ORDER_RELEASED
    else case melodi_order_deadline now of Inl x \<Rightarrow> Inl x | Inr d \<Rightarrow> Inr MELODI_ORDER_RELEASED)"
  have "melodi_order_poll st now = (st'', Some (marker_of L, of_nat k), r)"
    using due pend k(1) e j(2) u
    by (auto simp: melodi_order_poll_def Let_def melodi_order_advance_marker_of st''_def r_def L_def
        drop_bit_Suc not_less split: sum.splits simp flip: drop_bit_half)
  moreover have "r = Inr MELODI_ORDER_RELEASED \<or> r = Inl EOVERFLOW"
    by (auto simp: r_def melodi_order_deadline_def)
  ultimately show thesis
    using L least k(2,3,5) run rel' by (intro that [of st'' L k r]) auto
qed


subsection \<open>Runs of a reordering queue\<close>

text \<open>
  The markers a caller delivers for a stored pair \<open>(release_marker, release_count)\<close>, an event of
  a flow, and what the flow does with it: the state, the delivered markers, and whether the
  event brought in a message that the queue took over.
\<close>

datatype order_event = Admit u32 u64 | Poll u64

fun released :: "(u32 \<times> u8) option \<Rightarrow> u32 list" where
  "released None = []"
| "released (Some (marker, count)) = map (melodi_order_advance marker) [0..<unat count]"

fun taken :: "melodi_order_result res \<Rightarrow> bool" where
  "taken (Inr MELODI_ORDER_HELD) = True"
| "taken (Inr MELODI_ORDER_RELEASED) = True"
| "taken _ = False"

fun order_step :: "melodi_order_state \<Rightarrow> order_event \<Rightarrow> melodi_order_state \<times> u32 list \<times> bool" where
  "order_step st (Admit marker now) =
     (case melodi_order_admit st marker now of (st', out, r) \<Rightarrow> (st', released out, taken r))"
| "order_step st (Poll now) =
     (case melodi_order_poll st now of (st', out, r) \<Rightarrow> (st', released out, False))"

fun flow_run :: "('s \<Rightarrow> 'e \<Rightarrow> 's \<times> 'm list \<times> bool) \<Rightarrow> 's \<Rightarrow> 'e list \<Rightarrow> 's \<times> 'm list \<times> nat" where
  "flow_run step st [] = (st, [], 0)"
| "flow_run step st (e # es) =
     (case step st e of (st', out, t) \<Rightarrow>
        case flow_run step st' es of (st'', outs, n) \<Rightarrow> (st'', out @ outs, of_bool t + n))"

text \<open>
  The interface of a reordering queue: every step delivers increasing numbers from where the
  queue stands and neither loses nor invents a message it took over.
\<close>

locale reorder_queue =
  fixes step :: "'s \<Rightarrow> 'e \<Rightarrow> 's \<times> 'm list \<times> bool"
    and rel :: "'s \<Rightarrow> nat \<Rightarrow> nat set \<Rightarrow> bool"
    and label :: "nat \<Rightarrow> 'm"
  assumes step_sim: "rel st E P \<Longrightarrow> step st e = (st', out, t) \<Longrightarrow>
    \<exists>E' P' ns. rel st' E' P' \<and> out = map label ns \<and> sorted_wrt (<) ns \<and> E \<le> E'
      \<and> set ns \<subseteq> {E..<E'} \<and> card P + of_bool t = card P' + length ns"
begin

lemma run_sim:
  "rel st E P \<Longrightarrow> flow_run step st es = (st', outs, t) \<Longrightarrow>
    \<exists>E' P' ns. rel st' E' P' \<and> outs = map label ns \<and> sorted_wrt (<) ns \<and> E \<le> E'
      \<and> set ns \<subseteq> {E..<E'} \<and> card P + t = card P' + length ns"
proof (induction es arbitrary: st E P outs t)
  case Nil
  then show ?case by (intro exI [of _ E] exI [of _ P] exI [of _ "[]"]) auto
next
  case (Cons e es)
  obtain st1 out t1 where s: "step st e = (st1, out, t1)" by (cases "step st e")
  obtain outs2 t2 where r: "flow_run step st1 es = (st', outs2, t2)"
    using Cons.prems(2) s by (auto split: prod.splits)
  have o: "outs = out @ outs2" "t = of_bool t1 + t2" using Cons.prems(2) s r by auto
  from step_sim [OF Cons.prems(1) s] obtain E1 P1 ns1 where
    a: "rel st1 E1 P1" "out = map label ns1" "sorted_wrt (<) ns1" "E \<le> E1" "set ns1 \<subseteq> {E..<E1}"
      "card P + of_bool t1 = card P1 + length ns1" by blast
  from Cons.IH [OF a(1) r] obtain E2 P2 ns2 where
    b: "rel st' E2 P2" "outs2 = map label ns2" "sorted_wrt (<) ns2" "E1 \<le> E2" "set ns2 \<subseteq> {E1..<E2}"
      "card P1 + t2 = card P2 + length ns2" by blast
  have "sorted_wrt (<) (ns1 @ ns2)" using a(3,5) b(3,5) by (auto simp: sorted_wrt_append) force
  with a b o show ?case
    by (intro exI [of _ E2] exI [of _ P2] exI [of _ "ns1 @ ns2"]) auto
qed

end

text \<open>A queue that waits for every message delivers without gaps.\<close>

locale gapless_queue = reorder_queue +
  assumes step_gapless: "rel st E P \<Longrightarrow> step st e = (st', out, t) \<Longrightarrow>
    \<exists>E' P'. rel st' E' P' \<and> E \<le> E' \<and> out = map label [E..<E']"
begin

lemma run_gapless:
  "rel st E P \<Longrightarrow> flow_run step st es = (st', outs, t) \<Longrightarrow>
    \<exists>E' P'. rel st' E' P' \<and> E \<le> E' \<and> outs = map label [E..<E']"
proof (induction es arbitrary: st E P outs t)
  case Nil
  then show ?case by (intro exI [of _ E] exI [of _ P]) auto
next
  case (Cons e es)
  obtain st1 out t1 where s: "step st e = (st1, out, t1)" by (cases "step st e")
  obtain outs2 t2 where r: "flow_run step st1 es = (st', outs2, t2)" "outs = out @ outs2"
    using Cons.prems(2) s by (auto split: prod.splits)
  from step_gapless [OF Cons.prems(1) s] obtain E1 P1 where
    a: "rel st1 E1 P1" "E \<le> E1" "out = map label [E..<E1]" by blast
  from Cons.IH [OF a(1) r(1)] obtain E2 P2 where
    b: "rel st' E2 P2" "E1 \<le> E2" "outs2 = map label [E1..<E2]" by blast
  have "[E..<E1] @ [E1..<E2] = [E..<E2]"
    using a(2) b(2) upt_add_eq_append [of E E1 "E2 - E1"] by simp
  then have "outs = map label [E..<E2]" using a b r(2) by (metis map_append)
  with a b show ?case by (intro exI [of _ E2] exI [of _ P2]) auto
qed

end


subsection \<open>The model is such a queue\<close>

lemma released_run:
  "k \<le> 33 \<Longrightarrow> released (Some (marker_of n, of_nat k)) = map marker_of [n..<n + k]"
  by (intro nth_equalityI) (simp_all add: melodi_order_advance_marker_of unat_of_nat take_bit_nat_eq_self)

lemma released_none: "released (Some (0, 0)) = []"
  by simp

lemma card_run:
  assumes "finite P" "P \<subseteq> {E + 1..}" "{E + 1..<E + k} \<subseteq> P" "E + k \<notin> P" "0 < k"
  shows "card P + 1 = card (P \<inter> {E + k + 1..}) + k"
proof -
  have "n \<in> {E + 1..<E + k} \<union> P \<inter> {E + k + 1..}" if "n \<in> P" for n
    using that assms(2,4) by (cases n "E + k" rule: linorder_cases) auto
  then have split: "P = {E + 1..<E + k} \<union> P \<inter> {E + k + 1..}" using assms(3) by blast
  have "card P = card {E + 1..<E + k} + card (P \<inter> {E + k + 1..})"
    using assms(1) by (subst split, intro card_Un_disjoint) auto
  with assms(5) show ?thesis by simp
qed

lemma order_rel_finite:
  assumes "order_rel st E P"
  shows "finite P" "P \<subseteq> {E + 1..}"
  using assms by (auto simp: order_rel_def holds_def intro: finite_subset)

lemma order_step_admit:
  assumes rel: "order_rel st E P" and step: "order_step st (Admit marker now) = (st', out, t)"
  shows "\<exists>E' P'. order_rel st' E' P' \<and> E \<le> E' \<and> out = map marker_of [E..<E']
    \<and> card P + of_bool t = card P' + (E' - E)"
proof -
  have e: "order_expected st = marker_of E" using rel by (simp add: order_rel_def)
  have stay: ?thesis if "melodi_order_admit st marker now = (st, Some (0, 0), r)" "\<not> taken r" for r
    using that rel step by (intro exI [of _ E] exI [of _ P]) simp
  show ?thesis
  proof (cases "marker = 0")
    case True
    then show ?thesis
      by (intro stay [of "Inl EINVAL"]) (simp_all add: melodi_order_admit_def melodi_order_distance_def e)
  next
    case False
    then obtain f :: u32 where "melodi_order_distance (marker_of E) marker = Inr f"
      "unat f < 4294967295" "marker = marker_of (E + unat f)"
      by (rule melodi_order_distance_marker_of)
    then obtain g where g: "g < 4294967295" "marker = marker_of (E + g)" by blast
    consider "g = 0" | "0 < g" "g \<le> 32" | "32 < g" by linarith
    then show ?thesis
    proof cases
      case 1
      from rel obtain k s where k: "melodi_order_admit st (marker_of E) now =
          (s, Some (marker_of E, of_nat k), Inr MELODI_ORDER_RELEASED)"
        "0 < k" "k \<le> 33" "{E + 1..<E + k} \<subseteq> P" "E + k \<notin> P" "order_rel s (E + k) (P \<inter> {E + k + 1..})"
        by (rule melodi_order_admit_release [where now = now])
      then have "st' = s" "out = map marker_of [E..<E + k]" "t"
        using step g 1 released_run [OF k(3), of E] by auto
      then show ?thesis
        using k card_run [OF order_rel_finite [OF rel] k(4,5,2)]
        by (intro exI [of _ "E + k"] exI [of _ "P \<inter> {E + k + 1..}"]) simp
    next
      case 2
      note near = melodi_order_admit_within [OF rel 2, of now, folded g(2)]
      show ?thesis
      proof (cases "E + g \<in> P")
        case True
        then show ?thesis by (intro stay [OF near(1)]) simp_all
      next
        case new: False
        show ?thesis
        proof (cases "order_deadline_ms st = 0 \<and> 18446744073709546615 < unat now")
          case True
          then show ?thesis by (intro stay [OF near(2)]) (use new in simp_all)
        next
          case False
          from near(3) [OF new False] obtain s where
            "melodi_order_admit st marker now = (s, Some (0, 0), Inr MELODI_ORDER_HELD)"
            "order_rel s E (insert (E + g) P)" by blast
          with step new order_rel_finite [OF rel] show ?thesis
            by (intro exI [of _ E] exI [of _ "insert (E + g) P"]) simp
        qed
      qed
    next
      case 3
      from melodi_order_admit_beyond [OF rel 3 g(1), of now] show ?thesis
        by (intro stay [of "if 4294967295 - g \<le> 32 then Inr MELODI_ORDER_DUPLICATE else Inl ERANGE"])
           (simp_all add: g(2))
    qed
  qed
qed

lemma order_step_poll:
  assumes rel: "order_rel st E P" and step: "order_step st (Poll now) = (st', out, t)"
  shows "\<exists>E' P' ns. order_rel st' E' P' \<and> out = map marker_of ns \<and> sorted_wrt (<) ns \<and> E \<le> E'
      \<and> set ns \<subseteq> {E..<E'} \<and> card P + of_bool t = card P' + length ns"
proof (cases "P = {} \<or> now < order_deadline_ms st")
  case True
  have "holds (order_pending st) E P" "order_expected st = marker_of E"
    using rel by (simp_all add: order_rel_def)
  with True have "order_pending st = 0 \<or> now < order_deadline_ms st" "order_expected st \<noteq> 0"
    using holds_empty by auto
  with step rel show ?thesis
    by (intro exI [of _ E] exI [of _ P] exI [of _ "[]"]) (auto simp: melodi_order_poll_def)
next
  case False
  then have "P \<noteq> {}" "order_deadline_ms st \<le> now" by auto
  with rel obtain L k s r where k: "melodi_order_poll st now = (s, Some (marker_of L, of_nat k), r)"
    "L \<in> P" "\<forall>n\<in>P. L \<le> n" "0 < k" "k \<le> 33" "{L..<L + k} \<subseteq> P" "L + k \<notin> P"
    "order_rel s (L + k) (P \<inter> {L + k + 1..})"
    by (rule melodi_order_poll_release [where now = now])
  have out: "st' = s" "out = map marker_of [L..<L + k]" "\<not> t"
    using step k(1) released_run [OF k(5), of L] by auto
  have "P - {L} \<subseteq> {L + 1..}" using k(3) by (auto simp: Suc_le_eq le_neq_implies_less)
  then have "card (P - {L}) + 1 = card ((P - {L}) \<inter> {L + k + 1..}) + k"
    using order_rel_finite [OF rel] k(4,6,7) by (intro card_run) auto
  moreover have "(P - {L}) \<inter> {L + k + 1..} = P \<inter> {L + k + 1..}" by auto
  moreover have "card (P - {L}) + 1 = card P"
    using order_rel_finite(1) [OF rel] k(2) card_Suc_Diff1 by fastforce
  ultimately have "card P = card (P \<inter> {L + k + 1..}) + k" by simp
  moreover have "E \<le> L" using order_rel_finite(2) [OF rel] k(2) by auto
  ultimately show ?thesis
    using out k(4,8)
    by (intro exI [of _ "L + k"] exI [of _ "P \<inter> {L + k + 1..}"] exI [of _ "[L..<L + k]"])
       (auto simp: sorted_wrt_upt)
qed

definition order_admit_step ::
  "melodi_order_state \<Rightarrow> u32 \<times> u64 \<Rightarrow> melodi_order_state \<times> u32 list \<times> bool" where
  "order_admit_step st e = order_step st (Admit (fst e) (snd e))"

interpretation flow: reorder_queue order_step order_rel marker_of
proof
  fix st E P e st' out t
  assume "order_rel st E P" and "order_step st e = (st', out, t)"
  then show "\<exists>E' P' ns. order_rel st' E' P' \<and> out = map marker_of ns \<and> sorted_wrt (<) ns \<and> E \<le> E'
      \<and> set ns \<subseteq> {E..<E'} \<and> card P + of_bool t = card P' + length ns"
  proof (cases e)
    case (Admit marker now)
    with \<open>order_rel st E P\<close> \<open>order_step st e = (st', out, t)\<close> obtain E' P' where
      "order_rel st' E' P'" "E \<le> E'" "out = map marker_of [E..<E']"
      "card P + of_bool t = card P' + (E' - E)" using order_step_admit by blast
    then show ?thesis
      by (intro exI [of _ E'] exI [of _ P'] exI [of _ "[E..<E']"]) (simp add: sorted_wrt_upt)
  next
    case (Poll now)
    with \<open>order_rel st E P\<close> \<open>order_step st e = (st', out, t)\<close> show ?thesis
      using order_step_poll by blast
  qed
qed

interpretation patient: gapless_queue order_admit_step order_rel marker_of
proof unfold_locales
  fix st E P e st' out t
  assume a: "order_rel st E P" "order_admit_step st e = (st', out, t)"
  then show "\<exists>E' P' ns. order_rel st' E' P' \<and> out = map marker_of ns \<and> sorted_wrt (<) ns \<and> E \<le> E'
      \<and> set ns \<subseteq> {E..<E'} \<and> card P + of_bool t = card P' + length ns"
    unfolding order_admit_step_def by (rule flow.step_sim)
  from a show "\<exists>E' P'. order_rel st' E' P' \<and> E \<le> E' \<and> out = map marker_of [E..<E']"
    using order_step_admit unfolding order_admit_step_def by blast
qed


subsection \<open>Properties\<close>

lemma card_pending:
  assumes "order_rel st E P"
  shows "card P = card {i. bit (order_pending st) i}"
proof -
  have h: "holds (order_pending st) E P" using assms by (simp add: order_rel_def)
  have "P = (\<lambda>i. E + 1 + i) ` {i. bit (order_pending st) i}"
  proof (intro set_eqI iffI)
    fix n assume n: "n \<in> P"
    then have "n = E + 1 + (n - E - 1)" using h by (auto simp: holds_def)
    with n holds_bit [OF h] show "n \<in> (\<lambda>i. E + 1 + i) ` {i. bit (order_pending st) i}"
      by (metis image_eqI mem_Collect_eq)
  qed (use holds_bit [OF h] in auto)
  then show ?thesis by (simp add: card_image inj_on_def)
qed

text \<open>Every state with a valid \<open>expected\<close> marker is such a queue.\<close>

lemma order_rel_exists:
  assumes "order_expected st \<noteq> 0"
  obtains E where "order_rel st E ((\<lambda>i. E + 1 + i) ` {i. bit (order_pending st) i})"
proof -
  obtain E where E: "unat (order_expected st) = Suc E"
    using assms by (cases "unat (order_expected st)") (auto simp: unat_eq_zero)
  then have "E < 4294967295" using unsigned_less [of "order_expected st", where 'a = nat] by simp
  with E have "order_expected st = marker_of E" by (simp add: word_unat_eq_iff unat_marker_of)
  moreover have "holds (order_pending st) E ((\<lambda>i. E + 1 + i) ` {i. bit (order_pending st) i})"
    using bit_imp_le_length [where ?'a = 32] by (force simp: holds_def)
  ultimately show thesis by (intro that [of E]) (simp add: order_rel_def)
qed



text \<open>
  No message that an admission takes over (held or released) is lost or invented: at every
  moment their number is the number of delivered markers plus the number of pending bits.
\<close>

theorem order_conserves_messages:
  "case flow_run order_step melodi_order_reset events of
     (st, outs, t) \<Rightarrow> t = length outs + card {i. bit (order_pending st) i}"
proof -
  obtain st outs t where r: "flow_run order_step melodi_order_reset events = (st, outs, t)"
    by (cases "flow_run order_step melodi_order_reset events")
  from flow.run_sim [OF order_rel_reset r] obtain E P ns where
    "order_rel st E P" "outs = map marker_of ns" "t = card P + length ns" by auto
  with r card_pending show ?thesis by simp
qed

text \<open>
  What an admission answers is determined by the distance of its marker from the expected
  one: the expected marker is released, one of the 32 after it is held unless it is held already
  or the deadline would overflow, one of the 32 before it is a duplicate, all others are out of
  range; only a release or a hold changes the state.
\<close>

lemma order_admit_classifies:
  assumes "order_expected st \<noteq> 0" and "f < 4294967295"
    and "melodi_order_admit st (melodi_order_advance (order_expected st) f) now = (st', out, r)"
  shows "r = (if f = 0 then Inr MELODI_ORDER_RELEASED
      else if f \<le> 32 then
        (if bit (order_pending st) (f - 1) then Inr MELODI_ORDER_DUPLICATE
         else if order_deadline_ms st = 0 \<and> 18446744073709546615 < unat now then Inl EOVERFLOW
         else Inr MELODI_ORDER_HELD)
      else if 4294967295 - f \<le> 32 then Inr MELODI_ORDER_DUPLICATE else Inl ERANGE)
    \<and> (st' = st \<or> r = Inr MELODI_ORDER_RELEASED \<or> r = Inr MELODI_ORDER_HELD)"
proof -
  from assms(1) obtain E where rel: "order_rel st E ((\<lambda>i. E + 1 + i) ` {i. bit (order_pending st) i})"
    (is "order_rel st E ?P") by (rule order_rel_exists)
  then have m: "melodi_order_advance (order_expected st) f = marker_of (E + f)"
    by (simp add: order_rel_def melodi_order_advance_marker_of)
  note admit = assms(3) [unfolded m]
  have mem: "E + f \<in> ?P \<longleftrightarrow> bit (order_pending st) (f - 1)" if "0 < f" using that by force
  consider "f = 0" | "0 < f" "f \<le> 32" | "32 < f" by linarith
  then show ?thesis
  proof cases
    case 1
    with rel admit show ?thesis by - (rule melodi_order_admit_release [where now = now], auto)
  next
    case 2
    from melodi_order_admit_within [OF rel 2, of now] admit mem 2 show ?thesis by auto
  next
    case 3
    from melodi_order_admit_beyond [OF rel 3 assms(2), of now] admit 3 show ?thesis by auto
  qed
qed

text \<open>
  C14. A poll at or after the deadline always makes progress: it skips exactly the missing markers
  up to the first one held (bit \<open>j\<close>), releases that one and the whole run of \<open>k > 0\<close> messages
  behind it, and leaves the window standing after that run with the remaining messages held.
\<close>

theorem order_poll_progress:
  assumes "order_expected st \<noteq> 0" and "order_pending st \<noteq> 0" and "order_deadline_ms st \<le> now"
  shows "\<exists>j k st' r.
    melodi_order_poll st now = (st', Some (melodi_order_advance (order_expected st) (Suc j), of_nat k), r)
    \<and> 0 < k \<and> k \<le> 33 \<and> (\<forall>i<j. \<not> bit (order_pending st) i)
    \<and> (\<forall>i<k. bit (order_pending st) (j + i)) \<and> \<not> bit (order_pending st) (j + k)
    \<and> order_expected st' = melodi_order_advance (order_expected st) (Suc j + k)
    \<and> order_pending st' = drop_bit (Suc j + k) (order_pending st)"
proof -
  from assms(1) obtain E where rel: "order_rel st E ((\<lambda>i. E + 1 + i) ` {i. bit (order_pending st) i})"
    (is "order_rel st E ?P") by (rule order_rel_exists)
  then have h: "holds (order_pending st) E ?P" and e: "order_expected st = marker_of E"
    by (simp_all add: order_rel_def)
  have "?P \<noteq> {}" using holds_empty [OF h] assms(2) by simp
  with rel obtain L k st' r where k: "melodi_order_poll st now = (st', Some (marker_of L, of_nat k), r)"
    "L \<in> ?P" "\<forall>n\<in>?P. L \<le> n" "0 < k" "k \<le> 33" "{L..<L + k} \<subseteq> ?P" "L + k \<notin> ?P"
    "order_rel st' (L + k) (?P \<inter> {L + k + 1..})"
    using assms(3) by (rule melodi_order_poll_release)
  from k(2) obtain j where j: "L = E + 1 + j" "bit (order_pending st) j" by blast
  have below: "\<forall>i<j. \<not> bit (order_pending st) i" using k(3) j(1) by force
  have run: "bit (order_pending st) (j + i)" if "i < k" for i
    using subsetD [OF k(6), of "L + i"] that holds_bit [OF h, of "j + i"] by (simp add: j(1) add_ac)
  have stop: "\<not> bit (order_pending st) (j + k)"
    using k(7) holds_bit [OF h, of "j + k"] by (simp add: j(1) add_ac)
  have "holds (order_pending st') (L + k) (?P \<inter> {L + k + 1..})" using k(8) by (simp add: order_rel_def)
  moreover have "holds (drop_bit (Suc j + k) (order_pending st)) (L + k) (?P \<inter> {L + k + 1..})"
    using holds_drop [OF h, of "Suc j + k"] by (simp add: j(1) add_ac)
  ultimately have "order_pending st' = drop_bit (Suc j + k) (order_pending st)"
    by (intro bit_word_eqI) (simp add: holds_bit)
  moreover have "order_expected st' = melodi_order_advance (order_expected st) (Suc j + k)"
    using k(8) by (simp add: order_rel_def e melodi_order_advance_marker_of j(1) add_ac
        del: melodi_order_advance.simps)
  moreover have "marker_of L = melodi_order_advance (order_expected st) (Suc j)"
    by (simp add: e melodi_order_advance_marker_of j(1) del: melodi_order_advance.simps)
  ultimately show ?thesis using k(1,4,5) below run stop by metis
qed

theorem order_poll_progress_witness:
  "\<exists>j k st' r. melodi_order_poll \<lparr>order_deadline_ms = 9, order_expected = 1, order_pending = 6\<rparr> 10 =
      (st', Some (melodi_order_advance 1 (Suc j), of_nat k), r) \<and> 0 < k"
  using order_poll_progress
    [of "\<lparr>order_deadline_ms = 9, order_expected = 1, order_pending = 6\<rparr>" 10] by auto

end
