(* ===== verification/Reliability.thy ===== *)
theory Reliability
  imports Prelude
begin

text \<open>
  The retransmission state of one outgoing message, \<open>src/proto/reliability.c\<close>: which of its
  fragments the peer acknowledged, when to send the missing ones again and when to give up.
  The lemmas follow a message through every sequence of acknowledgements and timer polls.
\<close>

subsection \<open>Model\<close>

abbreviation (input) MELODI_RELIABLE_RETRY_LIMIT :: u8 where "MELODI_RELIABLE_RETRY_LIMIT \<equiv> 4"
abbreviation (input) MELODI_RELIABLE_DEADLINE_MS :: u64 where "MELODI_RELIABLE_DEADLINE_MS \<equiv> 5000"
abbreviation (input) MELODI_RELIABLE_PACE_BASE_MS :: u32 where "MELODI_RELIABLE_PACE_BASE_MS \<equiv> 100"
abbreviation (input) MELODI_RELIABLE_PACE_LIMIT_MS :: u32 where "MELODI_RELIABLE_PACE_LIMIT_MS \<equiv> 30000"
abbreviation (input) MELODI_RELIABLE_U64_MAX :: u64 where "MELODI_RELIABLE_U64_MAX \<equiv> 0xffffffffffffffff"

record melodi_reliability_state =
  rel_message_id :: u64
  rel_acknowledged :: u64
  rel_deadline_ms :: u64
  rel_next_retry_ms :: u64
  rel_generation :: u32
  rel_pace_ms :: u32
  rel_fragment_count :: u16
  rel_retries :: u8
  rel_active :: bool

definition melodi_retry_delays :: "u64 list" where
  "melodi_retry_delays = [200, 500, 1000, 2000]"

definition melodi_reliability_mask :: "u16 \<Rightarrow> u64" where
  "melodi_reliability_mask fragment_count =
     (if fragment_count = 64 then MELODI_RELIABLE_U64_MAX
      else push_bit (unat fragment_count) 1 - 1)"

definition melodi_reliability_add :: "u64 \<Rightarrow> u64 \<Rightarrow> u64 res" where
  "melodi_reliability_add val amount =
     (if val > MELODI_RELIABLE_U64_MAX - amount then Inl EOVERFLOW else Inr (val + amount))"

definition melodi_reliability_scale :: "u32 \<Rightarrow> u64 \<Rightarrow> u64" where
  "melodi_reliability_scale pace_ms nominal_ms =
     (let pace_ms = (if pace_ms < MELODI_RELIABLE_PACE_BASE_MS then MELODI_RELIABLE_PACE_BASE_MS else pace_ms);
          pace_ms = (if pace_ms > MELODI_RELIABLE_PACE_LIMIT_MS then MELODI_RELIABLE_PACE_LIMIT_MS else pace_ms)
      in nominal_ms * ucast pace_ms div ucast MELODI_RELIABLE_PACE_BASE_MS)"

definition melodi_reliability_delay :: "melodi_reliability_state \<Rightarrow> u64" where
  "melodi_reliability_delay state =
     (let index = rel_retries state;
          index = (if index \<ge> MELODI_RELIABLE_RETRY_LIMIT then MELODI_RELIABLE_RETRY_LIMIT - 1 else index)
      in melodi_reliability_scale (rel_pace_ms state) (melodi_retry_delays ! unat index))"

definition melodi_reliability_zero :: melodi_reliability_state where
  "melodi_reliability_zero =
     \<lparr>rel_message_id = 0, rel_acknowledged = 0, rel_deadline_ms = 0, rel_next_retry_ms = 0,
      rel_generation = 0, rel_pace_ms = 0, rel_fragment_count = 0, rel_retries = 0, rel_active = False\<rparr>"

definition melodi_reliability_start ::
  "melodi_reliability_state \<Rightarrow> u64 \<Rightarrow> u32 \<Rightarrow> u16 \<Rightarrow> u64 \<Rightarrow> u32 \<Rightarrow> u32 \<Rightarrow>
     melodi_reliability_state \<times> unit res" where
  "melodi_reliability_start state message_id generation fragment_count now_ms pace_ms ttl_ms =
     (if message_id = 0 \<or> generation = 0 \<or> fragment_count = 0 \<or> fragment_count > 64
      then (state, Inl EINVAL)
      else
        let state = melodi_reliability_zero\<lparr>rel_pace_ms := pace_ms\<rparr>;
            deadline = melodi_reliability_scale pace_ms MELODI_RELIABLE_DEADLINE_MS;
            deadline = (if ttl_ms \<noteq> 0 \<and> deadline > ucast ttl_ms then ucast ttl_ms else deadline)
        in case melodi_reliability_add now_ms deadline of
             Inl error \<Rightarrow> (melodi_reliability_zero, Inl error)
           | Inr deadline_ms \<Rightarrow>
               (case melodi_reliability_add now_ms
                       (melodi_reliability_scale pace_ms (melodi_retry_delays ! 0)) of
                  Inl error \<Rightarrow> (melodi_reliability_zero, Inl error)
                | Inr next_retry_ms \<Rightarrow>
                    (state\<lparr>rel_deadline_ms := deadline_ms, rel_next_retry_ms := next_retry_ms,
                           rel_message_id := message_id, rel_generation := generation,
                           rel_fragment_count := fragment_count, rel_active := True\<rparr>, Inr ())))"

text \<open>The return values 0 and 1 of the acknowledgement and of the poll are \<open>False\<close> and \<open>True\<close>.\<close>

definition melodi_reliability_ack ::
  "melodi_reliability_state \<Rightarrow> u64 \<Rightarrow> u32 \<Rightarrow> u16 \<Rightarrow> u64 \<Rightarrow> bool \<Rightarrow>
     melodi_reliability_state \<times> bool res" where
  "melodi_reliability_ack state message_id generation fragment_count bitmap rejected =
     (if \<not> rel_active state \<or> rel_message_id state \<noteq> message_id \<or> rel_generation state \<noteq> generation
         \<or> rel_fragment_count state \<noteq> fragment_count
      then (state, Inl ENOENT)
      else
        let expected = melodi_reliability_mask fragment_count in
        if bitmap = 0 \<or> bitmap AND NOT expected \<noteq> 0 then (state, Inl EPROTO)
        else
          let state = state\<lparr>rel_acknowledged := rel_acknowledged state OR bitmap\<rparr> in
          if rejected then (state\<lparr>rel_active := False\<rparr>, Inl ECONNREFUSED)
          else if rel_acknowledged state = expected then (state\<lparr>rel_active := False\<rparr>, Inr True)
          else (state, Inr False))"

text \<open>The second component is the value stored through \<open>missing\<close>, if any.\<close>

definition melodi_reliability_poll ::
  "melodi_reliability_state \<Rightarrow> u64 \<Rightarrow> bool \<Rightarrow> melodi_reliability_state \<times> u64 option \<times> bool res" where
  "melodi_reliability_poll state now_ms queued =
     (if \<not> rel_active state then (state, None, Inl ENOENT)
      else if now_ms \<ge> rel_deadline_ms state
      then (state\<lparr>rel_active := False\<rparr>, None, Inl ETIMEDOUT)
      else if queued then
        (case melodi_reliability_add now_ms (melodi_reliability_delay state) of
           Inl error \<Rightarrow> (state, None, Inl error)
         | Inr retry_ms \<Rightarrow> (state\<lparr>rel_next_retry_ms := retry_ms\<rparr>, None, Inr False))
      else if now_ms < rel_next_retry_ms state then (state, None, Inr False)
      else if rel_retries state \<ge> MELODI_RELIABLE_RETRY_LIMIT
      then (state\<lparr>rel_active := False\<rparr>, None, Inl ETIMEDOUT)
      else
        let expected = melodi_reliability_mask (rel_fragment_count state);
            missing = expected AND NOT (rel_acknowledged state);
            state = state\<lparr>rel_retries := rel_retries state + 1\<rparr>
        in if rel_retries state = MELODI_RELIABLE_RETRY_LIMIT
           then (state\<lparr>rel_next_retry_ms := rel_deadline_ms state\<rparr>, Some missing, Inr True)
           else case melodi_reliability_add now_ms (melodi_reliability_delay state) of
             Inl error \<Rightarrow> (state\<lparr>rel_active := False\<rparr>, Some missing, Inl error)
           | Inr retry_ms \<Rightarrow> (state\<lparr>rel_next_retry_ms := retry_ms\<rparr>, Some missing, Inr True))"


subsection \<open>Arithmetic of the model\<close>

lemma bit_melodi_reliability_mask:
  assumes "c \<le> 64"
  shows "bit (melodi_reliability_mask c) i \<longleftrightarrow> i < unat c"
proof (cases "c = 64")
  case True
  have all: "(0xffffffffffffffff :: u64) = mask 64" by (simp add: mask_eq_exp_minus_1)
  have "bit (0xffffffffffffffff :: u64) i \<longleftrightarrow> i < 64" unfolding all by (auto simp only: bit_mask_iff) simp
  then show ?thesis using True by (simp add: melodi_reliability_mask_def)
next
  case False
  have "push_bit (unat c) 1 - 1 = (mask (unat c) :: u64)" by (simp add: mask_eq_exp_minus_1)
  moreover have "unat c \<le> 64" using assms by (simp add: word_le_nat_alt)
  ultimately show ?thesis
    using False by (auto simp: melodi_reliability_mask_def bit_mask_iff)
qed

lemma melodi_reliability_mask_neq_0:
  "c \<noteq> 0 \<Longrightarrow> c \<le> 64 \<Longrightarrow> melodi_reliability_mask c \<noteq> 0"
  using bit_melodi_reliability_mask [of c 0] by (auto simp: unat_gt_0)

lemma melodi_reliability_add_Inr:
  "melodi_reliability_add a b = Inr r \<longleftrightarrow> unat r = unat a + unat b"
  "melodi_reliability_add a b = Inl e \<longleftrightarrow> e = EOVERFLOW \<and> 18446744073709551615 < unat a + unat b"
proof -
  have b: "unat (0xffffffffffffffff - b) = 18446744073709551615 - unat b"
    using unat_less_64 [of b] by (simp add: unat_sub word_le_nat_alt)
  have over: "a > 0xffffffffffffffff - b \<longleftrightarrow> 18446744073709551615 < unat a + unat b"
    unfolding word_less_nat_alt b using unat_less_64 [of b] by linarith
  have sum: "unat (a + b) = unat a + unat b" if "\<not> 18446744073709551615 < unat a + unat b"
    using that by (subst unat_add_lem [THEN iffD1]) simp_all
  show "melodi_reliability_add a b = Inr r \<longleftrightarrow> unat r = unat a + unat b"
    using over sum unat_less_64 [of r] by (auto simp: melodi_reliability_add_def word_unat_eq_iff)
  show "melodi_reliability_add a b = Inl e \<longleftrightarrow> e = EOVERFLOW \<and> 18446744073709551615 < unat a + unat b"
    using over by (auto simp: melodi_reliability_add_def)
qed

text \<open>The scaled delays neither wrap around nor leave the range of the paces.\<close>

definition clamp_pace :: "u32 \<Rightarrow> nat" where
  "clamp_pace pace = min 30000 (max 100 (unat pace))"

lemma unat_melodi_reliability_scale:
  assumes "unat nominal \<le> 5000"
  shows "unat (melodi_reliability_scale pace nominal) = unat nominal * clamp_pace pace div 100"
proof -
  define p :: u32 where "p = (let pace = if pace < 100 then 100 else pace in if 30000 < pace then 30000 else pace)"
  have p: "unat p = clamp_pace pace"
    by (auto simp: p_def clamp_pace_def word_less_nat_alt Let_def)
  then have "unat p \<le> 30000" by (simp add: clamp_pace_def)
  then have "unat nominal * unat p \<le> 5000 * 30000" using assms by (intro mult_le_mono) auto
  then have "unat (nominal * ucast p) = unat nominal * unat p"
    by (simp add: unat_word_ariths unat_ucast_up)
  then show ?thesis
    unfolding melodi_reliability_scale_def p_def [symmetric] p [symmetric]
    by (simp add: Let_def unat_div p_def)
qed


subsection \<open>Runs of a transfer\<close>

text \<open>
  An event of a transfer is an acknowledgement or a timer poll; a step yields the bitmap of the
  fragments to send again, if the poll asks for it, and whether the transfer was completed.
\<close>

datatype transfer_event = Ack u64 u32 u16 u64 bool | Poll u64 bool

fun transfer_step ::
  "melodi_reliability_state \<Rightarrow> transfer_event \<Rightarrow> melodi_reliability_state \<times> u64 option \<times> bool" where
  "transfer_step st (Ack message_id generation fragment_count bitmap rejected) =
     (case melodi_reliability_ack st message_id generation fragment_count bitmap rejected of
        (st', r) \<Rightarrow> (st', None, r = Inr True))"
| "transfer_step st (Poll now queued) =
     (case melodi_reliability_poll st now queued of
        (st', missing, r) \<Rightarrow> (st', if r = Inr True then missing else None, False))"

fun transfer_run ::
  "('s \<Rightarrow> 'e \<Rightarrow> 's \<times> 'o option \<times> bool) \<Rightarrow> 's \<Rightarrow> 'e list \<Rightarrow> 's \<times> ('o option \<times> bool) list" where
  "transfer_run step st [] = (st, [])"
| "transfer_run step st (e # es) =
     (case step st e of (st', out) \<Rightarrow>
        case transfer_run step st' es of (st'', outs) \<Rightarrow> (st'', out # outs))"

lemma transfer_run_append:
  "transfer_run step st (es @ fs) =
     (case transfer_run step st es of (st', outs) \<Rightarrow>
        case transfer_run step st' fs of (st'', outs') \<Rightarrow> (st'', outs @ outs'))"
  by (induction es arbitrary: st) (auto split: prod.splits)

text \<open>
  The interface of a transfer with a bounded number of resends that ends at most once. A stopped
  transfer stays stopped and silent.
\<close>

locale bounded_transfer =
  fixes step :: "'s \<Rightarrow> 'e \<Rightarrow> 's \<times> 'o option \<times> bool"
    and inv :: "'s \<Rightarrow> bool"
    and stopped :: "'s \<Rightarrow> bool"
    and budget :: "'s \<Rightarrow> nat"
  assumes step_inv: "inv st \<Longrightarrow> step st e = (st', out, d) \<Longrightarrow> inv st'"
    and step_budget: "inv st \<Longrightarrow> step st e = (st', out, d) \<Longrightarrow>
      budget st' + (if out = None then 0 else 1) \<le> budget st"
    and step_done: "inv st \<Longrightarrow> step st e = (st', out, True) \<Longrightarrow> stopped st'"
    and step_stopped: "stopped st \<Longrightarrow> step st e = (st, None, False)"
begin

lemma run_inv: "inv st \<Longrightarrow> transfer_run step st es = (st', outs) \<Longrightarrow> inv st'"
  by (induction es arbitrary: st outs) (auto split: prod.splits dest: step_inv)

lemma run_resends:
  "inv st \<Longrightarrow> transfer_run step st es = (st', outs) \<Longrightarrow>
    length (filter (\<lambda>(out, d). out \<noteq> None) outs) \<le> budget st"
proof (induction es arbitrary: st outs)
  case (Cons e es)
  obtain st1 out d where s: "step st e = (st1, out, d)" by (cases "step st e")
  obtain outs1 where r: "transfer_run step st1 es = (st', outs1)" "outs = (out, d) # outs1"
    using Cons.prems(2) s by (auto split: prod.splits)
  from Cons.IH [OF step_inv [OF Cons.prems(1) s] r(1)] step_budget [OF Cons.prems(1) s] r(2)
  show ?case by auto
qed auto

lemma run_stopped:
  "stopped st \<Longrightarrow> transfer_run step st es = (st, replicate (length es) (None, False))"
  by (induction es) (simp_all add: step_stopped)

lemma run_done_once:
  "inv st \<Longrightarrow> transfer_run step st es = (st', outs) \<Longrightarrow> length (filter snd outs) \<le> 1"
proof (induction es arbitrary: st outs)
  case (Cons e es)
  obtain st1 out d where s: "step st e = (st1, out, d)" by (cases "step st e")
  obtain outs1 where r: "transfer_run step st1 es = (st', outs1)" "outs = (out, d) # outs1"
    using Cons.prems(2) s by (auto split: prod.splits)
  show ?case
  proof (cases d)
    case True
    with step_done [OF Cons.prems(1)] s have "stopped st1" by simp
    with run_stopped [of st1 es] r show ?thesis by simp
  next
    case False
    with Cons.IH [OF step_inv [OF Cons.prems(1) s] r(1)] r(2) show ?thesis by simp
  qed
qed auto

end

subsection \<open>The model is such a transfer\<close>

definition transfer_inv :: "melodi_reliability_state \<Rightarrow> bool" where
  "transfer_inv st \<longleftrightarrow> rel_fragment_count st \<noteq> 0 \<and> rel_fragment_count st \<le> 64
     \<and> rel_acknowledged st AND NOT (melodi_reliability_mask (rel_fragment_count st)) = 0
     \<and> rel_retries st \<le> 4
     \<and> (rel_active st \<longrightarrow> rel_acknowledged st \<noteq> melodi_reliability_mask (rel_fragment_count st))"

definition transfer_budget :: "melodi_reliability_state \<Rightarrow> nat" where
  "transfer_budget st = 4 - unat (rel_retries st)"

lemma and_not_or_eq_0: "(a OR b) AND NOT m = 0 \<longleftrightarrow> a AND NOT m = 0 \<and> b AND NOT m = (0 :: u64)"
  by (auto simp: bit_eq_iff bit_simps)

lemma retries_Suc: "r < (4 :: u8) \<Longrightarrow> unat (r + 1) = Suc (unat r)"
  by (simp add: unat_word_ariths word_less_nat_alt)

lemma melodi_reliability_ack_inv:
  assumes "transfer_inv st" "melodi_reliability_ack st mid gen fc bm rej = (st', r)"
  shows "transfer_inv st' \<and> rel_retries st' = rel_retries st \<and> (r = Inr True \<longrightarrow> \<not> rel_active st')"
  using assms
  by (auto simp: melodi_reliability_ack_def transfer_inv_def Let_def and_not_or_eq_0 split: if_splits)

lemma melodi_reliability_poll_inv:
  assumes "transfer_inv st" "melodi_reliability_poll st now queued = (st', missing, r)"
  shows "transfer_inv st'
    \<and> unat (rel_retries st') = unat (rel_retries st) + (if missing = None then 0 else 1)
    \<and> (missing \<noteq> None \<longrightarrow> rel_retries st < 4)"
  using assms
  by (auto simp: melodi_reliability_poll_def transfer_inv_def Let_def retries_Suc word_le_nat_alt
      not_le word_less_nat_alt
      split: if_splits sum.splits)

interpretation transfer: bounded_transfer transfer_step transfer_inv "\<lambda>st. \<not> rel_active st" transfer_budget
proof
  fix st e st' out d
  assume a: "transfer_inv st" "transfer_step st e = (st', out, d)"
  show "transfer_inv st'"
    using a by (cases e) (auto split: prod.splits dest: melodi_reliability_ack_inv melodi_reliability_poll_inv)
  show "transfer_budget st' + (if out = None then 0 else 1) \<le> transfer_budget st"
  proof (cases e)
    case (Ack mid gen fc bm rej)
    with a show ?thesis
      by (auto simp: transfer_budget_def split: prod.splits dest: melodi_reliability_ack_inv)
  next
    case (Poll now queued)
    obtain missing r where p: "melodi_reliability_poll st now queued = (st', missing, r)"
      and o: "out = (if r = Inr True then missing else None)"
      using a Poll by (auto split: prod.splits)
    from melodi_reliability_poll_inv [OF a(1) p] o show ?thesis
      by (auto simp: transfer_budget_def word_less_nat_alt)
  qed
next
  fix st e st' out
  assume "transfer_inv st" "transfer_step st e = (st', out, True)"
  then show "\<not> rel_active st'"
    by (cases e) (auto split: prod.splits dest: melodi_reliability_ack_inv)
next
  fix st :: melodi_reliability_state and e
  assume "\<not> rel_active st"
  then show "transfer_step st e = (st, None, False)"
    by (cases e) (simp_all add: melodi_reliability_ack_def melodi_reliability_poll_def)
qed


subsection \<open>What a started transfer looks like\<close>

lemma melodi_reliability_start_Inr:
  assumes "melodi_reliability_start st mid gen fc now pace ttl = (st', Inr ())"
  shows "transfer_inv st'" "rel_active st'" "rel_acknowledged st' = 0" "rel_retries st' = 0"
    and "rel_fragment_count st' = fc" "rel_message_id st' = mid" "rel_generation st' = gen"
    and "unat (rel_deadline_ms st') = unat now +
      (if ttl = 0 then 50 * clamp_pace pace else min (unat ttl) (50 * clamp_pace pace))"
    and "unat (rel_next_retry_ms st') = unat now + 2 * clamp_pace pace"
proof -
  let ?d = "melodi_reliability_scale pace 5000"
  let ?dl = "if ttl \<noteq> 0 \<and> ?d > ucast ttl then ucast ttl else ?d"
  from assms have fc: "fc \<noteq> 0" "fc \<le> 64"
    by (auto simp: melodi_reliability_start_def not_less split: if_splits)
  from assms obtain dl nr where
    add: "melodi_reliability_add now ?dl = Inr dl"
      "melodi_reliability_add now (melodi_reliability_scale pace 200) = Inr nr"
    and st': "st' = melodi_reliability_zero\<lparr>rel_pace_ms := pace, rel_deadline_ms := dl,
      rel_next_retry_ms := nr, rel_message_id := mid, rel_generation := gen,
      rel_fragment_count := fc, rel_active := True\<rparr>"
    by (auto simp: melodi_reliability_start_def Let_def melodi_retry_delays_def
        split: if_splits sum.splits)
  have d: "unat ?d = 50 * clamp_pace pace"
    using unat_melodi_reliability_scale [of 5000 pace] by simp
  have "unat ?dl = (if ttl = 0 then 50 * clamp_pace pace else min (unat ttl) (50 * clamp_pace pace))"
    using d by (auto simp: word_less_nat_alt unat_ucast_up min_def)
  with add(1) st' show "unat (rel_deadline_ms st') = unat now +
      (if ttl = 0 then 50 * clamp_pace pace else min (unat ttl) (50 * clamp_pace pace))"
    by (simp add: melodi_reliability_add_Inr)
  show "unat (rel_next_retry_ms st') = unat now + 2 * clamp_pace pace"
    using add(2) st' unat_melodi_reliability_scale [of 200 pace] by (simp add: melodi_reliability_add_Inr)
  show "transfer_inv st'" "rel_active st'" "rel_acknowledged st' = 0" "rel_retries st' = 0"
    "rel_fragment_count st' = fc" "rel_message_id st' = mid" "rel_generation st' = gen"
    using fc melodi_reliability_mask_neq_0 [of fc]
    by (simp_all add: st' melodi_reliability_zero_def transfer_inv_def)
qed

text \<open>The fragments that the accepted acknowledgements of a run name.\<close>

fun acknowledges :: "melodi_reliability_state \<Rightarrow> transfer_event \<Rightarrow> nat set" where
  "acknowledges st (Ack message_id generation fragment_count bitmap rejected) =
     (case snd (melodi_reliability_ack st message_id generation fragment_count bitmap rejected) of
        Inl error \<Rightarrow> if error = ECONNREFUSED then {i. bit bitmap i} else {}
      | Inr _ \<Rightarrow> {i. bit bitmap i})"
| "acknowledges st (Poll now queued) = {}"

fun acknowledged_in :: "melodi_reliability_state \<Rightarrow> transfer_event list \<Rightarrow> nat set" where
  "acknowledged_in st [] = {}"
| "acknowledged_in st (e # es) =
     acknowledges st e \<union> acknowledged_in (fst (transfer_step st e)) es"

lemma melodi_reliability_ack_frame:
  assumes "melodi_reliability_ack st mid gen fc bm rej = (st', r)"
  shows "rel_fragment_count st' = rel_fragment_count st \<and> rel_deadline_ms st' = rel_deadline_ms st
    \<and> rel_acknowledged st' =
      (case r of Inl error \<Rightarrow> if error = ECONNREFUSED then rel_acknowledged st OR bm else rel_acknowledged st
       | Inr _ \<Rightarrow> rel_acknowledged st OR bm)"
  using assms unfolding melodi_reliability_ack_def Let_def by (auto split: if_splits)

lemma melodi_reliability_poll_frame:
  assumes "melodi_reliability_poll st now queued = (st', missing, r)"
  shows "rel_fragment_count st' = rel_fragment_count st \<and> rel_deadline_ms st' = rel_deadline_ms st
    \<and> rel_acknowledged st' = rel_acknowledged st"
  using assms unfolding melodi_reliability_poll_def Let_def by (auto split: if_splits sum.splits)

lemma acknowledges_step:
  assumes "transfer_step st e = (st', out, d)"
  shows "{i. bit (rel_acknowledged st') i} = {i. bit (rel_acknowledged st) i} \<union> acknowledges st e
    \<and> rel_fragment_count st' = rel_fragment_count st \<and> rel_deadline_ms st' = rel_deadline_ms st"
proof (cases e)
  case (Ack mid gen fc bm rej)
  obtain r where "melodi_reliability_ack st mid gen fc bm rej = (st', r)"
    using assms Ack by (auto split: prod.splits)
  from melodi_reliability_ack_frame [OF this] this Ack show ?thesis
    by (cases r) (auto simp: bit_or_iff)
next
  case (Poll now queued)
  then show ?thesis using assms by (auto split: prod.splits dest: melodi_reliability_poll_frame)
qed

lemma acknowledged_in_run:
  "transfer_run transfer_step st es = (st', outs) \<Longrightarrow>
    {i. bit (rel_acknowledged st') i} = {i. bit (rel_acknowledged st) i} \<union> acknowledged_in st es
    \<and> rel_fragment_count st' = rel_fragment_count st \<and> rel_deadline_ms st' = rel_deadline_ms st"
proof (induction es arbitrary: st outs)
  case (Cons e es)
  obtain st1 out d where s: "transfer_step st e = (st1, out, d)" by (cases "transfer_step st e")
  obtain outs1 where r: "transfer_run transfer_step st1 es = (st', outs1)"
    using Cons.prems s by (auto split: prod.splits)
  from Cons.IH [OF r] acknowledges_step [OF s] s show ?case by auto
qed simp

lemma transfer_inv_bits:
  assumes "transfer_inv st"
  shows "{i. bit (rel_acknowledged st) i} \<subseteq> {..<unat (rel_fragment_count st)}"
    and "{i. bit (rel_acknowledged st) i} = {..<unat (rel_fragment_count st)} \<longleftrightarrow>
      rel_acknowledged st = melodi_reliability_mask (rel_fragment_count st)"
proof -
  let ?m = "melodi_reliability_mask (rel_fragment_count st)"
  from assms have m: "bit ?m i \<longleftrightarrow> i < unat (rel_fragment_count st)" for i
    by (intro bit_melodi_reliability_mask) (simp add: transfer_inv_def)
  have "\<not> bit (rel_acknowledged st AND NOT ?m) i" for i
    using assms by (simp add: transfer_inv_def)
  then show "{i. bit (rel_acknowledged st) i} \<subseteq> {..<unat (rel_fragment_count st)}"
    using m bit_imp_le_length [of "rel_acknowledged st"] by (auto simp: bit_and_iff bit_not_iff)
  show "{i. bit (rel_acknowledged st) i} = {..<unat (rel_fragment_count st)} \<longleftrightarrow> rel_acknowledged st = ?m"
  proof
    assume "{i. bit (rel_acknowledged st) i} = {..<unat (rel_fragment_count st)}"
    with m have "bit (rel_acknowledged st) i = bit ?m i" for i by blast
    then show "rel_acknowledged st = ?m" by (intro bit_word_eqI)
  next
    assume "rel_acknowledged st = ?m"
    with m show "{i. bit (rel_acknowledged st) i} = {..<unat (rel_fragment_count st)}" by auto
  qed
qed

subsection \<open>Properties\<close>

text \<open>A completing acknowledgement happens when the acknowledged set is full.\<close>

lemma transfer_step_done:
  assumes "transfer_step st e = (st', out, True)"
  shows "rel_acknowledged st' = melodi_reliability_mask (rel_fragment_count st') \<and> \<not> rel_active st'"
proof (cases e)
  case (Ack mid gen fc bm rej)
  with assms show ?thesis
    by (auto simp: melodi_reliability_ack_def Let_def split: if_splits)
qed (use assms in \<open>auto split: prod.splits\<close>)

lemma transfer_run_done:
  assumes "transfer_inv st" and "transfer_run transfer_step st es = (st', outs)" and "(out, True) \<in> set outs"
  shows "rel_acknowledged st' = melodi_reliability_mask (rel_fragment_count st')"
  using assms
proof (induction es arbitrary: st outs)
  case (Cons e es)
  obtain st1 o1 d where s: "transfer_step st e = (st1, o1, d)" by (cases "transfer_step st e")
  obtain outs1 where r: "transfer_run transfer_step st1 es = (st', outs1)" "outs = (o1, d) # outs1"
    using Cons.prems(2) s by (auto split: prod.splits)
  show ?case
  proof (cases d)
    case True
    with transfer_step_done s transfer.run_stopped [of st1 es] r show ?thesis by auto
  next
    case False
    with Cons.prems(3) r(2) have "(out, True) \<in> set outs1" by auto
    with Cons.IH transfer.step_inv [OF Cons.prems(1) s] r(1) show ?thesis by blast
  qed
qed simp

text \<open>
  C15. A message is reported as delivered at most once, and only when every one of its fragments
  was named by some accepted acknowledgement of the run; and as long as the transfer is active,
  some fragment was not.
\<close>

theorem reliability_completes_iff_all_acknowledged:
  assumes "melodi_reliability_start st0 mid gen fc now pace ttl = (st, Inr ())"
    and "transfer_run transfer_step st events = (st', outs)"
  shows "length (filter snd outs) \<le> 1
    \<and> ((\<exists>out. (out, True) \<in> set outs) \<longrightarrow> acknowledged_in st events = {..<unat fc})
    \<and> (rel_active st' \<longrightarrow> acknowledged_in st events \<subset> {..<unat fc})"
proof -
  note start = melodi_reliability_start_Inr [OF assms(1)]
  note run = transfer.run_inv [OF start(1) assms(2)]
  have acked: "{i. bit (rel_acknowledged st') i} = acknowledged_in st events" "rel_fragment_count st' = fc"
    using acknowledged_in_run [OF assms(2)] start by auto
  show ?thesis
    using transfer.run_done_once [OF start(1) assms(2)] transfer_run_done [OF start(1) assms(2)]
      transfer_inv_bits [OF run] run acked
    by (auto simp: transfer_inv_def)
qed

theorem reliability_completes_iff_all_acknowledged_witness:
  "\<exists>st st' outs. melodi_reliability_start melodi_reliability_zero 7 3 2 1000 100 0 = (st, Inr ())
     \<and> transfer_run transfer_step st [Ack 7 3 2 2 False, Ack 7 3 2 1 False] = (st', outs)
     \<and> (None, True) \<in> set outs
     \<and> acknowledged_in st [Ack 7 3 2 2 False, Ack 7 3 2 1 False] = {..<unat (2 :: u16)}"
proof -
  obtain st where s: "melodi_reliability_start melodi_reliability_zero 7 3 2 1000 100 0 = (st, Inr ())"
    by (simp add: melodi_reliability_start_def melodi_reliability_add_def melodi_reliability_scale_def
        melodi_retry_delays_def Let_def)
  obtain st' outs where
    r: "transfer_run transfer_step st [Ack 7 3 2 2 False, Ack 7 3 2 1 False] = (st', outs)"
    by (cases "transfer_run transfer_step st [Ack 7 3 2 2 False, Ack 7 3 2 1 False]")
  have "(None, True) \<in> set outs"
    using r melodi_reliability_start_Inr [OF s]
    by (auto simp: melodi_reliability_ack_def melodi_reliability_mask_def)
  with reliability_completes_iff_all_acknowledged [OF s r] s r show ?thesis by blast
qed


lemma melodi_reliability_poll_resend:
  assumes "melodi_reliability_poll st t queued = (st', missing, Inr True)"
  shows "rel_active st \<and> missing = Some (melodi_reliability_mask (rel_fragment_count st) AND NOT (rel_acknowledged st))
    \<and> \<not> queued \<and> rel_next_retry_ms st \<le> t \<and> t < rel_deadline_ms st"
  using assms unfolding melodi_reliability_poll_def Let_def by (auto split: if_splits sum.splits)

text \<open>
  C16. A message is sent again at most four times after its first transmission, and a poll that
  asks for it names exactly the fragments, at least one, that no accepted acknowledgement has
  named so far; it does so only before the deadline and never while fragments are still queued.
\<close>

theorem reliability_resends_exactly_missing:
  assumes "melodi_reliability_start st0 mid gen fc now pace ttl = (st, Inr ())"
    and "transfer_run transfer_step st events = (st', outs)"
    and "melodi_reliability_poll st' t queued = (st'', missing, Inr True)"
  shows "length (filter (\<lambda>(out, d). out \<noteq> None) outs) < 4
    \<and> (\<exists>b. missing = Some b \<and> {i. bit b i} = {..<unat fc} - acknowledged_in st events \<and> b \<noteq> 0)
    \<and> \<not> queued \<and> t < rel_deadline_ms st"
proof -
  note start = melodi_reliability_start_Inr [OF assms(1)]
  note inv = transfer.run_inv [OF start(1) assms(2)]
  note poll = melodi_reliability_poll_resend [OF assms(3)]
  have acked: "{i. bit (rel_acknowledged st') i} = acknowledged_in st events"
    "rel_fragment_count st' = fc" "rel_deadline_ms st' = rel_deadline_ms st"
    using acknowledged_in_run [OF assms(2)] start by auto
  let ?b = "melodi_reliability_mask fc AND NOT (rel_acknowledged st')"
  have "fc \<le> 64" using inv acked(2) by (auto simp: transfer_inv_def)
  then have "unat fc \<le> 64" by (simp add: word_le_nat_alt)
  then have b: "{i. bit ?b i} = {..<unat fc} - acknowledged_in st events"
    using bit_melodi_reliability_mask [OF \<open>fc \<le> 64\<close>] acked(1)
    by (auto simp: bit_and_iff bit_not_iff)
  have "{i. bit (rel_acknowledged st') i} \<noteq> {..<unat fc}"
    using transfer_inv_bits(2) [OF inv] inv poll acked(2) by (auto simp: transfer_inv_def)
  then have "{..<unat fc} - acknowledged_in st events \<noteq> {}"
    using transfer_inv_bits(1) [OF inv] acked by auto
  with b have "{i. bit ?b i} \<noteq> {}" by simp
  then have "?b \<noteq> 0" by fastforce
  moreover have "length (filter (\<lambda>(out, d). out \<noteq> None) (outs @ [(missing, False)])) \<le> transfer_budget st"
    by (rule transfer.run_resends [OF start(1), of "events @ [Poll t queued]" st''])
       (use assms(2,3) in \<open>simp add: transfer_run_append\<close>)
  then have "length (filter (\<lambda>(out, d). out \<noteq> None) outs) < 4"
    using poll start(4) by (simp add: transfer_budget_def)
  moreover have "missing = Some ?b" using poll acked(2) by simp
  ultimately show ?thesis using poll b acked(3) by metis
qed

theorem reliability_resends_exactly_missing_witness:
  "\<exists>st st' outs st'' missing.
     melodi_reliability_start melodi_reliability_zero 7 3 3 1000 100 0 = (st, Inr ())
     \<and> transfer_run transfer_step st [Ack 7 3 3 2 False] = (st', outs)
     \<and> melodi_reliability_poll st' 1200 False = (st'', missing, Inr True)
     \<and> (\<exists>b. missing = Some b \<and> {i. bit b i} = {..<unat (3 :: u16)} - acknowledged_in st [Ack 7 3 3 2 False])"
proof -
  define st where "st = melodi_reliability_zero\<lparr>rel_pace_ms := 100, rel_deadline_ms := 6000,
    rel_next_retry_ms := 1200, rel_message_id := 7, rel_generation := 3, rel_fragment_count := 3,
    rel_active := True\<rparr>"
  have s: "melodi_reliability_start melodi_reliability_zero 7 3 3 1000 100 0 = (st, Inr ())"
    by (simp add: melodi_reliability_start_def melodi_reliability_add_def melodi_reliability_scale_def
        melodi_retry_delays_def Let_def st_def)
  have r: "transfer_run transfer_step st [Ack 7 3 3 2 False] =
      (st\<lparr>rel_acknowledged := 2\<rparr>, [(None, False)])"
    by (simp add: st_def melodi_reliability_zero_def melodi_reliability_ack_def melodi_reliability_mask_def)
  have "\<exists>st'' missing. melodi_reliability_poll (st\<lparr>rel_acknowledged := 2\<rparr>) 1200 False = (st'', missing, Inr True)"
    by (simp add: st_def melodi_reliability_zero_def melodi_reliability_poll_def melodi_reliability_add_def
        melodi_reliability_delay_def melodi_reliability_scale_def melodi_retry_delays_def)
  then obtain st'' missing where
    p: "melodi_reliability_poll (st\<lparr>rel_acknowledged := 2\<rparr>) 1200 False = (st'', missing, Inr True)" by blast
  from reliability_resends_exactly_missing [OF s r p] s r p show ?thesis by blast
qed



end
