(* ===== verification/Blake2s.thy ===== *)
theory Blake2s
  imports Prelude
begin

text \<open>
  The BLAKE2s-256 hash that \<open>src/proto/mapping.c\<close> carries for the locator mapping: the
  compression function over 32 bit words, and the incremental interface init / update / final
  on a context with a 64 byte buffer. It is shown to compute the one-shot hash of the
  concatenated input, whatever way the input is cut into pieces.
\<close>

subsection \<open>Model\<close>

record melodi_blake2s =
  b2_hash :: "u32 list"
  b2_count0 :: u32
  b2_count1 :: u32
  b2_buffer :: bytes
  b2_buffered :: nat

definition melodi_blake2s_iv :: "u32 list" where
  "melodi_blake2s_iv =
     [0x6a09e667, 0xbb67ae85, 0x3c6ef372, 0xa54ff53a,
      0x510e527f, 0x9b05688c, 0x1f83d9ab, 0x5be0cd19]"

definition melodi_blake2s_sigma :: "nat list list" where
  "melodi_blake2s_sigma =
    [[0, 1, 2, 3, 4, 5, 6, 7, 8, 9, 10, 11, 12, 13, 14, 15],
     [14, 10, 4, 8, 9, 15, 13, 6, 1, 12, 0, 2, 11, 7, 5, 3],
     [11, 8, 12, 0, 5, 2, 15, 13, 10, 14, 3, 6, 7, 1, 9, 4],
     [7, 9, 3, 1, 13, 12, 11, 14, 2, 6, 5, 10, 4, 0, 15, 8],
     [9, 0, 5, 7, 2, 4, 10, 15, 14, 1, 11, 12, 6, 8, 3, 13],
     [2, 12, 6, 10, 0, 11, 8, 3, 4, 13, 7, 5, 15, 14, 1, 9],
     [12, 5, 1, 15, 14, 13, 4, 10, 0, 7, 6, 3, 9, 2, 8, 11],
     [13, 11, 7, 14, 12, 1, 3, 9, 5, 0, 15, 4, 8, 6, 2, 10],
     [6, 15, 14, 9, 11, 3, 0, 8, 12, 2, 13, 7, 1, 4, 10, 5],
     [10, 2, 8, 4, 7, 6, 1, 5, 15, 11, 9, 14, 3, 12, 13, 0]]"

definition melodi_load32 :: "bytes \<Rightarrow> u32" where
  "melodi_load32 input =
     ucast (input ! 0) OR push_bit 8 (ucast (input ! 1)) OR
     push_bit 16 (ucast (input ! 2)) OR push_bit 24 (ucast (input ! 3))"

definition melodi_store32 :: "u32 \<Rightarrow> bytes" where
  "melodi_store32 val =
     [ucast val, ucast (drop_bit 8 val), ucast (drop_bit 16 val), ucast (drop_bit 24 val)]"

definition melodi_rotate_right :: "u32 \<Rightarrow> nat \<Rightarrow> u32" where
  "melodi_rotate_right val count = drop_bit count val OR push_bit (32 - count) val"

definition melodi_blake2s_mix ::
  "u32 list \<Rightarrow> nat \<Rightarrow> nat \<Rightarrow> nat \<Rightarrow> nat \<Rightarrow> u32 \<Rightarrow> u32 \<Rightarrow> u32 list" where
  "melodi_blake2s_mix state a b c d first second =
     (let state = state[a := state ! a + state ! b + first];
          state = state[d := melodi_rotate_right (state ! d XOR state ! a) 16];
          state = state[c := state ! c + state ! d];
          state = state[b := melodi_rotate_right (state ! b XOR state ! c) 12];
          state = state[a := state ! a + state ! b + second];
          state = state[d := melodi_rotate_right (state ! d XOR state ! a) 8];
          state = state[c := state ! c + state ! d];
          state = state[b := melodi_rotate_right (state ! b XOR state ! c) 7]
      in state)"

text \<open>The body of the loop over the rounds in \<open>melodi_blake2s_compress\<close>.\<close>

definition melodi_blake2s_round :: "u32 list \<Rightarrow> nat \<Rightarrow> u32 list \<Rightarrow> u32 list" where
  "melodi_blake2s_round message round state =
     (let order = melodi_blake2s_sigma ! round;
          m = (\<lambda>i. message ! (order ! i));
          state = melodi_blake2s_mix state 0 4 8 12 (m 0) (m 1);
          state = melodi_blake2s_mix state 1 5 9 13 (m 2) (m 3);
          state = melodi_blake2s_mix state 2 6 10 14 (m 4) (m 5);
          state = melodi_blake2s_mix state 3 7 11 15 (m 6) (m 7);
          state = melodi_blake2s_mix state 0 5 10 15 (m 8) (m 9);
          state = melodi_blake2s_mix state 1 6 11 12 (m 10) (m 11);
          state = melodi_blake2s_mix state 2 7 8 13 (m 12) (m 13);
          state = melodi_blake2s_mix state 3 4 9 14 (m 14) (m 15)
      in state)"

definition melodi_blake2s_compress :: "melodi_blake2s \<Rightarrow> bytes \<Rightarrow> bool \<Rightarrow> melodi_blake2s" where
  "melodi_blake2s_compress context block final =
     (let message = map (\<lambda>index. melodi_load32 (drop (index * 4) block)) [0..<16];
          state = map (\<lambda>index. b2_hash context ! index) [0..<8]
                @ map (\<lambda>index. melodi_blake2s_iv ! index) [0..<8];
          state = state[12 := state ! 12 XOR b2_count0 context];
          state = state[13 := state ! 13 XOR b2_count1 context];
          state = (if final then state[14 := NOT (state ! 14)] else state);
          state = fold (melodi_blake2s_round message) [0..<10] state
      in context\<lparr>b2_hash := map (\<lambda>index. b2_hash context ! index XOR (state ! index XOR state ! (index + 8))) [0..<8]\<rparr>)"

definition melodi_blake2s_count :: "melodi_blake2s \<Rightarrow> u32 \<Rightarrow> melodi_blake2s" where
  "melodi_blake2s_count context amount =
     (let context = context\<lparr>b2_count0 := b2_count0 context + amount\<rparr>
      in if b2_count0 context < amount then context\<lparr>b2_count1 := b2_count1 context + 1\<rparr> else context)"

definition melodi_blake2s_init :: "melodi_blake2s \<Rightarrow> melodi_blake2s" where
  "melodi_blake2s_init context =
     context\<lparr>b2_hash := melodi_blake2s_iv[0 := melodi_blake2s_iv ! 0 XOR 0x01010020],
             b2_count0 := 0, b2_count1 := 0, b2_buffered := 0\<rparr>"

text \<open>
  The loop of \<open>melodi_blake2s_update\<close>. The fill level never exceeds 64 on a context that
  \<open>melodi_blake2s_init\<close> prepared; testing it makes the function total.
\<close>

function melodi_blake2s_update :: "melodi_blake2s \<Rightarrow> bytes \<Rightarrow> melodi_blake2s" where
  "melodi_blake2s_update context input =
     (if input = [] \<or> 64 < b2_buffered context then context
      else
        let amount = min (64 - b2_buffered context) (length input);
            context = context\<lparr>b2_buffer := poke (b2_buffered context) (take amount input) (b2_buffer context),
                              b2_buffered := b2_buffered context + amount\<rparr>;
            input = drop amount input
        in melodi_blake2s_update
             (if b2_buffered context = 64 \<and> input \<noteq> []
              then (melodi_blake2s_compress (melodi_blake2s_count context 64) (b2_buffer context) False)
                     \<lparr>b2_buffered := 0\<rparr>
              else context) input)"
  by pat_completeness auto
termination
  by (relation "measure (\<lambda>(context, input). 2 * length input + (if b2_buffered context = 64 then 1 else 0))")
     (auto simp: melodi_blake2s_count_def melodi_blake2s_compress_def Let_def min_def)

declare melodi_blake2s_update.simps [simp del]

text \<open>The digest; the context is cleared afterwards and not used again.\<close>

definition melodi_blake2s_final :: "melodi_blake2s \<Rightarrow> bytes" where
  "melodi_blake2s_final context =
     (let context = melodi_blake2s_count context (of_nat (b2_buffered context));
          context = context\<lparr>b2_buffer := poke (b2_buffered context)
                              (replicate (64 - b2_buffered context) 0) (b2_buffer context)\<rparr>;
          context = melodi_blake2s_compress context (b2_buffer context) True
      in concat (map (\<lambda>index. melodi_store32 (b2_hash context ! index)) [0..<8]))"


subsection \<open>The update takes its input byte by byte\<close>

definition blake2s_ok :: "melodi_blake2s \<Rightarrow> bool" where
  "blake2s_ok context \<longleftrightarrow> length (b2_buffer context) = 64 \<and> b2_buffered context \<le> 64"

definition blake2s_flush :: "melodi_blake2s \<Rightarrow> melodi_blake2s" where
  "blake2s_flush context =
     (melodi_blake2s_compress (melodi_blake2s_count context 64) (b2_buffer context) False)\<lparr>b2_buffered := 0\<rparr>"

definition blake2s_byte :: "melodi_blake2s \<Rightarrow> u8 \<Rightarrow> melodi_blake2s" where
  "blake2s_byte context byte =
     (let context = (if b2_buffered context = 64 then blake2s_flush context else context)
      in context\<lparr>b2_buffer := (b2_buffer context)[b2_buffered context := byte],
                 b2_buffered := b2_buffered context + 1\<rparr>)"

lemma melodi_blake2s_count_frame [simp]:
  "b2_buffer (melodi_blake2s_count c n) = b2_buffer c"
  "b2_buffered (melodi_blake2s_count c n) = b2_buffered c"
  "b2_hash (melodi_blake2s_count c n) = b2_hash c"
  by (simp_all add: melodi_blake2s_count_def Let_def)

lemma melodi_blake2s_compress_frame [simp]:
  "b2_buffer (melodi_blake2s_compress c b f) = b2_buffer c"
  "b2_buffered (melodi_blake2s_compress c b f) = b2_buffered c"
  "b2_count0 (melodi_blake2s_compress c b f) = b2_count0 c"
  "b2_count1 (melodi_blake2s_compress c b f) = b2_count1 c"
  by (simp_all add: melodi_blake2s_compress_def Let_def)

lemma blake2s_flush_frame [simp]:
  "b2_buffer (blake2s_flush c) = b2_buffer c" "b2_buffered (blake2s_flush c) = 0"
  by (simp_all add: blake2s_flush_def)

lemma blake2s_ok_byte: "blake2s_ok c \<Longrightarrow> blake2s_ok (blake2s_byte c b)"
  by (auto simp: blake2s_ok_def blake2s_byte_def Let_def)

lemma blake2s_ok_bytes: "blake2s_ok c \<Longrightarrow> blake2s_ok (foldl blake2s_byte c bs)"
  by (induction bs arbitrary: c) (auto intro: blake2s_ok_byte)

lemma poke_Nil: "poke off [] buf = buf"
  by (simp add: poke_def)

lemma poke_Cons:
  "off < length buf \<Longrightarrow> poke (Suc off) bs (buf[off := b]) = poke off (b # bs) buf"
  by (simp add: poke_def take_Suc_conv_app_nth)

lemma blake2s_bytes_fill:
  assumes "blake2s_ok c" and "b2_buffered c + length bs \<le> 64"
  shows "foldl blake2s_byte c bs =
    c\<lparr>b2_buffer := poke (b2_buffered c) bs (b2_buffer c), b2_buffered := b2_buffered c + length bs\<rparr>"
  using assms
proof (induction bs arbitrary: c)
  case (Cons b bs)
  have byte: "blake2s_byte c b =
      c\<lparr>b2_buffer := (b2_buffer c)[b2_buffered c := b], b2_buffered := Suc (b2_buffered c)\<rparr>"
    using Cons.prems by (simp add: blake2s_byte_def)
  have "foldl blake2s_byte c (b # bs) = foldl blake2s_byte (blake2s_byte c b) bs" by simp
  also have "\<dots> = (blake2s_byte c b)\<lparr>
      b2_buffer := poke (b2_buffered (blake2s_byte c b)) bs (b2_buffer (blake2s_byte c b)),
      b2_buffered := b2_buffered (blake2s_byte c b) + length bs\<rparr>"
    using Cons.prems by (intro Cons.IH blake2s_ok_byte) (simp_all add: byte)
  finally show ?case
    using Cons.prems by (simp add: byte poke_Cons blake2s_ok_def)
qed (simp add: poke_Nil)

lemma blake2s_bytes_flush:
  "b2_buffered c = 64 \<Longrightarrow> bs \<noteq> [] \<Longrightarrow>
    foldl blake2s_byte (blake2s_flush c) bs = foldl blake2s_byte c bs"
  by (cases bs) (simp_all add: blake2s_byte_def)

lemma melodi_blake2s_update_bytes:
  "blake2s_ok c \<Longrightarrow> melodi_blake2s_update c input = foldl blake2s_byte c input"
proof (induction c input rule: melodi_blake2s_update.induct)
  case (1 c input)
  show ?case
  proof (cases "input = []")
    case True
    then show ?thesis by (simp add: melodi_blake2s_update.simps)
  next
    case False
    define n where "n = min (64 - b2_buffered c) (length input)"
    define d where "d = c\<lparr>b2_buffer := poke (b2_buffered c) (take n input) (b2_buffer c),
                            b2_buffered := b2_buffered c + n\<rparr>"
    define e where "e = (if b2_buffered d = 64 \<and> drop n input \<noteq> [] then blake2s_flush d else d)"
    have small: "\<not> (input = [] \<or> 64 < b2_buffered c)" using 1(2) False by (simp add: blake2s_ok_def)
    have fill: "foldl blake2s_byte c (take n input) = d"
      using 1(2) by (subst blake2s_bytes_fill) (auto simp: n_def d_def blake2s_ok_def min_def)
    then have "blake2s_ok d" using blake2s_ok_bytes [OF 1(2), of "take n input"] by simp
    then have ok: "blake2s_ok e" by (auto simp: e_def blake2s_ok_def)
    have "melodi_blake2s_update c input = melodi_blake2s_update e (drop n input)"
      using small
      by (subst melodi_blake2s_update.simps)
         (simp only: Let_def if_False n_def d_def e_def blake2s_flush_def)
    also have "\<dots> = foldl blake2s_byte e (drop n input)"
      by (rule 1(1) [OF small n_def d_def refl, folded blake2s_flush_def, folded e_def, OF ok])
    also have "\<dots> = foldl blake2s_byte d (drop n input)"
      by (simp add: e_def blake2s_bytes_flush)
    also have "\<dots> = foldl blake2s_byte c input"
      using fill by (metis append_take_drop_id foldl_append)
    finally show ?thesis .
  qed
qed


subsection \<open>The one-shot hash\<close>

text \<open>
  The reference: the compression of one block at byte offset \<open>t\<close>, then the blocks of the
  message in turn, the last one padded with zeros and marked as final.
\<close>

definition blake2s_F :: "u32 list \<Rightarrow> bytes \<Rightarrow> nat \<Rightarrow> bool \<Rightarrow> u32 list" where
  "blake2s_F h block t final = b2_hash (melodi_blake2s_compress
     \<lparr>b2_hash = h, b2_count0 = of_nat t, b2_count1 = of_nat (t div 4294967296),
      b2_buffer = [], b2_buffered = 0\<rparr> block final)"

function blake2s_blocks :: "u32 list \<Rightarrow> nat \<Rightarrow> bytes \<Rightarrow> u32 list" where
  "blake2s_blocks h t msg =
     (if length msg \<le> 64
      then blake2s_F h (msg @ replicate (64 - length msg) 0) (t + length msg) True
      else blake2s_blocks (blake2s_F h (take 64 msg) (t + 64) False) (t + 64) (drop 64 msg))"
  by pat_completeness auto
termination
  by (relation "measure (\<lambda>(_, _, msg). length msg)") auto

declare blake2s_blocks.simps [simp del]

definition blake2s :: "bytes \<Rightarrow> bytes" where
  "blake2s msg = concat (map melodi_store32
     (blake2s_blocks (melodi_blake2s_iv[0 := melodi_blake2s_iv ! 0 XOR 0x01010020]) 0 msg))"

text \<open>The two counter words count bytes with a carry.\<close>

definition counts :: "melodi_blake2s \<Rightarrow> nat \<Rightarrow> bool" where
  "counts c t \<longleftrightarrow> b2_count0 c = of_nat t \<and> b2_count1 c = of_nat (t div 4294967296)"

lemma counts_melodi_blake2s_count:
  assumes "counts c t" and "a \<le> 64"
  shows "counts (melodi_blake2s_count c (of_nat a)) (t + a)"
proof -
  define r where "r = t mod 4294967296"
  have r: "r < 4294967296" by (simp add: r_def)
  have sum: "unat (of_nat t + of_nat a :: u32) = (r + a) mod 4294967296"
    by (simp add: r_def unat_of_nat take_bit_eq_mod mod_add_left_eq flip: of_nat_add)
  have a: "unat (of_nat a :: u32) = a" using assms(2) by (simp add: unat_of_nat take_bit_nat_eq_self)
  have less: "(of_nat t + of_nat a :: u32) < of_nat a \<longleftrightarrow> 4294967296 \<le> r + a"
  proof (cases "r + a < 4294967296")
    case False
    then have "(r + a) mod 4294967296 = r + a - 4294967296"
      using r assms(2) by (simp add: mod_if)
    with False r show ?thesis by (simp add: word_less_nat_alt sum a)
  qed (simp add: word_less_nat_alt sum a)
  define q where "q = t div 4294967296"
  have "t + a = (r + a) + q * 4294967296"
    using div_mult_mod_eq [of t 4294967296] unfolding q_def r_def by linarith
  then have "(t + a) div 4294967296 = t div 4294967296 + (r + a) div 4294967296"
    unfolding q_def [symmetric] by (metis div_mult_self1 zero_neq_numeral)
  also have "(r + a) div 4294967296 = of_bool (4294967296 \<le> r + a)"
    using r assms(2) by (auto simp: div_nat_eqI)
  finally show ?thesis
    using assms(1) less by (simp add: counts_def melodi_blake2s_count_def Let_def)
qed

lemma b2_hash_compress:
  "counts c t \<Longrightarrow> b2_hash (melodi_blake2s_compress c block f) = blake2s_F (b2_hash c) block t f"
  by (simp add: counts_def blake2s_F_def melodi_blake2s_compress_def Let_def)

lemma length_blake2s_F [simp]: "length (blake2s_F h b t f) = 8"
  by (simp add: blake2s_F_def melodi_blake2s_compress_def Let_def)

lemma length_blake2s_blocks [simp]: "length (blake2s_blocks h t msg) = 8"
  by (induction h t msg rule: blake2s_blocks.induct) (subst blake2s_blocks.simps, simp)


lemma melodi_blake2s_final_blocks:
  assumes "blake2s_ok c" and "counts c t"
  shows "melodi_blake2s_final c = concat (map melodi_store32
    (blake2s_blocks (b2_hash c) t (take (b2_buffered c) (b2_buffer c))))"
proof -
  let ?n = "b2_buffered c"
  let ?c = "melodi_blake2s_count c (of_nat ?n)"
  let ?b = "poke ?n (replicate (64 - ?n) 0) (b2_buffer c)"
  let ?d = "?c\<lparr>b2_buffer := ?b\<rparr>"
  from assms have n: "?n \<le> 64" "length (b2_buffer c) = 64" by (simp_all add: blake2s_ok_def)
  have "counts ?c (t + ?n)" by (rule counts_melodi_blake2s_count [OF assms(2) n(1)])
  then have "counts ?d (t + ?n)" by (simp add: counts_def)
  then have "b2_hash (melodi_blake2s_compress ?d ?b True) = blake2s_F (b2_hash c) ?b (t + ?n) True"
    using b2_hash_compress by fastforce
  also have "\<dots> = blake2s_blocks (b2_hash c) t (take ?n (b2_buffer c))"
    using n by (simp add: blake2s_blocks.simps [of _ _ "take ?n (b2_buffer c)"] min_def poke_def)
  finally have h: "b2_hash (melodi_blake2s_compress ?d ?b True) =
    blake2s_blocks (b2_hash c) t (take ?n (b2_buffer c))" (is "?h = ?r") .
  have "melodi_blake2s_final c = concat (map (\<lambda>i. melodi_store32 (?h ! i)) [0..<8])"
    by (simp add: melodi_blake2s_final_def Let_def)
  also have "map (\<lambda>i. melodi_store32 (?h ! i)) [0..<8] = map melodi_store32 ?r"
    unfolding h by (intro nth_equalityI) simp_all
  finally show ?thesis .
qed

lemma counts_blake2s_flush: "counts c t \<Longrightarrow> counts (blake2s_flush c) (t + 64)"
  using counts_melodi_blake2s_count [of c t 64] by (simp add: counts_def blake2s_flush_def)

lemma b2_hash_blake2s_flush:
  "counts c t \<Longrightarrow> b2_hash (blake2s_flush c) = blake2s_F (b2_hash c) (b2_buffer c) (t + 64) False"
  using counts_melodi_blake2s_count [of c t 64] by (simp add: blake2s_flush_def b2_hash_compress)

lemma melodi_blake2s_final_bytes:
  assumes "blake2s_ok c" and "counts c t"
  shows "melodi_blake2s_final (foldl blake2s_byte c bs) = concat (map melodi_store32
    (blake2s_blocks (b2_hash c) t (take (b2_buffered c) (b2_buffer c) @ bs)))"
  using assms
proof (induction bs arbitrary: c t)
  case Nil
  then show ?case by (simp add: melodi_blake2s_final_blocks)
next
  case (Cons b bs)
  have ok: "blake2s_ok (blake2s_byte c b)" using Cons.prems(1) by (rule blake2s_ok_byte)
  show ?case
  proof (cases "b2_buffered c = 64")
    case True
    have c': "counts (blake2s_byte c b) (t + 64)"
      using True counts_blake2s_flush [OF Cons.prems(2)] by (simp add: counts_def blake2s_byte_def)
    have "take (b2_buffered (blake2s_byte c b)) (b2_buffer (blake2s_byte c b)) = [b]"
      using True Cons.prems(1) by (cases "b2_buffer c") (auto simp: blake2s_byte_def blake2s_ok_def)
    moreover have "b2_hash (blake2s_byte c b) = blake2s_F (b2_hash c) (b2_buffer c) (t + 64) False"
      using True b2_hash_blake2s_flush [OF Cons.prems(2)] by (simp add: blake2s_byte_def)
    moreover have "take 64 (b2_buffer c) = b2_buffer c" "drop 64 (b2_buffer c) = []"
      "length (b2_buffer c) = 64" using Cons.prems(1) by (simp_all add: blake2s_ok_def)
    ultimately show ?thesis
      using True Cons.IH [OF ok c']
      by (simp add: blake2s_blocks.simps [of "b2_hash c" t])
  next
    case False
    have c': "counts (blake2s_byte c b) t" using False Cons.prems(2) by (simp add: counts_def blake2s_byte_def)
    have "b2_buffered c < length (b2_buffer c)" using False Cons.prems(1) by (simp add: blake2s_ok_def)
    then have "take (b2_buffered (blake2s_byte c b)) (b2_buffer (blake2s_byte c b)) =
        take (b2_buffered c) (b2_buffer c) @ [b]"
      using False by (simp add: blake2s_byte_def take_Suc_conv_app_nth)
    moreover have "b2_hash (blake2s_byte c b) = b2_hash c" using False by (simp add: blake2s_byte_def)
    ultimately show ?thesis using Cons.IH [OF ok c'] by simp
  qed
qed

subsection \<open>The interface of an incremental hash\<close>

locale incremental_hash =
  fixes init :: "'c \<Rightarrow> 'c" and upd :: "'c \<Rightarrow> bytes \<Rightarrow> 'c" and fin :: "'c \<Rightarrow> bytes"
    and ok :: "'c \<Rightarrow> bool" and hash :: "bytes \<Rightarrow> bytes"
  assumes ok_init: "ok c \<Longrightarrow> ok (init c)"
    and ok_upd: "ok c \<Longrightarrow> ok (upd c bs)"
    and upd_append: "ok c \<Longrightarrow> upd (upd c as) bs = upd c (as @ bs)"
    and upd_Nil: "ok c \<Longrightarrow> upd c [] = c"
    and fin_upd: "ok c \<Longrightarrow> fin (upd (init c) bs) = hash bs"
begin

lemma foldl_upd: "ok c \<Longrightarrow> foldl upd c parts = upd c (concat parts)"
proof (induction parts rule: rev_induct)
  case Nil
  then show ?case by (simp add: upd_Nil)
next
  case (snoc p ps)
  then show ?case by (simp add: upd_append)
qed

lemma hash_parts: "ok c \<Longrightarrow> fin (foldl upd (init c) parts) = hash (concat parts)"
  by (simp add: foldl_upd ok_init fin_upd)

end

lemma blake2s_ok_init: "blake2s_ok c \<Longrightarrow> blake2s_ok (melodi_blake2s_init c)"
  by (simp add: blake2s_ok_def melodi_blake2s_init_def)

interpretation digest: incremental_hash melodi_blake2s_init melodi_blake2s_update melodi_blake2s_final
  blake2s_ok blake2s
proof
  fix c :: melodi_blake2s and as bs :: bytes
  assume ok: "blake2s_ok c"
  show "blake2s_ok (melodi_blake2s_init c)" using ok by (rule blake2s_ok_init)
  show "blake2s_ok (melodi_blake2s_update c bs)"
    using ok by (simp add: melodi_blake2s_update_bytes blake2s_ok_bytes)
  show "melodi_blake2s_update (melodi_blake2s_update c as) bs = melodi_blake2s_update c (as @ bs)"
    using ok by (simp add: melodi_blake2s_update_bytes blake2s_ok_bytes)
  show "melodi_blake2s_update c [] = c" using ok by (simp add: melodi_blake2s_update_bytes)
  have "counts (melodi_blake2s_init c) 0" by (simp add: counts_def melodi_blake2s_init_def)
  then show "melodi_blake2s_final (melodi_blake2s_update (melodi_blake2s_init c) bs) = blake2s bs"
    using ok melodi_blake2s_final_bytes [of "melodi_blake2s_init c" 0 bs]
    by (simp add: melodi_blake2s_update_bytes blake2s_ok_init blake2s_def)
       (simp add: melodi_blake2s_init_def)
qed

text \<open>
  C18. Hashing a message in pieces, through any sequence of updates on a freshly initialised
  context with a 64 byte buffer of arbitrary contents, gives the one-shot BLAKE2s of the
  concatenation of the pieces: all blocks but the last compressed in turn with the byte counter,
  the last one padded and marked final.
\<close>

theorem blake2s_incremental:
  assumes "length (b2_buffer context) = 64" and "b2_buffered context \<le> 64"
  shows "melodi_blake2s_final (foldl melodi_blake2s_update (melodi_blake2s_init context) pieces)
    = blake2s (concat pieces)"
  using assms by (intro digest.hash_parts) (simp add: blake2s_ok_def)

theorem blake2s_incremental_witness:
  "melodi_blake2s_final (foldl melodi_blake2s_update (melodi_blake2s_init
      \<lparr>b2_hash = [], b2_count0 = 5, b2_count1 = 6, b2_buffer = replicate 64 7, b2_buffered = 8\<rparr>)
      [[97], [98, 99]]) = blake2s [97, 98, 99]"
  using blake2s_incremental [of "\<lparr>b2_hash = [], b2_count0 = 5, b2_count1 = 6,
      b2_buffer = replicate 64 7, b2_buffered = 8\<rparr>" "[[97], [98, 99]]"] by simp

end
