(* ===== verification/Locators.thy ===== *)
theory Locators
  imports Blake2s "HOL-Library.List_Lexorder"
begin

text \<open>
  The locator mapping of \<open>src/proto/mapping.c\<close>: a node identity and a round number are hashed
  to a 32 bit native locator, rounds are tried until the locator is usable and free, and a set
  of nodes is resolved by sorting it by identity and assigning locators in that order. The
  lemmas show that the result is usable, minimal, free of collisions and, because all members of
  a mesh must agree on it, independent of the order in which the nodes are given.
\<close>

subsection \<open>Model\<close>

abbreviation (input) MELODI_MESH_DOMAIN_SIZE :: nat where "MELODI_MESH_DOMAIN_SIZE \<equiv> 32"
abbreviation (input) MELODI_MAPPING_SET_LIMIT :: nat where "MELODI_MAPPING_SET_LIMIT \<equiv> 64"
abbreviation (input) MELODI_U32_MAX :: u32 where "MELODI_U32_MAX \<equiv> 0xffffffff"

text \<open>\<open>struct melodi_node_id\<close> is its array of 33 bytes.\<close>

type_synonym melodi_node_id = bytes

record melodi_mapping_entry =
  entry_node_id :: melodi_node_id
  entry_native_locator :: u32
  entry_collision_round :: u32

text \<open>The standard \<open>memcmp\<close>: the sign of the first difference among the first \<open>n\<close> bytes.\<close>

fun memcmp :: "bytes \<Rightarrow> bytes \<Rightarrow> nat \<Rightarrow> int" where
  "memcmp (x # xs) (y # ys) (Suc n) = (if x = y then memcmp xs ys n else if x < y then -1 else 1)"
| "memcmp _ _ _ = 0"

definition melodi_mapping_node_valid :: "melodi_node_id \<Rightarrow> bool" where
  "melodi_mapping_node_valid node_id =
     (if node_id ! 0 \<noteq> MELODI_NODE_ID_SCHEME_ED25519 then False
      else
        let different_zero = fold (\<lambda>index acc. acc OR node_id ! index) [0..<MELODI_NODE_ID_SIZE] 0;
            different_ones = fold (\<lambda>index acc. acc OR (node_id ! index XOR 0xff)) [0..<MELODI_NODE_ID_SIZE] 0
        in different_zero \<noteq> 0 \<and> different_ones \<noteq> 0)"

text \<open>The string \<open>melodi-native-locator-v1\<close> without its terminator.\<close>

definition melodi_locator_label :: bytes where
  "melodi_locator_label =
     [109, 101, 108, 111, 100, 105, 45, 110, 97, 116, 105, 118, 101, 45,
      108, 111, 99, 97, 116, 111, 114, 45, 118, 49]"

text \<open>
  One pass of the loop of \<open>melodi_map_native_locator\<close>: the candidate of a round. The hash
  context is an uninitialised local; its contents are the argument \<open>context\<close>.
\<close>

definition melodi_locator_candidate :: "melodi_blake2s \<Rightarrow> bytes \<Rightarrow> melodi_node_id \<Rightarrow> u32 \<Rightarrow> u32" where
  "melodi_locator_candidate context domain node_id round =
     (let encoded_round = [ucast (drop_bit 24 round), ucast (drop_bit 16 round), ucast (drop_bit 8 round), ucast round];
          context = melodi_blake2s_init context;
          context = melodi_blake2s_update context melodi_locator_label;
          context = melodi_blake2s_update context domain;
          context = melodi_blake2s_update context node_id;
          context = melodi_blake2s_update context encoded_round;
          digest = melodi_blake2s_final context
      in push_bit 24 (ucast (digest ! 0)) OR push_bit 16 (ucast (digest ! 1)) OR
         push_bit 8 (ucast (digest ! 2)) OR ucast (digest ! 3))"

text \<open>
  The context at function entry: a local without an initialiser. Its value does not matter for
  the result, which is shown below; the model fixes it.
\<close>

definition melodi_blake2s_local :: melodi_blake2s where
  "melodi_blake2s_local =
     \<lparr>b2_hash = replicate 8 0, b2_count0 = 0, b2_count1 = 0, b2_buffer = replicate 64 0, b2_buffered = 0\<rparr>"

lemma unat_next_round: "round \<noteq> 0xffffffff \<Longrightarrow> unat (round + 1 :: u32) = Suc (unat round)"
proof -
  assume "round \<noteq> 0xffffffff"
  then have "unat round \<noteq> 4294967295" by (simp add: word_unat_eq_iff)
  then have "unat round + 1 < 4294967296" using unsigned_less [of round, where 'a = nat] by simp
  then show ?thesis by (simp add: unat_word_ariths)
qed

lemma round_measure: "round \<noteq> 0xffffffff \<Longrightarrow> 4294967296 - unat (round + 1 :: u32) < 4294967296 - unat round"
  using unsigned_less [of "round + 1", where 'a = nat] by (simp add: unat_next_round)

function melodi_map_native_locator_loop :: "bytes \<Rightarrow> melodi_node_id \<Rightarrow> u32 \<Rightarrow> (u32 \<times> u32) res" where
  "melodi_map_native_locator_loop domain node_id round =
     (let candidate = melodi_locator_candidate melodi_blake2s_local domain node_id round in
      if candidate \<noteq> MELODI_NATIVE_LOCATOR_INVALID \<and> candidate \<noteq> MELODI_NATIVE_LOCATOR_BROADCAST
      then Inr (candidate, round)
      else if round = MELODI_U32_MAX then Inl EOVERFLOW
      else melodi_map_native_locator_loop domain node_id (round + 1))"
  by pat_completeness auto
termination
  by (relation "measure (\<lambda>(_, _, round). 4294967296 - unat round)") (auto intro: round_measure)

declare melodi_map_native_locator_loop.simps [simp del]

definition melodi_map_native_locator :: "bytes \<Rightarrow> melodi_node_id \<Rightarrow> u32 \<Rightarrow> (u32 \<times> u32) res" where
  "melodi_map_native_locator domain node_id first_round =
     (if \<not> melodi_mapping_node_valid node_id then Inl EINVAL
      else melodi_map_native_locator_loop domain node_id first_round)"

lemma melodi_map_native_locator_round:
  "melodi_map_native_locator domain node_id first = Inr (locator, round) \<Longrightarrow> first \<le> round"
proof -
  have "melodi_map_native_locator_loop domain node_id first = Inr (locator, round) \<Longrightarrow> unat first \<le> unat round"
  proof (induction domain node_id first rule: melodi_map_native_locator_loop.induct)
    case (1 domain node_id first)
    from 1(2) show ?case
      by (subst (asm) melodi_map_native_locator_loop.simps)
         (use 1(1) in \<open>auto simp: Let_def unat_next_round split: if_splits\<close>)
  qed
  then show "melodi_map_native_locator domain node_id first = Inr (locator, round) \<Longrightarrow> first \<le> round"
    by (simp add: melodi_map_native_locator_def word_le_nat_alt split: if_splits)
qed

function melodi_map_native_locator_available_loop ::
  "bytes \<Rightarrow> melodi_node_id \<Rightarrow> u32 list \<Rightarrow> u32 \<Rightarrow> (u32 \<times> u32) res" where
  "melodi_map_native_locator_available_loop domain node_id occupied round =
     (case melodi_map_native_locator domain node_id round of
        Inl error \<Rightarrow> Inl error
      | Inr (candidate, selected) \<Rightarrow>
          if candidate \<notin> set occupied then Inr (candidate, selected)
          else if selected = MELODI_U32_MAX then Inl EOVERFLOW
          else melodi_map_native_locator_available_loop domain node_id occupied (selected + 1))"
  by pat_completeness auto
termination
proof (relation "measure (\<lambda>(_, _, _, round). 4294967296 - unat round)")
  fix domain node_id and occupied :: "u32 list" and round p candidate selected
  assume "melodi_map_native_locator domain node_id round = Inr p" "(candidate, selected) = p"
    "selected \<noteq> 0xffffffff"
  then have "unat round \<le> unat selected" "unat (selected + 1) = Suc (unat selected)"
    using melodi_map_native_locator_round [of domain node_id round candidate selected] unat_next_round
    by (auto simp: word_le_nat_alt)
  then show "((domain, node_id, occupied, selected + 1), domain, node_id, occupied, round)
      \<in> measure (\<lambda>(_, _, _, round). 4294967296 - unat round)"
    using unsigned_less [of round, where 'a = nat] by simp
qed simp

declare melodi_map_native_locator_available_loop.simps [simp del]

definition melodi_map_native_locator_available ::
  "bytes \<Rightarrow> melodi_node_id \<Rightarrow> u32 \<Rightarrow> u32 list \<Rightarrow> (u32 \<times> u32) res" where
  "melodi_map_native_locator_available domain node_id first_round occupied =
     (if MELODI_MAPPING_SET_LIMIT < length occupied then Inl EINVAL
      else melodi_map_native_locator_available_loop domain node_id occupied first_round)"

text \<open>
  \<open>melodi_resolve_collision_set\<close> on the output array \<open>entries\<close>: the inner loop that shifts
  larger entries up, the insertion of one node, the loop over the nodes, the loop that assigns
  the locators. The array is returned with the result.
\<close>

fun melodi_resolve_shift ::
  "melodi_mapping_entry list \<Rightarrow> melodi_mapping_entry \<Rightarrow> nat \<Rightarrow> melodi_mapping_entry list \<times> nat" where
  "melodi_resolve_shift entries entry 0 = (entries, 0)"
| "melodi_resolve_shift entries entry (Suc position) =
     (if memcmp (entry_node_id (entries ! position)) (entry_node_id entry) MELODI_NODE_ID_SIZE > 0
      then melodi_resolve_shift (entries[Suc position := entries ! position]) entry position
      else (entries, Suc position))"

definition melodi_resolve_insert ::
  "melodi_mapping_entry list \<Rightarrow> melodi_node_id \<Rightarrow> nat \<Rightarrow> melodi_mapping_entry list \<times> unit res" where
  "melodi_resolve_insert entries node index =
     (let entry = \<lparr>entry_node_id = node, entry_native_locator = 0, entry_collision_round = 0\<rparr>;
          (entries, position) = melodi_resolve_shift entries entry index
      in if (position \<noteq> 0 \<and>
             memcmp (entry_node_id (entries ! (position - 1))) (entry_node_id entry) MELODI_NODE_ID_SIZE = 0) \<or>
            (position < index \<and>
             memcmp (entry_node_id (entries ! position)) (entry_node_id entry) MELODI_NODE_ID_SIZE = 0)
         then (entries, Inl EEXIST)
         else (entries[position := entry], Inr ()))"

fun melodi_resolve_sort ::
  "melodi_mapping_entry list \<Rightarrow> nat \<Rightarrow> melodi_node_id list \<Rightarrow> melodi_mapping_entry list \<times> unit res" where
  "melodi_resolve_sort entries index [] = (entries, Inr ())"
| "melodi_resolve_sort entries index (node # nodes) =
     (case melodi_resolve_insert entries node index of
        (entries, Inl error) \<Rightarrow> (entries, Inl error)
      | (entries, Inr _) \<Rightarrow> melodi_resolve_sort entries (Suc index) nodes)"

fun melodi_resolve_assign ::
  "bytes \<Rightarrow> melodi_mapping_entry list \<Rightarrow> u32 list \<Rightarrow> nat \<Rightarrow> melodi_mapping_entry list \<times> unit res" where
  "melodi_resolve_assign domain entries occupied 0 = (entries, Inr ())"
| "melodi_resolve_assign domain entries occupied (Suc remaining) =
     (let index = length occupied in
      case melodi_map_native_locator_available domain (entry_node_id (entries ! index)) 0 occupied of
        Inl error \<Rightarrow> (entries, Inl error)
      | Inr (locator, round) \<Rightarrow>
          melodi_resolve_assign domain
            (entries[index := (entries ! index)
               \<lparr>entry_native_locator := locator, entry_collision_round := round\<rparr>])
            (occupied @ [locator]) remaining)"

definition melodi_resolve_collision_set ::
  "bytes \<Rightarrow> melodi_node_id list \<Rightarrow> melodi_mapping_entry list \<Rightarrow> melodi_mapping_entry list \<times> unit res" where
  "melodi_resolve_collision_set domain nodes entries =
     (if nodes = [] \<or> MELODI_MAPPING_SET_LIMIT < length nodes then (entries, Inl EINVAL)
      else case melodi_resolve_sort entries 0 nodes of
        (entries, Inl error) \<Rightarrow> (entries, Inl error)
      | (entries, Inr _) \<Rightarrow> melodi_resolve_assign domain entries [] (length nodes))"


subsection \<open>Candidates\<close>

text \<open>The locator of a node in a round, as the hash of one string.\<close>

definition round_bytes :: "u32 \<Rightarrow> bytes" where
  "round_bytes round = [ucast (drop_bit 24 round), ucast (drop_bit 16 round), ucast (drop_bit 8 round), ucast round]"

definition digest_locator :: "bytes \<Rightarrow> u32" where
  "digest_locator d = push_bit 24 (ucast (d ! 0)) OR push_bit 16 (ucast (d ! 1)) OR
     push_bit 8 (ucast (d ! 2)) OR ucast (d ! 3)"

definition locator_of :: "bytes \<Rightarrow> melodi_node_id \<Rightarrow> u32 \<Rightarrow> u32" where
  "locator_of domain node_id round =
     digest_locator (blake2s (melodi_locator_label @ domain @ node_id @ round_bytes round))"

lemma melodi_locator_candidate_hash:
  assumes "blake2s_ok context"
  shows "melodi_locator_candidate context domain node_id round = locator_of domain node_id round"
  using digest.hash_parts [OF assms, of "[melodi_locator_label, domain, node_id, round_bytes round]"]
  by (simp add: melodi_locator_candidate_def locator_of_def digest_locator_def round_bytes_def Let_def)

lemma blake2s_ok_local: "blake2s_ok melodi_blake2s_local"
  by (simp add: blake2s_ok_def melodi_blake2s_local_def)

lemmas melodi_locator_candidate_local = melodi_locator_candidate_hash [OF blake2s_ok_local]

subsection \<open>Search over the rounds\<close>

definition usable :: "u32 \<Rightarrow> bool" where
  "usable locator \<longleftrightarrow> locator \<noteq> MELODI_NATIVE_LOCATOR_INVALID \<and> locator \<noteq> MELODI_NATIVE_LOCATOR_BROADCAST"

text \<open>The result of a search for the first round from \<open>first\<close> on whose locator is acceptable.\<close>

definition first_fit :: "(u32 \<Rightarrow> u32) \<Rightarrow> (u32 \<Rightarrow> bool) \<Rightarrow> u32 \<Rightarrow> (u32 \<times> u32) res \<Rightarrow> bool" where
  "first_fit locator accept first result =
     (case result of
        Inl error \<Rightarrow> error = EOVERFLOW \<and> (\<forall>q. first \<le> q \<longrightarrow> \<not> accept (locator q))
      | Inr (l, round) \<Rightarrow> l = locator round \<and> accept l \<and> first \<le> round
          \<and> (\<forall>q. first \<le> q \<and> q < round \<longrightarrow> \<not> accept (locator q)))"

lemma next_round_le: "r \<noteq> 0xffffffff \<Longrightarrow> r + 1 \<le> q \<longleftrightarrow> r < (q :: u32)"
  by (simp add: word_le_nat_alt word_less_nat_alt unat_next_round Suc_le_eq)

lemma le_last_round: "q \<le> (0xffffffff :: u32)"
  using unsigned_less [of q, where 'a = nat] by (simp add: word_le_nat_alt)

text \<open>A search may go on after a prefix of rounds that were all refused.\<close>

lemma first_fit_resume:
  assumes "first \<le> r" "r \<noteq> 0xffffffff" "\<And>q. first \<le> q \<Longrightarrow> q \<le> r \<Longrightarrow> \<not> accept (locator q)"
    and "first_fit locator accept (r + 1) result"
  shows "first_fit locator accept first result"
proof -
  have refuse: "\<not> accept (locator q)" if "first \<le> q" "\<not> r + 1 \<le> q" for q
    using assms(3) [OF that(1)] that(2) next_round_le [OF assms(2)] by simp
  show ?thesis
  proof (cases result)
    case (Inl e)
    then have "e = EOVERFLOW" "\<And>q. r + 1 \<le> q \<Longrightarrow> \<not> accept (locator q)"
      using assms(4) by (simp_all add: first_fit_def)
    then have "e = EOVERFLOW \<and> (\<forall>q. first \<le> q \<longrightarrow> \<not> accept (locator q))" using refuse by blast
    with Inl show ?thesis by (simp add: first_fit_def)
  next
    case (Inr p)
    obtain l s where p: "p = (l, s)" by (cases p)
    have *: "l = locator s" "accept l" "r + 1 \<le> s"
      "\<And>q. r + 1 \<le> q \<Longrightarrow> q < s \<Longrightarrow> \<not> accept (locator q)"
      using assms(4) by (auto simp: first_fit_def Inr p)
    have "first \<le> s"
      using *(3) assms(1) next_round_le [OF assms(2)] by (meson less_imp_le order.trans)
    moreover have "\<forall>q. first \<le> q \<and> q < s \<longrightarrow> \<not> accept (locator q)" using refuse *(4) by blast
    ultimately show ?thesis using *(1,2) by (simp add: first_fit_def Inr p)
  qed
qed

lemma first_fit_exhausted:
  assumes "first \<le> 0xffffffff" "\<And>q. first \<le> q \<Longrightarrow> q \<le> 0xffffffff \<Longrightarrow> \<not> accept (locator q)"
  shows "first_fit locator accept first (Inl EOVERFLOW)"
  using assms le_last_round by (auto simp: first_fit_def)

lemma first_fit_unique:
  "first_fit locator accept first a \<Longrightarrow> first_fit locator accept first b \<Longrightarrow> a = b"
  unfolding first_fit_def
  by (auto split: sum.splits prod.splits) (metis linorder_neqE)+

lemma melodi_map_native_locator_loop_first_fit:
  "first_fit (locator_of domain node_id) usable round (melodi_map_native_locator_loop domain node_id round)"
proof (induction domain node_id round rule: melodi_map_native_locator_loop.induct)
  case (1 domain node_id round)
  let ?l = "locator_of domain node_id round"
  note cand = melodi_locator_candidate_local
  show ?case
  proof (cases "usable ?l")
    case True
    then show ?thesis
      by (subst melodi_map_native_locator_loop.simps)
         (auto simp: cand usable_def first_fit_def Let_def)
  next
    case False
    then have refused: "\<not> (?l \<noteq> 0 \<and> ?l \<noteq> 0xffffffff)" by (simp add: usable_def)
    have only: "\<not> usable (locator_of domain node_id q)" if "round \<le> q" "q \<le> round" for q
      using that False by simp
    show ?thesis
    proof (cases "round = 0xffffffff")
      case True
      with refused show ?thesis
        by (subst melodi_map_native_locator_loop.simps)
           (use only in \<open>auto simp: cand Let_def intro!: first_fit_exhausted\<close>)
    next
      case more: False
      with refused have "melodi_map_native_locator_loop domain node_id round =
          melodi_map_native_locator_loop domain node_id (round + 1)"
        by (subst melodi_map_native_locator_loop.simps) (auto simp: cand Let_def)
      moreover from 1 [OF refl] refused more have
        "first_fit (locator_of domain node_id) usable (round + 1)
           (melodi_map_native_locator_loop domain node_id (round + 1))" by (simp add: cand)
      ultimately show ?thesis
        using first_fit_resume [of round round usable "locator_of domain node_id"] more only by simp
    qed
  qed
qed

lemma melodi_map_native_locator_available_loop_first_fit:
  assumes "melodi_mapping_node_valid node_id"
  shows "first_fit (locator_of domain node_id) (\<lambda>l. usable l \<and> l \<notin> set occupied) round
    (melodi_map_native_locator_available_loop domain node_id occupied round)"
  using assms
proof (induction domain node_id occupied round rule: melodi_map_native_locator_available_loop.induct)
  case (1 domain node_id occupied round)
  let ?m = "melodi_map_native_locator domain node_id round"
  let ?accept = "\<lambda>l. usable l \<and> l \<notin> set occupied"
  have fit: "first_fit (locator_of domain node_id) usable round ?m"
    using 1(2) melodi_map_native_locator_loop_first_fit by (simp add: melodi_map_native_locator_def)
  note loop = melodi_map_native_locator_available_loop.simps [of domain node_id occupied round]
  show ?case
  proof (cases ?m)
    case (Inl e)
    with fit show ?thesis by (simp add: loop first_fit_def)
  next
    case (Inr p)
    obtain l r where p: "p = (l, r)" by (cases p)
    have lr: "l = locator_of domain node_id r" "usable l" "round \<le> r"
      "\<And>q. round \<le> q \<Longrightarrow> q < r \<Longrightarrow> \<not> usable (locator_of domain node_id q)"
      using fit by (auto simp: Inr p first_fit_def)
    show ?thesis
    proof (cases "l \<in> set occupied")
      case False
      with lr show ?thesis by (auto simp: loop Inr p first_fit_def)
    next
      case True
      have refuse: "\<not> ?accept (locator_of domain node_id q)" if "round \<le> q" "q \<le> r" for q
        using that lr True by (cases "q = r") auto
      show ?thesis
      proof (cases "r = 0xffffffff")
        case last: True
        with True lr refuse show ?thesis
          by (auto simp: loop Inr p intro!: first_fit_exhausted)
      next
        case False
        have "first_fit (locator_of domain node_id) ?accept (r + 1)
            (melodi_map_native_locator_available_loop domain node_id occupied (r + 1))"
          using 1(1) [OF Inr p [symmetric]] True False 1(2) by simp
        with first_fit_resume [of round r ?accept "locator_of domain node_id"] lr(3) refuse True False
        show ?thesis by (simp add: loop Inr p)
      qed
    qed
  qed
qed


subsection \<open>Sorting by identity\<close>

lemma memcmp_order:
  "length xs = n \<Longrightarrow> length ys = n \<Longrightarrow>
    (memcmp xs ys n = 0 \<longleftrightarrow> xs = ys) \<and> (memcmp xs ys n > 0 \<longleftrightarrow> ys < xs)"
proof (induction xs ys n rule: memcmp.induct)
  case (1 x xs y ys n)
  then show ?case by auto
qed auto

abbreviation blank :: "melodi_node_id \<Rightarrow> melodi_mapping_entry" where
  "blank node \<equiv> \<lparr>entry_node_id = node, entry_native_locator = 0, entry_collision_round = 0\<rparr>"

lemma melodi_resolve_shift_le: "melodi_resolve_shift E e p = (E', q) \<Longrightarrow> q \<le> p"
  by (induction E e p rule: melodi_resolve_shift.induct) (auto split: if_splits)

text \<open>The shift loop opens a slot; writing the entry there is an insertion.\<close>

lemma melodi_resolve_shift_insert:
  assumes "p < length E"
    and "\<forall>i<p. length (entry_node_id (E ! i)) = 33" and "length (entry_node_id e) = 33"
  obtains q E' where "melodi_resolve_shift E e p = (E', q)" "q \<le> p" "length E' = length E"
    and "\<forall>i<q. E' ! i = E ! i" "q < p \<longrightarrow> E' ! q = E ! q"
    and "E'[q := e] = take q E @ e # drop q (take p E) @ drop (Suc p) E"
    and "0 < q \<longrightarrow> entry_node_id (E ! (q - 1)) \<le> entry_node_id e"
    and "\<forall>i. q \<le> i \<and> i < p \<longrightarrow> entry_node_id e < entry_node_id (E ! i)"
proof -
  have "\<exists>q E'. melodi_resolve_shift E e p = (E', q) \<and> q \<le> p \<and> length E' = length E
    \<and> (\<forall>i<q. E' ! i = E ! i) \<and> (q < p \<longrightarrow> E' ! q = E ! q)
    \<and> E'[q := e] = take q E @ e # drop q (take p E) @ drop (Suc p) E
    \<and> (0 < q \<longrightarrow> entry_node_id (E ! (q - 1)) \<le> entry_node_id e)
    \<and> (\<forall>i. q \<le> i \<and> i < p \<longrightarrow> entry_node_id e < entry_node_id (E ! i))"
    using assms(1,2)
  proof (induction p arbitrary: E)
    case 0
    then show ?case by (simp add: upd_conv_take_nth_drop)
  next
    case (Suc p)
    have cmp: "memcmp (entry_node_id (E ! p)) (entry_node_id e) 33 > 0 \<longleftrightarrow>
        entry_node_id e < entry_node_id (E ! p)"
      using Suc.prems(2) assms(3) memcmp_order by simp
    show ?case
    proof (cases "entry_node_id e < entry_node_id (E ! p)")
      case True
      let ?F = "E[Suc p := E ! p]"
      obtain q E' where q: "melodi_resolve_shift ?F e p = (E', q)" "q \<le> p" "length E' = length ?F"
        "\<forall>i<q. E' ! i = ?F ! i" "q < p \<longrightarrow> E' ! q = ?F ! q"
        "E'[q := e] = take q ?F @ e # drop q (take p ?F) @ drop (Suc p) ?F"
        "0 < q \<longrightarrow> entry_node_id (?F ! (q - 1)) \<le> entry_node_id e"
        "\<forall>i. q \<le> i \<and> i < p \<longrightarrow> entry_node_id e < entry_node_id (?F ! i)"
        using Suc.IH [of ?F] Suc.prems by auto
      have same: "?F ! i = E ! i" if "i \<le> p" for i using that by simp
      have "E' ! q = E ! q" if "q = p"
      proof -
        have "melodi_resolve_shift ?F e p = (E', p)" using q(1) that by simp
        then have "E' = ?F"
          by (cases p) (auto split: if_splits dest: melodi_resolve_shift_le)
        with that show ?thesis by simp
      qed
      moreover have "drop q (take p E) @ drop (Suc p) ?F = drop q (take (Suc p) E) @ drop (Suc (Suc p)) E"
        using Suc.prems(1) q(2) by (simp add: take_Suc_conv_app_nth Cons_nth_drop_Suc [symmetric])
      ultimately show ?thesis
        using True cmp q same
        by (intro exI [of _ q] exI [of _ E']) (auto simp: less_Suc_eq)
    next
      case False
      then show ?thesis
        using Suc.prems cmp
        by (intro exI [of _ "Suc p"] exI [of _ E]) (auto simp: upd_conv_take_nth_drop not_less)
    qed
  qed
  then show thesis by (elim exE conjE) (rule that)
qed

text \<open>
  Inserting a node into the sorted prefix of length \<open>index\<close>: refused if it is there already,
  otherwise the prefix stays sorted.
\<close>

lemma strict_sorted_insert:
  assumes "sorted_wrt (<) xs" "q \<le> length xs" "\<forall>i<q. xs ! i < x" "\<forall>i. q \<le> i \<and> i < length xs \<longrightarrow> x < xs ! i"
  shows "sorted_wrt (<) (take q xs @ x # drop q (xs :: 'a :: linorder list))"
proof -
  have "\<forall>y\<in>set (take q xs). y < x" using assms(3) by (auto simp: in_set_conv_nth)
  moreover have "\<forall>y\<in>set (drop q xs). x < y" using assms(2,4) by (auto simp: in_set_conv_nth)
  moreover have "sorted_wrt (<) (take q xs)" "sorted_wrt (<) (drop q xs)"
    using assms(1) by (simp_all add: sorted_wrt_take sorted_wrt_drop)
  ultimately show ?thesis by (fastforce simp: sorted_wrt_append)
qed

lemma melodi_resolve_insert_prefix:
  assumes prefix: "take (length xs) E = map blank xs" "length xs < length E"
    and xs: "sorted_wrt (<) xs" "\<forall>x\<in>set xs. length x = 33" and node: "length node = 33"
  shows "node \<in> set xs \<Longrightarrow> snd (melodi_resolve_insert E node (length xs)) = Inl EEXIST"
    and "node \<notin> set xs \<Longrightarrow> \<exists>E' ys. melodi_resolve_insert E node (length xs) = (E', Inr ())
      \<and> length E' = length E \<and> take (length ys) E' = map blank ys
      \<and> sorted_wrt (<) ys \<and> set ys = insert node (set xs) \<and> length ys = Suc (length xs)"
proof -
  let ?n = "length xs" and ?e = "blank node"
  have nth: "E ! i = blank (xs ! i)" if "i < ?n" for i
    using that prefix(1) by (metis nth_map nth_take)
  obtain q E' where q: "melodi_resolve_shift E ?e ?n = (E', q)" "q \<le> ?n" "length E' = length E"
    "\<forall>i<q. E' ! i = E ! i" "q < ?n \<longrightarrow> E' ! q = E ! q"
    "E'[q := ?e] = take q E @ ?e # drop q (take ?n E) @ drop (Suc ?n) E"
    "0 < q \<longrightarrow> entry_node_id (E ! (q - 1)) \<le> node" "\<forall>i. q \<le> i \<and> i < ?n \<longrightarrow> node < entry_node_id (E ! i)"
    by (rule melodi_resolve_shift_insert [OF prefix(2), of ?e]) (use nth xs(2) node in auto)
  have above: "\<forall>i. q \<le> i \<and> i < ?n \<longrightarrow> node < xs ! i" using q(8) nth by simp
  have last: "0 < q \<longrightarrow> xs ! (q - 1) \<le> node" using q(2,7) nth by (cases q) auto
  have dup: "memcmp (entry_node_id (E' ! (q - 1))) node 33 = 0 \<longleftrightarrow> xs ! (q - 1) = node" if "0 < q"
    using that q(2,4) nth [of "q - 1"] xs(2) node memcmp_order by (cases q) auto
  have dead: "memcmp (entry_node_id (E' ! q)) node 33 \<noteq> 0" if "q < ?n"
    using that q(5) nth [of q] xs(2) node memcmp_order [of "xs ! q" 33 node] above by auto
  have insert: "melodi_resolve_insert E node ?n =
      (if 0 < q \<and> xs ! (q - 1) = node then (E', Inl EEXIST) else (E'[q := ?e], Inr ()))"
    using q(1) dup dead
    by (cases "q < ?n"; cases "q = 0") (simp_all add: melodi_resolve_insert_def Let_def)
  have below: "xs ! i < node" if "i < q" "\<not> (0 < q \<and> xs ! (q - 1) = node)" for i
  proof -
    have "xs ! i \<le> xs ! (q - 1)"
    proof (cases "i = q - 1")
      case False
      then have "i < q - 1" "q - 1 < length xs" using that(1) q(2) by auto
      then show ?thesis using sorted_wrt_nth_less [OF xs(1)] by (auto intro: less_imp_le)
    qed simp
    moreover have "0 < q" using that(1) by simp
    then have "xs ! (q - 1) < node" using that(2) last by auto
    ultimately show ?thesis by (rule le_less_trans)
  qed
  have mem: "node \<in> set xs \<longleftrightarrow> 0 < q \<and> xs ! (q - 1) = node"
  proof
    assume "node \<in> set xs"
    then obtain i where "i < ?n" "xs ! i = node" by (auto simp: in_set_conv_nth)
    with above below show "0 < q \<and> xs ! (q - 1) = node" by (metis less_irrefl not_less)
  next
    assume "0 < q \<and> xs ! (q - 1) = node"
    with q(2) show "node \<in> set xs" by (metis Suc_diff_1 Suc_le_lessD nth_mem)
  qed
  show "node \<in> set xs \<Longrightarrow> snd (melodi_resolve_insert E node ?n) = Inl EEXIST"
    by (simp add: insert mem)
  assume new: "node \<notin> set xs"
  let ?ys = "take q xs @ node # drop q xs"
  have "take q E = take q (take ?n E)" using q(2) by (simp add: min_def)
  then have "take q E = map blank (take q xs)" by (simp only: prefix(1) take_map)
  then have "E'[q := ?e] = map blank ?ys @ drop (Suc ?n) E"
    unfolding q(6) prefix(1) by (simp add: drop_map)
  then have pre: "take (length ?ys) (E'[q := ?e]) = map blank ?ys"
    by (metis append_eq_conv_conj length_map)
  have sort: "sorted_wrt (<) ?ys"
    using strict_sorted_insert [OF xs(1) q(2)] above below new mem by blast
  have set: "set ?ys = insert node (set xs)"
    using set_append [of "take q xs" "drop q xs"] by (simp del: set_append) auto
  have len: "length ?ys = Suc ?n" using q(2) by simp
  have ins: "melodi_resolve_insert E node ?n = (E'[q := ?e], Inr ())" "length (E'[q := ?e]) = length E"
    using insert mem new q(3) by auto
  show "\<exists>E' ys. melodi_resolve_insert E node ?n = (E', Inr ())
      \<and> length E' = length E \<and> take (length ys) E' = map blank ys
      \<and> sorted_wrt (<) ys \<and> set ys = insert node (set xs) \<and> length ys = Suc ?n"
    by (intro exI conjI) (fact ins pre sort set len)+
qed

lemma melodi_resolve_sort_prefix:
  assumes "take (length xs) E = map blank xs" "length xs + length nodes \<le> length E"
    and "sorted_wrt (<) xs" "\<forall>x\<in>set xs \<union> set nodes. length x = 33"
  shows "(\<not> (distinct nodes \<and> set xs \<inter> set nodes = {}) \<longrightarrow>
        snd (melodi_resolve_sort E (length xs) nodes) = Inl EEXIST)
    \<and> (distinct nodes \<and> set xs \<inter> set nodes = {} \<longrightarrow>
        (\<exists>E' ys. melodi_resolve_sort E (length xs) nodes = (E', Inr ()) \<and> length E' = length E
          \<and> take (length ys) E' = map blank ys \<and> sorted_wrt (<) ys
          \<and> set ys = set xs \<union> set nodes \<and> length ys = length xs + length nodes))"
  using assms
proof (induction nodes arbitrary: xs E)
  case (Cons node nodes)
  note insert = melodi_resolve_insert_prefix [OF Cons.prems(1) _ Cons.prems(3), of node]
  show ?case
  proof (cases "node \<in> set xs")
    case True
    with insert(1) Cons.prems(2,4) have "snd (melodi_resolve_insert E node (length xs)) = Inl EEXIST" by simp
    then have "snd (melodi_resolve_sort E (length xs) (node # nodes)) = Inl EEXIST"
      by (cases "melodi_resolve_insert E node (length xs)") auto
    with True show ?thesis by simp
  next
    case False
    with insert(2) Cons.prems(2,4) obtain F ys where
      ins: "melodi_resolve_insert E node (length xs) = (F, Inr ())" "length F = length E"
        "take (length ys) F = map blank ys" "sorted_wrt (<) ys" "set ys = insert node (set xs)"
        "length ys = Suc (length xs)" by auto
    have "length ys + length nodes \<le> length F" "\<forall>x\<in>set ys \<union> set nodes. length x = 33"
      using ins Cons.prems(2,4) by auto
    note IH = Cons.IH [OF ins(3) this(1) ins(4) this(2)]
    have step: "melodi_resolve_sort E (length xs) (node # nodes) = melodi_resolve_sort F (length ys) nodes"
      using ins by simp
    have cond: "distinct (node # nodes) \<and> set xs \<inter> set (node # nodes) = {} \<longleftrightarrow>
        distinct nodes \<and> set ys \<inter> set nodes = {}" using ins(5) False by auto
    show ?thesis unfolding step cond using IH ins by auto
  qed
qed (auto intro: exI)

subsection \<open>Assigning locators in turn\<close>

text \<open>
  The specification of the assignment over any allocator, and what an allocator that only hands
  out fresh usable locators guarantees for it.
\<close>

fun assign_list :: "('n \<Rightarrow> u32 list \<Rightarrow> (u32 \<times> u32) res) \<Rightarrow> u32 list \<Rightarrow> 'n list \<Rightarrow> ('n \<times> u32 \<times> u32) list res" where
  "assign_list alloc occupied [] = Inr []"
| "assign_list alloc occupied (n # ns) =
     (case alloc n occupied of
        Inl error \<Rightarrow> Inl error
      | Inr (l, r) \<Rightarrow>
          (case assign_list alloc (occupied @ [l]) ns of
             Inl error \<Rightarrow> Inl error
           | Inr es \<Rightarrow> Inr ((n, l, r) # es)))"

locale locator_allocator =
  fixes alloc :: "'n \<Rightarrow> u32 list \<Rightarrow> (u32 \<times> u32) res"
  assumes alloc_fresh: "alloc n occupied = Inr (l, r) \<Longrightarrow> usable l \<and> l \<notin> set occupied"
begin

lemma assigned:
  "assign_list alloc occupied ns = Inr es \<Longrightarrow>
    map fst es = ns \<and> distinct (map (fst \<circ> snd) es) \<and> set (map (fst \<circ> snd) es) \<inter> set occupied = {}
    \<and> (\<forall>(n, l, r)\<in>set es. usable l)"
proof (induction ns arbitrary: occupied es)
  case (Cons n ns)
  then obtain l r fs where a: "alloc n occupied = Inr (l, r)" "assign_list alloc (occupied @ [l]) ns = Inr fs"
    "es = (n, l, r) # fs" by (auto split: sum.splits)
  from Cons.IH [OF a(2)] alloc_fresh [OF a(1)] a(3) show ?case by auto
qed simp

end

definition melodi_allocate :: "bytes \<Rightarrow> melodi_node_id \<Rightarrow> u32 list \<Rightarrow> (u32 \<times> u32) res" where
  "melodi_allocate domain node occupied = melodi_map_native_locator_available domain node 0 occupied"

lemma melodi_map_native_locator_available_valid:
  "melodi_map_native_locator_available domain node first occupied = Inr p \<Longrightarrow> melodi_mapping_node_valid node"
  by (auto simp: melodi_map_native_locator_available_def melodi_map_native_locator_def
      melodi_map_native_locator_available_loop.simps [of domain node] split: if_splits)

interpretation available: locator_allocator "melodi_allocate domain" for domain
proof
  fix n occupied l r
  assume a: "melodi_allocate domain n occupied = Inr (l, r)"
  then have "melodi_mapping_node_valid n"
    unfolding melodi_allocate_def by (rule melodi_map_native_locator_available_valid)
  from melodi_map_native_locator_available_loop_first_fit [OF this, of domain occupied 0] a
  show "usable l \<and> l \<notin> set occupied"
    by (auto simp: melodi_allocate_def melodi_map_native_locator_available_def first_fit_def split: if_splits)
qed

abbreviation filled :: "melodi_node_id \<times> u32 \<times> u32 \<Rightarrow> melodi_mapping_entry" where
  "filled e \<equiv> \<lparr>entry_node_id = fst e, entry_native_locator = fst (snd e), entry_collision_round = snd (snd e)\<rparr>"

lemma melodi_resolve_assign_list:
  assumes "length occupied + length ns \<le> length E"
    and "map entry_node_id (chunk (length occupied) (length ns) E) = ns"
  shows "case assign_list (melodi_allocate domain) occupied ns of
      Inl error \<Rightarrow> snd (melodi_resolve_assign domain E occupied (length ns)) = Inl error
    | Inr es \<Rightarrow> melodi_resolve_assign domain E occupied (length ns) =
        (take (length occupied) E @ map filled es @ drop (length occupied + length ns) E, Inr ())"
  using assms
proof (induction ns arbitrary: occupied E)
  case (Cons n ns)
  let ?i = "length occupied"
  have i: "?i < length E" using Cons.prems(1) by simp
  have ch: "chunk ?i (Suc (length ns)) E = E ! ?i # chunk (Suc ?i) (length ns) E"
    using i by (simp add: chunk_def Cons_nth_drop_Suc [symmetric])
  have n: "entry_node_id (E ! ?i) = n" and rest: "map entry_node_id (chunk (Suc ?i) (length ns) E) = ns"
    using Cons.prems(2) ch by simp_all
  show ?case
  proof (cases "melodi_allocate domain n occupied")
    case (Inl e)
    then show ?thesis using n by (simp add: melodi_allocate_def)
  next
    case (Inr p)
    obtain l r where p: "p = (l, r)" by (cases p)
    let ?e = "(E ! ?i)\<lparr>entry_native_locator := l, entry_collision_round := r\<rparr>"
    have e: "?e = filled (n, l, r)" using n by (cases "E ! ?i") auto
    have "chunk (Suc ?i) (length ns) (E[?i := ?e]) = chunk (Suc ?i) (length ns) E" by (simp add: chunk_def)
    with Cons.IH [of "occupied @ [l]" "E[?i := ?e]"] Cons.prems(1) rest
    show ?thesis
      using Inr p n e i
      by (auto simp: melodi_allocate_def take_Suc_conv_app_nth Let_def split: sum.splits)
  qed
qed (simp add: chunk_def)


subsection \<open>The resolution of a set\<close>

lemma sorted_wrt_unique:
  assumes "sorted_wrt (<) xs" "sorted_wrt (<) ys" "set xs = set ys"
  shows "xs = (ys :: 'a :: linorder list)"
  using assms by (intro sorted_distinct_set_unique) (auto simp: strict_sorted_iff)

text \<open>The result of a resolution: the entries it fills, or its error.\<close>

definition resolution :: "bytes \<Rightarrow> melodi_node_id list \<Rightarrow> melodi_mapping_entry list \<Rightarrow> melodi_mapping_entry list res" where
  "resolution domain nodes entries =
     (case melodi_resolve_collision_set domain nodes entries of
        (entries', Inl error) \<Rightarrow> Inl error
      | (entries', Inr _) \<Rightarrow> Inr (take (length nodes) entries'))"

lemma resolution_sorted:
  assumes "length nodes \<le> length E" "\<forall>n\<in>set nodes. length n = 33"
  shows "resolution domain nodes E =
    (if nodes = [] \<or> 64 < length nodes then Inl EINVAL
     else if \<not> distinct nodes then Inl EEXIST
     else case assign_list (melodi_allocate domain) [] (sort nodes) of
       Inl error \<Rightarrow> Inl error
     | Inr es \<Rightarrow> Inr (map filled es))"
proof -
  consider (bad) "nodes = [] \<or> 64 < length nodes" | (dup) "\<not> (nodes = [] \<or> 64 < length nodes)" "\<not> distinct nodes"
    | (ok) "\<not> (nodes = [] \<or> 64 < length nodes)" "distinct nodes" by blast
  then show ?thesis
  proof cases
    case bad
    then show ?thesis by (simp add: resolution_def melodi_resolve_collision_set_def)
  next
    case dup
    with melodi_resolve_sort_prefix [of "[]" E nodes] assms
    have "snd (melodi_resolve_sort E 0 nodes) = Inl EEXIST" by simp
    with dup show ?thesis
      by (cases "melodi_resolve_sort E 0 nodes") (simp add: resolution_def melodi_resolve_collision_set_def)
  next
    case ok
    with melodi_resolve_sort_prefix [of "[]" E nodes] assms obtain E' ys where
      sort: "melodi_resolve_sort E 0 nodes = (E', Inr ())" "length E' = length E"
        "take (length ys) E' = map blank ys" "sorted_wrt (<) ys" "set ys = set nodes" "length ys = length nodes"
      by auto
    have ys: "ys = sort nodes"
      using sort(4,5) ok(2) by (intro sorted_wrt_unique) (auto simp: strict_sorted_iff)
    have ch: "map entry_node_id (chunk 0 (length ys) E') = ys"
      by (simp add: chunk_def sort(3) comp_def)
    have "0 + length ys \<le> length E'" using sort(2,6) assms(1) by simp
    from melodi_resolve_assign_list [of "[]" ys E' domain] this ch
    have assign: "case assign_list (melodi_allocate domain) [] ys of
        Inl error \<Rightarrow> snd (melodi_resolve_assign domain E' [] (length ys)) = Inl error
      | Inr es \<Rightarrow> melodi_resolve_assign domain E' [] (length ys) = (map filled es @ drop (length ys) E', Inr ())"
      by (simp cong: sum.case_cong)
    have res: "resolution domain nodes E =
        (case melodi_resolve_assign domain E' [] (length ys) of
           (F, Inl error) \<Rightarrow> Inl error | (F, Inr _) \<Rightarrow> Inr (take (length ys) F))"
      unfolding sort(6) using ok sort(1) by (simp add: resolution_def melodi_resolve_collision_set_def)
    show ?thesis
    proof (cases "assign_list (melodi_allocate domain) [] ys")
      case (Inl e)
      with assign have "snd (melodi_resolve_assign domain E' [] (length ys)) = Inl e" by simp
      with res ok ys Inl show ?thesis
        by (cases "melodi_resolve_assign domain E' [] (length ys)") simp
    next
      case (Inr es)
      then have "length es = length ys" using available.assigned [OF Inr] by (metis length_map)
      with assign res ok ys Inr show ?thesis by simp
    qed
  qed
qed


subsection \<open>Properties\<close>

text \<open>
  The locator of a valid node is the hash of label, domain, identity and round, taken in the
  first round from \<open>first_round\<close> on in which it is neither the invalid nor the broadcast
  locator; the search fails only if no round up to the last one qualifies.
\<close>

lemma locator_first_usable:
  assumes "melodi_mapping_node_valid node_id"
  shows "case melodi_map_native_locator domain node_id first_round of
      Inl error \<Rightarrow> error = EOVERFLOW \<and> (\<forall>q. first_round \<le> q \<longrightarrow> \<not> usable (locator_of domain node_id q))
    | Inr (locator, round) \<Rightarrow> locator = locator_of domain node_id round \<and> usable locator \<and> first_round \<le> round
        \<and> (\<forall>q. first_round \<le> q \<and> q < round \<longrightarrow> \<not> usable (locator_of domain node_id q))"
  using melodi_map_native_locator_loop_first_fit [of domain node_id first_round] assms
  by (simp add: melodi_map_native_locator_def first_fit_def)

definition sample_node :: "u8 \<Rightarrow> melodi_node_id" where
  "sample_node b = 1 # replicate 32 b"

lemma sample_node_valid: "melodi_mapping_node_valid (sample_node 2)" "melodi_mapping_node_valid (sample_node 3)"
  by code_simp+

text \<open>
  C19. The same with at most 64 locators taken: the locator found is usable and not among them,
  and it is the first such one.
\<close>

theorem locator_first_available:
  assumes "melodi_mapping_node_valid node_id" and "length occupied \<le> 64"
  shows "first_fit (locator_of domain node_id) (\<lambda>l. usable l \<and> l \<notin> set occupied) first_round
    (melodi_map_native_locator_available domain node_id first_round occupied)"
  using melodi_map_native_locator_available_loop_first_fit [OF assms(1), of domain occupied first_round] assms(2)
  by (simp add: melodi_map_native_locator_available_def)

theorem locator_first_available_witness:
  "first_fit (locator_of (replicate 32 0) (sample_node 2)) (\<lambda>l. usable l \<and> l \<notin> set [7]) 0
    (melodi_map_native_locator_available (replicate 32 0) (sample_node 2) 0 [7])"
  by (rule locator_first_available [OF sample_node_valid(1)]) simp

text \<open>
  C20. A resolved set contains exactly the given nodes, in strictly increasing order of their
  identities, with usable and pairwise different locators.
\<close>

theorem resolution_collision_free:
  assumes "length nodes \<le> length entries" and "\<forall>n\<in>set nodes. length n = 33"
  shows "case melodi_resolve_collision_set domain nodes entries of
      (entries', Inl error) \<Rightarrow> True
    | (entries', Inr _) \<Rightarrow>
        (let es = take (length nodes) entries'
         in length es = length nodes \<and> set (map entry_node_id es) = set nodes
            \<and> sorted_wrt (<) (map entry_node_id es)
            \<and> distinct (map entry_native_locator es)
            \<and> (\<forall>e\<in>set es. usable (entry_native_locator e)))"
proof (cases "snd (melodi_resolve_collision_set domain nodes entries)")
  case (Inl e)
  then show ?thesis by (auto split: prod.splits sum.splits)
next
  case (Inr u)
  obtain F where F: "melodi_resolve_collision_set domain nodes entries = (F, Inr u)"
    using Inr by (cases "melodi_resolve_collision_set domain nodes entries") auto
  then have "resolution domain nodes entries = Inr (take (length nodes) F)" by (simp add: resolution_def)
  with resolution_sorted [OF assms, of domain] obtain es where
    es: "assign_list (melodi_allocate domain) [] (sort nodes) = Inr es" "take (length nodes) F = map filled es"
    and d: "distinct nodes" by (auto split: if_splits sum.splits)
  have a: "map fst es = sort nodes" "distinct (map (fst \<circ> snd) es)" "\<forall>(n, l, r)\<in>set es. usable l"
    using available.assigned [OF es(1)] by auto
  have ids: "map entry_node_id (map filled es) = sort nodes" using a(1) by (simp add: comp_def)
  have "length (map filled es) = length nodes" using arg_cong [OF a(1), of length] by simp
  moreover have "set (map entry_node_id (map filled es)) = set nodes" unfolding ids by simp
  moreover have "sorted_wrt (<) (map entry_node_id (map filled es))"
    unfolding ids using d by (simp add: strict_sorted_iff)
  moreover have "distinct (map entry_native_locator (map filled es))" using a(2) by (simp add: comp_def)
  moreover have "\<forall>e\<in>set (map filled es). usable (entry_native_locator e)" using a(3) by auto
  ultimately show ?thesis
    unfolding F es(2) Let_def prod.case sum.case by (intro conjI)
qed

theorem resolution_collision_free_witness:
  "case melodi_resolve_collision_set (replicate 32 0) [sample_node 3, sample_node 2] (replicate 2 (blank [])) of
      (entries', Inl error) \<Rightarrow> True
    | (entries', Inr _) \<Rightarrow> sorted_wrt (<) (map entry_node_id (take 2 entries'))
        \<and> distinct (map entry_native_locator (take 2 entries'))"
  using resolution_collision_free [of "[sample_node 3, sample_node 2]" "replicate 2 (blank [])" "replicate 32 0"]
  by (simp add: sample_node_def Let_def eval_nat_numeral(2-3) split: prod.splits sum.splits)

text \<open>
  C21. All members of a mesh derive the same mapping: the outcome of a resolution depends only on
  which nodes are given, not on their order nor on the previous contents of the output array.
\<close>

theorem resolution_order_independent:
  assumes "set nodes = set nodes'" and "length nodes = length nodes'"
    and "length nodes \<le> length entries" "length nodes' \<le> length entries'"
    and "\<forall>n\<in>set nodes. length n = 33"
  shows "resolution domain nodes entries = resolution domain nodes' entries'"
proof -
  have len: "\<forall>n\<in>set nodes'. length n = 33" using assms by simp
  have dist: "distinct nodes = distinct nodes'"
    using assms(1,2) by (metis card_distinct distinct_card)
  have sort: "sort nodes = sort nodes'" if "distinct nodes"
    using that dist assms(1) by (intro sorted_distinct_set_unique) auto
  show ?thesis
    unfolding resolution_sorted [OF assms(3,5)] resolution_sorted [OF assms(4) len]
    using assms(2) dist sort by (cases "distinct nodes") auto
qed

theorem resolution_order_independent_witness:
  "resolution (replicate 32 0) [sample_node 3, sample_node 2] (replicate 2 (blank [])) =
   resolution (replicate 32 0) [sample_node 2, sample_node 3] (replicate 2 (blank [9]))"
  by (rule resolution_order_independent) (auto simp: sample_node_def)



end
