(* ===== verification/Wire.thy ===== *)
theory Wire
  imports Prelude
begin

text \<open>
  The frame codecs of \<open>src/proto/wire.c\<close>: a common header of 40 octets followed by the part of
  one of the frame classes. Encoders write into a caller's buffer at fixed offsets, decoders
  read at the same offsets and check every field. The lemmas show that encoding and decoding
  are inverse in both directions, so that a frame has exactly one encoding, and that no frame
  is accepted by the decoders of two classes.
\<close>

subsection \<open>Integers in network byte order\<close>

definition melodi_wire_get16 :: "bytes \<Rightarrow> u16" where
  "melodi_wire_get16 input = push_bit 8 (ucast (input ! 0)) OR ucast (input ! 1)"

definition melodi_wire_get32 :: "bytes \<Rightarrow> u32" where
  "melodi_wire_get32 input =
     push_bit 24 (ucast (input ! 0)) OR push_bit 16 (ucast (input ! 1)) OR
     push_bit 8 (ucast (input ! 2)) OR ucast (input ! 3)"

definition melodi_wire_get64 :: "bytes \<Rightarrow> u64" where
  "melodi_wire_get64 input =
     push_bit 32 (ucast (melodi_wire_get32 input)) OR ucast (melodi_wire_get32 (drop 4 input))"

text \<open>The octets a \<open>put\<close> function stores at its output pointer.\<close>

definition melodi_wire_put16 :: "u16 \<Rightarrow> bytes" where
  "melodi_wire_put16 val = [ucast (drop_bit 8 val), ucast val]"

definition melodi_wire_put32 :: "u32 \<Rightarrow> bytes" where
  "melodi_wire_put32 val =
     [ucast (drop_bit 24 val), ucast (drop_bit 16 val), ucast (drop_bit 8 val), ucast val]"

definition melodi_wire_put64 :: "u64 \<Rightarrow> bytes" where
  "melodi_wire_put64 val = melodi_wire_put32 (ucast (drop_bit 32 val)) @ melodi_wire_put32 (ucast val)"

lemma melodi_wire_get32_put32: "melodi_wire_get32 (melodi_wire_put32 v @ ys) = v"
  by (simp add: melodi_wire_get32_def melodi_wire_put32_def ucast_u32_split)

lemma melodi_wire_put32_get32: "melodi_wire_put32 (melodi_wire_get32 (a # b # c # d # ys)) = [a, b, c, d]"
  by (auto simp: melodi_wire_get32_def melodi_wire_put32_def bit_simps intro!: bit_word_eqI)

interpretation wire16: fixed_field melodi_wire_put16 melodi_wire_get16 2
proof
  fix v xs
  show "length (melodi_wire_put16 v) = 2" by (simp add: melodi_wire_put16_def)
  show "melodi_wire_get16 (take 2 xs) = melodi_wire_get16 xs" by (simp add: melodi_wire_get16_def)
  show "melodi_wire_get16 (melodi_wire_put16 v) = v"
    by (simp add: melodi_wire_get16_def melodi_wire_put16_def ucast_u16_split)
  show "length xs = 2 \<Longrightarrow> melodi_wire_put16 (melodi_wire_get16 xs) = xs"
    by (cases xs; cases "tl xs")
       (auto simp: melodi_wire_get16_def melodi_wire_put16_def bit_simps intro!: bit_word_eqI)
qed

interpretation wire32: fixed_field melodi_wire_put32 melodi_wire_get32 4
proof
  fix v xs
  show "length (melodi_wire_put32 v) = 4" by (simp add: melodi_wire_put32_def)
  show "melodi_wire_get32 (take 4 xs) = melodi_wire_get32 xs" by (simp add: melodi_wire_get32_def)
  show "melodi_wire_get32 (melodi_wire_put32 v) = v" using melodi_wire_get32_put32 [of v "[]"] by simp
  show "length xs = 4 \<Longrightarrow> melodi_wire_put32 (melodi_wire_get32 xs) = xs"
    using melodi_wire_put32_get32 [of _ _ _ _ "[]"]
    by (auto simp: eval_nat_numeral length_Suc_conv)
qed

interpretation wire64: fixed_field melodi_wire_put64 melodi_wire_get64 8
proof
  fix v xs
  show "length (melodi_wire_put64 v) = 8" by (simp add: melodi_wire_put64_def wire32.length_put)
  show "melodi_wire_get64 (take 8 xs) = melodi_wire_get64 xs"
    using wire32.get_take [of "take 8 xs"] wire32.get_take [of xs] wire32.get_take [of "drop 4 xs"]
    by (simp add: melodi_wire_get64_def drop_take)
  show "melodi_wire_get64 (melodi_wire_put64 v) = v"
    using melodi_wire_get32_put32 [of _ "[]"]
    by (simp add: melodi_wire_get64_def melodi_wire_put64_def melodi_wire_get32_put32 wire32.length_put)
       (rule bit_word_eqI, auto simp: bit_simps)
  assume len: "length xs = 8"
  have "melodi_wire_put64 (melodi_wire_get64 xs) =
      melodi_wire_put32 (melodi_wire_get32 xs) @ melodi_wire_put32 (melodi_wire_get32 (drop 4 xs))"
  proof -
    let ?a = "melodi_wire_get32 xs" and ?b = "melodi_wire_get32 (drop 4 xs)"
    have "ucast (drop_bit 32 (push_bit 32 (ucast ?a) OR ucast ?b :: u64)) = ?a"
      "ucast (push_bit 32 (ucast ?a) OR ucast ?b :: u64) = ?b"
      by (rule bit_word_eqI, auto simp: bit_simps)+
    then show ?thesis by (simp add: melodi_wire_put64_def melodi_wire_get64_def)
  qed
  also have "melodi_wire_get32 xs = melodi_wire_get32 (take 4 xs)" by (simp add: wire32.get_take)
  also have "melodi_wire_put32 (melodi_wire_get32 (take 4 xs)) = take 4 xs"
    using len by (intro wire32.put_get) simp
  also have "melodi_wire_put32 (melodi_wire_get32 (drop 4 xs)) = drop 4 xs"
    using len by (intro wire32.put_get) simp
  finally show "melodi_wire_put64 (melodi_wire_get64 xs) = xs" by simp
qed


subsection \<open>Frames\<close>

abbreviation (input) MELODI_WIRE_VERSION :: u8 where "MELODI_WIRE_VERSION \<equiv> 1"
abbreviation (input) MELODI_WIRE_COMMON_SIZE :: nat where "MELODI_WIRE_COMMON_SIZE \<equiv> 40"
abbreviation (input) MELODI_WIRE_DATA_SIZE :: nat where "MELODI_WIRE_DATA_SIZE \<equiv> 80"
abbreviation (input) MELODI_WIRE_BROADCAST_OVERHEAD :: nat where "MELODI_WIRE_BROADCAST_OVERHEAD \<equiv> 48"
abbreviation (input) MELODI_WIRE_ACK_SIZE :: nat where "MELODI_WIRE_ACK_SIZE \<equiv> 72"
abbreviation (input) MELODI_WIRE_ACK_AUTH_SIZE :: nat where "MELODI_WIRE_ACK_AUTH_SIZE \<equiv> 56"
abbreviation (input) MELODI_WIRE_TAG_SIZE :: nat where "MELODI_WIRE_TAG_SIZE \<equiv> 16"
abbreviation (input) MELODI_WIRE_HELLO_SIGNED_SIZE :: nat where "MELODI_WIRE_HELLO_SIGNED_SIZE \<equiv> 149"
abbreviation (input) MELODI_WIRE_HELLO_SIZE :: nat where "MELODI_WIRE_HELLO_SIZE \<equiv> 213"
abbreviation (input) MELODI_WIRE_AUTH_SIGNED_SIZE :: nat where "MELODI_WIRE_AUTH_SIGNED_SIZE \<equiv> 238"
abbreviation (input) MELODI_WIRE_AUTH_SIZE :: nat where "MELODI_WIRE_AUTH_SIZE \<equiv> 302"
abbreviation (input) MELODI_WIRE_CONTROL_SIGNED_SIZE :: nat where "MELODI_WIRE_CONTROL_SIGNED_SIZE \<equiv> 145"
abbreviation (input) MELODI_WIRE_CONTROL_SIZE :: nat where "MELODI_WIRE_CONTROL_SIZE \<equiv> 209"
abbreviation (input) MELODI_PRIORITY_MAX :: u8 where "MELODI_PRIORITY_MAX \<equiv> 3"

abbreviation (input) MELODI_WIRE_HELLO :: u8 where "MELODI_WIRE_HELLO \<equiv> 1"
abbreviation (input) MELODI_WIRE_CHALLENGE :: u8 where "MELODI_WIRE_CHALLENGE \<equiv> 2"
abbreviation (input) MELODI_WIRE_RESPONSE :: u8 where "MELODI_WIRE_RESPONSE \<equiv> 3"
abbreviation (input) MELODI_WIRE_DATA :: u8 where "MELODI_WIRE_DATA \<equiv> 4"
abbreviation (input) MELODI_WIRE_ACK :: u8 where "MELODI_WIRE_ACK \<equiv> 5"
abbreviation (input) MELODI_WIRE_CONFLICT :: u8 where "MELODI_WIRE_CONFLICT \<equiv> 6"
abbreviation (input) MELODI_WIRE_CONTROL :: u8 where "MELODI_WIRE_CONTROL \<equiv> 7"

abbreviation (input) MELODI_WIRE_F_BROADCAST :: u16 where "MELODI_WIRE_F_BROADCAST \<equiv> 1"
abbreviation (input) MELODI_WIRE_F_ENCRYPTED :: u16 where "MELODI_WIRE_F_ENCRYPTED \<equiv> 2"
abbreviation (input) MELODI_WIRE_F_FINAL :: u16 where "MELODI_WIRE_F_FINAL \<equiv> 0x10"
abbreviation (input) MELODI_WIRE_F_ALL :: u16 where "MELODI_WIRE_F_ALL \<equiv> 0x801f"

abbreviation (input) MELODI_DELIVERY_UNRELIABLE :: u8 where "MELODI_DELIVERY_UNRELIABLE \<equiv> 0"
abbreviation (input) MELODI_DELIVERY_RELIABLE_ORDERED :: u8 where "MELODI_DELIVERY_RELIABLE_ORDERED \<equiv> 2"
abbreviation (input) MELODI_ACK_COMPLETE :: u8 where "MELODI_ACK_COMPLETE \<equiv> 1"
abbreviation (input) MELODI_ACK_REJECTED :: u8 where "MELODI_ACK_REJECTED \<equiv> 2"
abbreviation (input) MELODI_CONTROL_PROBE :: u16 where "MELODI_CONTROL_PROBE \<equiv> 1"

record melodi_wire_common =
  c_version :: u8
  c_frame_class :: u8
  c_flags :: u16
  c_header_length :: u16
  c_payload_length :: u16
  c_source_native_locator :: u32
  c_destination_native_locator :: u32
  c_identity_generation :: u32
  c_message_id :: u64
  c_counter :: u64

record melodi_wire_data =
  d_common :: melodi_wire_common
  d_destination_service :: u16
  d_source_service :: u16
  d_fragment_index :: u16
  d_fragment_count :: u16
  d_logical_length :: u32
  d_delivery_mode :: u8
  d_priority :: u8
  d_ordering_marker :: u32
  d_tag :: bytes

record melodi_wire_ack =
  a_common :: melodi_wire_common
  a_acknowledged_generation :: u32
  a_fragment_count :: u16
  a_status :: u8
  a_bitmap :: u64
  a_tag :: bytes

record melodi_wire_hello =
  h_common :: melodi_wire_common
  h_node_id :: bytes
  h_mesh_domain :: bytes
  h_collision_round :: u32
  h_capabilities :: u32
  h_expiry_seconds :: u32
  h_challenge :: bytes
  h_signature :: bytes

record melodi_wire_auth =
  u_common :: melodi_wire_common
  u_source_node_id :: bytes
  u_destination_node_id :: bytes
  u_ephemeral_key :: bytes
  u_challenge :: bytes
  u_reply_to :: bytes
  u_mesh_domain :: bytes
  u_collision_round :: u32
  u_signature :: bytes

record melodi_wire_control =
  t_common :: melodi_wire_common
  t_node_id :: bytes
  t_mesh_domain :: bytes
  t_collision_round :: u32
  t_opcode :: u16
  t_data :: bytes
  t_signature :: bytes

definition melodi_wire_class_valid :: "u8 \<Rightarrow> bool" where
  "melodi_wire_class_valid frame_class =
     (frame_class \<ge> MELODI_WIRE_HELLO \<and> frame_class \<le> MELODI_WIRE_CONTROL)"

subsection \<open>The common header\<close>

definition melodi_wire_encode_common :: "bytes \<Rightarrow> melodi_wire_common \<Rightarrow> bytes" where
  "melodi_wire_encode_common output header =
     (let output = poke 0 [c_version header] output;
          output = poke 1 [c_frame_class header] output;
          output = poke 2 (melodi_wire_put16 (c_flags header)) output;
          output = poke 4 (melodi_wire_put16 (c_header_length header)) output;
          output = poke 6 (melodi_wire_put16 (c_payload_length header)) output;
          output = poke 8 (melodi_wire_put32 (c_source_native_locator header)) output;
          output = poke 12 (melodi_wire_put32 (c_destination_native_locator header)) output;
          output = poke 16 (melodi_wire_put32 (c_identity_generation header)) output;
          output = poke 20 (melodi_wire_put64 (c_message_id header)) output;
          output = poke 28 (melodi_wire_put64 (c_counter header)) output;
          output = poke 36 (replicate 4 0) output
      in output)"

definition melodi_wire_decode_common :: "bytes \<Rightarrow> melodi_wire_common res" where
  "melodi_wire_decode_common input =
     (if length input < MELODI_WIRE_COMMON_SIZE then Inl EMSGSIZE
      else
        let header =
          \<lparr>c_version = input ! 0,
           c_frame_class = input ! 1,
           c_flags = melodi_wire_get16 (drop 2 input),
           c_header_length = melodi_wire_get16 (drop 4 input),
           c_payload_length = melodi_wire_get16 (drop 6 input),
           c_source_native_locator = melodi_wire_get32 (drop 8 input),
           c_destination_native_locator = melodi_wire_get32 (drop 12 input),
           c_identity_generation = melodi_wire_get32 (drop 16 input),
           c_message_id = melodi_wire_get64 (drop 20 input),
           c_counter = melodi_wire_get64 (drop 28 input)\<rparr>
        in if c_version header \<noteq> MELODI_WIRE_VERSION \<or>
              \<not> melodi_wire_class_valid (c_frame_class header) \<or>
              c_flags header AND NOT MELODI_WIRE_F_ALL \<noteq> 0 \<or>
              unat (c_header_length header) < MELODI_WIRE_COMMON_SIZE \<or>
              unat (c_header_length header) > length input \<or>
              unat (c_payload_length header) \<noteq> length input - unat (c_header_length header) \<or>
              input ! 36 \<noteq> 0 \<or> input ! 37 \<noteq> 0 \<or> input ! 38 \<noteq> 0 \<or> input ! 39 \<noteq> 0
           then Inl EPROTO
           else Inr header)"

subsection \<open>Data frames\<close>

text \<open>
  The encoders take the output buffer with its capacity as its length and return it written,
  with the encoded length where the code reports one. Nothing is written before all checks pass.
\<close>

definition melodi_wire_encode_data_header :: "bytes \<Rightarrow> melodi_wire_data \<Rightarrow> nat \<Rightarrow> bytes res" where
  "melodi_wire_encode_data_header output header wire_payload_length =
     (if wire_payload_length > 0xffff \<or>
         length output < MELODI_WIRE_DATA_SIZE + wire_payload_length \<or>
         d_fragment_count header = 0 \<or>
         d_fragment_index header \<ge> d_fragment_count header \<or>
         d_delivery_mode header > MELODI_DELIVERY_RELIABLE_ORDERED \<or>
         d_priority header > MELODI_PRIORITY_MAX \<or>
         c_flags (d_common header) AND NOT MELODI_WIRE_F_ALL \<noteq> 0
      then Inl EINVAL
      else
        let common = (d_common header)\<lparr>c_version := MELODI_WIRE_VERSION, c_frame_class := MELODI_WIRE_DATA,
              c_header_length := of_nat MELODI_WIRE_DATA_SIZE, c_payload_length := of_nat wire_payload_length\<rparr>;
            output = melodi_wire_encode_common output common;
            output = poke 40 (melodi_wire_put16 (d_destination_service header)) output;
            output = poke 42 (melodi_wire_put16 (d_source_service header)) output;
            output = poke 44 (melodi_wire_put16 (d_fragment_index header)) output;
            output = poke 46 (melodi_wire_put16 (d_fragment_count header)) output;
            output = poke 48 (melodi_wire_put32 (d_logical_length header)) output;
            output = poke 52 [d_delivery_mode header] output;
            output = poke 53 [d_priority header] output;
            output = poke 54 [0] output;
            output = poke 55 [0] output;
            output = poke 56 (melodi_wire_put32 (d_ordering_marker header)) output;
            output = poke 60 (d_tag header) output;
            output = poke 76 (replicate 4 0) output
        in Inr output)"

definition melodi_wire_encode_data :: "bytes \<Rightarrow> melodi_wire_data \<Rightarrow> bytes \<Rightarrow> (bytes \<times> nat) res" where
  "melodi_wire_encode_data output header payload =
     (if unat (d_logical_length header) < length payload then Inl EINVAL
      else case melodi_wire_encode_data_header output header (length payload) of
        Inl error \<Rightarrow> Inl error
      | Inr output \<Rightarrow>
          Inr (poke MELODI_WIRE_DATA_SIZE payload output, MELODI_WIRE_DATA_SIZE + length payload))"

definition melodi_wire_encode_broadcast_data ::
  "bytes \<Rightarrow> melodi_wire_data \<Rightarrow> bytes \<Rightarrow> bytes \<Rightarrow> (bytes \<times> nat) res" where
  "melodi_wire_encode_broadcast_data output header signature payload =
     (if unat (d_logical_length header) < length payload \<or>
         c_destination_native_locator (d_common header) \<noteq> MELODI_NATIVE_LOCATOR_BROADCAST \<or>
         c_flags (d_common header) AND NOT MELODI_WIRE_F_FINAL \<noteq> MELODI_WIRE_F_BROADCAST \<or>
         d_delivery_mode header \<noteq> MELODI_DELIVERY_UNRELIABLE \<or>
         d_ordering_marker header \<noteq> 0
      then Inl EINVAL
      else
        let wire_payload_length = MELODI_WIRE_BROADCAST_OVERHEAD + length payload;
            signed_header = header\<lparr>d_tag := take MELODI_WIRE_TAG_SIZE signature\<rparr>
        in case melodi_wire_encode_data_header output signed_header wire_payload_length of
             Inl error \<Rightarrow> Inl error
           | Inr output \<Rightarrow>
               let output = poke MELODI_WIRE_DATA_SIZE
                     (chunk MELODI_WIRE_TAG_SIZE MELODI_WIRE_BROADCAST_OVERHEAD signature) output;
                   output = poke (MELODI_WIRE_DATA_SIZE + MELODI_WIRE_BROADCAST_OVERHEAD) payload output
               in Inr (output, MELODI_WIRE_DATA_SIZE + wire_payload_length))"

definition melodi_wire_decode_data :: "bytes \<Rightarrow> (melodi_wire_data \<times> bytes) res" where
  "melodi_wire_decode_data input =
     (case melodi_wire_decode_common input of
        Inl error \<Rightarrow> Inl error
      | Inr common \<Rightarrow>
          if c_frame_class common \<noteq> MELODI_WIRE_DATA \<or>
             unat (c_header_length common) \<noteq> MELODI_WIRE_DATA_SIZE
          then Inl EPROTO
          else
            let header =
              \<lparr>d_common = common,
               d_destination_service = melodi_wire_get16 (drop 40 input),
               d_source_service = melodi_wire_get16 (drop 42 input),
               d_fragment_index = melodi_wire_get16 (drop 44 input),
               d_fragment_count = melodi_wire_get16 (drop 46 input),
               d_logical_length = melodi_wire_get32 (drop 48 input),
               d_delivery_mode = input ! 52,
               d_priority = input ! 53,
               d_ordering_marker = melodi_wire_get32 (drop 56 input),
               d_tag = chunk 60 MELODI_WIRE_TAG_SIZE input\<rparr>
            in if d_fragment_count header = 0 \<or>
                  d_fragment_index header \<ge> d_fragment_count header \<or>
                  (if c_flags common AND MELODI_WIRE_F_BROADCAST \<noteq> 0
                   then unat (c_payload_length common) < MELODI_WIRE_BROADCAST_OVERHEAD \<or>
                        d_logical_length header < ucast (c_payload_length common) - of_nat MELODI_WIRE_BROADCAST_OVERHEAD
                   else d_logical_length header < ucast (c_payload_length common)) \<or>
                  d_delivery_mode header > MELODI_DELIVERY_RELIABLE_ORDERED \<or>
                  d_priority header > MELODI_PRIORITY_MAX \<or>
                  input ! 54 \<noteq> 0 \<or> input ! 55 \<noteq> 0 \<or>
                  input ! 76 \<noteq> 0 \<or> input ! 77 \<noteq> 0 \<or> input ! 78 \<noteq> 0 \<or> input ! 79 \<noteq> 0
               then Inl EPROTO
               else Inr (header, drop MELODI_WIRE_DATA_SIZE input))"

definition melodi_wire_decode_broadcast_data :: "bytes \<Rightarrow> (melodi_wire_data \<times> bytes \<times> bytes) res" where
  "melodi_wire_decode_broadcast_data input =
     (case melodi_wire_decode_data input of
        Inl error \<Rightarrow> Inl error
      | Inr (header, physical_payload) \<Rightarrow>
          if c_destination_native_locator (d_common header) \<noteq> MELODI_NATIVE_LOCATOR_BROADCAST \<or>
             c_flags (d_common header) AND NOT MELODI_WIRE_F_FINAL \<noteq> MELODI_WIRE_F_BROADCAST \<or>
             d_delivery_mode header \<noteq> MELODI_DELIVERY_UNRELIABLE \<or>
             d_ordering_marker header \<noteq> 0 \<or>
             unat (c_payload_length (d_common header)) < MELODI_WIRE_BROADCAST_OVERHEAD
          then Inl EPROTO
          else Inr (header,
                 d_tag header @ take MELODI_WIRE_BROADCAST_OVERHEAD physical_payload,
                 take (unat (c_payload_length (d_common header)) - MELODI_WIRE_BROADCAST_OVERHEAD)
                   (drop MELODI_WIRE_BROADCAST_OVERHEAD physical_payload)))"


subsection \<open>Acknowledgements\<close>

text \<open>The bitmap of all fragments, computed by both directions.\<close>

definition melodi_wire_ack_expected :: "u16 \<Rightarrow> u64" where
  "melodi_wire_ack_expected fragment_count =
     (if fragment_count = 64 then NOT 0 else push_bit (unat fragment_count) 1 - 1)"

definition melodi_wire_encode_ack :: "bytes \<Rightarrow> melodi_wire_ack \<Rightarrow> bytes res" where
  "melodi_wire_encode_ack output header =
     (if c_flags (a_common header) \<noteq> MELODI_WIRE_F_ENCRYPTED \<or>
         c_source_native_locator (a_common header) = 0 \<or>
         c_source_native_locator (a_common header) = MELODI_NATIVE_LOCATOR_BROADCAST \<or>
         c_destination_native_locator (a_common header) = 0 \<or>
         c_destination_native_locator (a_common header) = MELODI_NATIVE_LOCATOR_BROADCAST \<or>
         c_identity_generation (a_common header) = 0 \<or> c_message_id (a_common header) = 0 \<or>
         c_counter (a_common header) = 0 \<or> a_acknowledged_generation header = 0 \<or>
         a_fragment_count header = 0 \<or> a_fragment_count header > 64 \<or>
         a_status header > MELODI_ACK_REJECTED \<or> a_bitmap header = 0
      then Inl EINVAL
      else
        let expected = melodi_wire_ack_expected (a_fragment_count header) in
        if a_bitmap header AND NOT expected \<noteq> 0 \<or>
           (a_status header = MELODI_ACK_COMPLETE \<and> a_bitmap header \<noteq> expected)
        then Inl EINVAL
        else
          let common = (a_common header)\<lparr>c_version := MELODI_WIRE_VERSION, c_frame_class := MELODI_WIRE_ACK,
                c_header_length := of_nat MELODI_WIRE_ACK_SIZE, c_payload_length := 0\<rparr>;
              output = melodi_wire_encode_common output common;
              output = poke 40 (melodi_wire_put32 (a_acknowledged_generation header)) output;
              output = poke 44 (melodi_wire_put16 (a_fragment_count header)) output;
              output = poke 46 [a_status header] output;
              output = poke 47 [0] output;
              output = poke 48 (melodi_wire_put64 (a_bitmap header)) output;
              output = poke MELODI_WIRE_ACK_AUTH_SIZE (a_tag header) output
          in Inr output)"

definition melodi_wire_decode_ack :: "bytes \<Rightarrow> melodi_wire_ack res" where
  "melodi_wire_decode_ack input =
     (case melodi_wire_decode_common input of
        Inl error \<Rightarrow> Inl error
      | Inr common \<Rightarrow>
          if c_frame_class common \<noteq> MELODI_WIRE_ACK \<or>
             c_flags common \<noteq> MELODI_WIRE_F_ENCRYPTED \<or>
             unat (c_header_length common) \<noteq> MELODI_WIRE_ACK_SIZE \<or>
             c_payload_length common \<noteq> 0 \<or>
             c_source_native_locator common = 0 \<or>
             c_source_native_locator common = MELODI_NATIVE_LOCATOR_BROADCAST \<or>
             c_destination_native_locator common = 0 \<or>
             c_destination_native_locator common = MELODI_NATIVE_LOCATOR_BROADCAST \<or>
             c_identity_generation common = 0 \<or> c_message_id common = 0 \<or>
             c_counter common = 0 \<or> input ! 47 \<noteq> 0
          then Inl EPROTO
          else
            let header =
              \<lparr>a_common = common,
               a_acknowledged_generation = melodi_wire_get32 (drop 40 input),
               a_fragment_count = melodi_wire_get16 (drop 44 input),
               a_status = input ! 46,
               a_bitmap = melodi_wire_get64 (drop 48 input),
               a_tag = chunk MELODI_WIRE_ACK_AUTH_SIZE MELODI_WIRE_TAG_SIZE input\<rparr>
            in if a_acknowledged_generation header = 0 \<or> a_fragment_count header = 0 \<or>
                  a_fragment_count header > 64 \<or> a_status header > MELODI_ACK_REJECTED \<or>
                  a_bitmap header = 0
               then Inl EPROTO
               else
                 let expected = melodi_wire_ack_expected (a_fragment_count header) in
                 if a_bitmap header AND NOT expected \<noteq> 0 \<or>
                    (a_status header = MELODI_ACK_COMPLETE \<and> a_bitmap header \<noteq> expected)
                 then Inl EPROTO
                 else Inr header)"

subsection \<open>Claims: hello and conflict\<close>

definition melodi_wire_encode_claim :: "bytes \<Rightarrow> melodi_wire_hello \<Rightarrow> u8 \<Rightarrow> bytes res" where
  "melodi_wire_encode_claim output header frame_class =
     (if c_flags (h_common header) AND NOT MELODI_WIRE_F_BROADCAST \<noteq> 0 \<or>
         \<not> (c_flags (h_common header) AND MELODI_WIRE_F_BROADCAST \<noteq> 0) \<or>
         c_destination_native_locator (h_common header) \<noteq> MELODI_NATIVE_LOCATOR_BROADCAST \<or>
         h_node_id header ! 0 \<noteq> MELODI_NODE_ID_SCHEME_ED25519
      then Inl EINVAL
      else
        let common = (h_common header)\<lparr>c_version := MELODI_WIRE_VERSION, c_frame_class := frame_class,
              c_header_length := of_nat MELODI_WIRE_HELLO_SIZE, c_payload_length := 0\<rparr>;
            output = melodi_wire_encode_common output common;
            output = poke 40 (h_node_id header) output;
            output = poke 73 (h_mesh_domain header) output;
            output = poke 105 (melodi_wire_put32 (h_collision_round header)) output;
            output = poke 109 (melodi_wire_put32 (h_capabilities header)) output;
            output = poke 113 (melodi_wire_put32 (h_expiry_seconds header)) output;
            output = poke 117 (h_challenge header) output;
            output = poke MELODI_WIRE_HELLO_SIGNED_SIZE (h_signature header) output
        in Inr output)"

definition melodi_wire_encode_hello :: "bytes \<Rightarrow> melodi_wire_hello \<Rightarrow> bytes res" where
  "melodi_wire_encode_hello output header = melodi_wire_encode_claim output header MELODI_WIRE_HELLO"

definition melodi_wire_encode_conflict :: "bytes \<Rightarrow> melodi_wire_hello \<Rightarrow> bytes res" where
  "melodi_wire_encode_conflict output header = melodi_wire_encode_claim output header MELODI_WIRE_CONFLICT"

definition melodi_wire_decode_claim :: "bytes \<Rightarrow> u8 \<Rightarrow> melodi_wire_hello res" where
  "melodi_wire_decode_claim input frame_class =
     (case melodi_wire_decode_common input of
        Inl error \<Rightarrow> Inl error
      | Inr common \<Rightarrow>
          if c_frame_class common \<noteq> frame_class \<or>
             unat (c_header_length common) \<noteq> MELODI_WIRE_HELLO_SIZE \<or>
             c_payload_length common \<noteq> 0 \<or>
             c_flags common \<noteq> MELODI_WIRE_F_BROADCAST \<or>
             c_destination_native_locator common \<noteq> MELODI_NATIVE_LOCATOR_BROADCAST
          then Inl EPROTO
          else
            let header =
              \<lparr>h_common = common,
               h_node_id = chunk 40 MELODI_NODE_ID_SIZE input,
               h_mesh_domain = chunk 73 32 input,
               h_collision_round = melodi_wire_get32 (drop 105 input),
               h_capabilities = melodi_wire_get32 (drop 109 input),
               h_expiry_seconds = melodi_wire_get32 (drop 113 input),
               h_challenge = chunk 117 32 input,
               h_signature = chunk MELODI_WIRE_HELLO_SIGNED_SIZE 64 input\<rparr>
            in if h_node_id header ! 0 = MELODI_NODE_ID_SCHEME_ED25519 then Inr header else Inl EPROTO)"

definition melodi_wire_decode_hello :: "bytes \<Rightarrow> melodi_wire_hello res" where
  "melodi_wire_decode_hello input = melodi_wire_decode_claim input MELODI_WIRE_HELLO"

definition melodi_wire_decode_conflict :: "bytes \<Rightarrow> melodi_wire_hello res" where
  "melodi_wire_decode_conflict input = melodi_wire_decode_claim input MELODI_WIRE_CONFLICT"

subsection \<open>Authentication: challenge and response\<close>

definition melodi_wire_encode_auth :: "bytes \<Rightarrow> melodi_wire_auth \<Rightarrow> bytes res" where
  "melodi_wire_encode_auth output header =
     (if (c_frame_class (u_common header) \<noteq> MELODI_WIRE_CHALLENGE \<and>
          c_frame_class (u_common header) \<noteq> MELODI_WIRE_RESPONSE) \<or>
         c_flags (u_common header) \<noteq> 0 \<or>
         c_source_native_locator (u_common header) = MELODI_NATIVE_LOCATOR_INVALID \<or>
         c_source_native_locator (u_common header) = MELODI_NATIVE_LOCATOR_BROADCAST \<or>
         c_destination_native_locator (u_common header) = MELODI_NATIVE_LOCATOR_INVALID \<or>
         c_destination_native_locator (u_common header) = MELODI_NATIVE_LOCATOR_BROADCAST \<or>
         u_source_node_id header ! 0 \<noteq> MELODI_NODE_ID_SCHEME_ED25519 \<or>
         u_destination_node_id header ! 0 \<noteq> MELODI_NODE_ID_SCHEME_ED25519
      then Inl EINVAL
      else
        let common = (u_common header)\<lparr>c_version := MELODI_WIRE_VERSION,
              c_header_length := of_nat MELODI_WIRE_AUTH_SIZE, c_payload_length := 0\<rparr>;
            output = melodi_wire_encode_common output common;
            output = poke 40 (u_source_node_id header) output;
            output = poke 73 (u_destination_node_id header) output;
            output = poke 106 (u_ephemeral_key header) output;
            output = poke 138 (u_challenge header) output;
            output = poke 170 (u_reply_to header) output;
            output = poke 202 (u_mesh_domain header) output;
            output = poke 234 (melodi_wire_put32 (u_collision_round header)) output;
            output = poke MELODI_WIRE_AUTH_SIGNED_SIZE (u_signature header) output
        in Inr output)"

definition melodi_wire_decode_auth :: "bytes \<Rightarrow> melodi_wire_auth res" where
  "melodi_wire_decode_auth input =
     (case melodi_wire_decode_common input of
        Inl error \<Rightarrow> Inl error
      | Inr common \<Rightarrow>
          if (c_frame_class common \<noteq> MELODI_WIRE_CHALLENGE \<and> c_frame_class common \<noteq> MELODI_WIRE_RESPONSE) \<or>
             c_flags common \<noteq> 0 \<or>
             unat (c_header_length common) \<noteq> MELODI_WIRE_AUTH_SIZE \<or>
             c_payload_length common \<noteq> 0 \<or>
             c_source_native_locator common = MELODI_NATIVE_LOCATOR_INVALID \<or>
             c_source_native_locator common = MELODI_NATIVE_LOCATOR_BROADCAST \<or>
             c_destination_native_locator common = MELODI_NATIVE_LOCATOR_INVALID \<or>
             c_destination_native_locator common = MELODI_NATIVE_LOCATOR_BROADCAST
          then Inl EPROTO
          else
            let header =
              \<lparr>u_common = common,
               u_source_node_id = chunk 40 MELODI_NODE_ID_SIZE input,
               u_destination_node_id = chunk 73 MELODI_NODE_ID_SIZE input,
               u_ephemeral_key = chunk 106 32 input,
               u_challenge = chunk 138 32 input,
               u_reply_to = chunk 170 32 input,
               u_mesh_domain = chunk 202 32 input,
               u_collision_round = melodi_wire_get32 (drop 234 input),
               u_signature = chunk MELODI_WIRE_AUTH_SIGNED_SIZE 64 input\<rparr>
            in if u_source_node_id header ! 0 \<noteq> MELODI_NODE_ID_SCHEME_ED25519 \<or>
                  u_destination_node_id header ! 0 \<noteq> MELODI_NODE_ID_SCHEME_ED25519
               then Inl EPROTO else Inr header)"

subsection \<open>Control frames\<close>

definition melodi_wire_encode_control :: "bytes \<Rightarrow> melodi_wire_control \<Rightarrow> bytes res" where
  "melodi_wire_encode_control output header =
     (if c_flags (t_common header) \<noteq> MELODI_WIRE_F_BROADCAST \<or>
         c_source_native_locator (t_common header) = MELODI_NATIVE_LOCATOR_INVALID \<or>
         c_source_native_locator (t_common header) = MELODI_NATIVE_LOCATOR_BROADCAST \<or>
         c_destination_native_locator (t_common header) \<noteq> MELODI_NATIVE_LOCATOR_BROADCAST \<or>
         t_node_id header ! 0 \<noteq> MELODI_NODE_ID_SCHEME_ED25519 \<or>
         t_opcode header \<noteq> MELODI_CONTROL_PROBE
      then Inl EINVAL
      else
        let common = (t_common header)\<lparr>c_version := MELODI_WIRE_VERSION, c_frame_class := MELODI_WIRE_CONTROL,
              c_header_length := of_nat MELODI_WIRE_CONTROL_SIZE, c_payload_length := 0\<rparr>;
            output = melodi_wire_encode_common output common;
            output = poke 40 (t_node_id header) output;
            output = poke 73 (t_mesh_domain header) output;
            output = poke 105 (melodi_wire_put32 (t_collision_round header)) output;
            output = poke 109 (melodi_wire_put16 (t_opcode header)) output;
            output = poke 111 [0] output;
            output = poke 112 [0] output;
            output = poke 113 (t_data header) output;
            output = poke MELODI_WIRE_CONTROL_SIGNED_SIZE (t_signature header) output
        in Inr output)"

definition melodi_wire_decode_control :: "bytes \<Rightarrow> melodi_wire_control res" where
  "melodi_wire_decode_control input =
     (case melodi_wire_decode_common input of
        Inl error \<Rightarrow> Inl error
      | Inr common \<Rightarrow>
          if c_frame_class common \<noteq> MELODI_WIRE_CONTROL \<or>
             c_flags common \<noteq> MELODI_WIRE_F_BROADCAST \<or>
             unat (c_header_length common) \<noteq> MELODI_WIRE_CONTROL_SIZE \<or>
             c_payload_length common \<noteq> 0 \<or>
             c_source_native_locator common = MELODI_NATIVE_LOCATOR_INVALID \<or>
             c_source_native_locator common = MELODI_NATIVE_LOCATOR_BROADCAST \<or>
             c_destination_native_locator common \<noteq> MELODI_NATIVE_LOCATOR_BROADCAST \<or>
             input ! 111 \<noteq> 0 \<or> input ! 112 \<noteq> 0
          then Inl EPROTO
          else
            let header =
              \<lparr>t_common = common,
               t_node_id = chunk 40 MELODI_NODE_ID_SIZE input,
               t_mesh_domain = chunk 73 32 input,
               t_collision_round = melodi_wire_get32 (drop 105 input),
               t_opcode = melodi_wire_get16 (drop 109 input),
               t_data = chunk 113 32 input,
               t_signature = chunk MELODI_WIRE_CONTROL_SIGNED_SIZE 64 input\<rparr>
            in if t_node_id header ! 0 \<noteq> MELODI_NODE_ID_SCHEME_ED25519 \<or>
                  t_opcode header \<noteq> MELODI_CONTROL_PROBE
               then Inl EPROTO else Inr header)"


subsection \<open>Layout of the common header\<close>

lemmas wire_lengths [simp] = wire16.length_put wire32.length_put wire64.length_put
lemmas wire_reads [simp] = wire16.get_put_append wire32.get_put_append wire64.get_put_append
lemmas wire_rereads = wire16.put_get_chunk wire32.put_get_chunk wire64.put_get_chunk

definition common_bytes :: "melodi_wire_common \<Rightarrow> bytes" where
  "common_bytes h = [c_version h] @ [c_frame_class h] @ melodi_wire_put16 (c_flags h)
     @ melodi_wire_put16 (c_header_length h) @ melodi_wire_put16 (c_payload_length h)
     @ melodi_wire_put32 (c_source_native_locator h) @ melodi_wire_put32 (c_destination_native_locator h)
     @ melodi_wire_put32 (c_identity_generation h) @ melodi_wire_put64 (c_message_id h)
     @ melodi_wire_put64 (c_counter h) @ [0] @ [0] @ [0] @ [0]"

lemma length_common_bytes [simp]: "length (common_bytes h) = 40"
  by (simp add: common_bytes_def)

lemma melodi_wire_encode_common_bytes:
  "40 \<le> length out \<Longrightarrow> melodi_wire_encode_common out h = common_bytes h @ drop 40 out"
  unfolding melodi_wire_encode_common_def Let_def
  by (simp add: poke_start poke_fill del: append.simps append_assoc)
     (simp add: common_bytes_def numeral_eq_Suc)

definition common_ok :: "melodi_wire_common \<Rightarrow> nat \<Rightarrow> bool" where
  "common_ok h n \<longleftrightarrow> c_version h = MELODI_WIRE_VERSION \<and> melodi_wire_class_valid (c_frame_class h)
     \<and> c_flags h AND NOT MELODI_WIRE_F_ALL = 0 \<and> 40 \<le> unat (c_header_length h)
     \<and> unat (c_header_length h) + unat (c_payload_length h) = n"

definition common_of :: "bytes \<Rightarrow> melodi_wire_common" where
  "common_of input =
     \<lparr>c_version = input ! 0, c_frame_class = input ! 1,
      c_flags = melodi_wire_get16 (drop 2 input), c_header_length = melodi_wire_get16 (drop 4 input),
      c_payload_length = melodi_wire_get16 (drop 6 input),
      c_source_native_locator = melodi_wire_get32 (drop 8 input),
      c_destination_native_locator = melodi_wire_get32 (drop 12 input),
      c_identity_generation = melodi_wire_get32 (drop 16 input),
      c_message_id = melodi_wire_get64 (drop 20 input), c_counter = melodi_wire_get64 (drop 28 input)\<rparr>"

lemma common_of_common_bytes: "common_of (common_bytes h @ rest) = h"
  by (simp add: common_of_def common_bytes_def)

lemma common_bytes_common_of:
  assumes "40 \<le> length xs" "xs ! 36 = 0" "xs ! 37 = 0" "xs ! 38 = 0" "xs ! 39 = 0"
  shows "common_bytes (common_of xs) = take 40 xs"
proof -
  have zero: "[0] = chunk 36 1 xs" "[0] = chunk 37 1 xs" "[0] = chunk 38 1 xs" "[0] = chunk 39 1 xs"
    using assms chunk_nth [of 36 xs] chunk_nth [of 37 xs] chunk_nth [of 38 xs] chunk_nth [of 39 xs] by simp_all
  have "xs \<noteq> []" using assms(1) by auto
  then have "common_bytes (common_of xs) = chunk 0 1 xs @ chunk 1 1 xs @ chunk 2 2 xs @ chunk 4 2 xs
      @ chunk 6 2 xs @ chunk 8 4 xs @ chunk 12 4 xs @ chunk 16 4 xs @ chunk 20 8 xs @ chunk 28 8 xs
      @ chunk 36 1 xs @ chunk 37 1 xs @ chunk 38 1 xs @ chunk 39 1 xs"
    unfolding zero [symmetric] using assms(1)
    by (simp add: common_bytes_def common_of_def wire_rereads chunk_nth [symmetric] del: One_nat_def)
  also have "\<dots> = chunk 0 40 xs" by (simp add: chunk_join chunk_join_append)
  finally show ?thesis by (simp add: chunk_0)
qed

lemma melodi_wire_decode_common_of:
  "melodi_wire_decode_common xs =
     (if length xs < 40 then Inl EMSGSIZE
      else if common_ok (common_of xs) (length xs) \<and> xs ! 36 = 0 \<and> xs ! 37 = 0 \<and> xs ! 38 = 0 \<and> xs ! 39 = 0
      then Inr (common_of xs) else Inl EPROTO)"
  unfolding melodi_wire_decode_common_def Let_def common_of_def [symmetric] common_ok_def by auto

lemma melodi_wire_decode_common_iff:
  "melodi_wire_decode_common xs = Inr h \<longleftrightarrow> common_ok h (length xs) \<and> (\<exists>rest. xs = common_bytes h @ rest)"
proof
  assume "melodi_wire_decode_common xs = Inr h"
  then have h: "h = common_of xs" "common_ok h (length xs)" "40 \<le> length xs"
    "xs ! 36 = 0" "xs ! 37 = 0" "xs ! 38 = 0" "xs ! 39 = 0"
    by (auto simp: melodi_wire_decode_common_of split: if_splits)
  then have "xs = common_bytes h @ drop 40 xs" using common_bytes_common_of by simp
  with h(2) show "common_ok h (length xs) \<and> (\<exists>rest. xs = common_bytes h @ rest)" by blast
next
  assume "common_ok h (length xs) \<and> (\<exists>rest. xs = common_bytes h @ rest)"
  then obtain rest where ok: "common_ok h (length xs)" and xs: "xs = common_bytes h @ rest" by blast
  have "xs ! 36 = 0" "xs ! 37 = 0" "xs ! 38 = 0" "xs ! 39 = 0"
    by (simp_all add: xs common_bytes_def nth_append)
  moreover have "common_of xs = h" by (simp add: xs common_of_common_bytes)
  ultimately show "melodi_wire_decode_common xs = Inr h"
    using ok by (simp add: melodi_wire_decode_common_of) (simp add: xs)
qed


subsection \<open>The interface of a frame codec\<close>

text \<open>
  What a frame class promises its users: there is one layout of \<open>size\<close> octets for the headers
  that are \<open>ok\<close>; the decoder accepts exactly the layouts, the encoder produces the layout of
  the normalised header (the fields it sets itself) or refuses with \<open>EINVAL\<close>. \<open>wf\<close> is the type
  invariant of a header, the sizes of its arrays.
\<close>

locale frame_codec =
  fixes enc :: "bytes \<Rightarrow> 'h \<Rightarrow> bytes res" and dec :: "bytes \<Rightarrow> 'h res"
    and layout :: "'h \<Rightarrow> bytes" and ok :: "'h \<Rightarrow> bool" and wf :: "'h \<Rightarrow> bool"
    and norm :: "'h \<Rightarrow> 'h" and frame_size :: nat
  assumes dec_iff: "dec xs = Inr h \<longleftrightarrow> ok h \<and> xs = layout h"
    and enc_eq: "length out = frame_size \<Longrightarrow> wf h \<Longrightarrow>
      enc out h = (if ok (norm h) then Inr (layout (norm h)) else Inl EINVAL)"
    and ok_norm: "ok h \<Longrightarrow> norm h = h \<and> wf h"
    and length_layout: "ok h \<Longrightarrow> length (layout h) = frame_size"
begin

lemma dec_enc:
  "length out = frame_size \<Longrightarrow> wf h \<Longrightarrow> enc out h = Inr b \<Longrightarrow> dec b = Inr (norm h) \<and> length b = frame_size"
  by (auto simp: enc_eq dec_iff length_layout split: if_splits)

lemma enc_dec: "length out = frame_size \<Longrightarrow> dec b = Inr h \<Longrightarrow> enc out h = Inr b"
  using ok_norm [of h] by (auto simp: dec_iff enc_eq)

text \<open>Both directions in one: decoding is the inverse relation of encoding.\<close>

lemma dec_iff_enc:
  "length out = frame_size \<Longrightarrow> wf h \<Longrightarrow> dec xs = Inr h \<longleftrightarrow> norm h = h \<and> enc out h = Inr xs"
  using ok_norm [of h] by (auto simp: dec_iff enc_eq)

lemma dec_inject: "dec a = Inr h \<Longrightarrow> dec b = Inr h \<Longrightarrow> a = b"
  by (simp add: dec_iff)

lemma dec_length: "dec b = Inr h \<Longrightarrow> length b = frame_size"
  by (auto simp: dec_iff length_layout)

end

subsection \<open>Acknowledgements\<close>

definition ack_bytes :: "melodi_wire_ack \<Rightarrow> bytes" where
  "ack_bytes h = common_bytes (a_common h) @ melodi_wire_put32 (a_acknowledged_generation h)
     @ melodi_wire_put16 (a_fragment_count h) @ [a_status h] @ [0] @ melodi_wire_put64 (a_bitmap h) @ a_tag h"

definition ack_wf :: "melodi_wire_ack \<Rightarrow> bool" where
  "ack_wf h \<longleftrightarrow> length (a_tag h) = 16"

definition unicast :: "melodi_wire_common \<Rightarrow> bool" where
  "unicast c \<longleftrightarrow> c_source_native_locator c \<noteq> 0 \<and> c_source_native_locator c \<noteq> MELODI_NATIVE_LOCATOR_BROADCAST
     \<and> c_destination_native_locator c \<noteq> 0 \<and> c_destination_native_locator c \<noteq> MELODI_NATIVE_LOCATOR_BROADCAST"

text \<open>A complete frame without payload of the given class, size and flags.\<close>

definition bare :: "melodi_wire_common \<Rightarrow> u8 \<Rightarrow> u16 \<Rightarrow> u16 \<Rightarrow> bool" where
  "bare c cls len flags \<longleftrightarrow> c_version c = MELODI_WIRE_VERSION \<and> c_frame_class c = cls
     \<and> c_header_length c = len \<and> c_payload_length c = 0 \<and> c_flags c = flags"

definition ack_ok :: "melodi_wire_ack \<Rightarrow> bool" where
  "ack_ok h \<longleftrightarrow> ack_wf h \<and> bare (a_common h) MELODI_WIRE_ACK 72 MELODI_WIRE_F_ENCRYPTED
     \<and> unicast (a_common h) \<and> c_identity_generation (a_common h) \<noteq> 0 \<and> c_message_id (a_common h) \<noteq> 0
     \<and> c_counter (a_common h) \<noteq> 0 \<and> a_acknowledged_generation h \<noteq> 0
     \<and> a_fragment_count h \<noteq> 0 \<and> a_fragment_count h \<le> 64 \<and> a_status h \<le> MELODI_ACK_REJECTED \<and> a_bitmap h \<noteq> 0
     \<and> a_bitmap h AND NOT (melodi_wire_ack_expected (a_fragment_count h)) = 0
     \<and> (a_status h = MELODI_ACK_COMPLETE \<longrightarrow> a_bitmap h = melodi_wire_ack_expected (a_fragment_count h))"

definition ack_norm :: "melodi_wire_ack \<Rightarrow> melodi_wire_ack" where
  "ack_norm h = h\<lparr>a_common := (a_common h)\<lparr>c_version := MELODI_WIRE_VERSION, c_frame_class := MELODI_WIRE_ACK,
     c_header_length := 72, c_payload_length := 0\<rparr>\<rparr>"

lemma bare_common_ok:
  "bare c cls n flags \<Longrightarrow> melodi_wire_class_valid cls \<Longrightarrow> flags AND NOT MELODI_WIRE_F_ALL = 0 \<Longrightarrow>
    40 \<le> unat n \<Longrightarrow> m = unat n \<Longrightarrow> common_ok c m"
  by (auto simp: bare_def common_ok_def)

lemma chunk_common: "chunk 0 40 (common_bytes c @ xs) = common_bytes c"
  by (simp add: chunk_append_take)

lemma melodi_wire_decode_ack_iff:
  "melodi_wire_decode_ack xs = Inr h \<longleftrightarrow> ack_ok h \<and> xs = ack_bytes h"
proof
  assume dec: "melodi_wire_decode_ack xs = Inr h"
  then obtain c where c: "melodi_wire_decode_common xs = Inr c"
    by (auto simp: melodi_wire_decode_ack_def split: sum.splits)
  from c obtain rest where ok: "common_ok c (length xs)" and xs: "xs = common_bytes c @ rest"
    by (auto simp: melodi_wire_decode_common_iff)
  have h: "h = \<lparr>a_common = c, a_acknowledged_generation = melodi_wire_get32 (drop 40 xs),
      a_fragment_count = melodi_wire_get16 (drop 44 xs), a_status = xs ! 46,
      a_bitmap = melodi_wire_get64 (drop 48 xs), a_tag = chunk 56 16 xs\<rparr>"
    and zero: "xs ! 47 = 0" and size: "unat (c_header_length c) = 72" "c_payload_length c = 0"
    using dec by (auto simp: melodi_wire_decode_ack_def c Let_def split: if_splits)
  have len: "length xs = 72" using ok size by (simp add: common_ok_def)
  have hl: "c_header_length c = 72" using size(1) by (simp add: word_unat_eq_iff)
  have "ack_bytes h = chunk 0 40 xs @ chunk 40 4 xs @ chunk 44 2 xs @ chunk 46 1 xs @ chunk 47 1 xs
      @ chunk 48 8 xs @ chunk 56 16 xs"
    using len zero chunk_nth [of 47 xs] chunk_nth [of 46 xs]
    by (simp add: h ack_bytes_def wire_rereads del: One_nat_def) (simp add: xs chunk_common)
  also have "\<dots> = xs" using len by (simp add: chunk_join chunk_join_append) (simp add: chunk_0)
  finally have "xs = ack_bytes h" by simp
  moreover have "ack_ok h"
    using dec ok len hl
    by (auto simp: melodi_wire_decode_ack_def c Let_def ack_ok_def ack_wf_def bare_def unicast_def
        common_ok_def split: if_splits)
  ultimately show "ack_ok h \<and> xs = ack_bytes h" by simp
next
  assume "ack_ok h \<and> xs = ack_bytes h"
  then have ok: "ack_ok h" and xs: "xs = ack_bytes h" by simp_all
  then have "length xs = 72" by (simp add: ack_bytes_def ack_ok_def ack_wf_def)
  with ok have "common_ok (a_common h) (length xs)"
    by (intro bare_common_ok) (auto simp: ack_ok_def melodi_wire_class_valid_def)
  then have c: "melodi_wire_decode_common xs = Inr (a_common h)"
    unfolding melodi_wire_decode_common_iff xs ack_bytes_def by blast
  have "xs ! 46 = a_status h" "xs ! 47 = 0" "chunk 56 16 xs = a_tag h"
    "melodi_wire_get32 (drop 40 xs) = a_acknowledged_generation h"
    "melodi_wire_get16 (drop 44 xs) = a_fragment_count h" "melodi_wire_get64 (drop 48 xs) = a_bitmap h"
    using ok by (simp_all add: xs ack_bytes_def nth_append chunk_def ack_ok_def ack_wf_def)
  then show "melodi_wire_decode_ack xs = Inr h"
    using ok by (auto simp: melodi_wire_decode_ack_def c Let_def ack_ok_def bare_def unicast_def)
qed

lemma melodi_wire_encode_ack_eq:
  assumes "length out = 72" "ack_wf h"
  shows "melodi_wire_encode_ack out h =
    (if ack_ok (ack_norm h) then Inr (ack_bytes (ack_norm h)) else Inl EINVAL)"
proof -
  let ?c = "a_common (ack_norm h)"
  let ?o = "poke 56 (a_tag h) (poke 48 (melodi_wire_put64 (a_bitmap h)) (poke 47 [0] (poke 46 [a_status h]
    (poke 44 (melodi_wire_put16 (a_fragment_count h)) (poke 40 (melodi_wire_put32 (a_acknowledged_generation h))
      (melodi_wire_encode_common out ?c))))))"
  have "?o = ack_bytes (ack_norm h)"
    using assms
    by (simp add: melodi_wire_encode_common_bytes poke_fill ack_wf_def del: append.simps append_assoc)
       (simp add: ack_bytes_def ack_norm_def)
  then show ?thesis
    using assms(2)
    by (auto simp: melodi_wire_encode_ack_def Let_def ack_ok_def ack_norm_def bare_def unicast_def ack_wf_def)
qed


interpretation ack: frame_codec melodi_wire_encode_ack melodi_wire_decode_ack ack_bytes ack_ok ack_wf ack_norm 72
proof
  show "melodi_wire_decode_ack xs = Inr h \<longleftrightarrow> ack_ok h \<and> xs = ack_bytes h" for xs h
    by (rule melodi_wire_decode_ack_iff)
  show "length out = 72 \<Longrightarrow> ack_wf h \<Longrightarrow> melodi_wire_encode_ack out h =
    (if ack_ok (ack_norm h) then Inr (ack_bytes (ack_norm h)) else Inl EINVAL)" for out h
    by (rule melodi_wire_encode_ack_eq)
  show "ack_ok h \<Longrightarrow> ack_norm h = h \<and> ack_wf h" for h
    by (simp add: ack_ok_def ack_norm_def bare_def)
  show "ack_ok h \<Longrightarrow> length (ack_bytes h) = 72" for h
    by (simp add: ack_ok_def ack_wf_def ack_bytes_def)
qed

subsection \<open>Claims\<close>

definition hello_bytes :: "melodi_wire_hello \<Rightarrow> bytes" where
  "hello_bytes h = common_bytes (h_common h) @ h_node_id h @ h_mesh_domain h
     @ melodi_wire_put32 (h_collision_round h) @ melodi_wire_put32 (h_capabilities h)
     @ melodi_wire_put32 (h_expiry_seconds h) @ h_challenge h @ h_signature h"

definition hello_wf :: "melodi_wire_hello \<Rightarrow> bool" where
  "hello_wf h \<longleftrightarrow> length (h_node_id h) = 33 \<and> length (h_mesh_domain h) = 32 \<and> length (h_challenge h) = 32
     \<and> length (h_signature h) = 64"

definition claim_ok :: "u8 \<Rightarrow> melodi_wire_hello \<Rightarrow> bool" where
  "claim_ok cls h \<longleftrightarrow> hello_wf h \<and> bare (h_common h) cls 213 MELODI_WIRE_F_BROADCAST
     \<and> c_destination_native_locator (h_common h) = MELODI_NATIVE_LOCATOR_BROADCAST
     \<and> h_node_id h ! 0 = MELODI_NODE_ID_SCHEME_ED25519"

definition claim_norm :: "u8 \<Rightarrow> melodi_wire_hello \<Rightarrow> melodi_wire_hello" where
  "claim_norm cls h = h\<lparr>h_common := (h_common h)\<lparr>c_version := MELODI_WIRE_VERSION, c_frame_class := cls,
     c_header_length := 213, c_payload_length := 0\<rparr>\<rparr>"

lemma flags_only_broadcast:
  "f AND NOT 1 \<noteq> 0 \<or> \<not> (f AND 1 \<noteq> 0) \<longleftrightarrow> f \<noteq> (1 :: u16)"
proof (cases "f = 1")
  case False
  have "f = (f AND NOT 1) OR (f AND 1)" by (rule bit_word_eqI) (auto simp: bit_simps)
  moreover have "f AND 1 = 0 \<or> f AND 1 = 1" by (simp add: and_one_eq mod_2_eq_odd)
  ultimately show ?thesis using False by (metis or_eq_0_iff or.left_neutral)
qed simp

lemma melodi_wire_decode_claim_iff:
  assumes cls: "melodi_wire_class_valid cls"
  shows "melodi_wire_decode_claim xs cls = Inr h \<longleftrightarrow> claim_ok cls h \<and> xs = hello_bytes h"
proof
  assume dec: "melodi_wire_decode_claim xs cls = Inr h"
  then obtain c where c: "melodi_wire_decode_common xs = Inr c"
    by (auto simp: melodi_wire_decode_claim_def split: sum.splits)
  from c obtain rest where ok: "common_ok c (length xs)" and xs: "xs = common_bytes c @ rest"
    by (auto simp: melodi_wire_decode_common_iff)
  have h: "h = \<lparr>h_common = c, h_node_id = chunk 40 33 xs, h_mesh_domain = chunk 73 32 xs,
      h_collision_round = melodi_wire_get32 (drop 105 xs), h_capabilities = melodi_wire_get32 (drop 109 xs),
      h_expiry_seconds = melodi_wire_get32 (drop 113 xs), h_challenge = chunk 117 32 xs,
      h_signature = chunk 149 64 xs\<rparr>"
    and size: "unat (c_header_length c) = 213" "c_payload_length c = 0"
    using dec by (auto simp: melodi_wire_decode_claim_def c Let_def split: if_splits)
  have len: "length xs = 213" using ok size by (simp add: common_ok_def)
  have hl: "c_header_length c = 213" using size(1) by (simp add: word_unat_eq_iff)
  have "hello_bytes h = chunk 0 40 xs @ chunk 40 33 xs @ chunk 73 32 xs @ chunk 105 4 xs @ chunk 109 4 xs
      @ chunk 113 4 xs @ chunk 117 32 xs @ chunk 149 64 xs"
    using len by (simp add: h hello_bytes_def wire_rereads) (simp add: xs chunk_common)
  also have "\<dots> = xs" using len by (simp add: chunk_join chunk_join_append) (simp add: chunk_0)
  finally have "xs = hello_bytes h" by simp
  moreover have "claim_ok cls h"
    using dec ok len hl
    by (auto simp: melodi_wire_decode_claim_def c Let_def claim_ok_def hello_wf_def bare_def
        common_ok_def split: if_splits)
  ultimately show "claim_ok cls h \<and> xs = hello_bytes h" by simp
next
  assume "claim_ok cls h \<and> xs = hello_bytes h"
  then have ok: "claim_ok cls h" and xs: "xs = hello_bytes h" by simp_all
  then have "length xs = 213" by (simp add: hello_bytes_def claim_ok_def hello_wf_def)
  with ok cls have "common_ok (h_common h) (length xs)"
    by (intro bare_common_ok) (auto simp: claim_ok_def)
  then have c: "melodi_wire_decode_common xs = Inr (h_common h)"
    unfolding melodi_wire_decode_common_iff xs hello_bytes_def by blast
  have "chunk 40 33 xs = h_node_id h" "chunk 73 32 xs = h_mesh_domain h"
    "chunk 117 32 xs = h_challenge h" "chunk 149 64 xs = h_signature h"
    "melodi_wire_get32 (drop 105 xs) = h_collision_round h"
    "melodi_wire_get32 (drop 109 xs) = h_capabilities h"
    "melodi_wire_get32 (drop 113 xs) = h_expiry_seconds h"
    using ok by (simp_all add: xs hello_bytes_def chunk_def claim_ok_def hello_wf_def)
  then show "melodi_wire_decode_claim xs cls = Inr h"
    using ok by (auto simp: melodi_wire_decode_claim_def c Let_def claim_ok_def bare_def)
qed

lemma melodi_wire_encode_claim_eq:
  assumes "length out = 213" "hello_wf h"
  shows "melodi_wire_encode_claim out h cls =
    (if claim_ok cls (claim_norm cls h) then Inr (hello_bytes (claim_norm cls h)) else Inl EINVAL)"
proof -
  let ?c = "h_common (claim_norm cls h)"
  let ?o = "poke 149 (h_signature h) (poke 117 (h_challenge h)
    (poke 113 (melodi_wire_put32 (h_expiry_seconds h)) (poke 109 (melodi_wire_put32 (h_capabilities h))
    (poke 105 (melodi_wire_put32 (h_collision_round h)) (poke 73 (h_mesh_domain h) (poke 40 (h_node_id h)
      (melodi_wire_encode_common out ?c)))))))"
  have "?o = hello_bytes (claim_norm cls h)"
    using assms
    by (simp add: melodi_wire_encode_common_bytes poke_fill hello_wf_def del: append.simps append_assoc)
       (simp add: hello_bytes_def claim_norm_def)
  then show ?thesis
    using assms(2) flags_only_broadcast [of "c_flags (h_common h)"]
    by (auto simp: melodi_wire_encode_claim_def Let_def claim_ok_def claim_norm_def
        bare_def hello_wf_def)
qed

lemma claim_ok_norm: "claim_ok cls h \<Longrightarrow> claim_norm cls h = h \<and> hello_wf h"
  by (simp add: claim_ok_def claim_norm_def bare_def)

lemma length_hello_bytes: "claim_ok cls h \<Longrightarrow> length (hello_bytes h) = 213"
  by (simp add: claim_ok_def hello_wf_def hello_bytes_def)

interpretation hello: frame_codec melodi_wire_encode_hello melodi_wire_decode_hello hello_bytes
    "claim_ok 1" hello_wf "claim_norm 1" 213
  by unfold_locales
     (simp_all add: melodi_wire_decode_hello_def melodi_wire_encode_hello_def melodi_wire_decode_claim_iff
       melodi_wire_encode_claim_eq claim_ok_norm length_hello_bytes melodi_wire_class_valid_def)

interpretation conflict: frame_codec melodi_wire_encode_conflict melodi_wire_decode_conflict hello_bytes
    "claim_ok 6" hello_wf "claim_norm 6" 213
  by unfold_locales
     (simp_all add: melodi_wire_decode_conflict_def melodi_wire_encode_conflict_def melodi_wire_decode_claim_iff
       melodi_wire_encode_claim_eq claim_ok_norm length_hello_bytes melodi_wire_class_valid_def)


subsection \<open>Authentication frames\<close>

definition auth_bytes :: "melodi_wire_auth \<Rightarrow> bytes" where
  "auth_bytes h = common_bytes (u_common h) @ u_source_node_id h @ u_destination_node_id h
     @ u_ephemeral_key h @ u_challenge h @ u_reply_to h @ u_mesh_domain h
     @ melodi_wire_put32 (u_collision_round h) @ u_signature h"

definition auth_wf :: "melodi_wire_auth \<Rightarrow> bool" where
  "auth_wf h \<longleftrightarrow> length (u_source_node_id h) = 33 \<and> length (u_destination_node_id h) = 33
     \<and> length (u_ephemeral_key h) = 32 \<and> length (u_challenge h) = 32 \<and> length (u_reply_to h) = 32
     \<and> length (u_mesh_domain h) = 32 \<and> length (u_signature h) = 64"

definition auth_ok :: "melodi_wire_auth \<Rightarrow> bool" where
  "auth_ok h \<longleftrightarrow> auth_wf h
     \<and> (bare (u_common h) MELODI_WIRE_CHALLENGE 302 0 \<or> bare (u_common h) MELODI_WIRE_RESPONSE 302 0)
     \<and> unicast (u_common h) \<and> u_source_node_id h ! 0 = MELODI_NODE_ID_SCHEME_ED25519
     \<and> u_destination_node_id h ! 0 = MELODI_NODE_ID_SCHEME_ED25519"

definition auth_norm :: "melodi_wire_auth \<Rightarrow> melodi_wire_auth" where
  "auth_norm h = h\<lparr>u_common := (u_common h)\<lparr>c_version := MELODI_WIRE_VERSION,
     c_header_length := 302, c_payload_length := 0\<rparr>\<rparr>"

lemma melodi_wire_decode_auth_iff:
  "melodi_wire_decode_auth xs = Inr h \<longleftrightarrow> auth_ok h \<and> xs = auth_bytes h"
proof
  assume dec: "melodi_wire_decode_auth xs = Inr h"
  then obtain c where c: "melodi_wire_decode_common xs = Inr c"
    by (auto simp: melodi_wire_decode_auth_def split: sum.splits)
  from c obtain rest where ok: "common_ok c (length xs)" and xs: "xs = common_bytes c @ rest"
    by (auto simp: melodi_wire_decode_common_iff)
  have h: "h = \<lparr>u_common = c, u_source_node_id = chunk 40 33 xs, u_destination_node_id = chunk 73 33 xs,
      u_ephemeral_key = chunk 106 32 xs, u_challenge = chunk 138 32 xs, u_reply_to = chunk 170 32 xs,
      u_mesh_domain = chunk 202 32 xs, u_collision_round = melodi_wire_get32 (drop 234 xs),
      u_signature = chunk 238 64 xs\<rparr>"
    and size: "unat (c_header_length c) = 302" "c_payload_length c = 0"
    using dec by (auto simp: melodi_wire_decode_auth_def c Let_def split: if_splits)
  have len: "length xs = 302" using ok size by (simp add: common_ok_def)
  have hl: "c_header_length c = 302" using size(1) by (simp add: word_unat_eq_iff)
  have "auth_bytes h = chunk 0 40 xs @ chunk 40 33 xs @ chunk 73 33 xs @ chunk 106 32 xs @ chunk 138 32 xs
      @ chunk 170 32 xs @ chunk 202 32 xs @ chunk 234 4 xs @ chunk 238 64 xs"
    using len by (simp add: h auth_bytes_def wire_rereads) (simp add: xs chunk_common)
  also have "\<dots> = xs" using len by (simp add: chunk_join chunk_join_append) (simp add: chunk_0)
  finally have "xs = auth_bytes h" by simp
  moreover have "auth_ok h"
    using dec ok len hl
    by (auto simp: melodi_wire_decode_auth_def c Let_def auth_ok_def auth_wf_def bare_def unicast_def
        common_ok_def split: if_splits)
  ultimately show "auth_ok h \<and> xs = auth_bytes h" by simp
next
  assume "auth_ok h \<and> xs = auth_bytes h"
  then have ok: "auth_ok h" and xs: "xs = auth_bytes h" by simp_all
  then have "length xs = 302" by (simp add: auth_bytes_def auth_ok_def auth_wf_def)
  with ok have "common_ok (u_common h) (length xs)"
    by (auto simp: auth_ok_def melodi_wire_class_valid_def intro: bare_common_ok)
  then have c: "melodi_wire_decode_common xs = Inr (u_common h)"
    unfolding melodi_wire_decode_common_iff xs auth_bytes_def by blast
  have "chunk 40 33 xs = u_source_node_id h" "chunk 73 33 xs = u_destination_node_id h"
    "chunk 106 32 xs = u_ephemeral_key h" "chunk 138 32 xs = u_challenge h"
    "chunk 170 32 xs = u_reply_to h" "chunk 202 32 xs = u_mesh_domain h"
    "chunk 238 64 xs = u_signature h" "melodi_wire_get32 (drop 234 xs) = u_collision_round h"
    using ok by (simp_all add: xs auth_bytes_def chunk_def auth_ok_def auth_wf_def)
  then show "melodi_wire_decode_auth xs = Inr h"
    using ok by (auto simp: melodi_wire_decode_auth_def c Let_def auth_ok_def bare_def unicast_def)
qed

lemma melodi_wire_encode_auth_eq:
  assumes "length out = 302" "auth_wf h"
  shows "melodi_wire_encode_auth out h =
    (if auth_ok (auth_norm h) then Inr (auth_bytes (auth_norm h)) else Inl EINVAL)"
proof -
  let ?c = "u_common (auth_norm h)"
  let ?o = "poke 238 (u_signature h) (poke 234 (melodi_wire_put32 (u_collision_round h))
    (poke 202 (u_mesh_domain h) (poke 170 (u_reply_to h) (poke 138 (u_challenge h)
    (poke 106 (u_ephemeral_key h) (poke 73 (u_destination_node_id h) (poke 40 (u_source_node_id h)
      (melodi_wire_encode_common out ?c))))))))"
  have "?o = auth_bytes (auth_norm h)"
    using assms
    by (simp add: melodi_wire_encode_common_bytes poke_fill auth_wf_def del: append.simps append_assoc)
       (simp add: auth_bytes_def auth_norm_def)
  then show ?thesis
    using assms(2)
    by (auto simp: melodi_wire_encode_auth_def Let_def auth_ok_def auth_norm_def bare_def unicast_def auth_wf_def)
qed

interpretation auth: frame_codec melodi_wire_encode_auth melodi_wire_decode_auth auth_bytes auth_ok auth_wf
    auth_norm 302
proof
  show "melodi_wire_decode_auth xs = Inr h \<longleftrightarrow> auth_ok h \<and> xs = auth_bytes h" for xs h
    by (rule melodi_wire_decode_auth_iff)
  show "length out = 302 \<Longrightarrow> auth_wf h \<Longrightarrow> melodi_wire_encode_auth out h =
    (if auth_ok (auth_norm h) then Inr (auth_bytes (auth_norm h)) else Inl EINVAL)" for out h
    by (rule melodi_wire_encode_auth_eq)
  show "auth_ok h \<Longrightarrow> auth_norm h = h \<and> auth_wf h" for h
    by (auto simp: auth_ok_def auth_norm_def bare_def)
  show "auth_ok h \<Longrightarrow> length (auth_bytes h) = 302" for h
    by (simp add: auth_ok_def auth_wf_def auth_bytes_def)
qed

subsection \<open>Control frames\<close>

definition control_bytes :: "melodi_wire_control \<Rightarrow> bytes" where
  "control_bytes h = common_bytes (t_common h) @ t_node_id h @ t_mesh_domain h
     @ melodi_wire_put32 (t_collision_round h) @ melodi_wire_put16 (t_opcode h) @ [0] @ [0]
     @ t_data h @ t_signature h"

definition control_wf :: "melodi_wire_control \<Rightarrow> bool" where
  "control_wf h \<longleftrightarrow> length (t_node_id h) = 33 \<and> length (t_mesh_domain h) = 32 \<and> length (t_data h) = 32
     \<and> length (t_signature h) = 64"

definition control_ok :: "melodi_wire_control \<Rightarrow> bool" where
  "control_ok h \<longleftrightarrow> control_wf h \<and> bare (t_common h) MELODI_WIRE_CONTROL 209 MELODI_WIRE_F_BROADCAST
     \<and> c_source_native_locator (t_common h) \<noteq> MELODI_NATIVE_LOCATOR_INVALID
     \<and> c_source_native_locator (t_common h) \<noteq> MELODI_NATIVE_LOCATOR_BROADCAST
     \<and> c_destination_native_locator (t_common h) = MELODI_NATIVE_LOCATOR_BROADCAST
     \<and> t_node_id h ! 0 = MELODI_NODE_ID_SCHEME_ED25519 \<and> t_opcode h = MELODI_CONTROL_PROBE"

definition control_norm :: "melodi_wire_control \<Rightarrow> melodi_wire_control" where
  "control_norm h = h\<lparr>t_common := (t_common h)\<lparr>c_version := MELODI_WIRE_VERSION,
     c_frame_class := MELODI_WIRE_CONTROL, c_header_length := 209, c_payload_length := 0\<rparr>\<rparr>"

lemma melodi_wire_decode_control_iff:
  "melodi_wire_decode_control xs = Inr h \<longleftrightarrow> control_ok h \<and> xs = control_bytes h"
proof
  assume dec: "melodi_wire_decode_control xs = Inr h"
  then obtain c where c: "melodi_wire_decode_common xs = Inr c"
    by (auto simp: melodi_wire_decode_control_def split: sum.splits)
  from c obtain rest where ok: "common_ok c (length xs)" and xs: "xs = common_bytes c @ rest"
    by (auto simp: melodi_wire_decode_common_iff)
  have h: "h = \<lparr>t_common = c, t_node_id = chunk 40 33 xs, t_mesh_domain = chunk 73 32 xs,
      t_collision_round = melodi_wire_get32 (drop 105 xs), t_opcode = melodi_wire_get16 (drop 109 xs),
      t_data = chunk 113 32 xs, t_signature = chunk 145 64 xs\<rparr>"
    and zero: "xs ! 111 = 0" "xs ! 112 = 0"
    and size: "unat (c_header_length c) = 209" "c_payload_length c = 0"
    using dec by (auto simp: melodi_wire_decode_control_def c Let_def split: if_splits)
  have len: "length xs = 209" using ok size by (simp add: common_ok_def)
  have hl: "c_header_length c = 209" using size(1) by (simp add: word_unat_eq_iff)
  have "control_bytes h = chunk 0 40 xs @ chunk 40 33 xs @ chunk 73 32 xs @ chunk 105 4 xs @ chunk 109 2 xs
      @ chunk 111 1 xs @ chunk 112 1 xs @ chunk 113 32 xs @ chunk 145 64 xs"
    using len zero chunk_nth [of 111 xs] chunk_nth [of 112 xs]
    by (simp add: h control_bytes_def wire_rereads del: One_nat_def) (simp add: xs chunk_common)
  also have "\<dots> = xs" using len by (simp add: chunk_join chunk_join_append) (simp add: chunk_0)
  finally have "xs = control_bytes h" by simp
  moreover have "control_ok h"
    using dec ok len hl
    by (auto simp: melodi_wire_decode_control_def c Let_def control_ok_def control_wf_def bare_def
        common_ok_def split: if_splits)
  ultimately show "control_ok h \<and> xs = control_bytes h" by simp
next
  assume "control_ok h \<and> xs = control_bytes h"
  then have ok: "control_ok h" and xs: "xs = control_bytes h" by simp_all
  then have "length xs = 209" by (simp add: control_bytes_def control_ok_def control_wf_def)
  with ok have "common_ok (t_common h) (length xs)"
    by (intro bare_common_ok) (auto simp: control_ok_def melodi_wire_class_valid_def)
  then have c: "melodi_wire_decode_common xs = Inr (t_common h)"
    unfolding melodi_wire_decode_common_iff xs control_bytes_def by blast
  have "xs ! 111 = 0" "xs ! 112 = 0" "chunk 40 33 xs = t_node_id h" "chunk 73 32 xs = t_mesh_domain h"
    "chunk 113 32 xs = t_data h" "chunk 145 64 xs = t_signature h"
    "melodi_wire_get32 (drop 105 xs) = t_collision_round h" "melodi_wire_get16 (drop 109 xs) = t_opcode h"
    using ok by (simp_all add: xs control_bytes_def nth_append chunk_def control_ok_def control_wf_def)
  then show "melodi_wire_decode_control xs = Inr h"
    using ok by (auto simp: melodi_wire_decode_control_def c Let_def control_ok_def bare_def)
qed

lemma melodi_wire_encode_control_eq:
  assumes "length out = 209" "control_wf h"
  shows "melodi_wire_encode_control out h =
    (if control_ok (control_norm h) then Inr (control_bytes (control_norm h)) else Inl EINVAL)"
proof -
  let ?c = "t_common (control_norm h)"
  let ?o = "poke 145 (t_signature h) (poke 113 (t_data h) (poke 112 [0] (poke 111 [0]
    (poke 109 (melodi_wire_put16 (t_opcode h)) (poke 105 (melodi_wire_put32 (t_collision_round h))
    (poke 73 (t_mesh_domain h) (poke 40 (t_node_id h) (melodi_wire_encode_common out ?c))))))))"
  have "?o = control_bytes (control_norm h)"
    using assms
    by (simp add: melodi_wire_encode_common_bytes poke_fill control_wf_def del: append.simps append_assoc)
       (simp add: control_bytes_def control_norm_def)
  then show ?thesis
    using assms(2)
    by (auto simp: melodi_wire_encode_control_def Let_def control_ok_def control_norm_def bare_def control_wf_def)
qed

interpretation control: frame_codec melodi_wire_encode_control melodi_wire_decode_control control_bytes
    control_ok control_wf control_norm 209
proof
  show "melodi_wire_decode_control xs = Inr h \<longleftrightarrow> control_ok h \<and> xs = control_bytes h" for xs h
    by (rule melodi_wire_decode_control_iff)
  show "length out = 209 \<Longrightarrow> control_wf h \<Longrightarrow> melodi_wire_encode_control out h =
    (if control_ok (control_norm h) then Inr (control_bytes (control_norm h)) else Inl EINVAL)" for out h
    by (rule melodi_wire_encode_control_eq)
  show "control_ok h \<Longrightarrow> control_norm h = h \<and> control_wf h" for h
    by (simp add: control_ok_def control_norm_def bare_def)
  show "control_ok h \<Longrightarrow> length (control_bytes h) = 209" for h
    by (simp add: control_ok_def control_wf_def control_bytes_def)
qed


subsection \<open>Data frames\<close>

definition data_bytes :: "melodi_wire_data \<Rightarrow> bytes" where
  "data_bytes h = common_bytes (d_common h) @ melodi_wire_put16 (d_destination_service h)
     @ melodi_wire_put16 (d_source_service h) @ melodi_wire_put16 (d_fragment_index h)
     @ melodi_wire_put16 (d_fragment_count h) @ melodi_wire_put32 (d_logical_length h)
     @ [d_delivery_mode h] @ [d_priority h] @ [0] @ [0] @ melodi_wire_put32 (d_ordering_marker h)
     @ d_tag h @ [0] @ [0] @ [0] @ [0]"

definition data_wf :: "melodi_wire_data \<Rightarrow> bool" where
  "data_wf h \<longleftrightarrow> length (d_tag h) = 16"

lemma length_data_bytes: "data_wf h \<Longrightarrow> length (data_bytes h) = 80"
  by (simp add: data_bytes_def data_wf_def)

text \<open>What both directions require of a header with \<open>n\<close> octets behind it.\<close>

definition data_fields_ok :: "melodi_wire_data \<Rightarrow> nat \<Rightarrow> bool" where
  "data_fields_ok h n \<longleftrightarrow> n \<le> 65535 \<and> d_fragment_count h \<noteq> 0 \<and> d_fragment_index h < d_fragment_count h
     \<and> d_delivery_mode h \<le> MELODI_DELIVERY_RELIABLE_ORDERED \<and> d_priority h \<le> MELODI_PRIORITY_MAX
     \<and> c_flags (d_common h) AND NOT MELODI_WIRE_F_ALL = 0"

definition data_norm :: "melodi_wire_data \<Rightarrow> nat \<Rightarrow> melodi_wire_data" where
  "data_norm h n = h\<lparr>d_common := (d_common h)\<lparr>c_version := MELODI_WIRE_VERSION, c_frame_class := MELODI_WIRE_DATA,
     c_header_length := 80, c_payload_length := of_nat n\<rparr>\<rparr>"

text \<open>The octets of the message that a frame carries behind its header.\<close>

definition carried :: "melodi_wire_data \<Rightarrow> nat \<Rightarrow> nat" where
  "carried h n = (if c_flags (d_common h) AND MELODI_WIRE_F_BROADCAST \<noteq> 0 then n - 48 else n)"

definition data_ok :: "melodi_wire_data \<Rightarrow> nat \<Rightarrow> bool" where
  "data_ok h n \<longleftrightarrow> data_wf h \<and> data_fields_ok h n \<and> data_norm h n = h
     \<and> (c_flags (d_common h) AND MELODI_WIRE_F_BROADCAST \<noteq> 0 \<longrightarrow> 48 \<le> n)
     \<and> carried h n \<le> unat (d_logical_length h)"

lemma data_ok_payload:
  assumes "data_ok h n"
  shows "unat (c_payload_length (d_common h)) = n"
proof -
  have norm: "data_norm h n = h" and n: "n \<le> 65535"
    using assms by (simp_all add: data_ok_def data_fields_ok_def)
  have "c_payload_length (d_common h) = of_nat n"
    using arg_cong [OF norm, of "c_payload_length \<circ> d_common"] by (simp add: data_norm_def)
  with n show ?thesis by (simp add: unat_of_nat take_bit_nat_eq_self)
qed

definition data_of :: "melodi_wire_common \<Rightarrow> bytes \<Rightarrow> melodi_wire_data" where
  "data_of common input =
     \<lparr>d_common = common, d_destination_service = melodi_wire_get16 (drop 40 input),
      d_source_service = melodi_wire_get16 (drop 42 input), d_fragment_index = melodi_wire_get16 (drop 44 input),
      d_fragment_count = melodi_wire_get16 (drop 46 input), d_logical_length = melodi_wire_get32 (drop 48 input),
      d_delivery_mode = input ! 52, d_priority = input ! 53,
      d_ordering_marker = melodi_wire_get32 (drop 56 input), d_tag = chunk 60 16 input\<rparr>"

lemma data_of_data_bytes: "data_wf h \<Longrightarrow> data_of (d_common h) (data_bytes h @ rest) = h"
  by (simp add: data_of_def data_bytes_def data_wf_def nth_append chunk_def)

lemma data_bytes_data_of:
  assumes "80 \<le> length xs" "xs = common_bytes c @ rest" "xs ! 54 = 0" "xs ! 55 = 0"
    "xs ! 76 = 0" "xs ! 77 = 0" "xs ! 78 = 0" "xs ! 79 = 0"
  shows "data_bytes (data_of c xs) = take 80 xs"
proof -
  have zero: "[0] = chunk 54 1 xs" "[0] = chunk 55 1 xs" "[0] = chunk 76 1 xs" "[0] = chunk 77 1 xs"
    "[0] = chunk 78 1 xs" "[0] = chunk 79 1 xs"
    using assms chunk_nth [of 54 xs] chunk_nth [of 55 xs] chunk_nth [of 76 xs] chunk_nth [of 77 xs]
      chunk_nth [of 78 xs] chunk_nth [of 79 xs] by simp_all
  have c: "common_bytes c = chunk 0 40 xs" by (simp add: assms(2) chunk_common)
  have "data_bytes (data_of c xs) = chunk 0 40 xs @ chunk 40 2 xs @ chunk 42 2 xs @ chunk 44 2 xs @ chunk 46 2 xs
      @ chunk 48 4 xs @ chunk 52 1 xs @ chunk 53 1 xs @ chunk 54 1 xs @ chunk 55 1 xs @ chunk 56 4 xs
      @ chunk 60 16 xs @ chunk 76 1 xs @ chunk 77 1 xs @ chunk 78 1 xs @ chunk 79 1 xs"
    unfolding zero [symmetric] using assms(1) c
    by (simp add: data_bytes_def data_of_def wire_rereads chunk_nth [symmetric] del: One_nat_def)
  also have "\<dots> = chunk 0 80 xs" by (simp add: chunk_join chunk_join_append)
  finally show ?thesis by (simp add: chunk_0)
qed

lemma above_u32: "ucast (n :: u16) \<le> (x :: u32) \<longleftrightarrow> unat n \<le> unat x"
  by (simp add: word_le_nat_alt unat_ucast_up)

lemma above_u32_minus:
  "48 \<le> unat (n :: u16) \<Longrightarrow> ucast n - 48 \<le> (x :: u32) \<longleftrightarrow> unat n - 48 \<le> unat x"
  by (simp add: word_le_nat_alt unat_sub unat_ucast_up)

lemma melodi_wire_decode_data_of:
  assumes "melodi_wire_decode_common xs = Inr c"
  shows "melodi_wire_decode_data xs =
    (if c_frame_class c \<noteq> MELODI_WIRE_DATA \<or> unat (c_header_length c) \<noteq> 80 then Inl EPROTO
     else if d_fragment_count (data_of c xs) \<noteq> 0
       \<and> d_fragment_index (data_of c xs) < d_fragment_count (data_of c xs)
       \<and> (c_flags c AND MELODI_WIRE_F_BROADCAST \<noteq> 0 \<longrightarrow> 48 \<le> unat (c_payload_length c))
       \<and> carried (data_of c xs) (unat (c_payload_length c)) \<le> unat (d_logical_length (data_of c xs))
       \<and> d_delivery_mode (data_of c xs) \<le> MELODI_DELIVERY_RELIABLE_ORDERED
       \<and> d_priority (data_of c xs) \<le> MELODI_PRIORITY_MAX
       \<and> xs ! 54 = 0 \<and> xs ! 55 = 0 \<and> xs ! 76 = 0 \<and> xs ! 77 = 0 \<and> xs ! 78 = 0 \<and> xs ! 79 = 0
     then Inr (data_of c xs, drop 80 xs) else Inl EPROTO)"
proof -
  have c: "d_common (data_of c xs) = c" by (simp add: data_of_def)
  show ?thesis
    unfolding melodi_wire_decode_data_def assms sum.case Let_def data_of_def [symmetric] carried_def c
    using above_u32_minus [of "c_payload_length c" "d_logical_length (data_of c xs)"]
    by (auto simp: not_less above_u32 simp flip: not_le)
qed

lemma melodi_wire_decode_data_iff:
  "melodi_wire_decode_data xs = Inr (h, payload) \<longleftrightarrow> data_ok h (length payload) \<and> xs = data_bytes h @ payload"
proof
  assume dec: "melodi_wire_decode_data xs = Inr (h, payload)"
  then obtain c where c: "melodi_wire_decode_common xs = Inr c"
    by (auto simp: melodi_wire_decode_data_def split: sum.splits)
  from c obtain rest where ok: "common_ok c (length xs)" and xs: "xs = common_bytes c @ rest"
    by (auto simp: melodi_wire_decode_common_iff)
  note d = dec [unfolded melodi_wire_decode_data_of [OF c]]
  have h: "h = data_of c xs" "payload = drop 80 xs" "unat (c_header_length c) = 80" "c_frame_class c = 4"
    and zero: "xs ! 54 = 0" "xs ! 55 = 0" "xs ! 76 = 0" "xs ! 77 = 0" "xs ! 78 = 0" "xs ! 79 = 0"
    using d by (simp_all split: if_splits)
  have len: "length xs = 80 + unat (c_payload_length c)" using ok h(3) by (simp add: common_ok_def)
  have n: "length payload = unat (c_payload_length c)" by (simp add: h(2) len)
  have "data_bytes h = take 80 xs"
    unfolding h(1) by (rule data_bytes_data_of [OF _ xs zero]) (simp add: len)
  then have "xs = data_bytes h @ payload" by (simp add: h(2))
  moreover have "data_wf h" using len by (simp add: h(1) data_of_def data_wf_def)
  moreover have "data_norm h (length payload) = h"
    using ok h(3,4) n by (simp add: data_norm_def h(1) data_of_def common_ok_def word_unat_eq_iff)
  moreover have "data_fields_ok h (length payload)"
    using d ok n unsigned_less [of "c_payload_length c", where 'a = nat]
    by (auto simp: data_fields_ok_def h(1) common_ok_def data_of_def split: if_splits)
  ultimately show "data_ok h (length payload) \<and> xs = data_bytes h @ payload"
    using d n by (auto simp: data_ok_def h(1) carried_def data_of_def split: if_splits)
next
  assume "data_ok h (length payload) \<and> xs = data_bytes h @ payload"
  then have ok: "data_ok h (length payload)" and xs: "xs = data_bytes h @ payload" by simp_all
  let ?c = "d_common h"
  have wf: "data_wf h" and f: "data_fields_ok h (length payload)" and norm: "data_norm h (length payload) = h"
    using ok by (simp_all add: data_ok_def)
  have c': "c_version ?c = 1" "c_frame_class ?c = 4" "c_header_length ?c = 80"
    "c_payload_length ?c = of_nat (length payload)"
    using arg_cong [OF norm, of "c_version \<circ> d_common"] arg_cong [OF norm, of "c_frame_class \<circ> d_common"]
      arg_cong [OF norm, of "c_header_length \<circ> d_common"] arg_cong [OF norm, of "c_payload_length \<circ> d_common"]
    by (simp_all add: data_norm_def)
  have pl: "unat (c_payload_length ?c) = length payload"
    using f by (simp add: c' data_fields_ok_def unat_of_nat take_bit_nat_eq_self)
  have "common_ok ?c (length xs)"
    using f c' pl wf by (simp add: common_ok_def xs length_data_bytes melodi_wire_class_valid_def data_fields_ok_def)
  then have c: "melodi_wire_decode_common xs = Inr ?c"
    unfolding melodi_wire_decode_common_iff xs data_bytes_def by auto
  have of: "data_of ?c xs = h" unfolding xs by (rule data_of_data_bytes [OF wf])
  have "xs ! 54 = 0" "xs ! 55 = 0" "xs ! 76 = 0" "xs ! 77 = 0" "xs ! 78 = 0" "xs ! 79 = 0"
    using wf by (simp_all add: xs data_bytes_def data_wf_def nth_append)
  moreover have "drop 80 xs = payload" by (simp add: xs length_data_bytes wf)
  ultimately show "melodi_wire_decode_data xs = Inr (h, payload)"
    unfolding melodi_wire_decode_data_of [OF c] of using ok f c' pl
    by (simp add: data_ok_def data_fields_ok_def)
qed


lemma melodi_wire_encode_data_header_eq:
  assumes "data_wf h"
  shows "melodi_wire_encode_data_header out h n =
    (if 80 + n \<le> length out \<and> data_fields_ok h n
     then Inr (data_bytes (data_norm h n) @ drop 80 out) else Inl EINVAL)"
proof (cases "80 + n \<le> length out \<and> data_fields_ok h n")
  case True
  then have fit: "40 \<le> length out" "80 \<le> length out" and f: "data_fields_ok h n" by auto
  let ?c = "d_common (data_norm h n)"
  let ?o = "poke 76 (replicate 4 0) (poke 60 (d_tag h) (poke 56 (melodi_wire_put32 (d_ordering_marker h))
    (poke 55 [0] (poke 54 [0] (poke 53 [d_priority h] (poke 52 [d_delivery_mode h]
    (poke 48 (melodi_wire_put32 (d_logical_length h)) (poke 46 (melodi_wire_put16 (d_fragment_count h))
    (poke 44 (melodi_wire_put16 (d_fragment_index h)) (poke 42 (melodi_wire_put16 (d_source_service h))
    (poke 40 (melodi_wire_put16 (d_destination_service h)) (melodi_wire_encode_common out ?c))))))))))))"
  have "?o = data_bytes (data_norm h n) @ drop 80 out"
    using assms fit
    by (simp add: melodi_wire_encode_common_bytes poke_fill data_wf_def del: append.simps append_assoc)
       (simp add: data_bytes_def data_norm_def numeral_eq_Suc)
  then show ?thesis
    using True by (auto simp: melodi_wire_encode_data_header_def Let_def data_norm_def data_fields_ok_def)
next
  case False
  then show ?thesis
    by (auto simp: melodi_wire_encode_data_header_def data_fields_ok_def)
qed

lemma data_wf_norm [simp]: "data_wf (data_norm h n) = data_wf h"
  by (simp add: data_wf_def data_norm_def)

lemma melodi_wire_encode_data_eq:
  assumes "data_wf h"
  shows "melodi_wire_encode_data out h p =
    (if length p \<le> unat (d_logical_length h) \<and> 80 + length p \<le> length out \<and> data_fields_ok h (length p)
     then Inr (data_bytes (data_norm h (length p)) @ p @ drop (80 + length p) out, 80 + length p)
     else Inl EINVAL)"
  using assms
  by (auto simp: melodi_wire_encode_data_def melodi_wire_encode_data_header_eq poke_fill length_data_bytes
      add.commute)

subsection \<open>Broadcast data frames\<close>

definition broadcast_header_ok :: "melodi_wire_data \<Rightarrow> bool" where
  "broadcast_header_ok h \<longleftrightarrow> c_destination_native_locator (d_common h) = MELODI_NATIVE_LOCATOR_BROADCAST
     \<and> c_flags (d_common h) AND NOT MELODI_WIRE_F_FINAL = MELODI_WIRE_F_BROADCAST
     \<and> d_delivery_mode h = MELODI_DELIVERY_UNRELIABLE \<and> d_ordering_marker h = 0"

lemma broadcast_flag:
  assumes "f AND NOT 0x10 = (1 :: u16)"
  shows "f AND 1 \<noteq> 0"
proof -
  have "bit (f AND NOT 0x10) 0" unfolding assms by simp
  then have "bit f 0" by (simp only: bit_and_iff)
  then show ?thesis by (simp add: and_one_iff_bit)
qed

lemma melodi_wire_encode_broadcast_data_eq:
  assumes "length sig = 64"
  shows "melodi_wire_encode_broadcast_data out h sig p =
    (let g = h\<lparr>d_tag := take 16 sig\<rparr>; n = 48 + length p
     in if length p \<le> unat (d_logical_length h) \<and> broadcast_header_ok h \<and> 80 + n \<le> length out
           \<and> data_fields_ok g n
        then Inr (data_bytes (data_norm g n) @ drop 16 sig @ p @ drop (80 + n) out, 80 + n)
        else Inl EINVAL)"
proof -
  let ?g = "h\<lparr>d_tag := take 16 sig\<rparr>" and ?n = "48 + length p"
  have wf: "data_wf ?g" using assms by (simp add: data_wf_def)
  have "poke 128 p (poke 80 (chunk 16 48 sig) (data_bytes (data_norm ?g ?n) @ drop 80 out)) =
      data_bytes (data_norm ?g ?n) @ drop 16 sig @ p @ drop (80 + ?n) out" if "80 + ?n \<le> length out"
    using wf assms that
    by (simp add: poke_fill length_data_bytes chunk_def del: append_assoc) (simp add: add.commute)
  then show ?thesis
    by (auto simp: melodi_wire_encode_broadcast_data_def broadcast_header_ok_def Let_def
        melodi_wire_encode_data_header_eq [OF wf] not_less)
qed

lemma melodi_wire_decode_broadcast_data_iff:
  "melodi_wire_decode_broadcast_data xs = Inr (h, sig, p) \<longleftrightarrow>
     broadcast_header_ok h \<and> data_ok h (48 + length p) \<and> length sig = 64 \<and> d_tag h = take 16 sig
     \<and> xs = data_bytes h @ drop 16 sig @ p"
proof
  assume dec: "melodi_wire_decode_broadcast_data xs = Inr (h, sig, p)"
  then obtain q where q: "melodi_wire_decode_data xs = Inr (h, q)"
    by (auto simp: melodi_wire_decode_broadcast_data_def split: sum.splits if_splits)
  then have ok: "data_ok h (length q)" and xs: "xs = data_bytes h @ q"
    by (simp_all add: melodi_wire_decode_data_iff)
  have pl: "unat (c_payload_length (d_common h)) = length q"
    by (rule data_ok_payload [OF ok])
  have *: "broadcast_header_ok h" "48 \<le> length q" "sig = d_tag h @ take 48 q" "p = drop 48 q"
    using dec pl by (auto simp: melodi_wire_decode_broadcast_data_def q broadcast_header_ok_def split: if_splits)
  have tag: "length (d_tag h) = 16" using ok by (simp add: data_ok_def data_wf_def)
  show "broadcast_header_ok h \<and> data_ok h (48 + length p) \<and> length sig = 64 \<and> d_tag h = take 16 sig
     \<and> xs = data_bytes h @ drop 16 sig @ p"
    using * tag ok xs by simp
next
  assume a: "broadcast_header_ok h \<and> data_ok h (48 + length p) \<and> length sig = 64 \<and> d_tag h = take 16 sig
     \<and> xs = data_bytes h @ drop 16 sig @ p"
  then have q: "melodi_wire_decode_data xs = Inr (h, drop 16 sig @ p)"
    unfolding melodi_wire_decode_data_iff by simp
  have "unat (c_payload_length (d_common h)) = 48 + length p"
    using a by (intro data_ok_payload) simp
  then show "melodi_wire_decode_broadcast_data xs = Inr (h, sig, p)"
    unfolding melodi_wire_decode_broadcast_data_def q using a by (simp add: broadcast_header_ok_def)
qed


subsection \<open>Properties\<close>

definition sample_common :: "u8 \<Rightarrow> u16 \<Rightarrow> u16 \<Rightarrow> u16 \<Rightarrow> u32 \<Rightarrow> melodi_wire_common" where
  "sample_common cls flags hl pl dst =
     \<lparr>c_version = 1, c_frame_class = cls, c_flags = flags, c_header_length = hl, c_payload_length = pl,
      c_source_native_locator = 7, c_destination_native_locator = dst, c_identity_generation = 1,
      c_message_id = 2, c_counter = 3\<rparr>"

text \<open>
  C23. The data frame codec is exact for frames that are not broadcasts: an input decodes to a
  header and a payload if and only if encoding these, into any buffer of its size, gives the
  input back. (The header fields that the encoder sets itself must already have these values.)
\<close>

theorem wire_data_codec:
  assumes "data_wf h" and "length out = length xs" and "c_flags (d_common h) AND 1 = 0"
  shows "melodi_wire_decode_data xs = Inr (h, p) \<longleftrightarrow>
    data_norm h (length p) = h \<and> melodi_wire_encode_data out h p = Inr (xs, length xs)"
proof -
  have "carried h n = n" for n using assms(3) by (simp add: carried_def)
  then have ok: "data_ok h (length p) \<longleftrightarrow> data_fields_ok h (length p) \<and> data_norm h (length p) = h
      \<and> length p \<le> unat (d_logical_length h)"
    using assms by (auto simp: data_ok_def)
  have fit: "xs = data_bytes h @ p \<longleftrightarrow> 80 + length p \<le> length out
      \<and> data_bytes h @ p @ drop (80 + length p) out = xs \<and> 80 + length p = length xs"
    using assms(2) length_data_bytes [OF assms(1)] by auto
  show ?thesis
    unfolding melodi_wire_decode_data_iff melodi_wire_encode_data_eq [OF assms(1)] ok
    using fit by (cases "data_norm h (length p) = h") auto
qed

definition sample_data :: melodi_wire_data where
  "sample_data = \<lparr>d_common = sample_common 4 2 80 3 9, d_destination_service = 1, d_source_service = 2,
     d_fragment_index = 0, d_fragment_count = 1, d_logical_length = 3, d_delivery_mode = 0, d_priority = 0,
     d_ordering_marker = 0, d_tag = replicate 16 0\<rparr>"

theorem wire_data_codec_witness:
  "melodi_wire_encode_data (replicate 83 0) sample_data [1, 2, 3] = Inr (data_bytes sample_data @ [1, 2, 3], 83)"
proof -
  have wf: "data_wf sample_data" by (simp add: data_wf_def sample_data_def)
  have "melodi_wire_decode_data (data_bytes sample_data @ [1, 2, 3]) = Inr (sample_data, [1, 2, 3])"
    unfolding melodi_wire_decode_data_iff
    by (simp add: data_ok_def data_wf_def data_fields_ok_def data_norm_def carried_def sample_data_def sample_common_def)
  with wire_data_codec [OF wf, of "replicate 83 0" "data_bytes sample_data @ [1, 2, 3]" "[1, 2, 3]"]
  show ?thesis by (simp add: length_data_bytes wf) (simp add: sample_data_def sample_common_def)
qed

text \<open>
  C24. The broadcast codec is exact as well: the signature travels in the tag field and in front
  of the payload, and decoding recovers exactly the header, the 64 octets of the signature and
  the payload that encode to the input.
\<close>

theorem wire_broadcast_codec:
  assumes "length sig = 64" and "length out = length xs"
  shows "melodi_wire_decode_broadcast_data xs = Inr (h, sig, p) \<longleftrightarrow>
    data_norm h (48 + length p) = h \<and> d_tag h = take 16 sig
    \<and> melodi_wire_encode_broadcast_data out h sig p = Inr (xs, length xs)"
proof (cases "d_tag h = take 16 sig")
  case True
  then have g: "h\<lparr>d_tag := take 16 sig\<rparr> = h" by simp
  have wf: "data_wf h" using True assms(1) by (simp add: data_wf_def)
  have ok: "broadcast_header_ok h \<Longrightarrow> data_ok h (48 + length p) \<longleftrightarrow> data_fields_ok h (48 + length p)
      \<and> data_norm h (48 + length p) = h \<and> length p \<le> unat (d_logical_length h)"
    using wf broadcast_flag by (auto simp: data_ok_def carried_def broadcast_header_ok_def)
  have fit: "xs = data_bytes h @ drop 16 sig @ p \<longleftrightarrow> 128 + length p \<le> length out
      \<and> data_bytes h @ drop 16 sig @ p @ drop (128 + length p) out = xs \<and> 128 + length p = length xs"
    using assms length_data_bytes [OF wf] by auto
  show ?thesis
    unfolding melodi_wire_decode_broadcast_data_iff melodi_wire_encode_broadcast_data_eq [OF assms(1)] g Let_def
    using ok fit True assms(1) by (cases "data_norm h (48 + length p) = h") auto
next
  case False
  then show ?thesis by (simp add: melodi_wire_decode_broadcast_data_iff)
qed

definition sample_broadcast :: melodi_wire_data where
  "sample_broadcast = \<lparr>d_common = sample_common 4 1 80 50 0xffffffff, d_destination_service = 1,
     d_source_service = 2, d_fragment_index = 0, d_fragment_count = 1, d_logical_length = 2,
     d_delivery_mode = 0, d_priority = 0, d_ordering_marker = 0, d_tag = replicate 16 5\<rparr>"

theorem wire_broadcast_codec_witness:
  "melodi_wire_encode_broadcast_data (replicate 130 0) sample_broadcast (replicate 64 5) [1, 2]
     = Inr (data_bytes sample_broadcast @ replicate 48 5 @ [1, 2], 130)"
proof -
  let ?xs = "data_bytes sample_broadcast @ replicate 48 5 @ [1, 2]"
  have wf: "data_wf sample_broadcast" by (simp add: data_wf_def sample_broadcast_def)
  have dec: "melodi_wire_decode_broadcast_data ?xs = Inr (sample_broadcast, replicate 64 5, [1, 2])"
    unfolding melodi_wire_decode_broadcast_data_iff
    by (simp add: data_ok_def data_wf_def data_fields_ok_def data_norm_def carried_def broadcast_header_ok_def
        sample_broadcast_def sample_common_def)
  have len: "length (replicate 130 (0 :: u8)) = length ?xs" using wf by (simp add: length_data_bytes)
  show ?thesis
    using wire_broadcast_codec [OF _ len, of "replicate 64 5" sample_broadcast "[1, 2]"] dec len by simp
qed


text \<open>
  C25. The acknowledgement codec is exact: an input decodes to a header if and only if it is what
  the header, which has the values the encoder sets, encodes to.
\<close>

theorem wire_ack_codec:
  assumes "ack_wf h" and "length out = 72"
  shows "melodi_wire_decode_ack xs = Inr h \<longleftrightarrow> ack_norm h = h \<and> melodi_wire_encode_ack out h = Inr xs"
  by (rule ack.dec_iff_enc [OF assms(2,1)])

definition sample_ack :: melodi_wire_ack where
  "sample_ack = \<lparr>a_common = sample_common 5 2 72 0 9, a_acknowledged_generation = 4, a_fragment_count = 2,
     a_status = 1, a_bitmap = 3, a_tag = replicate 16 0\<rparr>"

lemma sample_ack_ok: "ack_ok sample_ack"
  by (simp add: ack_ok_def ack_wf_def bare_def unicast_def melodi_wire_ack_expected_def sample_ack_def sample_common_def)

theorem wire_ack_codec_witness:
  "melodi_wire_decode_ack (ack_bytes sample_ack) = Inr sample_ack
   \<and> melodi_wire_encode_ack (replicate 72 0) sample_ack = Inr (ack_bytes sample_ack)"
  using wire_ack_codec [of sample_ack "replicate 72 0" "ack_bytes sample_ack"] sample_ack_ok
    ack.ok_norm [OF sample_ack_ok] by (simp add: melodi_wire_decode_ack_iff)

definition sample_hello :: melodi_wire_hello where
  "sample_hello = \<lparr>h_common = sample_common 1 1 213 0 0xffffffff, h_node_id = 1 # replicate 32 2,
     h_mesh_domain = replicate 32 0, h_collision_round = 0, h_capabilities = 0, h_expiry_seconds = 60,
     h_challenge = replicate 32 0, h_signature = replicate 64 0\<rparr>"

lemma sample_hello_ok: "claim_ok 1 sample_hello"
  by (simp add: claim_ok_def hello_wf_def bare_def sample_hello_def sample_common_def)

definition sample_auth :: melodi_wire_auth where
  "sample_auth = \<lparr>u_common = sample_common 2 0 302 0 9, u_source_node_id = 1 # replicate 32 2,
     u_destination_node_id = 1 # replicate 32 3, u_ephemeral_key = replicate 32 0,
     u_challenge = replicate 32 0, u_reply_to = replicate 32 0, u_mesh_domain = replicate 32 0,
     u_collision_round = 0, u_signature = replicate 64 0\<rparr>"

lemma sample_auth_ok: "auth_ok sample_auth"
  by (simp add: auth_ok_def auth_wf_def bare_def unicast_def sample_auth_def sample_common_def)

definition sample_control :: melodi_wire_control where
  "sample_control = \<lparr>t_common = sample_common 7 1 209 0 0xffffffff, t_node_id = 1 # replicate 32 2,
     t_mesh_domain = replicate 32 0, t_collision_round = 0, t_opcode = 1, t_data = replicate 32 0,
     t_signature = replicate 64 0\<rparr>"

lemma sample_control_ok: "control_ok sample_control"
  by (simp add: control_ok_def control_wf_def bare_def sample_control_def sample_common_def)

text \<open>
  C26. The codecs of the signed frames are exact, too: hello and conflict claims, challenge and
  response frames, and control frames each decode to a header if and only if it is what the
  header, with the values the encoder sets, encodes to.
\<close>

theorem wire_signed_codecs:
  assumes "hello_wf h" "auth_wf u" "control_wf t" and "length out1 = 213" "length out2 = 302" "length out3 = 209"
  shows "(melodi_wire_decode_hello xs = Inr h \<longleftrightarrow> claim_norm 1 h = h \<and> melodi_wire_encode_hello out1 h = Inr xs)
    \<and> (melodi_wire_decode_conflict xs = Inr h \<longleftrightarrow> claim_norm 6 h = h \<and> melodi_wire_encode_conflict out1 h = Inr xs)
    \<and> (melodi_wire_decode_auth xs = Inr u \<longleftrightarrow> auth_norm u = u \<and> melodi_wire_encode_auth out2 u = Inr xs)
    \<and> (melodi_wire_decode_control xs = Inr t \<longleftrightarrow> control_norm t = t \<and> melodi_wire_encode_control out3 t = Inr xs)"
  using hello.dec_iff_enc [OF assms(4,1)] conflict.dec_iff_enc [OF assms(4,1)]
    auth.dec_iff_enc [OF assms(5,2)] control.dec_iff_enc [OF assms(6,3)] by blast

theorem wire_signed_codecs_witness:
  "melodi_wire_encode_hello (replicate 213 0) sample_hello = Inr (hello_bytes sample_hello)
   \<and> melodi_wire_encode_auth (replicate 302 0) sample_auth = Inr (auth_bytes sample_auth)
   \<and> melodi_wire_encode_control (replicate 209 0) sample_control = Inr (control_bytes sample_control)"
proof -
  have wf: "hello_wf sample_hello" "auth_wf sample_auth" "control_wf sample_control"
    using sample_hello_ok sample_auth_ok sample_control_ok by (simp_all add: claim_ok_def auth_ok_def control_ok_def)
  have len: "length (replicate 213 0 :: bytes) = 213" "length (replicate 302 0 :: bytes) = 302"
    "length (replicate 209 0 :: bytes) = 209" by simp_all
  note codecs = wire_signed_codecs [OF wf len]
  have "melodi_wire_encode_hello (replicate 213 0) sample_hello = Inr (hello_bytes sample_hello)"
    using conjunct1 [OF codecs [of "hello_bytes sample_hello"]] sample_hello_ok claim_ok_norm [OF sample_hello_ok]
    by (simp add: hello.dec_iff)
  moreover have "melodi_wire_encode_auth (replicate 302 0) sample_auth = Inr (auth_bytes sample_auth)"
    using conjunct1 [OF conjunct2 [OF conjunct2 [OF codecs [of "auth_bytes sample_auth"]]]]
      sample_auth_ok auth.ok_norm [OF sample_auth_ok] by (simp add: melodi_wire_decode_auth_iff)
  moreover have "melodi_wire_encode_control (replicate 209 0) sample_control = Inr (control_bytes sample_control)"
    using conjunct2 [OF conjunct2 [OF conjunct2 [OF codecs [of "control_bytes sample_control"]]]]
      sample_control_ok control.ok_norm [OF sample_control_ok] by (simp add: melodi_wire_decode_control_iff)
  ultimately show ?thesis by blast
qed

text \<open>
  No input is accepted by the decoders of two frame classes, so a frame signed or sealed as
  one class cannot be read as another.
\<close>

theorem wire_classes_disjoint:
  "length (filter (\<lambda>accepted. accepted)
     [\<not> isl (melodi_wire_decode_hello xs), \<not> isl (melodi_wire_decode_auth xs),
      \<not> isl (melodi_wire_decode_data xs), \<not> isl (melodi_wire_decode_ack xs),
      \<not> isl (melodi_wire_decode_conflict xs), \<not> isl (melodi_wire_decode_control xs)]) \<le> 1"
proof (cases "melodi_wire_decode_common xs")
  case (Inl e)
  then show ?thesis
    by (simp add: melodi_wire_decode_hello_def melodi_wire_decode_conflict_def melodi_wire_decode_claim_def
        melodi_wire_decode_auth_def melodi_wire_decode_data_def melodi_wire_decode_ack_def
        melodi_wire_decode_control_def)
next
  case (Inr c)
  have "\<not> isl (melodi_wire_decode_hello xs) \<longrightarrow> c_frame_class c = 1"
    "\<not> isl (melodi_wire_decode_auth xs) \<longrightarrow> c_frame_class c = 2 \<or> c_frame_class c = 3"
    "\<not> isl (melodi_wire_decode_data xs) \<longrightarrow> c_frame_class c = 4"
    "\<not> isl (melodi_wire_decode_ack xs) \<longrightarrow> c_frame_class c = 5"
    "\<not> isl (melodi_wire_decode_conflict xs) \<longrightarrow> c_frame_class c = 6"
    "\<not> isl (melodi_wire_decode_control xs) \<longrightarrow> c_frame_class c = 7"
    by (auto simp: Inr melodi_wire_decode_hello_def melodi_wire_decode_conflict_def melodi_wire_decode_claim_def
        melodi_wire_decode_auth_def melodi_wire_decode_data_def melodi_wire_decode_ack_def
        melodi_wire_decode_control_def)
  then show ?thesis by auto
qed

end
