(* ===== verification/Radio.thy ===== *)
theory Radio
  imports Complex_Main Prelude
begin

text \<open>
  The host/radio protocol of \<open>src/proto/radio.c\<close>: framing with a magic number, a length and a
  checksum, the byte-wise stream decoder that finds the frames again, the messages carried in
  the frames, the segments of long link frames and the airtime estimate. The lemmas show that
  the decoder stays within its buffer, that it recovers exactly the frames that were encoded,
  and that every message survives the way through encoder, stream and decoder.
\<close>

subsection \<open>Integers and checksum\<close>

abbreviation (input) MELODI_RADIO_MAGIC0 :: u8 where "MELODI_RADIO_MAGIC0 \<equiv> 0x4d"
abbreviation (input) MELODI_RADIO_MAGIC1 :: u8 where "MELODI_RADIO_MAGIC1 \<equiv> 0x4c"
abbreviation (input) MELODI_RADIO_VERSION :: u8 where "MELODI_RADIO_VERSION \<equiv> 2"
abbreviation (input) MELODI_RADIO_HEADER_SIZE :: nat where "MELODI_RADIO_HEADER_SIZE \<equiv> 8"
abbreviation (input) MELODI_RADIO_PAYLOAD_MAX :: nat where "MELODI_RADIO_PAYLOAD_MAX \<equiv> 512"
abbreviation (input) MELODI_RADIO_PACKET_MAX :: nat where "MELODI_RADIO_PACKET_MAX \<equiv> 240"
abbreviation (input) MELODI_RADIO_SEGMENT_SIZE :: nat where "MELODI_RADIO_SEGMENT_SIZE \<equiv> 12"
abbreviation (input) MELODI_RADIO_SEGMENT_LIMIT :: nat where "MELODI_RADIO_SEGMENT_LIMIT \<equiv> 32"
abbreviation (input) MELODI_RADIO_FRAME_MAX :: nat where
  "MELODI_RADIO_FRAME_MAX \<equiv> (MELODI_RADIO_PACKET_MAX - MELODI_RADIO_SEGMENT_SIZE) * MELODI_RADIO_SEGMENT_LIMIT"
abbreviation (input) MELODI_RADIO_LOCATOR_BROADCAST :: u32 where "MELODI_RADIO_LOCATOR_BROADCAST \<equiv> 0xffffffff"
abbreviation (input) MELODI_RADIO_CONFIGURE_SIZE :: nat where "MELODI_RADIO_CONFIGURE_SIZE \<equiv> 48"
abbreviation (input) MELODI_RADIO_INFO_SIZE :: nat where "MELODI_RADIO_INFO_SIZE \<equiv> 72"
abbreviation (input) MELODI_RADIO_STATUS_SIZE :: nat where "MELODI_RADIO_STATUS_SIZE \<equiv> 11"
abbreviation (input) MELODI_RADIO_TRANSMIT_SIZE :: nat where "MELODI_RADIO_TRANSMIT_SIZE \<equiv> 10"
abbreviation (input) MELODI_RADIO_RECEIVE_SIZE :: nat where "MELODI_RADIO_RECEIVE_SIZE \<equiv> 16"
abbreviation (input) MELODI_RADIO_RESULT_SIZE :: nat where "MELODI_RADIO_RESULT_SIZE \<equiv> 10"

abbreviation (input) MELODI_RADIO_T_IDENTIFY :: u8 where "MELODI_RADIO_T_IDENTIFY \<equiv> 1"
abbreviation (input) MELODI_RADIO_T_CONFIGURE :: u8 where "MELODI_RADIO_T_CONFIGURE \<equiv> 2"
abbreviation (input) MELODI_RADIO_T_TRANSMIT :: u8 where "MELODI_RADIO_T_TRANSMIT \<equiv> 3"
abbreviation (input) MELODI_RADIO_T_RESET :: u8 where "MELODI_RADIO_T_RESET \<equiv> 4"
abbreviation (input) MELODI_RADIO_T_INFO :: u8 where "MELODI_RADIO_T_INFO \<equiv> 0x81"
abbreviation (input) MELODI_RADIO_T_STATUS :: u8 where "MELODI_RADIO_T_STATUS \<equiv> 0x82"
abbreviation (input) MELODI_RADIO_T_RECEIVE :: u8 where "MELODI_RADIO_T_RECEIVE \<equiv> 0x83"
abbreviation (input) MELODI_RADIO_T_RESULT :: u8 where "MELODI_RADIO_T_RESULT \<equiv> 0x84"
abbreviation (input) MELODI_RADIO_STATE_FAILED :: u8 where "MELODI_RADIO_STATE_FAILED \<equiv> 2"
abbreviation (input) MELODI_RADIO_FAULT_INTERNAL :: u8 where "MELODI_RADIO_FAULT_INTERNAL \<equiv> 7"
abbreviation (input) MELODI_RADIO_RESULT_DUTY :: u8 where "MELODI_RADIO_RESULT_DUTY \<equiv> 5"

definition melodi_radio_put_u16 :: "u16 \<Rightarrow> bytes" where
  "melodi_radio_put_u16 val = [ucast (drop_bit 8 val), ucast val]"

definition melodi_radio_put_u32 :: "u32 \<Rightarrow> bytes" where
  "melodi_radio_put_u32 val =
     [ucast (drop_bit 24 val), ucast (drop_bit 16 val), ucast (drop_bit 8 val), ucast val]"

definition melodi_radio_get_u16 :: "bytes \<Rightarrow> u16" where
  "melodi_radio_get_u16 input = push_bit 8 (ucast (input ! 0)) OR ucast (input ! 1)"

definition melodi_radio_get_u32 :: "bytes \<Rightarrow> u32" where
  "melodi_radio_get_u32 input =
     push_bit 24 (ucast (input ! 0)) OR push_bit 16 (ucast (input ! 1)) OR
     push_bit 8 (ucast (input ! 2)) OR ucast (input ! 3)"

interpretation radio16: fixed_field melodi_radio_put_u16 melodi_radio_get_u16 2
proof
  fix v xs
  show "length (melodi_radio_put_u16 v) = 2" by (simp add: melodi_radio_put_u16_def)
  show "melodi_radio_get_u16 (take 2 xs) = melodi_radio_get_u16 xs" by (simp add: melodi_radio_get_u16_def)
  show "melodi_radio_get_u16 (melodi_radio_put_u16 v) = v"
    by (simp add: melodi_radio_get_u16_def melodi_radio_put_u16_def ucast_u16_split)
  show "length xs = 2 \<Longrightarrow> melodi_radio_put_u16 (melodi_radio_get_u16 xs) = xs"
    by (cases xs; cases "tl xs")
       (auto simp: melodi_radio_get_u16_def melodi_radio_put_u16_def bit_simps intro!: bit_word_eqI)
qed

lemma melodi_radio_put_u32_get_u32: "melodi_radio_put_u32 (melodi_radio_get_u32 (a # b # c # d # ys)) = [a, b, c, d]"
  by (auto simp: melodi_radio_get_u32_def melodi_radio_put_u32_def bit_simps intro!: bit_word_eqI)

interpretation radio32: fixed_field melodi_radio_put_u32 melodi_radio_get_u32 4
proof
  fix v xs
  show "length (melodi_radio_put_u32 v) = 4" by (simp add: melodi_radio_put_u32_def)
  show "melodi_radio_get_u32 (take 4 xs) = melodi_radio_get_u32 xs" by (simp add: melodi_radio_get_u32_def)
  show "melodi_radio_get_u32 (melodi_radio_put_u32 v) = v"
    by (simp add: melodi_radio_get_u32_def melodi_radio_put_u32_def ucast_u32_split)
  show "length xs = 4 \<Longrightarrow> melodi_radio_put_u32 (melodi_radio_get_u32 xs) = xs"
    using melodi_radio_put_u32_get_u32 [of _ _ _ _ "[]"] by (auto simp: eval_nat_numeral length_Suc_conv)
qed

text \<open>The carry loop of the checksum: it ends because the sum shrinks while it has high bits.\<close>

function melodi_radio_fold :: "u32 \<Rightarrow> u32" where
  "melodi_radio_fold acc =
     (if drop_bit 16 acc \<noteq> 0 then melodi_radio_fold ((acc AND 0xffff) + drop_bit 16 acc) else acc)"
  by pat_completeness auto
termination
proof (relation "measure unat")
  fix acc :: u32
  assume "drop_bit 16 acc \<noteq> 0"
  moreover have h: "unat (drop_bit 16 acc) = unat acc div 65536"
    by (subst unat_drop_bit_eq) (simp add: drop_bit_eq_div)
  moreover have "acc AND 0xffff = take_bit 16 acc"
    by (simp add: take_bit_eq_mask mask_eq_exp_minus_1)
  then have l: "unat (acc AND 0xffff) = unat acc mod 65536"
    by (simp add: take_bit_eq_mod unat_mod)
  ultimately have "0 < unat acc div 65536" by (simp add: unat_gt_0 flip: h)
  moreover have "unat acc = unat acc div 65536 * 65536 + unat acc mod 65536" by simp
  ultimately have "unat acc mod 65536 + unat acc div 65536 < unat acc" by linarith
  moreover have "unat ((acc AND 0xffff) + drop_bit 16 acc) \<le> unat acc mod 65536 + unat acc div 65536"
    by (simp only: unat_word_ariths l h) simp
  ultimately show "((acc AND 0xffff) + drop_bit 16 acc, acc) \<in> measure unat" by simp
qed simp

declare melodi_radio_fold.simps [simp del]

definition melodi_radio_checksum :: "bytes \<Rightarrow> u16" where
  "melodi_radio_checksum data =
     ucast (NOT (melodi_radio_fold (fold (\<lambda>b acc. acc + ucast b) data 0)))"


subsection \<open>Framing\<close>

datatype melodi_radio_stream_state =
    MELODI_RADIO_SCAN_MAGIC0 | MELODI_RADIO_SCAN_MAGIC1 | MELODI_RADIO_READ_HEADER | MELODI_RADIO_READ_PAYLOAD

record melodi_radio_header =
  hdr_magic0 :: u8
  hdr_magic1 :: u8
  hdr_version :: u8
  hdr_type :: u8
  hdr_length :: u16
  hdr_checksum :: u16

record melodi_radio_stream =
  str_state :: melodi_radio_stream_state
  str_offset :: u16
  str_expected :: u16
  str_header :: melodi_radio_header
  str_buffer :: bytes

definition melodi_radio_stream_init :: melodi_radio_stream where
  "melodi_radio_stream_init =
     \<lparr>str_state = MELODI_RADIO_SCAN_MAGIC0, str_offset = 0, str_expected = 0,
      str_header = \<lparr>hdr_magic0 = 0, hdr_magic1 = 0, hdr_version = 0, hdr_type = 0, hdr_length = 0, hdr_checksum = 0\<rparr>,
      str_buffer = replicate MELODI_RADIO_PAYLOAD_MAX 0\<rparr>"

definition melodi_radio_stream_encode :: "u8 \<Rightarrow> bytes \<Rightarrow> bytes \<Rightarrow> (bytes \<times> nat) res" where
  "melodi_radio_stream_encode type payload output =
     (if length payload > MELODI_RADIO_PAYLOAD_MAX then Inl EINVAL
      else if length output < MELODI_RADIO_HEADER_SIZE + length payload then Inl ENOSPC
      else
        let out = poke 0 [MELODI_RADIO_MAGIC0] output;
            out = poke 1 [MELODI_RADIO_MAGIC1] out;
            out = poke 2 [MELODI_RADIO_VERSION] out;
            out = poke 3 [type] out;
            out = poke 4 (melodi_radio_put_u16 (of_nat (length payload))) out;
            out = poke 6 (melodi_radio_put_u16 (melodi_radio_checksum payload)) out;
            out = poke MELODI_RADIO_HEADER_SIZE payload out
        in Inr (out, MELODI_RADIO_HEADER_SIZE + length payload))"

text \<open>
  One byte into the decoder. The result is the return value: an error, \<open>None\<close> for 0, and for 1
  the header and the buffer that the output pointers are set to.
\<close>

definition melodi_radio_stream_feed ::
  "melodi_radio_stream \<Rightarrow> u8 \<Rightarrow> melodi_radio_stream \<times> (melodi_radio_header \<times> bytes) option res" where
  "melodi_radio_stream_feed stream byte =
     (case str_state stream of
        MELODI_RADIO_SCAN_MAGIC0 \<Rightarrow>
          (if byte = MELODI_RADIO_MAGIC0 then stream\<lparr>str_state := MELODI_RADIO_SCAN_MAGIC1\<rparr> else stream, Inr None)
      | MELODI_RADIO_SCAN_MAGIC1 \<Rightarrow>
          (if byte = MELODI_RADIO_MAGIC1
           then stream\<lparr>str_state := MELODI_RADIO_READ_HEADER, str_offset := 0\<rparr>
           else if byte \<noteq> MELODI_RADIO_MAGIC0 then stream\<lparr>str_state := MELODI_RADIO_SCAN_MAGIC0\<rparr>
           else stream, Inr None)
      | MELODI_RADIO_READ_HEADER \<Rightarrow>
          let stream = stream\<lparr>str_buffer := (str_buffer stream)[unat (str_offset stream) := byte],
                              str_offset := str_offset stream + 1\<rparr>
          in if unat (str_offset stream) < MELODI_RADIO_HEADER_SIZE - 2 then (stream, Inr None)
             else
               let header = \<lparr>hdr_magic0 = MELODI_RADIO_MAGIC0, hdr_magic1 = MELODI_RADIO_MAGIC1,
                     hdr_version = str_buffer stream ! 0, hdr_type = str_buffer stream ! 1,
                     hdr_length = melodi_radio_get_u16 (drop 2 (str_buffer stream)),
                     hdr_checksum = melodi_radio_get_u16 (drop 4 (str_buffer stream))\<rparr>;
                   stream = stream\<lparr>str_header := header, str_offset := 0\<rparr>
               in if hdr_version header \<noteq> MELODI_RADIO_VERSION \<or>
                     unat (hdr_length header) > MELODI_RADIO_PAYLOAD_MAX
                  then (stream\<lparr>str_state := MELODI_RADIO_SCAN_MAGIC0\<rparr>, Inl EPROTO)
                  else
                    let stream = stream\<lparr>str_expected := hdr_length header\<rparr>
                    in if str_expected stream = 0
                       then
                         let stream = stream\<lparr>str_state := MELODI_RADIO_SCAN_MAGIC0\<rparr>
                         in if hdr_checksum header \<noteq> melodi_radio_checksum [] then (stream, Inl EBADMSG)
                            else (stream, Inr (Some (str_header stream, str_buffer stream)))
                       else (stream\<lparr>str_state := MELODI_RADIO_READ_PAYLOAD\<rparr>, Inr None)
      | MELODI_RADIO_READ_PAYLOAD \<Rightarrow>
          let stream = stream\<lparr>str_buffer := (str_buffer stream)[unat (str_offset stream) := byte],
                              str_offset := str_offset stream + 1\<rparr>
          in if str_offset stream < str_expected stream then (stream, Inr None)
             else
               let stream = stream\<lparr>str_state := MELODI_RADIO_SCAN_MAGIC0\<rparr>
               in if hdr_checksum (str_header stream) \<noteq>
                     melodi_radio_checksum (take (unat (str_expected stream)) (str_buffer stream))
                  then (stream, Inl EBADMSG)
                  else (stream, Inr (Some (str_header stream, str_buffer stream))))"

subsection \<open>The decoder stays within its buffer\<close>

text \<open>
  The type invariant of a stream: the buffer has its 512 octets, a header in progress has room
  for its 6 octets, and a payload in progress is shorter than announced, which fits the buffer.
\<close>

definition stream_ok :: "melodi_radio_stream \<Rightarrow> bool" where
  "stream_ok s \<longleftrightarrow> length (str_buffer s) = 512
     \<and> (case str_state s of
          MELODI_RADIO_READ_HEADER \<Rightarrow> unat (str_offset s) < 6
        | MELODI_RADIO_READ_PAYLOAD \<Rightarrow> unat (str_offset s) < unat (str_expected s)
            \<and> unat (str_expected s) \<le> 512 \<and> str_expected s = hdr_length (str_header s)
        | _ \<Rightarrow> True)"

lemma unat_inc_u16: "unat (w :: u16) < 65535 \<Longrightarrow> unat (w + 1) = Suc (unat w)"
  by (simp add: unat_word_ariths)

lemma stream_ok_feed:
  assumes "stream_ok s" "melodi_radio_stream_feed s b = (s', r)"
  shows "stream_ok s'"
proof (cases "str_state s")
  case MELODI_RADIO_READ_HEADER
  with assms(1) have "unat (str_offset s) < 6" "length (str_buffer s) = 512" by (simp_all add: stream_ok_def)
  moreover from this have "unat (str_offset s + 1) = Suc (unat (str_offset s))" by (intro unat_inc_u16) simp
  ultimately show ?thesis
    using assms(2) MELODI_RADIO_READ_HEADER
    by (auto simp: melodi_radio_stream_feed_def Let_def stream_ok_def unat_gt_0 split: if_splits)
next
  case MELODI_RADIO_READ_PAYLOAD
  with assms(1) have ok: "unat (str_offset s) < unat (str_expected s)" "unat (str_expected s) \<le> 512"
    "length (str_buffer s) = 512" "str_expected s = hdr_length (str_header s)" by (auto simp: stream_ok_def)
  then show ?thesis
    using assms(2) MELODI_RADIO_READ_PAYLOAD
    by (auto simp: melodi_radio_stream_feed_def Let_def stream_ok_def word_less_nat_alt split: if_splits)
qed (use assms in \<open>auto simp: melodi_radio_stream_feed_def stream_ok_def split: if_splits\<close>)


subsection \<open>Runs of the decoder\<close>

text \<open>
  What a caller sees while it feeds a sequence of octets: the errors, and the type and payload of
  each delivered frame.
\<close>

definition seen_by_caller :: "(melodi_radio_header \<times> bytes) option res \<Rightarrow> (u8 \<times> bytes) res list" where
  "seen_by_caller r =
     (case r of Inl e \<Rightarrow> [Inl e] | Inr None \<Rightarrow> []
      | Inr (Some (h, buf)) \<Rightarrow> [Inr (hdr_type h, take (unat (hdr_length h)) buf)])"

fun feed_all :: "melodi_radio_stream \<Rightarrow> bytes \<Rightarrow> melodi_radio_stream \<times> (u8 \<times> bytes) res list" where
  "feed_all s [] = (s, [])"
| "feed_all s (b # bs) =
     (case melodi_radio_stream_feed s b of (s', r) \<Rightarrow>
        case feed_all s' bs of (s'', rs) \<Rightarrow> (s'', seen_by_caller r @ rs))"

lemma feed_all_append:
  "feed_all s (as @ bs) = (case feed_all s as of (s', rs) \<Rightarrow>
     case feed_all s' bs of (s'', rs') \<Rightarrow> (s'', rs @ rs'))"
  by (induction as arbitrary: s) (auto split: prod.splits)

lemma stream_ok_feed_all: "stream_ok s \<Longrightarrow> feed_all s bs = (s', rs) \<Longrightarrow> stream_ok s'"
  by (induction bs arbitrary: s rs) (auto split: prod.splits dest: stream_ok_feed)

definition frame_bytes :: "u8 \<Rightarrow> bytes \<Rightarrow> bytes" where
  "frame_bytes type payload = [MELODI_RADIO_MAGIC0] @ [MELODI_RADIO_MAGIC1] @ [MELODI_RADIO_VERSION] @ [type]
     @ melodi_radio_put_u16 (of_nat (length payload)) @ melodi_radio_put_u16 (melodi_radio_checksum payload) @ payload"

lemma length_frame_bytes [simp]: "length (frame_bytes type payload) = 8 + length payload"
  by (simp add: frame_bytes_def radio16.length_put)

lemma radio_lengths [simp]:
  "length (melodi_radio_put_u16 v) = 2" "length (melodi_radio_put_u32 w) = 4"
  by (rule radio16.length_put radio32.length_put)+

lemma melodi_radio_stream_encode_eq:
  "melodi_radio_stream_encode type payload out =
     (if length payload > 512 then Inl EINVAL
      else if length out < 8 + length payload then Inl ENOSPC
      else Inr (frame_bytes type payload @ drop (8 + length payload) out, 8 + length payload))"
proof -
  let ?o = "poke 8 payload (poke 6 (melodi_radio_put_u16 (melodi_radio_checksum payload))
    (poke 4 (melodi_radio_put_u16 (of_nat (length payload))) (poke 3 [type] (poke 2 [2] (poke 1 [0x4c] (poke 0 [0x4d] out))))))"
  have "?o = frame_bytes type payload @ drop (8 + length payload) out" if "8 + length payload \<le> length out"
    using that
    by (simp add: poke_start poke_fill del: append.simps append_assoc) (simp add: frame_bytes_def add.commute)
  then show ?thesis by (simp add: melodi_radio_stream_encode_def Let_def)
qed

text \<open>The payload phase: the octets fill the buffer and the last one closes the frame.\<close>

lemma feed_payload:
  assumes "str_state s = MELODI_RADIO_READ_PAYLOAD" "length (str_buffer s) = 512" "q \<noteq> []"
    "unat (str_offset s) + length q = unat (str_expected s)" "unat (str_expected s) \<le> 512"
    "str_expected s = hdr_length (str_header s)"
  shows "\<exists>s'. str_state s' = MELODI_RADIO_SCAN_MAGIC0 \<and> str_buffer s' = poke (unat (str_offset s)) q (str_buffer s)
    \<and> feed_all s q = (s',
        (let p = take (unat (str_expected s)) (poke (unat (str_offset s)) q (str_buffer s))
         in if hdr_checksum (str_header s) = melodi_radio_checksum p
            then [Inr (hdr_type (str_header s), p)] else [Inl EBADMSG]))"
  using assms
proof (induction q arbitrary: s)
  case (Cons b q)
  define t where "t = s\<lparr>str_buffer := (str_buffer s)[unat (str_offset s) := b], str_offset := str_offset s + 1\<rparr>"
  have off: "unat (str_offset s + 1) = Suc (unat (str_offset s))"
    using Cons.prems(4,5) by (intro unat_inc_u16) simp
  have poke: "poke (Suc (unat (str_offset s))) r (str_buffer t) = poke (unat (str_offset s)) (b # r) (str_buffer s)" for r
    using Cons.prems(2,4,5) by (simp add: t_def poke_def take_Suc_conv_app_nth)
  show ?case
  proof (cases "q = []")
    case True
    then have "\<not> str_offset t < str_expected t"
      using Cons.prems(4) off by (simp add: t_def word_less_nat_alt)
    moreover have "str_buffer t = poke (unat (str_offset s)) [b] (str_buffer s)" using poke [of "[]"] by (simp add: poke_def)
    ultimately show ?thesis
      using True Cons.prems
      by (intro exI [of _ "t\<lparr>str_state := MELODI_RADIO_SCAN_MAGIC0\<rparr>"])
         (auto simp: melodi_radio_stream_feed_def Let_def seen_by_caller_def t_def)
  next
    case False
    then have more: "str_offset t < str_expected t"
      using Cons.prems(4) off by (cases q) (simp_all add: t_def word_less_nat_alt)
    then have feed: "melodi_radio_stream_feed s b = (t, Inr None)"
      using Cons.prems(1) by (simp add: melodi_radio_stream_feed_def t_def Let_def)
    have IH: "\<exists>s'. str_state s' = MELODI_RADIO_SCAN_MAGIC0 \<and> str_buffer s' = poke (unat (str_offset t)) q (str_buffer t)
      \<and> feed_all t q = (s',
        (let p = take (unat (str_expected t)) (poke (unat (str_offset t)) q (str_buffer t))
         in if hdr_checksum (str_header t) = melodi_radio_checksum p
            then [Inr (hdr_type (str_header t), p)] else [Inl EBADMSG]))"
      using Cons.prems False off by (intro Cons.IH) (simp_all add: t_def)
    have same: "str_expected t = str_expected s" "str_header t = str_header s"
      "unat (str_offset t) = Suc (unat (str_offset s))" using off by (simp_all add: t_def)
    show ?thesis using IH unfolding same poke by (auto simp: feed seen_by_caller_def)
  qed
qed simp


lemma six_octets:
  assumes "6 \<le> length xs"
  obtains a b c d e f ys where "xs = a # b # c # d # e # f # ys"
proof -
  have "Suc (Suc (Suc (Suc (Suc (Suc 0))))) \<le> length xs" using assms by simp
  then show thesis using that by (auto simp: Suc_le_length_iff)
qed

text \<open>The header phase, from the first magic octet to the last octet of the checksum.\<close>

lemma feed_header:
  assumes "str_state s = MELODI_RADIO_SCAN_MAGIC0" "length (str_buffer s) = 512" "unat l \<le> 512"
  shows "\<exists>s'. length (str_buffer s') = 512 \<and> hdr_type (str_header s') = type \<and> hdr_length (str_header s') = l
    \<and> hdr_checksum (str_header s') = c \<and> str_expected s' = l \<and> str_offset s' = 0
    \<and> str_state s' = (if l = 0 then MELODI_RADIO_SCAN_MAGIC0 else MELODI_RADIO_READ_PAYLOAD)
    \<and> feed_all s ([0x4d] @ [0x4c] @ [2] @ [type] @ melodi_radio_put_u16 l @ melodi_radio_put_u16 c) =
      (s', if l \<noteq> 0 then [] else if c = melodi_radio_checksum [] then [Inr (type, [])] else [Inl EBADMSG])"
proof -
  obtain b0 b1 b2 b3 b4 b5 rest where B: "str_buffer s = b0 # b1 # b2 # b3 # b4 # b5 # rest"
    using assms(2) by (elim six_octets [rotated]) simp
  let ?l1 = "ucast (drop_bit 8 l) :: u8" and ?l0 = "ucast l :: u8"
  let ?c1 = "ucast (drop_bit 8 c) :: u8" and ?c0 = "ucast c :: u8"
  let ?buf = "2 # type # ?l1 # ?l0 # ?c1 # ?c0 # rest"
  have get: "melodi_radio_get_u16 (?l1 # ?l0 # ys) = l" "melodi_radio_get_u16 (?c1 # ?c0 # ys) = c" for ys
    using radio16.get_put_append [of l ys] radio16.get_put_append [of c ys] by (simp_all add: melodi_radio_put_u16_def)
  define h where "h = \<lparr>hdr_magic0 = 0x4d, hdr_magic1 = 0x4c, hdr_version = 2, hdr_type = type, hdr_length = l, hdr_checksum = c\<rparr>"
  define s' where "s' = s\<lparr>str_buffer := ?buf, str_header := h, str_offset := 0, str_expected := l,
    str_state := (if l = 0 then MELODI_RADIO_SCAN_MAGIC0 else MELODI_RADIO_READ_PAYLOAD)\<rparr>"
  have "feed_all s ([0x4d] @ [0x4c] @ [2] @ [type] @ melodi_radio_put_u16 l @ melodi_radio_put_u16 c) =
      (s', if l \<noteq> 0 then [] else if c = melodi_radio_checksum [] then [Inr (type, [])] else [Inl EBADMSG])"
    using assms(1,3)
    by (simp add: melodi_radio_put_u16_def melodi_radio_stream_feed_def seen_by_caller_def B get s'_def h_def Let_def)
  moreover have "length (str_buffer s') = 512" using assms(2) by (simp add: s'_def B)
  ultimately show ?thesis by (intro exI [of _ s']) (simp add: s'_def h_def)
qed

lemma feed_frame:
  assumes "str_state s = MELODI_RADIO_SCAN_MAGIC0" "length (str_buffer s) = 512" "length p \<le> 512"
  shows "\<exists>s'. str_state s' = MELODI_RADIO_SCAN_MAGIC0 \<and> length (str_buffer s') = 512
    \<and> feed_all s (frame_bytes type p) = (s', [Inr (type, p)])"
proof -
  let ?l = "of_nat (length p) :: u16" and ?c = "melodi_radio_checksum p"
  let ?h = "[0x4d] @ [0x4c] @ [2] @ [type] @ melodi_radio_put_u16 ?l @ melodi_radio_put_u16 ?c"
  have l: "unat ?l = length p" using assms(3) by (simp add: unat_of_nat take_bit_nat_eq_self)
  have bytes: "frame_bytes type p = ?h @ p" by (simp add: frame_bytes_def)
  from feed_header [OF assms(1,2), of ?l type ?c] l assms(3) obtain t where
    t: "length (str_buffer t) = 512" "hdr_type (str_header t) = type" "hdr_length (str_header t) = ?l"
      "hdr_checksum (str_header t) = ?c" "str_expected t = ?l" "str_offset t = 0"
      "str_state t = (if ?l = 0 then MELODI_RADIO_SCAN_MAGIC0 else MELODI_RADIO_READ_PAYLOAD)"
      "feed_all s ?h = (t, if ?l \<noteq> 0 then [] else if ?c = melodi_radio_checksum [] then [Inr (type, [])] else [Inl EBADMSG])"
    by metis
  show ?thesis
  proof (cases "p = []")
    case True
    with t show ?thesis unfolding bytes by (intro exI [of _ t]) simp
  next
    case False
    then have nz: "?l \<noteq> 0" using l by (metis length_0_conv unat_0)
    obtain s' where s': "str_state s' = MELODI_RADIO_SCAN_MAGIC0" "str_buffer s' = poke 0 p (str_buffer t)"
      "feed_all t p = (s', let q = take (length p) (poke 0 p (str_buffer t))
         in if ?c = melodi_radio_checksum q then [Inr (type, q)] else [Inl EBADMSG])"
      using feed_payload [of t p] t nz l False assms(3) by auto
    have "take (length p) (poke 0 p (str_buffer t)) = p" by (simp add: poke_def)
    moreover have "length (str_buffer s') = 512" using t(1) assms(3) by (simp add: s'(2))
    ultimately show ?thesis
      unfolding bytes feed_all_append [of s ?h p] t(8) using s' nz by (intro exI [of _ s']) simp
  qed
qed

lemma feed_noise:
  "str_state s = MELODI_RADIO_SCAN_MAGIC0 \<Longrightarrow> MELODI_RADIO_MAGIC0 \<notin> set noise \<Longrightarrow> feed_all s noise = (s, [])"
  by (induction noise) (auto simp: melodi_radio_stream_feed_def seen_by_caller_def)


subsection \<open>Messages\<close>

record melodi_radio_configure =
  cfg_domain :: bytes
  cfg_locator :: u32
  cfg_frequency_hz :: u32
  cfg_bandwidth_khz :: u16
  cfg_spreading_factor :: u8
  cfg_coding_rate :: u8
  cfg_transmit_power_dbm :: s16
  cfg_duty_permille :: u16

record melodi_radio_info =
  inf_firmware :: bytes
  inf_hardware :: bytes
  inf_abi_version :: u32
  inf_packet_mtu :: u16
  inf_queue_depth :: u16

record melodi_radio_status =
  sts_locator :: u32
  sts_queue_free :: u16
  sts_queue_depth :: u16
  sts_state :: u8
  sts_fault :: u8
  sts_modem_status :: u8

record melodi_radio_transmit =
  trx_cookie :: u32
  trx_destination :: u32
  trx_payload :: bytes
  trx_payload_length :: u16

record melodi_radio_receive =
  rcv_source :: u32
  rcv_destination :: u32
  rcv_rssi :: s16
  rcv_snr :: s16
  rcv_hops :: u8
  rcv_payload :: bytes
  rcv_payload_length :: u16

record melodi_radio_result_report =
  rpt_cookie :: u32
  rpt_duration_us :: u32
  rpt_result :: u8

text \<open>
  A C string in an array is the array, \<open>put_text\<close> writes the octets before its first zero and
  zeros behind them, at most \<open>capacity - 1\<close> of them. The arrays that the encoders fill are
  locals; every octet of them is written before use.
\<close>

definition melodi_radio_put_text :: "bytes \<Rightarrow> nat \<Rightarrow> bytes" where
  "melodi_radio_put_text text capacity =
     (let copied = takeWhile (\<lambda>b. b \<noteq> 0) (take (capacity - 1) text)
      in copied @ replicate (capacity - length copied) 0)"

text \<open>
  The loop of \<open>get_text\<close> from \<open>index\<close> on; the output array was cleared by the caller.
\<close>

function melodi_radio_get_text_loop :: "bytes \<Rightarrow> bytes \<Rightarrow> nat \<Rightarrow> nat \<Rightarrow> bytes res" where
  "melodi_radio_get_text_loop output input capacity index =
     (if index < capacity - 1 \<and> input ! index \<noteq> 0
      then if input ! index < 0x20 \<or> input ! index > 0x7e then Inl EPROTO
           else melodi_radio_get_text_loop (output[index := input ! index]) input capacity (Suc index)
      else Inr (output[index := 0]))"
  by pat_completeness auto
termination by (relation "measure (\<lambda>(_, _, capacity, index). capacity - index)") auto

declare melodi_radio_get_text_loop.simps [simp del]

definition melodi_radio_get_text :: "bytes \<Rightarrow> bytes \<Rightarrow> nat \<Rightarrow> bytes res" where
  "melodi_radio_get_text output input capacity = melodi_radio_get_text_loop output input capacity 0"

definition melodi_radio_encode_identify :: "bytes \<Rightarrow> (bytes \<times> nat) res" where
  "melodi_radio_encode_identify output = melodi_radio_stream_encode MELODI_RADIO_T_IDENTIFY [] output"

definition melodi_radio_encode_reset :: "bytes \<Rightarrow> (bytes \<times> nat) res" where
  "melodi_radio_encode_reset output = melodi_radio_stream_encode MELODI_RADIO_T_RESET [] output"

definition melodi_radio_encode_configure :: "melodi_radio_configure \<Rightarrow> bytes \<Rightarrow> (bytes \<times> nat) res" where
  "melodi_radio_encode_configure config output =
     (if cfg_locator config = 0 \<or> cfg_locator config = MELODI_RADIO_LOCATOR_BROADCAST \<or>
         cfg_frequency_hz config = 0 \<or> cfg_bandwidth_khz config = 0 \<or>
         cfg_spreading_factor config < 6 \<or> cfg_spreading_factor config > 12 \<or>
         cfg_coding_rate config < 5 \<or> cfg_coding_rate config > 8 \<or>
         cfg_duty_permille config = 0 \<or> cfg_duty_permille config > 1000
      then Inl EINVAL
      else
        let payload = replicate MELODI_RADIO_CONFIGURE_SIZE 0;
            payload = poke 0 (cfg_domain config) payload;
            payload = poke 32 (melodi_radio_put_u32 (cfg_locator config)) payload;
            payload = poke 36 (melodi_radio_put_u32 (cfg_frequency_hz config)) payload;
            payload = poke 40 (melodi_radio_put_u16 (cfg_bandwidth_khz config)) payload;
            payload = poke 42 [cfg_spreading_factor config] payload;
            payload = poke 43 [cfg_coding_rate config] payload;
            payload = poke 44 (melodi_radio_put_u16 (cfg_transmit_power_dbm config)) payload;
            payload = poke 46 (melodi_radio_put_u16 (cfg_duty_permille config)) payload
        in melodi_radio_stream_encode MELODI_RADIO_T_CONFIGURE payload output)"

definition melodi_radio_decode_configure :: "bytes \<Rightarrow> melodi_radio_configure res" where
  "melodi_radio_decode_configure payload =
     (if length payload \<noteq> MELODI_RADIO_CONFIGURE_SIZE then Inl EINVAL
      else
        let config =
          \<lparr>cfg_domain = chunk 0 32 payload,
           cfg_locator = melodi_radio_get_u32 (drop 32 payload),
           cfg_frequency_hz = melodi_radio_get_u32 (drop 36 payload),
           cfg_bandwidth_khz = melodi_radio_get_u16 (drop 40 payload),
           cfg_spreading_factor = payload ! 42,
           cfg_coding_rate = payload ! 43,
           cfg_transmit_power_dbm = melodi_radio_get_u16 (drop 44 payload),
           cfg_duty_permille = melodi_radio_get_u16 (drop 46 payload)\<rparr>
        in if cfg_locator config = 0 \<or> cfg_locator config = MELODI_RADIO_LOCATOR_BROADCAST \<or>
              cfg_frequency_hz config = 0 \<or> cfg_bandwidth_khz config = 0 \<or>
              cfg_spreading_factor config < 6 \<or> cfg_spreading_factor config > 12 \<or>
              cfg_coding_rate config < 5 \<or> cfg_coding_rate config > 8 \<or>
              cfg_duty_permille config = 0 \<or> cfg_duty_permille config > 1000
           then Inl EPROTO
           else Inr config)"

definition melodi_radio_encode_info :: "melodi_radio_info \<Rightarrow> bytes \<Rightarrow> (bytes \<times> nat) res" where
  "melodi_radio_encode_info info output =
     (if inf_packet_mtu info = 0 \<or> unat (inf_packet_mtu info) > MELODI_RADIO_PACKET_MAX \<or> inf_queue_depth info = 0
      then Inl EINVAL
      else
        let payload = replicate MELODI_RADIO_INFO_SIZE 0;
            payload = poke 0 (melodi_radio_put_u32 (inf_abi_version info)) payload;
            payload = poke 4 (melodi_radio_put_u16 (inf_packet_mtu info)) payload;
            payload = poke 6 (melodi_radio_put_u16 (inf_queue_depth info)) payload;
            payload = poke 8 (melodi_radio_put_text (inf_firmware info) 32) payload;
            payload = poke 40 (melodi_radio_put_text (inf_hardware info) 32) payload
        in melodi_radio_stream_encode MELODI_RADIO_T_INFO payload output)"

definition melodi_radio_decode_info :: "bytes \<Rightarrow> melodi_radio_info res" where
  "melodi_radio_decode_info payload =
     (if length payload \<noteq> MELODI_RADIO_INFO_SIZE then Inl EINVAL
      else
        case melodi_radio_get_text (replicate 32 0) (drop 8 payload) 32 of
          Inl error \<Rightarrow> Inl error
        | Inr firmware \<Rightarrow>
            (case melodi_radio_get_text (replicate 32 0) (drop 40 payload) 32 of
               Inl error \<Rightarrow> Inl error
             | Inr hardware \<Rightarrow>
                 let info =
                   \<lparr>inf_firmware = firmware, inf_hardware = hardware,
                    inf_abi_version = melodi_radio_get_u32 payload,
                    inf_packet_mtu = melodi_radio_get_u16 (drop 4 payload),
                    inf_queue_depth = melodi_radio_get_u16 (drop 6 payload)\<rparr>
                 in if inf_packet_mtu info = 0 \<or> unat (inf_packet_mtu info) > MELODI_RADIO_PACKET_MAX \<or>
                       inf_queue_depth info = 0
                    then Inl EPROTO else Inr info))"

definition melodi_radio_encode_status :: "melodi_radio_status \<Rightarrow> bytes \<Rightarrow> (bytes \<times> nat) res" where
  "melodi_radio_encode_status status output =
     (if sts_state status > MELODI_RADIO_STATE_FAILED \<or> sts_fault status > MELODI_RADIO_FAULT_INTERNAL \<or>
         sts_queue_free status > sts_queue_depth status
      then Inl EINVAL
      else
        let payload = replicate MELODI_RADIO_STATUS_SIZE 0;
            payload = poke 0 (melodi_radio_put_u32 (sts_locator status)) payload;
            payload = poke 4 (melodi_radio_put_u16 (sts_queue_free status)) payload;
            payload = poke 6 (melodi_radio_put_u16 (sts_queue_depth status)) payload;
            payload = poke 8 [sts_state status] payload;
            payload = poke 9 [sts_fault status] payload;
            payload = poke 10 [sts_modem_status status] payload
        in melodi_radio_stream_encode MELODI_RADIO_T_STATUS payload output)"

definition melodi_radio_decode_status :: "bytes \<Rightarrow> melodi_radio_status res" where
  "melodi_radio_decode_status payload =
     (if length payload \<noteq> MELODI_RADIO_STATUS_SIZE then Inl EINVAL
      else
        let status =
          \<lparr>sts_locator = melodi_radio_get_u32 payload,
           sts_queue_free = melodi_radio_get_u16 (drop 4 payload),
           sts_queue_depth = melodi_radio_get_u16 (drop 6 payload),
           sts_state = payload ! 8, sts_fault = payload ! 9, sts_modem_status = payload ! 10\<rparr>
        in if sts_state status > MELODI_RADIO_STATE_FAILED \<or> sts_fault status > MELODI_RADIO_FAULT_INTERNAL \<or>
              sts_queue_free status > sts_queue_depth status
           then Inl EPROTO else Inr status)"

definition melodi_radio_encode_transmit :: "melodi_radio_transmit \<Rightarrow> bytes \<Rightarrow> (bytes \<times> nat) res" where
  "melodi_radio_encode_transmit transmit output =
     (if trx_cookie transmit = 0 \<or> trx_destination transmit = 0 \<or> trx_payload_length transmit = 0 \<or>
         unat (trx_payload_length transmit) > MELODI_RADIO_PACKET_MAX
      then Inl EINVAL
      else
        let payload = replicate (MELODI_RADIO_TRANSMIT_SIZE + MELODI_RADIO_PACKET_MAX) 0;
            payload = poke 0 (melodi_radio_put_u32 (trx_cookie transmit)) payload;
            payload = poke 4 (melodi_radio_put_u32 (trx_destination transmit)) payload;
            payload = poke 8 (melodi_radio_put_u16 (trx_payload_length transmit)) payload;
            payload = poke MELODI_RADIO_TRANSMIT_SIZE
              (take (unat (trx_payload_length transmit)) (trx_payload transmit)) payload
        in melodi_radio_stream_encode MELODI_RADIO_T_TRANSMIT
             (take (MELODI_RADIO_TRANSMIT_SIZE + unat (trx_payload_length transmit)) payload) output)"

definition melodi_radio_decode_transmit :: "bytes \<Rightarrow> melodi_radio_transmit res" where
  "melodi_radio_decode_transmit payload =
     (if length payload < MELODI_RADIO_TRANSMIT_SIZE then Inl EINVAL
      else
        let transmit =
          \<lparr>trx_cookie = melodi_radio_get_u32 payload, trx_destination = melodi_radio_get_u32 (drop 4 payload),
           trx_payload = drop MELODI_RADIO_TRANSMIT_SIZE payload,
           trx_payload_length = melodi_radio_get_u16 (drop 8 payload)\<rparr>
        in if trx_cookie transmit = 0 \<or> trx_destination transmit = 0 \<or> trx_payload_length transmit = 0 \<or>
              unat (trx_payload_length transmit) > MELODI_RADIO_PACKET_MAX \<or>
              length payload \<noteq> MELODI_RADIO_TRANSMIT_SIZE + unat (trx_payload_length transmit)
           then Inl EPROTO else Inr transmit)"

definition melodi_radio_encode_receive :: "melodi_radio_receive \<Rightarrow> bytes \<Rightarrow> (bytes \<times> nat) res" where
  "melodi_radio_encode_receive receive output =
     (if rcv_source receive = 0 \<or> rcv_destination receive = 0 \<or> rcv_payload_length receive = 0 \<or>
         unat (rcv_payload_length receive) > MELODI_RADIO_PACKET_MAX
      then Inl EINVAL
      else
        let payload = replicate (MELODI_RADIO_RECEIVE_SIZE + MELODI_RADIO_PACKET_MAX) 0;
            payload = poke 0 (melodi_radio_put_u32 (rcv_source receive)) payload;
            payload = poke 4 (melodi_radio_put_u32 (rcv_destination receive)) payload;
            payload = poke 8 (melodi_radio_put_u16 (rcv_rssi receive)) payload;
            payload = poke 10 (melodi_radio_put_u16 (rcv_snr receive)) payload;
            payload = poke 12 [rcv_hops receive] payload;
            payload = poke 13 [0] payload;
            payload = poke 14 (melodi_radio_put_u16 (rcv_payload_length receive)) payload;
            payload = poke MELODI_RADIO_RECEIVE_SIZE
              (take (unat (rcv_payload_length receive)) (rcv_payload receive)) payload
        in melodi_radio_stream_encode MELODI_RADIO_T_RECEIVE
             (take (MELODI_RADIO_RECEIVE_SIZE + unat (rcv_payload_length receive)) payload) output)"

definition melodi_radio_decode_receive :: "bytes \<Rightarrow> melodi_radio_receive res" where
  "melodi_radio_decode_receive payload =
     (if length payload < MELODI_RADIO_RECEIVE_SIZE then Inl EINVAL
      else
        let receive =
          \<lparr>rcv_source = melodi_radio_get_u32 payload, rcv_destination = melodi_radio_get_u32 (drop 4 payload),
           rcv_rssi = melodi_radio_get_u16 (drop 8 payload), rcv_snr = melodi_radio_get_u16 (drop 10 payload),
           rcv_hops = payload ! 12, rcv_payload = drop MELODI_RADIO_RECEIVE_SIZE payload,
           rcv_payload_length = melodi_radio_get_u16 (drop 14 payload)\<rparr>
        in if rcv_source receive = 0 \<or> rcv_destination receive = 0 \<or> rcv_payload_length receive = 0 \<or>
              unat (rcv_payload_length receive) > MELODI_RADIO_PACKET_MAX \<or>
              length payload \<noteq> MELODI_RADIO_RECEIVE_SIZE + unat (rcv_payload_length receive)
           then Inl EPROTO else Inr receive)"

definition melodi_radio_encode_result :: "melodi_radio_result_report \<Rightarrow> bytes \<Rightarrow> (bytes \<times> nat) res" where
  "melodi_radio_encode_result report output =
     (if rpt_cookie report = 0 \<or> rpt_result report > MELODI_RADIO_RESULT_DUTY then Inl EINVAL
      else
        let payload = replicate MELODI_RADIO_RESULT_SIZE 0;
            payload = poke 0 (melodi_radio_put_u32 (rpt_cookie report)) payload;
            payload = poke 4 (melodi_radio_put_u32 (rpt_duration_us report)) payload;
            payload = poke 8 [rpt_result report] payload;
            payload = poke 9 [0] payload
        in melodi_radio_stream_encode MELODI_RADIO_T_RESULT payload output)"

definition melodi_radio_decode_result :: "bytes \<Rightarrow> melodi_radio_result_report res" where
  "melodi_radio_decode_result payload =
     (if length payload \<noteq> MELODI_RADIO_RESULT_SIZE then Inl EINVAL
      else
        let report =
          \<lparr>rpt_cookie = melodi_radio_get_u32 payload, rpt_duration_us = melodi_radio_get_u32 (drop 4 payload),
           rpt_result = payload ! 8\<rparr>
        in if rpt_cookie report = 0 \<or> rpt_result report > MELODI_RADIO_RESULT_DUTY then Inl EPROTO
           else Inr report)"


subsection \<open>The interface of a message\<close>

locale radio_message =
  fixes enc :: "'m \<Rightarrow> bytes \<Rightarrow> (bytes \<times> nat) res" and dec :: "bytes \<Rightarrow> 'm res"
    and type :: u8 and body :: "'m \<Rightarrow> bytes" and ok :: "'m \<Rightarrow> bool"
  assumes enc_ok: "ok m \<Longrightarrow> enc m out = melodi_radio_stream_encode type (body m) out"
    and dec_body: "ok m \<Longrightarrow> dec (body m) = Inr m"
    and length_body: "ok m \<Longrightarrow> length (body m) \<le> 512"
begin

lemma over_the_link:
  assumes "ok m" "str_state s = MELODI_RADIO_SCAN_MAGIC0" "length (str_buffer s) = 512"
    "8 + length (body m) \<le> length out"
  shows "\<exists>out' n s' p. enc m out = Inr (out', n) \<and> feed_all s (take n out') = (s', [Inr (type, p)]) \<and> dec p = Inr m"
proof -
  have e: "enc m out = Inr (frame_bytes type (body m) @ drop (8 + length (body m)) out, 8 + length (body m))"
    using assms(4) length_body [OF assms(1)] by (simp add: enc_ok [OF assms(1)] melodi_radio_stream_encode_eq)
  have "take (8 + length (body m)) (frame_bytes type (body m) @ drop (8 + length (body m)) out) =
      frame_bytes type (body m)" by simp
  with feed_frame [OF assms(2,3) length_body [OF assms(1)], of type] e dec_body [OF assms(1)]
  show ?thesis by metis
qed

end

lemmas radio_reads [simp] = radio16.get_put_append radio32.get_put_append radio16.get_put radio32.get_put

definition configure_body :: "melodi_radio_configure \<Rightarrow> bytes" where
  "configure_body c = cfg_domain c @ melodi_radio_put_u32 (cfg_locator c) @ melodi_radio_put_u32 (cfg_frequency_hz c)
     @ melodi_radio_put_u16 (cfg_bandwidth_khz c) @ [cfg_spreading_factor c] @ [cfg_coding_rate c]
     @ melodi_radio_put_u16 (cfg_transmit_power_dbm c) @ melodi_radio_put_u16 (cfg_duty_permille c)"

definition configure_ok :: "melodi_radio_configure \<Rightarrow> bool" where
  "configure_ok c \<longleftrightarrow> length (cfg_domain c) = 32 \<and> cfg_locator c \<noteq> 0 \<and> cfg_locator c \<noteq> MELODI_RADIO_LOCATOR_BROADCAST
     \<and> cfg_frequency_hz c \<noteq> 0 \<and> cfg_bandwidth_khz c \<noteq> 0 \<and> 6 \<le> cfg_spreading_factor c \<and> cfg_spreading_factor c \<le> 12
     \<and> 5 \<le> cfg_coding_rate c \<and> cfg_coding_rate c \<le> 8 \<and> cfg_duty_permille c \<noteq> 0 \<and> cfg_duty_permille c \<le> 1000"

interpretation configure: radio_message melodi_radio_encode_configure melodi_radio_decode_configure
    2 configure_body configure_ok
proof
  fix m out assume ok: "configure_ok m"
  let ?p = "poke 46 (melodi_radio_put_u16 (cfg_duty_permille m)) (poke 44 (melodi_radio_put_u16 (cfg_transmit_power_dbm m))
    (poke 43 [cfg_coding_rate m] (poke 42 [cfg_spreading_factor m] (poke 40 (melodi_radio_put_u16 (cfg_bandwidth_khz m))
    (poke 36 (melodi_radio_put_u32 (cfg_frequency_hz m)) (poke 32 (melodi_radio_put_u32 (cfg_locator m))
    (poke 0 (cfg_domain m) (replicate 48 0))))))))"
  have "?p = configure_body m"
    using ok by (simp add: poke_start poke_fill configure_ok_def del: append.simps append_assoc)
      (simp add: configure_body_def)
  with ok show "melodi_radio_encode_configure m out = melodi_radio_stream_encode 2 (configure_body m) out"
    by (auto simp: melodi_radio_encode_configure_def configure_ok_def Let_def)
  show "melodi_radio_decode_configure (configure_body m) = Inr m"
    using ok
    by (simp add: melodi_radio_decode_configure_def configure_body_def configure_ok_def Let_def chunk_def
        nth_append not_less)
  show "length (configure_body m) \<le> 512" using ok by (simp add: configure_body_def configure_ok_def)
qed

definition status_body :: "melodi_radio_status \<Rightarrow> bytes" where
  "status_body t = melodi_radio_put_u32 (sts_locator t) @ melodi_radio_put_u16 (sts_queue_free t)
     @ melodi_radio_put_u16 (sts_queue_depth t) @ [sts_state t] @ [sts_fault t] @ [sts_modem_status t]"

definition status_ok :: "melodi_radio_status \<Rightarrow> bool" where
  "status_ok t \<longleftrightarrow> sts_state t \<le> 2 \<and> sts_fault t \<le> 7 \<and> sts_queue_free t \<le> sts_queue_depth t"

interpretation status: radio_message melodi_radio_encode_status melodi_radio_decode_status "0x82" status_body status_ok
proof
  fix m out assume ok: "status_ok m"
  let ?p = "poke 10 [sts_modem_status m] (poke 9 [sts_fault m] (poke 8 [sts_state m]
    (poke 6 (melodi_radio_put_u16 (sts_queue_depth m)) (poke 4 (melodi_radio_put_u16 (sts_queue_free m))
    (poke 0 (melodi_radio_put_u32 (sts_locator m)) (replicate 11 0))))))"
  have "?p = status_body m"
    by (simp add: poke_start poke_fill del: append.simps append_assoc) (simp add: status_body_def)
  with ok show "melodi_radio_encode_status m out = melodi_radio_stream_encode 0x82 (status_body m) out"
    by (auto simp: melodi_radio_encode_status_def status_ok_def Let_def)
  show "melodi_radio_decode_status (status_body m) = Inr m"
    using ok by (simp add: melodi_radio_decode_status_def status_body_def status_ok_def Let_def nth_append not_less)
  show "length (status_body m) \<le> 512" by (simp add: status_body_def)
qed

definition result_body :: "melodi_radio_result_report \<Rightarrow> bytes" where
  "result_body r = melodi_radio_put_u32 (rpt_cookie r) @ melodi_radio_put_u32 (rpt_duration_us r) @ [rpt_result r] @ [0]"

definition result_ok :: "melodi_radio_result_report \<Rightarrow> bool" where
  "result_ok r \<longleftrightarrow> rpt_cookie r \<noteq> 0 \<and> rpt_result r \<le> 5"

interpretation report: radio_message melodi_radio_encode_result melodi_radio_decode_result "0x84" result_body result_ok
proof
  fix m out assume ok: "result_ok m"
  let ?p = "poke 9 [0] (poke 8 [rpt_result m] (poke 4 (melodi_radio_put_u32 (rpt_duration_us m))
    (poke 0 (melodi_radio_put_u32 (rpt_cookie m)) (replicate 10 0))))"
  have "?p = result_body m"
    by (simp add: poke_start poke_fill del: append.simps append_assoc) (simp add: result_body_def)
  with ok show "melodi_radio_encode_result m out = melodi_radio_stream_encode 0x84 (result_body m) out"
    by (auto simp: melodi_radio_encode_result_def result_ok_def Let_def)
  show "melodi_radio_decode_result (result_body m) = Inr m"
    using ok by (simp add: melodi_radio_decode_result_def result_body_def result_ok_def Let_def nth_append not_less)
  show "length (result_body m) \<le> 512" by (simp add: result_body_def)
qed

definition transmit_body :: "melodi_radio_transmit \<Rightarrow> bytes" where
  "transmit_body t = melodi_radio_put_u32 (trx_cookie t) @ melodi_radio_put_u32 (trx_destination t)
     @ melodi_radio_put_u16 (trx_payload_length t) @ trx_payload t"

definition transmit_ok :: "melodi_radio_transmit \<Rightarrow> bool" where
  "transmit_ok t \<longleftrightarrow> trx_cookie t \<noteq> 0 \<and> trx_destination t \<noteq> 0 \<and> trx_payload_length t \<noteq> 0
     \<and> length (trx_payload t) = unat (trx_payload_length t) \<and> length (trx_payload t) \<le> 240"

interpretation transmit: radio_message melodi_radio_encode_transmit melodi_radio_decode_transmit 3 transmit_body transmit_ok
proof
  fix m out assume ok: "transmit_ok m"
  let ?p = "poke 10 (trx_payload m) (poke 8 (melodi_radio_put_u16 (trx_payload_length m))
    (poke 4 (melodi_radio_put_u32 (trx_destination m)) (poke 0 (melodi_radio_put_u32 (trx_cookie m)) (replicate 250 0))))"
  have "?p = transmit_body m @ replicate (240 - length (trx_payload m)) 0"
    using ok by (simp add: poke_start poke_fill transmit_ok_def del: append.simps append_assoc)
      (simp add: transmit_body_def)
  moreover have "length (transmit_body m) = 10 + length (trx_payload m)" by (simp add: transmit_body_def)
  ultimately have "take (10 + length (trx_payload m)) ?p = transmit_body m" by simp
  with ok show "melodi_radio_encode_transmit m out = melodi_radio_stream_encode 3 (transmit_body m) out"
    by (auto simp: melodi_radio_encode_transmit_def transmit_ok_def Let_def)
  show "melodi_radio_decode_transmit (transmit_body m) = Inr m"
    using ok by (simp add: melodi_radio_decode_transmit_def transmit_body_def transmit_ok_def Let_def not_less)
  show "length (transmit_body m) \<le> 512" using ok by (simp add: transmit_body_def transmit_ok_def)
qed

definition receive_body :: "melodi_radio_receive \<Rightarrow> bytes" where
  "receive_body r = melodi_radio_put_u32 (rcv_source r) @ melodi_radio_put_u32 (rcv_destination r)
     @ melodi_radio_put_u16 (rcv_rssi r) @ melodi_radio_put_u16 (rcv_snr r) @ [rcv_hops r] @ [0]
     @ melodi_radio_put_u16 (rcv_payload_length r) @ rcv_payload r"

definition receive_ok :: "melodi_radio_receive \<Rightarrow> bool" where
  "receive_ok r \<longleftrightarrow> rcv_source r \<noteq> 0 \<and> rcv_destination r \<noteq> 0 \<and> rcv_payload_length r \<noteq> 0
     \<and> length (rcv_payload r) = unat (rcv_payload_length r) \<and> length (rcv_payload r) \<le> 240"

interpretation receive: radio_message melodi_radio_encode_receive melodi_radio_decode_receive "0x83" receive_body receive_ok
proof
  fix m out assume ok: "receive_ok m"
  let ?p = "poke 16 (rcv_payload m) (poke 14 (melodi_radio_put_u16 (rcv_payload_length m)) (poke 13 [0]
    (poke 12 [rcv_hops m] (poke 10 (melodi_radio_put_u16 (rcv_snr m)) (poke 8 (melodi_radio_put_u16 (rcv_rssi m))
    (poke 4 (melodi_radio_put_u32 (rcv_destination m)) (poke 0 (melodi_radio_put_u32 (rcv_source m)) (replicate 256 0))))))))"
  have "?p = receive_body m @ replicate (240 - length (rcv_payload m)) 0"
    using ok by (simp add: poke_start poke_fill receive_ok_def del: append.simps append_assoc)
      (simp add: receive_body_def)
  moreover have "length (receive_body m) = 16 + length (rcv_payload m)" by (simp add: receive_body_def)
  ultimately have "take (16 + length (rcv_payload m)) ?p = receive_body m" by simp
  with ok show "melodi_radio_encode_receive m out = melodi_radio_stream_encode 0x83 (receive_body m) out"
    by (auto simp: melodi_radio_encode_receive_def receive_ok_def Let_def)
  show "melodi_radio_decode_receive (receive_body m) = Inr m"
    using ok by (simp add: melodi_radio_decode_receive_def receive_body_def receive_ok_def Let_def nth_append not_less)
  show "length (receive_body m) \<le> 512" using ok by (simp add: receive_body_def receive_ok_def)
qed


text \<open>The text of a name: at most 31 printable octets, then zeros up to 32.\<close>

definition printable :: "u8 \<Rightarrow> bool" where
  "printable b \<longleftrightarrow> 0x20 \<le> b \<and> b \<le> 0x7e"

definition text_ok :: "bytes \<Rightarrow> bool" where
  "text_ok t \<longleftrightarrow> (\<exists>n\<le>31. length t = 32 \<and> (\<forall>i<n. printable (t ! i)) \<and> (\<forall>i. n \<le> i \<and> i < 32 \<longrightarrow> t ! i = 0))"

lemma text_okE:
  assumes "text_ok t"
  obtains w where "t = w @ replicate (32 - length w) 0" "length w \<le> 31" "\<forall>b\<in>set w. printable b"
proof -
  from assms obtain n where n: "n \<le> 31" "length t = 32" "\<forall>i<n. printable (t ! i)"
    "\<forall>i. n \<le> i \<and> i < 32 \<longrightarrow> t ! i = 0" by (auto simp: text_ok_def)
  have "drop n t = replicate (32 - n) 0" using n by (intro nth_equalityI) auto
  then have "t = take n t @ replicate (32 - n) 0" by (metis append_take_drop_id)
  moreover have "length (take n t) = n" using n by simp
  moreover have "\<forall>b\<in>set (take n t). printable b" using n(1,2,3) by (auto simp: in_set_conv_nth)
  ultimately show thesis using n(1) by (intro that [of "take n t"]) simp_all
qed

lemma printable_neq_0: "printable b \<Longrightarrow> b \<noteq> 0"
  by (auto simp: printable_def)

lemma melodi_radio_put_text_ok:
  assumes "text_ok t"
  shows "melodi_radio_put_text t 32 = t"
proof -
  obtain w where w: "t = w @ replicate (32 - length w) 0" "length w \<le> 31" "\<forall>b\<in>set w. printable b"
    using assms by (rule text_okE)
  have "take 31 t = w @ replicate (31 - length w) 0" using w(1,2) by simp
  then have "takeWhile (\<lambda>b. b \<noteq> 0) (take 31 t) = w"
    using w(3) printable_neq_0
    by (simp add: takeWhile_append2)
  with w(1) show ?thesis by (simp add: melodi_radio_put_text_def Let_def)
qed

lemma melodi_radio_get_text_loop_ok:
  assumes "length w \<le> 31" "\<forall>b\<in>set w. printable b" "i \<le> length w"
  shows "melodi_radio_get_text_loop (take i w @ replicate (32 - i) 0) (w @ replicate (32 - length w) 0 @ rest) 32 i =
    Inr (w @ replicate (32 - length w) 0)"
  using assms(3)
proof (induction "length w - i" arbitrary: i)
  case 0
  then have i: "i = length w" by simp
  moreover have "(replicate (32 - length w) (0 :: u8))[0 := 0] = replicate (32 - length w) 0"
    by (cases "32 - length w") simp_all
  ultimately show ?case
    using assms(1)
    by (subst melodi_radio_get_text_loop.simps) (simp add: nth_append list_update_append)
next
  case (Suc n)
  then have i: "i < length w" by simp
  with assms(2) have "printable (w ! i)" by simp
  then have ch: "w ! i \<noteq> 0" "\<not> (w ! i < 0x20 \<or> w ! i > 0x7e)"
    using printable_neq_0 by (auto simp: printable_def)
  have "(take i w @ replicate (32 - i) 0)[i := w ! i] = take (Suc i) w @ replicate (32 - Suc i) 0"
  proof -
    have "32 - i = Suc (32 - Suc i)" using i assms(1) by simp
    then show ?thesis using i by (simp add: list_update_append take_Suc_conv_app_nth)
  qed
  with Suc.hyps(1) [of "Suc i"] Suc.hyps(2) i assms(1) ch show ?case
    by (subst melodi_radio_get_text_loop.simps) (simp add: nth_append)
qed

lemma melodi_radio_get_text_ok:
  assumes "text_ok t"
  shows "melodi_radio_get_text (replicate 32 0) (t @ rest) 32 = Inr t"
proof -
  obtain w where w: "t = w @ replicate (32 - length w) 0" "length w \<le> 31" "\<forall>b\<in>set w. printable b"
    using assms by (rule text_okE)
  show ?thesis
    using melodi_radio_get_text_loop_ok [OF w(2,3), of 0 rest]
    by (simp add: melodi_radio_get_text_def) (simp add: w(1))
qed

lemma length_text_ok: "text_ok t \<Longrightarrow> length t = 32"
  by (auto simp: text_ok_def)

definition info_body :: "melodi_radio_info \<Rightarrow> bytes" where
  "info_body i = melodi_radio_put_u32 (inf_abi_version i) @ melodi_radio_put_u16 (inf_packet_mtu i)
     @ melodi_radio_put_u16 (inf_queue_depth i) @ inf_firmware i @ inf_hardware i"

definition info_ok :: "melodi_radio_info \<Rightarrow> bool" where
  "info_ok i \<longleftrightarrow> text_ok (inf_firmware i) \<and> text_ok (inf_hardware i) \<and> inf_packet_mtu i \<noteq> 0
     \<and> unat (inf_packet_mtu i) \<le> 240 \<and> inf_queue_depth i \<noteq> 0"

interpretation info: radio_message melodi_radio_encode_info melodi_radio_decode_info "0x81" info_body info_ok
proof
  fix m out assume ok: "info_ok m"
  then have len: "length (inf_firmware m) = 32" "length (inf_hardware m) = 32"
    by (simp_all add: info_ok_def length_text_ok)
  have names: "melodi_radio_put_text (inf_firmware m) 32 = inf_firmware m"
    "melodi_radio_put_text (inf_hardware m) 32 = inf_hardware m"
    using ok by (simp_all add: info_ok_def melodi_radio_put_text_ok)
  let ?p = "poke 40 (inf_hardware m) (poke 8 (inf_firmware m) (poke 6 (melodi_radio_put_u16 (inf_queue_depth m))
    (poke 4 (melodi_radio_put_u16 (inf_packet_mtu m)) (poke 0 (melodi_radio_put_u32 (inf_abi_version m)) (replicate 72 0)))))"
  have "?p = info_body m"
    using len by (simp add: poke_start poke_fill del: append.simps append_assoc) (simp add: info_body_def)
  with ok names show "melodi_radio_encode_info m out = melodi_radio_stream_encode 0x81 (info_body m) out"
    by (auto simp: melodi_radio_encode_info_def info_ok_def Let_def)
  have "melodi_radio_get_text (replicate 32 0) (inf_firmware m @ inf_hardware m) 32 = Inr (inf_firmware m)"
    "melodi_radio_get_text (replicate 32 0) (inf_hardware m) 32 = Inr (inf_hardware m)"
    using ok melodi_radio_get_text_ok [of "inf_hardware m" "[]"] by (simp_all add: info_ok_def melodi_radio_get_text_ok)
  with ok len show "melodi_radio_decode_info (info_body m) = Inr m"
    by (simp add: melodi_radio_decode_info_def info_body_def info_ok_def Let_def)
  show "length (info_body m) \<le> 512" by (simp add: info_body_def len)
qed


subsection \<open>Segments\<close>

record melodi_radio_segment =
  seg_frame_id :: u32
  seg_total_length :: u16
  seg_index :: u16
  seg_count :: u16
  seg_payload :: bytes
  seg_payload_length :: u16

definition melodi_radio_segment_encode :: "melodi_radio_segment \<Rightarrow> bytes \<Rightarrow> (bytes \<times> nat) res" where
  "melodi_radio_segment_encode segment output =
     (if seg_frame_id segment = 0 \<or> seg_count segment = 0 \<or>
         unat (seg_count segment) > MELODI_RADIO_SEGMENT_LIMIT \<or>
         seg_index segment \<ge> seg_count segment \<or>
         seg_payload_length segment = 0 \<or> seg_total_length segment = 0 \<or>
         unat (seg_total_length segment) > MELODI_RADIO_FRAME_MAX \<or>
         unat (seg_payload_length segment) > MELODI_RADIO_PACKET_MAX - MELODI_RADIO_SEGMENT_SIZE
      then Inl EINVAL
      else if length output < MELODI_RADIO_SEGMENT_SIZE + unat (seg_payload_length segment) then Inl ENOSPC
      else
        let out = poke 0 (melodi_radio_put_u32 (seg_frame_id segment)) output;
            out = poke 4 (melodi_radio_put_u16 (seg_total_length segment)) out;
            out = poke 6 (melodi_radio_put_u16 (seg_index segment)) out;
            out = poke 8 (melodi_radio_put_u16 (seg_count segment)) out;
            out = poke 10 (melodi_radio_put_u16 0) out;
            out = poke MELODI_RADIO_SEGMENT_SIZE
              (take (unat (seg_payload_length segment)) (seg_payload segment)) out
        in Inr (out, MELODI_RADIO_SEGMENT_SIZE + unat (seg_payload_length segment)))"

definition melodi_radio_segment_decode :: "bytes \<Rightarrow> melodi_radio_segment res" where
  "melodi_radio_segment_decode payload =
     (if length payload \<le> MELODI_RADIO_SEGMENT_SIZE \<or> length payload > MELODI_RADIO_PACKET_MAX then Inl EINVAL
      else
        let segment =
          \<lparr>seg_frame_id = melodi_radio_get_u32 payload,
           seg_total_length = melodi_radio_get_u16 (drop 4 payload),
           seg_index = melodi_radio_get_u16 (drop 6 payload),
           seg_count = melodi_radio_get_u16 (drop 8 payload),
           seg_payload = drop MELODI_RADIO_SEGMENT_SIZE payload,
           seg_payload_length = of_nat (length payload - MELODI_RADIO_SEGMENT_SIZE)\<rparr>
        in if seg_frame_id segment = 0 \<or> seg_count segment = 0 \<or>
              unat (seg_count segment) > MELODI_RADIO_SEGMENT_LIMIT \<or>
              seg_index segment \<ge> seg_count segment \<or> seg_total_length segment = 0 \<or>
              unat (seg_total_length segment) > MELODI_RADIO_FRAME_MAX
           then Inl EPROTO else Inr segment)"

definition segment_wf :: "melodi_radio_segment \<Rightarrow> bool" where
  "segment_wf g \<longleftrightarrow> length (seg_payload g) = unat (seg_payload_length g)"

definition segment_ok :: "melodi_radio_segment \<Rightarrow> bool" where
  "segment_ok g \<longleftrightarrow> seg_frame_id g \<noteq> 0 \<and> seg_count g \<noteq> 0 \<and> unat (seg_count g) \<le> 32 \<and> seg_index g < seg_count g
     \<and> seg_payload_length g \<noteq> 0 \<and> seg_total_length g \<noteq> 0 \<and> unat (seg_total_length g) \<le> 7296
     \<and> unat (seg_payload_length g) \<le> 228"

definition segment_bytes :: "melodi_radio_segment \<Rightarrow> bytes" where
  "segment_bytes g = melodi_radio_put_u32 (seg_frame_id g) @ melodi_radio_put_u16 (seg_total_length g)
     @ melodi_radio_put_u16 (seg_index g) @ melodi_radio_put_u16 (seg_count g) @ melodi_radio_put_u16 0 @ seg_payload g"

lemma length_segment_bytes [simp]: "length (segment_bytes g) = 12 + length (seg_payload g)"
  by (simp add: segment_bytes_def)

lemma melodi_radio_segment_encode_eq:
  assumes "segment_wf g"
  shows "melodi_radio_segment_encode g out =
    (if \<not> segment_ok g then Inl EINVAL
     else if length out < 12 + length (seg_payload g) then Inl ENOSPC
     else Inr (segment_bytes g @ drop (12 + length (seg_payload g)) out, 12 + length (seg_payload g)))"
proof -
  let ?o = "poke 12 (seg_payload g) (poke 10 (melodi_radio_put_u16 0) (poke 8 (melodi_radio_put_u16 (seg_count g))
    (poke 6 (melodi_radio_put_u16 (seg_index g)) (poke 4 (melodi_radio_put_u16 (seg_total_length g))
    (poke 0 (melodi_radio_put_u32 (seg_frame_id g)) out)))))"
  have "?o = segment_bytes g @ drop (12 + length (seg_payload g)) out" if "12 + length (seg_payload g) \<le> length out"
    using that
    by (simp add: poke_start poke_fill del: append.simps append_assoc) (simp add: segment_bytes_def add.commute)
  then show ?thesis
    using assms by (auto simp: melodi_radio_segment_encode_def segment_ok_def segment_wf_def Let_def not_less)
qed

lemma melodi_radio_segment_decode_bytes:
  assumes "segment_ok g" "segment_wf g"
  shows "melodi_radio_segment_decode (segment_bytes g) = Inr g"
proof -
  have "(of_nat (length (seg_payload g)) :: u16) = seg_payload_length g"
    using assms(2) by (simp add: segment_wf_def)
  moreover have "seg_payload g \<noteq> []" "length (seg_payload g) \<le> 228"
    using assms by (auto simp: segment_ok_def segment_wf_def unat_eq_zero)
  ultimately show ?thesis
    using assms
    by (simp add: melodi_radio_segment_decode_def Let_def not_le not_less segment_ok_def)
       (simp add: segment_bytes_def)
qed

subsection \<open>Time on air\<close>

text \<open>
  The quantities of type \<open>unsigned long long\<close> are 64 bit words, those of type \<open>long long\<close> are
  integers: with the checked arguments they stay below \<open>2 ^ 12\<close> in absolute value.
\<close>

definition melodi_radio_airtime_estimate :: "u8 \<Rightarrow> u16 \<Rightarrow> u8 \<Rightarrow> nat \<Rightarrow> u32 res" where
  "melodi_radio_airtime_estimate spreading_factor bandwidth_khz coding_rate payload_length =
     (if spreading_factor < 6 \<or> spreading_factor > 12 \<or> bandwidth_khz = 0 \<or> coding_rate < 5 \<or> coding_rate > 8 \<or>
         payload_length > MELODI_RADIO_PACKET_MAX
      then Inl EINVAL
      else
        let symbol_us = push_bit (unat spreading_factor) 1 * 1000 div ucast bandwidth_khz :: u64;
            preamble_us = symbol_us * 49 div 4;
            low_rate = (if spreading_factor \<ge> 11 \<and> bandwidth_khz \<le> 125 then 1 else 0) :: int;
            numerator = 8 * int payload_length - 4 * uint spreading_factor + 28 + 16;
            denominator = 4 * (uint spreading_factor - 2 * low_rate)
        in if denominator \<le> 0 then Inl EINVAL
           else
             let symbols = (if numerator \<le> 0 then 0 else (numerator + denominator - 1) div denominator);
                 symbols = 8 + symbols * (uint coding_rate - 4 + 4);
                 payload_us = of_int symbols * symbol_us
             in Inr (ucast (preamble_us + payload_us)))"


subsection \<open>What the decoder delivers was sent\<close>

definition follows :: "bytes \<Rightarrow> melodi_radio_stream \<Rightarrow> bool" where
  "follows history s \<longleftrightarrow>
     (case str_state s of
        MELODI_RADIO_SCAN_MAGIC0 \<Rightarrow> True
      | MELODI_RADIO_SCAN_MAGIC1 \<Rightarrow> \<exists>pre. history = pre @ [MELODI_RADIO_MAGIC0]
      | MELODI_RADIO_READ_HEADER \<Rightarrow>
          \<exists>pre. history = pre @ [MELODI_RADIO_MAGIC0, MELODI_RADIO_MAGIC1] @ take (unat (str_offset s)) (str_buffer s)
      | MELODI_RADIO_READ_PAYLOAD \<Rightarrow>
          \<exists>pre. history = pre @ [MELODI_RADIO_MAGIC0, MELODI_RADIO_MAGIC1, MELODI_RADIO_VERSION, hdr_type (str_header s)]
            @ melodi_radio_put_u16 (hdr_length (str_header s)) @ melodi_radio_put_u16 (hdr_checksum (str_header s))
            @ take (unat (str_offset s)) (str_buffer s))"

definition sent :: "u8 \<Rightarrow> bytes \<Rightarrow> bytes \<Rightarrow> bool" where
  "sent type p history \<longleftrightarrow> length p \<le> 512 \<and> (\<exists>pre. history = pre @ frame_bytes type p)"

lemma take_update_next: "i < length xs \<Longrightarrow> take (Suc i) (xs[i := b]) = take i xs @ [b]"
  by (simp add: take_Suc_conv_app_nth)

lemma header_octets:
  assumes "length xs = 512" "take 6 xs = ys"
  shows "ys = [xs ! 0, xs ! 1] @ melodi_radio_put_u16 (melodi_radio_get_u16 (drop 2 xs))
    @ melodi_radio_put_u16 (melodi_radio_get_u16 (drop 4 xs))"
proof -
  obtain a b c d e f zs where "xs = a # b # c # d # e # f # zs" using assms(1) by (elim six_octets [rotated]) simp
  then show ?thesis
    using assms(2) radio16.put_get [of "[c, d]"] radio16.put_get [of "[e, f]"]
      radio16.get_take [of "c # d # e # f # zs"] radio16.get_take [of "e # f # zs"]
    by (auto simp: eval_nat_numeral)
qed

lemma follows_header:
  assumes "follows h s" "stream_ok s" "melodi_radio_stream_feed s b = (s', r)" "str_state s = MELODI_RADIO_READ_HEADER"
  shows "follows (h @ [b]) s' \<and> (\<forall>type p. Inr (type, p) \<in> set (seen_by_caller r) \<longrightarrow> sent type p (h @ [b]))"
proof -
  let ?i = "unat (str_offset s)" and ?buf = "(str_buffer s)[unat (str_offset s) := b]"
  from assms(1,4) obtain pre where pre: "h = pre @ [0x4d, 0x4c] @ take ?i (str_buffer s)" by (auto simp: follows_def)
  have i: "?i < 6" "length (str_buffer s) = 512" using assms(2,4) by (simp_all add: stream_ok_def)
  have inc: "unat (str_offset s + 1) = Suc ?i" using i by (intro unat_inc_u16) simp
  have h: "h @ [b] = pre @ [0x4d, 0x4c] @ take (Suc ?i) ?buf" using i by (simp add: pre take_update_next)
  show ?thesis
  proof (cases "Suc ?i < 6")
    case True
    then show ?thesis
      using assms(3,4) h inc by (auto simp: melodi_radio_stream_feed_def Let_def follows_def seen_by_caller_def)
  next
    case False
    with i have "Suc ?i = 6" by simp
    moreover have "length ?buf = 512" using i by simp
    ultimately have full: "h @ [b] = pre @ [0x4d, 0x4c] @ [?buf ! 0, ?buf ! 1]
        @ melodi_radio_put_u16 (melodi_radio_get_u16 (drop 2 ?buf)) @ melodi_radio_put_u16 (melodi_radio_get_u16 (drop 4 ?buf))"
      using h header_octets [of ?buf, OF _ refl] by simp
    define c where "c = ?buf"
    show ?thesis
      using assms(3,4) full inc False unfolding c_def [symmetric]
      by (auto simp: melodi_radio_stream_feed_def Let_def follows_def seen_by_caller_def sent_def frame_bytes_def c_def [symmetric]
          split: if_splits)
  qed
qed

lemma follows_payload:
  assumes "follows h s" "stream_ok s" "melodi_radio_stream_feed s b = (s', r)" "str_state s = MELODI_RADIO_READ_PAYLOAD"
  shows "follows (h @ [b]) s' \<and> (\<forall>type p. Inr (type, p) \<in> set (seen_by_caller r) \<longrightarrow> sent type p (h @ [b]))"
proof -
  let ?i = "unat (str_offset s)" and ?buf = "(str_buffer s)[unat (str_offset s) := b]" and ?l = "str_expected s"
  let ?head = "[0x4d, 0x4c, 2, hdr_type (str_header s)] @ melodi_radio_put_u16 (hdr_length (str_header s))
    @ melodi_radio_put_u16 (hdr_checksum (str_header s))"
  from assms(1,4) obtain pre where pre: "h = pre @ ?head @ take ?i (str_buffer s)" by (auto simp: follows_def)
  have i: "?i < unat ?l" "unat ?l \<le> 512" "length (str_buffer s) = 512" "?l = hdr_length (str_header s)"
    using assms(2,4) by (auto simp: stream_ok_def)
  have inc: "unat (str_offset s + 1) = Suc ?i" using i by (intro unat_inc_u16) simp
  define c where "c = ?buf"
  have h: "h @ [b] = pre @ ?head @ take (Suc ?i) c" using i by (simp add: pre take_update_next c_def)
  show ?thesis
  proof (cases "str_offset s + 1 < ?l")
    case True
    then show ?thesis
      using assms(3,4) h inc
      by (auto simp: melodi_radio_stream_feed_def Let_def follows_def seen_by_caller_def c_def)
  next
    case False
    with i(1) inc have last: "Suc ?i = unat ?l" by (simp add: word_less_nat_alt)
    then have "(of_nat (length (take (Suc ?i) c)) :: u16) = ?l" using i by (simp add: c_def)
    with h i(2-4) last have "sent (hdr_type (str_header s)) (take (unat ?l) c) (h @ [b])"
      if "hdr_checksum (str_header s) = melodi_radio_checksum (take (unat ?l) c)"
      using that by (auto simp: sent_def frame_bytes_def)
    then show ?thesis
      using assms(3,4) False i(4)
      by (auto simp: melodi_radio_stream_feed_def Let_def follows_def seen_by_caller_def c_def split: if_splits)
  qed
qed

lemma follows_feed:
  assumes "follows h s" "stream_ok s" "melodi_radio_stream_feed s b = (s', r)"
  shows "follows (h @ [b]) s' \<and> (\<forall>type p. Inr (type, p) \<in> set (seen_by_caller r) \<longrightarrow> sent type p (h @ [b]))"
proof (cases "str_state s")
  case MELODI_RADIO_READ_HEADER
  with assms show ?thesis by (rule follows_header)
next
  case MELODI_RADIO_READ_PAYLOAD
  with assms show ?thesis by (rule follows_payload)
qed (use assms in \<open>auto simp: melodi_radio_stream_feed_def follows_def seen_by_caller_def split: if_splits\<close>)

lemma feed_all_sound:
  assumes "follows h s" "stream_ok s" "feed_all s bs = (s', rs)" "Inr (type, p) \<in> set rs"
  shows "length p \<le> 512 \<and> (\<exists>pre post. h @ bs = pre @ frame_bytes type p @ post)"
  using assms
proof (induction bs arbitrary: h s rs)
  case (Cons b bs)
  obtain t r where f: "melodi_radio_stream_feed s b = (t, r)" by fastforce
  obtain rs' where g: "feed_all t bs = (s', rs')" using Cons.prems(3) f by (auto split: prod.splits)
  have t: "follows (h @ [b]) t" "stream_ok t"
    and now: "\<And>type p. Inr (type, p) \<in> set (seen_by_caller r) \<Longrightarrow> sent type p (h @ [b])"
    using follows_feed [OF Cons.prems(1,2) f] stream_ok_feed [OF Cons.prems(2) f] by auto
  have "rs = seen_by_caller r @ rs'" using Cons.prems(3) f g by simp
  then consider "Inr (type, p) \<in> set (seen_by_caller r)" | "Inr (type, p) \<in> set rs'" using Cons.prems(4) by auto
  then show ?case
  proof cases
    case 1
    from now [OF this] obtain pre where "length p \<le> 512" "h @ [b] = pre @ frame_bytes type p" by (auto simp: sent_def)
    moreover from this(2) have "h @ b # bs = pre @ frame_bytes type p @ bs" by (metis append.assoc append_Cons append_Nil)
    ultimately show ?thesis by blast
  next
    case 2
    from Cons.IH [OF t g this] show ?thesis by simp
  qed
qed simp

lemma stream_ok_init: "stream_ok melodi_radio_stream_init"
  by (simp add: stream_ok_def melodi_radio_stream_init_def)

lemma follows_init: "follows [] melodi_radio_stream_init"
  by (simp add: follows_def melodi_radio_stream_init_def)


subsection \<open>The link\<close>

text \<open>What the encoder puts on the serial line, with a buffer of the exact size.\<close>

definition on_the_line :: "u8 \<Rightarrow> bytes \<Rightarrow> bytes" where
  "on_the_line type payload =
     (case melodi_radio_stream_encode type payload (replicate (8 + length payload) 0) of
        Inr (out, n) \<Rightarrow> take n out | Inl _ \<Rightarrow> [])"

lemma on_the_line_eq: "length p \<le> 512 \<Longrightarrow> on_the_line type p = frame_bytes type p"
  by (simp add: on_the_line_def melodi_radio_stream_encode_eq)

lemma feed_frames:
  assumes "str_state s = MELODI_RADIO_SCAN_MAGIC0" "length (str_buffer s) = 512"
    "\<forall>(noise, type, p) \<in> set fs. MELODI_RADIO_MAGIC0 \<notin> set noise \<and> length p \<le> 512"
  shows "\<exists>s'. str_state s' = MELODI_RADIO_SCAN_MAGIC0
    \<and> feed_all s (concat (map (\<lambda>(noise, type, p). noise @ on_the_line type p) fs)) =
      (s', map (\<lambda>(noise, type, p). Inr (type, p)) fs)"
  using assms
proof (induction fs arbitrary: s)
  case (Cons f fs)
  obtain noise type p where f: "f = (noise, type, p)" by (cases f)
  have p: "0x4d \<notin> set noise" "length p \<le> 512" using Cons.prems(3) by (auto simp: f)
  obtain t where t: "str_state t = MELODI_RADIO_SCAN_MAGIC0" "length (str_buffer t) = 512"
    "feed_all s (frame_bytes type p) = (t, [Inr (type, p)])"
    using feed_frame [OF Cons.prems(1,2) p(2), of type] by (elim exE conjE)
  from Cons.IH [OF t(1,2)] Cons.prems(3) obtain s' where "str_state s' = MELODI_RADIO_SCAN_MAGIC0"
    "feed_all t (concat (map (\<lambda>(noise, type, p). noise @ on_the_line type p) fs)) =
      (s', map (\<lambda>(noise, type, p). Inr (type, p)) fs)" by auto
  then show ?case
    by (simp add: f on_the_line_eq p feed_all_append feed_noise [OF Cons.prems(1) p(1)] t)
qed simp

text \<open>
  The messages of both directions, with the encoder and the decoder that the two sides choose by
  the type octet.
\<close>

datatype link_message =
    Identify | Reset
  | Configure melodi_radio_configure | Transmit melodi_radio_transmit
  | Info melodi_radio_info | Status melodi_radio_status
  | Receive melodi_radio_receive | Result melodi_radio_result_report

fun link_encode :: "link_message \<Rightarrow> bytes \<Rightarrow> (bytes \<times> nat) res" where
  "link_encode Identify out = melodi_radio_encode_identify out"
| "link_encode Reset out = melodi_radio_encode_reset out"
| "link_encode (Configure m) out = melodi_radio_encode_configure m out"
| "link_encode (Transmit m) out = melodi_radio_encode_transmit m out"
| "link_encode (Info m) out = melodi_radio_encode_info m out"
| "link_encode (Status m) out = melodi_radio_encode_status m out"
| "link_encode (Receive m) out = melodi_radio_encode_receive m out"
| "link_encode (Result m) out = melodi_radio_encode_result m out"

definition link_decode :: "u8 \<times> bytes \<Rightarrow> link_message res" where
  "link_decode = (\<lambda>(type, p).
     if type = MELODI_RADIO_T_IDENTIFY \<and> p = [] then Inr Identify
     else if type = MELODI_RADIO_T_RESET \<and> p = [] then Inr Reset
     else if type = MELODI_RADIO_T_CONFIGURE then map_sum id Configure (melodi_radio_decode_configure p)
     else if type = MELODI_RADIO_T_TRANSMIT then map_sum id Transmit (melodi_radio_decode_transmit p)
     else if type = MELODI_RADIO_T_INFO then map_sum id Info (melodi_radio_decode_info p)
     else if type = MELODI_RADIO_T_STATUS then map_sum id Status (melodi_radio_decode_status p)
     else if type = MELODI_RADIO_T_RECEIVE then map_sum id Receive (melodi_radio_decode_receive p)
     else if type = MELODI_RADIO_T_RESULT then map_sum id Result (melodi_radio_decode_result p)
     else Inl EPROTO)"

fun link_ok :: "link_message \<Rightarrow> bool" where
  "link_ok Identify = True"
| "link_ok Reset = True"
| "link_ok (Configure m) = configure_ok m"
| "link_ok (Transmit m) = transmit_ok m"
| "link_ok (Info m) = info_ok m"
| "link_ok (Status m) = status_ok m"
| "link_ok (Receive m) = receive_ok m"
| "link_ok (Result m) = result_ok m"

fun link_body :: "link_message \<Rightarrow> u8 \<times> bytes" where
  "link_body Identify = (MELODI_RADIO_T_IDENTIFY, [])"
| "link_body Reset = (MELODI_RADIO_T_RESET, [])"
| "link_body (Configure m) = (MELODI_RADIO_T_CONFIGURE, configure_body m)"
| "link_body (Transmit m) = (MELODI_RADIO_T_TRANSMIT, transmit_body m)"
| "link_body (Info m) = (MELODI_RADIO_T_INFO, info_body m)"
| "link_body (Status m) = (MELODI_RADIO_T_STATUS, status_body m)"
| "link_body (Receive m) = (MELODI_RADIO_T_RECEIVE, receive_body m)"
| "link_body (Result m) = (MELODI_RADIO_T_RESULT, result_body m)"

lemma link_encode_body: "link_ok m \<Longrightarrow> link_encode m out = case_prod melodi_radio_stream_encode (link_body m) out"
  by (cases m) (simp_all add: melodi_radio_encode_identify_def melodi_radio_encode_reset_def configure.enc_ok
      transmit.enc_ok info.enc_ok status.enc_ok receive.enc_ok report.enc_ok)

lemma link_decode_body: "link_ok m \<Longrightarrow> link_decode (link_body m) = Inr m"
  by (cases m) (simp_all add: link_decode_def configure.dec_body
      transmit.dec_body info.dec_body status.dec_body receive.dec_body report.dec_body)

lemma length_link_body: "link_ok m \<Longrightarrow> length (snd (link_body m)) \<le> 512"
  by (cases m) (simp_all add: configure.length_body
      transmit.length_body info.length_body status.length_body receive.length_body report.length_body)

definition link_line :: "link_message \<Rightarrow> bytes" where
  "link_line m = (case link_encode m (replicate 520 0) of Inr (out, n) \<Rightarrow> take n out | Inl _ \<Rightarrow> [])"

lemma link_line_eq: "link_ok m \<Longrightarrow> link_line m = case_prod on_the_line (link_body m)"
  using length_link_body [of m]
  by (cases "link_body m") (simp add: link_line_def link_encode_body melodi_radio_stream_encode_eq on_the_line_eq)

text \<open>
  C27. The frame decoder recovers exactly the frames that the encoder wrote, in order, whatever
  octets other than the first magic octet stand between them.
\<close>

theorem radio_stream_round_trip:
  assumes "\<forall>(noise, type, p) \<in> set fs. 0x4d \<notin> set noise \<and> length p \<le> 512"
  shows "snd (feed_all melodi_radio_stream_init (concat (map (\<lambda>(noise, type, p). noise @ on_the_line type p) fs))) =
    map (\<lambda>(noise, type, p). Inr (type, p)) fs"
  using feed_frames [OF _ _ assms, of melodi_radio_stream_init] by (auto simp: melodi_radio_stream_init_def)

theorem radio_stream_round_trip_witness:
  "snd (feed_all melodi_radio_stream_init ([1, 2] @ on_the_line 7 [0x4d, 0x4c] @ [0xff] @ on_the_line 8 [])) =
     [Inr (7, [0x4d, 0x4c]), Inr (8, [])]"
  using radio_stream_round_trip [of "[([1, 2], 7, [0x4d, 0x4c]), ([0xff], 8, [])]"] by simp

text \<open>
  C28. Whatever octets arrive, the decoder stays within its buffer, and every frame it delivers
  stood on the line as one run of octets with the magic, the version, the length and a matching
  checksum.
\<close>

theorem radio_stream_sound:
  assumes "feed_all melodi_radio_stream_init bs = (s, rs)"
  shows "stream_ok s \<and> (\<forall>type p. Inr (type, p) \<in> set rs \<longrightarrow>
    length p \<le> 512 \<and> (\<exists>pre post. bs = pre @ frame_bytes type p @ post))"
  using feed_all_sound [OF follows_init stream_ok_init assms] stream_ok_feed_all [OF stream_ok_init assms] by auto

theorem radio_stream_sound_witness:
  "\<exists>s. feed_all melodi_radio_stream_init [0x4d, 9, 0x4d] = (s, []) \<and> stream_ok s"
proof -
  have "feed_all melodi_radio_stream_init [0x4d, 9, 0x4d] =
      (melodi_radio_stream_init\<lparr>str_state := MELODI_RADIO_SCAN_MAGIC1\<rparr>, [])"
    by (simp add: melodi_radio_stream_feed_def melodi_radio_stream_init_def seen_by_caller_def)
  with radio_stream_sound [OF this] show ?thesis by blast
qed

text \<open>
  C29. Every sequence of valid messages of the radio protocol, encoded one after the other, is
  delivered and decoded to the same sequence of messages.
\<close>

theorem radio_messages_round_trip:
  assumes "\<forall>m \<in> set ms. link_ok m"
  shows "map (case_sum Inl link_decode) (snd (feed_all melodi_radio_stream_init (concat (map link_line ms)))) = map Inr ms"
proof -
  let ?fs = "map (\<lambda>m. ([] :: bytes, link_body m)) ms"
  have lines: "concat (map (\<lambda>(noise, type, p). noise @ on_the_line type p) ?fs) = concat (map link_line ms)"
    using assms by (induction ms) (auto simp: link_line_eq split: prod.splits)
  have "\<forall>(noise, type, p) \<in> set ?fs. 0x4d \<notin> set noise \<and> length p \<le> 512"
    using assms by auto (metis length_link_body snd_conv)
  from feed_frames [OF _ _ this, of melodi_radio_stream_init]
  have "snd (feed_all melodi_radio_stream_init (concat (map link_line ms))) = map (\<lambda>m. Inr (link_body m)) ms"
    unfolding lines by (auto simp: melodi_radio_stream_init_def comp_def split: prod.splits)
  then show ?thesis using assms by (simp add: link_decode_body)
qed

theorem radio_messages_round_trip_witness:
  "map (case_sum Inl link_decode) (snd (feed_all melodi_radio_stream_init (concat (map link_line
     [Identify, Result \<lparr>rpt_cookie = 5, rpt_duration_us = 70000, rpt_result = 0\<rparr>])))) =
   map Inr [Identify, Result \<lparr>rpt_cookie = 5, rpt_duration_us = 70000, rpt_result = 0\<rparr>]"
  by (rule radio_messages_round_trip) (simp add: result_ok_def)


lemma unat_of_nat_small: "k < 65536 \<Longrightarrow> unat (of_nat k :: u16) = k"
  by (simp add: unat_of_nat take_bit_nat_eq_self)

text \<open>
  A segment that the encoder accepts is decoded to the same segment, and a segment that the
  decoder accepts is one that the encoder takes, for the octets with the reserved field cleared.
\<close>

theorem radio_segment_codec:
  assumes "segment_wf g"
  shows "(melodi_radio_segment_encode g out = Inr (out', n) \<longrightarrow> melodi_radio_segment_decode (take n out') = Inr g)
    \<and> (melodi_radio_segment_decode bs = Inr g \<longrightarrow>
        melodi_radio_segment_encode g (replicate (length bs) 0) = Inr (poke 10 [0, 0] bs, length bs))"
proof (intro conjI impI)
  assume "melodi_radio_segment_encode g out = Inr (out', n)"
  then have "segment_ok g" "out' = segment_bytes g @ drop n out" "n = length (segment_bytes g)"
    by (auto simp: melodi_radio_segment_encode_eq [OF assms] split: if_splits)
  then show "melodi_radio_segment_decode (take n out') = Inr g"
    using melodi_radio_segment_decode_bytes [OF _ assms] by simp
next
  assume d: "melodi_radio_segment_decode bs = Inr g"
  then have g: "g = \<lparr>seg_frame_id = melodi_radio_get_u32 bs, seg_total_length = melodi_radio_get_u16 (drop 4 bs),
      seg_index = melodi_radio_get_u16 (drop 6 bs), seg_count = melodi_radio_get_u16 (drop 8 bs),
      seg_payload = drop 12 bs, seg_payload_length = of_nat (length bs - 12)\<rparr>"
    and len: "12 < length bs" "length bs \<le> 240"
    by (auto simp: melodi_radio_segment_decode_def Let_def split: if_splits)
  have fit: "unat (of_nat (length bs - 12) :: u16) = length bs - 12"
    by (rule unat_of_nat_small) (use len in simp)
  then have "(of_nat (length bs - 12) :: u16) \<noteq> 0" using len by (metis unat_0 zero_less_diff less_irrefl)
  with d len fit have ok: "segment_ok g"
    by (auto simp: melodi_radio_segment_decode_def Let_def segment_ok_def not_le split: if_splits)
  have "segment_bytes g = chunk 0 4 bs @ chunk 4 2 bs @ chunk 6 2 bs @ chunk 8 2 bs @ [0, 0] @ drop 12 bs"
    using len radio32.put_get_chunk [of 0 bs] radio16.put_get_chunk [of 4 bs] radio16.put_get_chunk [of 6 bs]
      radio16.put_get_chunk [of 8 bs]
    by (simp add: segment_bytes_def g) (simp add: melodi_radio_put_u16_def)
  also have "\<dots> = chunk 0 10 bs @ [0, 0] @ drop 12 bs" by (simp add: chunk_join_append)
  also have "\<dots> = poke 10 [0, 0] bs" using len by (simp add: poke_def chunk_def)
  finally have "segment_bytes g = poke 10 [0, 0] bs" .
  with ok len show "melodi_radio_segment_encode g (replicate (length bs) 0) = Inr (poke 10 [0, 0] bs, length bs)"
    by (simp add: melodi_radio_segment_encode_eq [OF assms]) (simp add: g)
qed

theorem radio_segment_codec_witness:
  "let g = \<lparr>seg_frame_id = 9, seg_total_length = 3, seg_index = 0, seg_count = 1, seg_payload = [5, 6, 7],
            seg_payload_length = 3\<rparr>;
       bs = [0, 0, 0, 9, 0, 3, 0, 0, 0, 1, 0, 0, 5, 6, 7]
   in melodi_radio_segment_encode g (replicate 15 0) = Inr (bs, 15) \<and> melodi_radio_segment_decode bs = Inr g"
proof -
  let ?g = "\<lparr>seg_frame_id = 9, seg_total_length = 3, seg_index = 0, seg_count = 1, seg_payload = [5, 6, 7],
            seg_payload_length = 3\<rparr>"
  let ?bs = "[0, 0, 0, 9, 0, 3, 0, 0, 0, 1, 0, 0, 5, 6, 7] :: bytes"
  have e: "melodi_radio_segment_encode ?g (replicate 15 0) = Inr (?bs, 15)" by code_simp
  have "segment_wf ?g" by (simp add: segment_wf_def)
  from radio_segment_codec [OF this, of "replicate 15 0" ?bs 15 ?bs] e show ?thesis by simp
qed

subsection \<open>The estimate is the formula\<close>

text \<open>Semtech's formula over the reals, with the symbol time in whole microseconds.\<close>

definition lora_symbol_us :: "nat \<Rightarrow> nat \<Rightarrow> nat" where
  "lora_symbol_us sf bw = 2 ^ sf * 1000 div bw"

definition lora_symbols :: "nat \<Rightarrow> nat \<Rightarrow> nat \<Rightarrow> nat \<Rightarrow> int" where
  "lora_symbols sf bw cr n =
     8 + max 0 \<lceil>(8 * real n - 4 * real sf + 28 + 16) / (4 * (real sf - 2 * (if 11 \<le> sf \<and> bw \<le> 125 then 1 else 0)))\<rceil> * int cr"

definition lora_time_us :: "nat \<Rightarrow> nat \<Rightarrow> nat \<Rightarrow> nat \<Rightarrow> nat" where
  "lora_time_us sf bw cr n =
     49 * lora_symbol_us sf bw div 4 + nat (lora_symbols sf bw cr n) * lora_symbol_us sf bw"

lemma ceiling_div_int:
  assumes "0 < (d :: int)"
  shows "- (- a div d) = (a + d - 1) div d"
proof -
  have "- a = d * (- ((a + d - 1) div d)) + (d - 1 - (a + d - 1) mod d)"
    by (simp add: algebra_simps minus_mod_eq_mult_div [symmetric])
  moreover have "0 \<le> d - 1 - (a + d - 1) mod d" "d - 1 - (a + d - 1) mod d < d"
    using assms pos_mod_bound [of d "a + d - 1"] pos_mod_sign [of d "a + d - 1"] by linarith+
  ultimately have "- a div d = - ((a + d - 1) div d)" by (rule int_div_pos_eq)
  then show ?thesis by simp
qed

lemma lora_symbols_int:
  "lora_symbols sf bw cr n =
     (let a = 8 * int n - 4 * int sf + 28 + 16; d = 4 * (int sf - 2 * (if 11 \<le> sf \<and> bw \<le> 125 then 1 else 0))
      in 8 + (if a \<le> 0 then 0 else (a + d - 1) div d) * int cr)"
  if "6 \<le> sf"
proof -
  define a d where "a = 8 * int n - 4 * int sf + 28 + 16" and "d = 4 * (int sf - 2 * (if 11 \<le> sf \<and> bw \<le> 125 then 1 else 0))"
  have d: "0 < d" using that by (auto simp: d_def)
  have "(8 * real n - 4 * real sf + 28 + 16) / (4 * (real sf - 2 * (if 11 \<le> sf \<and> bw \<le> 125 then 1 else 0)))
      = real_of_int a / real_of_int d" by (auto simp: a_def d_def)
  then have "lora_symbols sf bw cr n = 8 + max 0 ((a + d - 1) div d) * int cr"
    unfolding lora_symbols_def by (simp only: ceiling_divide_eq_div ceiling_div_int [OF d])
  moreover have "max 0 ((a + d - 1) div d) = (if a \<le> 0 then 0 else (a + d - 1) div d)"
  proof (cases "a \<le> 0")
    case True
    then have "(a + d - 1) div d \<le> 0" using d zdiv_mono1 [of "a + d - 1" "d - 1" d] by simp
    then show ?thesis using True by simp
  next
    case False
    then show ?thesis using d by (simp add: pos_imp_zdiv_nonneg_iff)
  qed
  ultimately show ?thesis by (simp only: Let_def a_def d_def)
qed

lemma lora_symbols_bounds:
  assumes "6 \<le> sf" "cr \<le> 8" "n \<le> 240"
  shows "0 \<le> lora_symbols sf bw cr n" "lora_symbols sf bw cr n \<le> 656"
proof -
  define a d where "a = 8 * int n - 4 * int sf + 28 + 16" and "d = 4 * (int sf - 2 * (if 11 \<le> sf \<and> bw \<le> 125 then 1 else 0))"
  have d: "24 \<le> d" using assms(1) by (auto simp: d_def)
  have "0 \<le> (a + d - 1) div d \<and> (a + d - 1) div d \<le> 81" if "0 < a"
  proof
    show "0 \<le> (a + d - 1) div d" using that d by (simp add: pos_imp_zdiv_nonneg_iff)
    have "a + d - 1 < 82 * d" using assms d by (simp add: a_def)
    then show "(a + d - 1) div d \<le> 81" using d zdiv_mono1 [of "a + d - 1" "82 * d - 1" d] div_pos_pos_trivial [of "d - 1" d]
      div_mult_self2 [of d "d - 1" 81] by (simp add: algebra_simps)
  qed
  moreover have "0 \<le> k * int cr \<and> k * int cr \<le> 648" if "0 \<le> k" "k \<le> 81" for k
    using mult_mono [of k 81 "int cr" 8] that assms(2) by simp
  moreover have "lora_symbols sf bw cr n = 8 + (if a \<le> 0 then 0 else (a + d - 1) div d) * int cr"
    by (simp only: lora_symbols_int [OF assms(1)] Let_def a_def d_def)
  ultimately show "0 \<le> lora_symbols sf bw cr n" "lora_symbols sf bw cr n \<le> 656"
    by (cases "a \<le> 0"; force)+
qed

lemma lora_symbol_us_bounds: "sf \<le> 12 \<Longrightarrow> 0 < bw \<Longrightarrow> lora_symbol_us sf bw \<le> 4096000"
proof -
  assume "sf \<le> 12" "0 < bw"
  then have "(2::nat) ^ sf * 1000 \<le> 2 ^ 12 * 1000" by (intro mult_right_mono power_increasing) simp_all
  then show ?thesis unfolding lora_symbol_us_def by (intro order.trans [OF div_le_dividend]) simp
qed

lemma unat_symbol_us:
  assumes "sf \<le> 12"
  shows "unat (2 ^ unat sf * 1000 div ucast bw :: u64) = lora_symbol_us (unat (sf :: u8)) (unat (bw :: u16))"
proof -
  have "unat sf \<le> 12" using assms by (simp add: word_le_nat_alt)
  then have le: "(2::nat) ^ unat sf \<le> 2 ^ 12" by (intro power_increasing) simp_all
  have "unat (of_nat (2 ^ unat sf * 1000) :: u64) = 2 ^ unat sf * 1000"
    unfolding unat_of_nat by (rule mod_less) (use le in simp)
  then have "unat (2 ^ unat sf * 1000 :: u64) = 2 ^ unat sf * 1000" by simp
  then show ?thesis by (simp add: lora_symbol_us_def unat_div unat_ucast_up)
qed

definition radio_setting_ok :: "u8 \<Rightarrow> u16 \<Rightarrow> u8 \<Rightarrow> nat \<Rightarrow> bool" where
  "radio_setting_ok sf bw cr n \<longleftrightarrow> 6 \<le> sf \<and> sf \<le> 12 \<and> bw \<noteq> 0 \<and> 5 \<le> cr \<and> cr \<le> 8 \<and> n \<le> 240"

lemma ucast_of_nat_small: "ucast (of_nat n :: u64) = (of_nat n :: u32)"
  by (rule bit_word_eqI) (simp add: bit_simps)

lemma airtime_words:
  assumes "T \<le> 4096000" "0 \<le> K" "K \<le> 656" "unat (S :: u64) = T"
  shows "unat (ucast (S * 49 div 4 + of_int K * S) :: u32) = 49 * T div 4 + nat K * T"
proof -
  have "nat K * T \<le> 656 * 4096000" using assms by (intro mult_le_mono) simp_all
  then have fits: "49 * T div 4 + nat K * T < 2 ^ 32" using assms(1) by simp
  have S: "S = of_nat T" by (simp flip: assms(4))
  have div: "unat (S * 49 div 4) = 49 * T div 4"
    using assms(1,4) by (simp add: unat_div unat_word_ariths mult.commute)
  have "S * 49 div 4 = of_nat (49 * T div 4)" by (simp flip: div)
  moreover have "of_int K * S = of_nat (nat K * T)" using assms(2) by (simp add: S)
  ultimately have "ucast (S * 49 div 4 + of_int K * S) = (of_nat (49 * T div 4 + nat K * T) :: u32)"
    using fits by (simp only: of_nat_add [symmetric]) (rule ucast_of_nat_small)
  then show ?thesis using fits by (simp only: unat_of_nat) (simp add: take_bit_nat_eq_self)
qed

text \<open>
  C30. For every accepted setting the estimate is the value of the time on air formula: no product
  or sum of the computation wraps around and the conversion to 32 bits loses nothing; every other
  setting is refused.
\<close>

theorem radio_airtime_exact:
  "case melodi_radio_airtime_estimate sf bw cr n of
     Inl e \<Rightarrow> \<not> radio_setting_ok sf bw cr n \<and> e = EINVAL
   | Inr duration \<Rightarrow> radio_setting_ok sf bw cr n \<and> unat duration = lora_time_us (unat sf) (unat bw) (unat cr) n"
proof (cases "radio_setting_ok sf bw cr n")
  case True
  then have ok: "6 \<le> sf" "sf \<le> 12" "bw \<noteq> 0" "5 \<le> cr" "cr \<le> 8" "n \<le> 240" by (simp_all add: radio_setting_ok_def)
  then have sf: "6 \<le> unat sf" "unat sf \<le> 12" "unat cr \<le> 8" "0 < unat bw"
    by (auto simp: word_le_nat_alt unat_gt_0)
  have low: "11 \<le> sf \<longleftrightarrow> 11 \<le> unat sf" "bw \<le> 125 \<longleftrightarrow> unat bw \<le> 125" by (simp_all add: word_le_nat_alt)
  have K: "lora_symbols (unat sf) (unat bw) (unat cr) n =
      (let a = 8 * int n - 4 * uint sf + 28 + 16; d = 4 * (uint sf - 2 * (if 11 \<le> sf \<and> bw \<le> 125 then 1 else 0))
       in 8 + (if a \<le> 0 then 0 else (a + d - 1) div d) * uint cr)"
    unfolding lora_symbols_int [OF sf(1)] low by simp
  have "6 \<le> uint sf" using ok(1) by (simp add: word_le_def)
  then have d: "\<not> 4 * (uint sf - 2 * (if 11 \<le> sf \<and> bw \<le> 125 then 1 else 0)) \<le> 0" by simp
  let ?S = "2 ^ unat sf * 1000 div ucast bw :: u64"
  have guard: "\<not> (sf < 6 \<or> 12 < sf \<or> bw = 0 \<or> cr < 5 \<or> 8 < cr \<or> 240 < n)" using ok by (simp add: not_less)
  have "melodi_radio_airtime_estimate sf bw cr n =
      Inr (ucast (?S * 49 div 4 + of_int (lora_symbols (unat sf) (unat bw) (unat cr) n) * ?S))"
    unfolding melodi_radio_airtime_estimate_def Let_def if_not_P [OF guard] if_not_P [OF d] K diff_add_cancel
    by (simp only: push_bit_of_1)
  with True airtime_words [OF lora_symbol_us_bounds [OF sf(2,4)] lora_symbols_bounds [OF sf(1,3) ok(6)]
      unat_symbol_us [OF ok(2)]]
  show ?thesis by (simp only: sum.case lora_time_us_def simp_thms)
qed (auto simp: melodi_radio_airtime_estimate_def radio_setting_ok_def not_le)

end
