(* ===== verification/NodeId.thy ===== *)
theory NodeId
  imports Prelude
begin

text \<open>
  Node identities as text, \<open>src/proto/nodeid.c\<close>: validation, the \<open>m\<close> prefixed z-base-32 form
  and its parser. The signature library is not part of the sources; what it answers about
  initialisation and about a key are the parameters \<open>init\<close> and \<open>point\<close>. A C string is the list
  of its characters.
\<close>

abbreviation (input) MELODI_NODE_ID_TEXT_SIZE :: nat where "MELODI_NODE_ID_TEXT_SIZE \<equiv> 54"

datatype melodi_nodeid_result =
    MELODI_NODEID_OK | MELODI_NODEID_INVALID | MELODI_NODEID_LENGTH
  | MELODI_NODEID_SCHEME | MELODI_NODEID_ENCODING | MELODI_NODEID_KEY

definition melodi_zbase32 :: string where
  "melodi_zbase32 = ''ybndrfg8ejkmcpqxot1uwisza345h769''"

definition melodi_is_uniform :: "bytes \<Rightarrow> u8 \<Rightarrow> bool" where
  "melodi_is_uniform bytes val = (fold (\<lambda>b different. different OR (b XOR val)) bytes 0 = 0)"

definition melodi_key_is_valid :: "int \<Rightarrow> (bytes \<Rightarrow> int) \<Rightarrow> bytes \<Rightarrow> bool" where
  "melodi_key_is_valid init point key \<longleftrightarrow> init \<ge> 0 \<and> point key = 1"

definition melodi_nodeid_validate :: "int \<Rightarrow> (bytes \<Rightarrow> int) \<Rightarrow> bytes \<Rightarrow> melodi_nodeid_result" where
  "melodi_nodeid_validate init point node =
     (if melodi_is_uniform node 0x00 \<or> melodi_is_uniform node 0xff then MELODI_NODEID_INVALID
      else if node ! 0 \<noteq> MELODI_NODE_ID_SCHEME_ED25519 then MELODI_NODEID_SCHEME
      else if \<not> melodi_key_is_valid init point (drop 1 node) then MELODI_NODEID_KEY
      else MELODI_NODEID_OK)"

subsection \<open>Formatting\<close>

text \<open>
  The output array is the list of the characters written so far, \<open>output_index\<close> its length.
\<close>

fun melodi_format_drain :: "u32 \<Rightarrow> nat \<Rightarrow> string \<Rightarrow> nat \<times> string" where
  "melodi_format_drain accumulator bits output =
     (if bits \<ge> 5
      then melodi_format_drain accumulator (bits - 5)
             (output @ [melodi_zbase32 ! unat (drop_bit (bits - 5) accumulator AND 31)])
      else (bits, output))"

declare melodi_format_drain.simps [simp del]

fun melodi_format_bytes :: "bytes \<Rightarrow> u32 \<Rightarrow> nat \<Rightarrow> string \<Rightarrow> u32 \<times> nat \<times> string" where
  "melodi_format_bytes [] accumulator bits output = (accumulator, bits, output)"
| "melodi_format_bytes (b # bs) accumulator bits output =
     (let accumulator = push_bit 8 accumulator OR ucast b;
          (bits, output) = melodi_format_drain accumulator (bits + 8) output
      in melodi_format_bytes bs accumulator bits output)"

definition melodi_nodeid_format ::
  "int \<Rightarrow> (bytes \<Rightarrow> int) \<Rightarrow> bytes \<Rightarrow> string \<Rightarrow> string \<times> melodi_nodeid_result" where
  "melodi_nodeid_format init point node output =
     (let result = melodi_nodeid_validate init point node
      in if result \<noteq> MELODI_NODEID_OK then (output, result)
         else
           let (accumulator, bits, written) = melodi_format_bytes node 0 0 ''m'';
               written = (if bits \<noteq> 0
                 then written @ [melodi_zbase32 ! unat (push_bit (5 - bits) accumulator AND 31)] else written)
           in (written @ [CHR 0x00],
               if length written = MELODI_NODE_ID_TEXT_SIZE then MELODI_NODEID_OK else MELODI_NODEID_ENCODING))"

subsection \<open>Parsing\<close>

text \<open>
  \<open>strchr\<close> also finds the terminating zero of the alphabet, at position 32.
\<close>

definition strchr :: "string \<Rightarrow> char \<Rightarrow> nat option" where
  "strchr s c = (let k = length (takeWhile (\<lambda>d. d \<noteq> c) (s @ [CHR 0x00])) in if k \<le> length s then Some k else None)"

definition melodi_zbase32_value :: "char \<Rightarrow> int" where
  "melodi_zbase32_value character = (case strchr melodi_zbase32 character of Some k \<Rightarrow> int k | None \<Rightarrow> -1)"

fun melodi_parse_symbols ::
  "string \<Rightarrow> u32 \<Rightarrow> nat \<Rightarrow> nat \<Rightarrow> bytes \<Rightarrow> bytes \<times> (u32 \<times> nat \<times> nat) option" where
  "melodi_parse_symbols [] accumulator bits output_index node = (node, Some (accumulator, bits, output_index))"
| "melodi_parse_symbols (c # cs) accumulator bits output_index node =
     (let val = melodi_zbase32_value c
      in if val < 0 then (node, None)
         else
           let accumulator = push_bit 5 accumulator OR of_int val;
               bits = bits + 5
           in if bits \<ge> 8
              then if output_index \<ge> MELODI_NODE_ID_SIZE then (node, None)
                   else melodi_parse_symbols cs accumulator (bits - 8) (output_index + 1)
                          (node[output_index := ucast (drop_bit (bits - 8) accumulator)])
              else melodi_parse_symbols cs accumulator bits output_index node)"

definition melodi_nodeid_parse ::
  "int \<Rightarrow> (bytes \<Rightarrow> int) \<Rightarrow> string \<Rightarrow> bytes \<Rightarrow> bytes \<times> melodi_nodeid_result" where
  "melodi_nodeid_parse init point txt node =
     (if length txt \<noteq> MELODI_NODE_ID_TEXT_SIZE \<or> txt ! 0 \<noteq> CHR ''m'' then (node, MELODI_NODEID_LENGTH)
      else
        case melodi_parse_symbols (drop 1 txt) 0 0 0 (replicate MELODI_NODE_ID_SIZE 0) of
          (node, None) \<Rightarrow> (node, MELODI_NODEID_ENCODING)
        | (node, Some (accumulator, bits, output_index)) \<Rightarrow>
            if output_index \<noteq> MELODI_NODE_ID_SIZE \<or> bits \<noteq> 1 \<or> accumulator AND 1 \<noteq> 0
            then (node, MELODI_NODEID_ENCODING)
            else
              let result = melodi_nodeid_validate init point node
              in if result \<noteq> MELODI_NODEID_OK then (node, result)
                 else
                   let (canonical, result) = melodi_nodeid_format init point node []
                   in if result \<noteq> MELODI_NODEID_OK \<or> txt \<noteq> take (length txt) canonical
                      then (node, MELODI_NODEID_ENCODING) else (node, MELODI_NODEID_OK))"

subsection \<open>Digits of the accumulator\<close>

text \<open>Shifting a digit into the accumulator, and reading the digit above the low bits.\<close>

lemma unat_mod_dvd:
  assumes "k \<le> 32" shows "unat (of_nat n :: u32) mod 2 ^ k = n mod 2 ^ k"
proof -
  have "(2::nat) ^ k dvd 2 ^ 32" using assms by (rule le_imp_power_dvd)
  then show ?thesis by (simp add: unat_of_nat mod_mod_cancel)
qed

lemma shift_in:
  assumes "d < 2 ^ w" "k + w \<le> 32"
  shows "unat (push_bit w acc OR of_nat d :: u32) mod 2 ^ (k + w) = (unat acc mod 2 ^ k) * 2 ^ w + d"
proof -
  have "push_bit w acc OR of_nat d = (of_nat (unat acc * 2 ^ w + d) :: u32)"
  proof -
    have "\<not> (bit (push_bit w acc) n \<and> bit (of_nat d :: u32) n)" for n
    proof
      assume "bit (push_bit w acc) n \<and> bit (of_nat d :: u32) n"
      then have "w \<le> n" "bit d n" by (auto simp: bit_simps)
      moreover have "take_bit w d = d" using assms(1) by (simp add: take_bit_nat_eq_self)
      ultimately show False by (metis bit_take_bit_iff not_less)
    qed
    then have "push_bit w acc OR of_nat d = push_bit w acc + (of_nat d :: u32)"
      by (intro disjunctive_add_eq_or [symmetric] bit_eqI) (simp add: bit_and_iff)
    then show ?thesis by (simp add: push_bit_eq_mult)
  qed
  then have "unat (push_bit w acc OR of_nat d :: u32) mod 2 ^ (k + w) = (unat acc * 2 ^ w + d) mod 2 ^ (k + w)"
    by (simp only: unat_mod_dvd [OF assms(2)])
  also have "\<dots> = (unat acc mod 2 ^ k) * 2 ^ w + d"
    using assms(1) by (simp add: power_add mult.commute [of "2 ^ k"] mod_mult2_eq div_mult_self3)
  finally show ?thesis .
qed

lemma digit_above:
  "unat (drop_bit k acc AND 31 :: u32) = unat acc div 2 ^ k mod 32"
proof -
  have "drop_bit k acc AND 31 = take_bit 5 (drop_bit k acc)" by (simp add: take_bit_eq_mask mask_eq_exp_minus_1)
  then have "unat (drop_bit k acc AND 31) = take_bit 5 (drop_bit k (unat acc))"
    by (simp only: unsigned_take_bit_eq unat_drop_bit_eq)
  then show ?thesis by (simp add: take_bit_eq_mod drop_bit_eq_div)
qed

lemma split_low: "n mod 2 ^ (k + 5) = (n div 2 ^ k mod 32) * 2 ^ k + n mod (2 ^ k :: nat)"
  by (simp add: power_add mod_mult2_eq)


subsection \<open>What formatting writes\<close>

definition symbols :: "nat list \<Rightarrow> string" where
  "symbols ds = map (\<lambda>d. melodi_zbase32 ! d) ds"

lemma symbols_append [simp]: "symbols (xs @ ys) = symbols xs @ symbols ys" "symbols [] = []"
  "symbols (d # ds) = melodi_zbase32 ! d # symbols ds" "length (symbols ds) = length ds"
  by (simp_all add: symbols_def)

lemma format_drain:
  "\<exists>ds r. melodi_format_drain acc bits out = (r, out @ symbols ds) \<and> r < 5 \<and> bits = 5 * length ds + r
     \<and> (\<forall>d\<in>set ds. d < 32)
     \<and> (\<forall>v. radix 32 v ds * 2 ^ r + unat acc mod 2 ^ r = v * 2 ^ bits + unat acc mod 2 ^ bits)"
proof (induction bits arbitrary: out rule: less_induct)
  case (less bits)
  show ?case
  proof (cases "5 \<le> bits")
    case False
    then show ?thesis by (intro exI [of _ "[]"] exI [of _ bits]) (simp add: melodi_format_drain.simps)
  next
    case True
    define d where "d = unat acc div 2 ^ (bits - 5) mod 32"
    define k where "k = bits - 5"
    have bits: "bits = k + 5" using True by (simp add: k_def)
    from less.IH [of k "out @ [melodi_zbase32 ! d]"] obtain ds r where
      r: "melodi_format_drain acc k (out @ [melodi_zbase32 ! d]) = (r, (out @ [melodi_zbase32 ! d]) @ symbols ds)"
      "r < 5" "k = 5 * length ds + r" "\<forall>d\<in>set ds. d < 32"
      "\<forall>v. radix 32 v ds * 2 ^ r + unat acc mod 2 ^ r = v * 2 ^ k + unat acc mod 2 ^ k"
      using bits by auto
    have "melodi_format_drain acc bits out = (r, out @ symbols (d # ds))"
      using True r(1) by (subst melodi_format_drain.simps) (simp add: digit_above d_def k_def)
    moreover have "(v * 32 + d) * 2 ^ k + unat acc mod 2 ^ k = v * 2 ^ bits + unat acc mod 2 ^ bits" for v
      unfolding bits split_low by (simp add: d_def k_def power_add algebra_simps)
    ultimately show ?thesis
      using r by (intro exI [of _ "d # ds"] exI [of _ r]) (simp add: bits d_def)
  qed
qed

lemma format_bytes:
  assumes "bits < 5"
  shows "\<exists>ds r acc'. melodi_format_bytes bs acc bits out = (acc', r, out @ symbols ds) \<and> r < 5
    \<and> bits + 8 * length bs = 5 * length ds + r \<and> (\<forall>d\<in>set ds. d < 32)
    \<and> (\<forall>v. radix 32 v ds * 2 ^ r + unat acc' mod 2 ^ r = radix 256 (v * 2 ^ bits + unat acc mod 2 ^ bits) (map unat bs))"
  using assms
proof (induction bs arbitrary: acc bits out)
  case Nil
  then show ?case by (intro exI [of _ "[]"] exI [of _ bits] exI [of _ acc]) simp
next
  case (Cons b bs)
  define a where "a = (push_bit 8 acc OR ucast b :: u32)"
  have "unat b < 2 ^ 8" using unsigned_less [of b, where 'a = nat] by simp
  then have a: "unat a mod 2 ^ (bits + 8) = (unat acc mod 2 ^ bits) * 2 ^ 8 + unat b"
    using shift_in [of "unat b" 8 bits acc] Cons.prems by (simp add: a_def)
  obtain ds r where d: "melodi_format_drain a (bits + 8) out = (r, out @ symbols ds)" "r < 5"
    "bits + 8 = 5 * length ds + r" "\<forall>d\<in>set ds. d < 32"
    "\<And>v. radix 32 v ds * 2 ^ r + unat a mod 2 ^ r = v * 2 ^ (bits + 8) + unat a mod 2 ^ (bits + 8)"
    using format_drain [of a "bits + 8" out] by blast
  from Cons.IH [OF d(2), of a "out @ symbols ds"] obtain ds' r' acc' where
    i: "melodi_format_bytes bs a r (out @ symbols ds) = (acc', r', (out @ symbols ds) @ symbols ds')" "r' < 5"
    "r + 8 * length bs = 5 * length ds' + r'" "\<forall>d\<in>set ds'. d < 32"
    "\<And>v. radix 32 v ds' * 2 ^ r' + unat acc' mod 2 ^ r' = radix 256 (v * 2 ^ r + unat a mod 2 ^ r) (map unat bs)"
    by blast
  have "radix 32 v (ds @ ds') * 2 ^ r' + unat acc' mod 2 ^ r' =
      radix 256 (v * 2 ^ bits + unat acc mod 2 ^ bits) (map unat (b # bs))" for v
    by (simp add: i(5) d(5) a) (simp add: power_add algebra_simps)
  then show ?case
    using i d by (intro exI [of _ "ds @ ds'"] exI [of _ r'] exI [of _ acc']) (auto simp flip: a_def)
qed

text \<open>The 53 symbols of a node are the digits of twice its number.\<close>

lemma format_digits:
  assumes "length node = 33" "melodi_nodeid_validate init point node = MELODI_NODEID_OK"
  shows "\<exists>ds. melodi_nodeid_format init point node out = (CHR ''m'' # symbols ds @ [CHR 0x00], MELODI_NODEID_OK)
    \<and> length ds = 53 \<and> (\<forall>d\<in>set ds. d < 32) \<and> radix 32 0 ds = 2 * radix 256 0 (map unat node)"
proof -
  obtain ds r acc where f: "melodi_format_bytes node 0 0 ''m'' = (acc, r, ''m'' @ symbols ds)" "r < 5"
    "8 * length node = 5 * length ds + r" "\<forall>d\<in>set ds. d < 32"
    "radix 32 0 ds * 2 ^ r + unat acc mod 2 ^ r = radix 256 0 (map unat node)"
    using format_bytes [of 0 node 0 "''m''"] by auto
  have r: "r = 4" "length ds = 52" using f(2,3) assms(1) by presburger+
  define d where "d = unat (acc * 2 AND 31)"
  have "d = unat (acc * 2) mod 32" using digit_above [of 0 "acc * 2"] by (simp add: d_def)
  also have "\<dots> = unat acc * 2 mod 32" using unat_mod_dvd [of 5 "unat acc * 2"] by simp
  also have "\<dots> = 2 * (unat acc mod 2 ^ 4)" using mod_mult_mult1 [of 2 "unat acc" 16] by (simp add: mult.commute)
  finally have d: "d = 2 * (unat acc mod 2 ^ 4)" .
  have "radix 32 0 (ds @ [d]) = 2 * radix 256 0 (map unat node)"
    using f(5) by (simp add: d r)
  moreover have "melodi_nodeid_format init point node out = (CHR ''m'' # symbols (ds @ [d]) @ [CHR 0x00], MELODI_NODEID_OK)"
    using f(1) r assms(2) by (simp add: melodi_nodeid_format_def d_def)
  ultimately show ?thesis using f(4) r(2) d by (intro exI [of _ "ds @ [d]"]) auto
qed


subsection \<open>What parsing reads\<close>

lemma zbase32_value:
  assumes "d < 32"
  shows "melodi_zbase32_value (melodi_zbase32 ! d) = int d"
proof -
  have "\<forall>d\<in>set [0..<32]. melodi_zbase32_value (melodi_zbase32 ! d) = int d" by code_simp
  with assms show ?thesis by simp
qed

lemma parse_symbols:
  assumes "\<forall>d\<in>set ds. d < 32" "bits < 8" "8 * n + bits + 5 * length ds \<le> 8 * 33 + 7" "length node = 33"
    "n \<le> 33"
  shows "\<exists>acc' r m node'. melodi_parse_symbols (symbols ds) acc bits n node = (node', Some (acc', r, m)) \<and> r < 8
    \<and> 8 * n + bits + 5 * length ds = 8 * m + r \<and> length node' = 33 \<and> n \<le> m \<and> m \<le> 33 \<and> take n node' = take n node
    \<and> (\<forall>v. radix 256 v (map unat (take (m - n) (drop n node'))) * 2 ^ r + unat acc' mod 2 ^ r =
        radix 32 (v * 2 ^ bits + unat acc mod 2 ^ bits) ds)"
  using assms
proof (induction ds arbitrary: acc bits n node)
  case Nil
  then show ?case by simp
next
  case (Cons d ds)
  define a where "a = (push_bit 5 acc OR of_nat d :: u32)"
  have d: "d < 2 ^ 5" "d < 32" using Cons.prems(1) by simp_all
  have a: "unat a mod 2 ^ (bits + 5) = (unat acc mod 2 ^ bits) * 2 ^ 5 + d"
    unfolding a_def using Cons.prems(2) by (intro shift_in d) simp
  show ?case
  proof (cases "8 \<le> bits + 5")
    case False
    obtain acc' r m node' where i: "melodi_parse_symbols (symbols ds) a (bits + 5) n node = (node', Some (acc', r, m))" "r < 8"
      "8 * n + (bits + 5) + 5 * length ds = 8 * m + r" "length node' = 33" "n \<le> m" "m \<le> 33" "take n node' = take n node"
      "\<And>v. radix 256 v (map unat (take (m - n) (drop n node'))) * 2 ^ r + unat acc' mod 2 ^ r =
        radix 32 (v * 2 ^ (bits + 5) + unat a mod 2 ^ (bits + 5)) ds"
      using Cons.IH [of "bits + 5" n node a] Cons.prems False by auto
    have "radix 256 v (map unat (take (m - n) (drop n node'))) * 2 ^ r + unat acc' mod 2 ^ r =
        radix 32 (v * 2 ^ bits + unat acc mod 2 ^ bits) (d # ds)" for v
      unfolding i(8) a by (simp add: power_add algebra_simps)
    with i False zbase32_value [OF d(2)] show ?thesis
      by (intro exI [of _ acc'] exI [of _ r] exI [of _ m] exI [of _ node']) (simp flip: a_def)
  next
    case True
    define k where "k = bits - 3"
    have k: "bits + 5 = k + 8" "bits + 5 - 8 = k" using True by (simp_all add: k_def)
    have n: "n < 33" using Cons.prems(3) True by simp
    define b where "b = (ucast (drop_bit k a) :: u8)"
    have "unat b = take_bit 8 (drop_bit k (unat a))" unfolding b_def unsigned_ucast_eq unat_drop_bit_eq by simp
    then have "unat b = unat a div 2 ^ k mod 256" by (simp add: take_bit_eq_mod drop_bit_eq_div)
    then have b: "unat b * 2 ^ k + unat a mod 2 ^ k = unat a mod 2 ^ (k + 8)"
      by (simp add: power_add mod_mult2_eq)
    obtain acc' r m node' where i: "melodi_parse_symbols (symbols ds) a k (n + 1) (node[n := b]) = (node', Some (acc', r, m))" "r < 8"
      "8 * (n + 1) + k + 5 * length ds = 8 * m + r" "length node' = 33" "n + 1 \<le> m" "m \<le> 33"
      "take (n + 1) node' = take (n + 1) (node[n := b])"
      "\<And>v. radix 256 v (map unat (take (m - (n + 1)) (drop (n + 1) node'))) * 2 ^ r + unat acc' mod 2 ^ r =
        radix 32 (v * 2 ^ k + unat a mod 2 ^ k) ds"
    proof -
      have "\<forall>d\<in>set ds. d < 32" "k < 8" "8 * (n + 1) + k + 5 * length ds \<le> 8 * 33 + 7" "length (node[n := b]) = 33" "n + 1 \<le> 33"
        using Cons.prems True n by (simp_all add: k_def)
      from Cons.IH [OF this, of a] show thesis using that by blast
    qed
    have nb: "node' ! n = b" "take n node' = take n node"
      using i(7) n Cons.prems(4) i(4) by (metis less_add_one nth_list_update_eq nth_take,
        metis le_add1 min.absorb1 take_take take_update_cancel order_refl)
    have "take (m - n) (drop n node') = b # take (m - (n + 1)) (drop (n + 1) node')"
      using n i(4,5) nb(1) by (simp add: Cons_nth_drop_Suc [symmetric] take_Cons' Suc_diff_Suc)
    then have "radix 256 v (map unat (take (m - n) (drop n node'))) * 2 ^ r + unat acc' mod 2 ^ r =
        radix 32 ((v * 256 + unat b) * 2 ^ k + unat a mod 2 ^ k) ds" for v
      using i(8) [of "v * 256 + unat b"] by simp
    moreover have "(v * 256 + unat b) * 2 ^ k + unat a mod 2 ^ k = (v * 2 ^ bits + unat acc mod 2 ^ bits) * 32 + d" for v
    proof -
      have "(v * 256 + unat b) * 2 ^ k + unat a mod 2 ^ k = v * 2 ^ (k + 8) + unat a mod 2 ^ (k + 8)"
        using b by (simp add: power_add algebra_simps)
      also have "\<dots> = v * 2 ^ (bits + 5) + ((unat acc mod 2 ^ bits) * 2 ^ 5 + d)" unfolding k(1) [symmetric] a ..
      finally show ?thesis by (simp add: power_add algebra_simps)
    qed
    ultimately show ?thesis
      using i True n k nb zbase32_value [OF d(2)]
      by (intro exI [of _ acc'] exI [of _ r] exI [of _ m] exI [of _ node']) (simp flip: a_def b_def)
  qed
qed


lemma parse_digits:
  assumes "length ds = 53" "\<forall>d\<in>set ds. d < 32" "radix 32 0 ds = 2 * radix 256 0 (map unat node)" "length node = 33"
  shows "\<exists>acc. melodi_parse_symbols (symbols ds) 0 0 0 (replicate 33 0) = (node, Some (acc, 1, 33)) \<and> acc AND 1 = 0"
proof -
  obtain acc r m node' where p: "melodi_parse_symbols (symbols ds) 0 0 0 (replicate 33 0) = (node', Some (acc, r, m))"
    "r < 8" "8 * 0 + 0 + 5 * length ds = 8 * m + r" "length node' = 33"
    "radix 256 0 (map unat (take (m - 0) (drop 0 node'))) * 2 ^ r + unat acc mod 2 ^ r = radix 32 (0 * 2 ^ 0 + unat 0 mod 2 ^ 0) ds"
    using parse_symbols [of ds 0 0 "replicate 33 0" 0] assms(1,2) by auto
  have m: "m = 33" "r = 1" using p(2,3) assms(1) by presburger+
  have "radix 256 0 (map unat node') * 2 + unat acc mod 2 = 2 * radix 256 0 (map unat node)"
    using p(4,5) assms(3) by (simp add: m)
  then have low: "unat acc mod 2 = 0" and "radix 256 0 (map unat node') = radix 256 0 (map unat node)" by presburger+
  moreover have "\<forall>d\<in>set (map unat bs). d < 256" for bs :: bytes
    using unsigned_less [where 'a = nat and 'b = 8] by auto
  ultimately have "map unat node' = map unat node"
    using radix_inject [of "map unat node'" "map unat node" 256 0 0] p(4) assms(4) by simp
  then have "node' = node" by (rule map_injective) (auto simp: inj_def word_unat_eq_iff)
  moreover have "acc AND 1 = 0" unfolding and_one_eq word_unat_eq_iff unat_mod using low by simp
  ultimately show ?thesis using p(1) m by blast
qed

subsection \<open>The text form is canonical\<close>

text \<open>
  C31. The text form of node identities is a bijection between the valid identities and the texts
  that the parser accepts: a text is parsed to a node exactly if the node is valid and the text is
  what the node is formatted to.
\<close>

theorem nodeid_text_canonical:
  assumes "length node = 33"
  shows "melodi_nodeid_parse init point txt node0 = (node, MELODI_NODEID_OK) \<longleftrightarrow>
    melodi_nodeid_format init point node out = (txt @ [CHR 0x00], MELODI_NODEID_OK)"
proof -
  have same: "melodi_nodeid_format init point node [] = melodi_nodeid_format init point node out"
    if "melodi_nodeid_validate init point node = MELODI_NODEID_OK" using that by (simp add: melodi_nodeid_format_def)
  show ?thesis
  proof
    assume f: "melodi_nodeid_format init point node out = (txt @ [CHR 0x00], MELODI_NODEID_OK)"
    then have ok: "melodi_nodeid_validate init point node = MELODI_NODEID_OK"
      by (auto simp: melodi_nodeid_format_def Let_def split: if_splits)
    obtain ds where ds: "melodi_nodeid_format init point node out = (CHR ''m'' # symbols ds @ [CHR 0x00], MELODI_NODEID_OK)"
      "length ds = 53" "\<forall>d\<in>set ds. d < 32" "radix 32 0 ds = 2 * radix 256 0 (map unat node)"
      using format_digits [OF assms ok, of out] by blast
    have t: "txt = CHR ''m'' # symbols ds" using f ds(1) by simp
    from parse_digits [OF ds(2-4) assms] obtain acc where
      "melodi_parse_symbols (symbols ds) 0 0 0 (replicate 33 0) = (node, Some (acc, 1, 33))" "acc AND 1 = 0" by blast
    with ds ok same [OF ok] show "melodi_nodeid_parse init point txt node0 = (node, MELODI_NODEID_OK)"
      by (simp add: melodi_nodeid_parse_def t)
  next
    assume p: "melodi_nodeid_parse init point txt node0 = (node, MELODI_NODEID_OK)"
    then have ok: "melodi_nodeid_validate init point node = MELODI_NODEID_OK"
      and c: "txt = take 54 (fst (melodi_nodeid_format init point node []))"
      by (auto simp: melodi_nodeid_parse_def Let_def split: if_splits prod.splits option.splits)
    obtain ds where "melodi_nodeid_format init point node out = (CHR ''m'' # symbols ds @ [CHR 0x00], MELODI_NODEID_OK)"
      "length ds = 53" using format_digits [OF assms ok, of out] by blast
    with c same [OF ok] show "melodi_nodeid_format init point node out = (txt @ [CHR 0x00], MELODI_NODEID_OK)" by simp
  qed
qed

theorem nodeid_text_canonical_witness:
  "melodi_nodeid_parse 0 (\<lambda>key. if key = replicate 32 0 then 1 else 0) (''myr'' @ replicate 51 CHR ''y'') [] =
     (1 # replicate 32 0, MELODI_NODEID_OK)"
proof -
  have "melodi_nodeid_format 0 (\<lambda>key. if key = replicate 32 0 then 1 else 0) (1 # replicate 32 0) [] =
      ((''myr'' @ replicate 51 CHR ''y'') @ [CHR 0x00], MELODI_NODEID_OK)" by code_simp
  moreover have "length (1 # replicate 32 0 :: bytes) = 33" by simp
  ultimately show ?thesis using nodeid_text_canonical by blast
qed

end
