(* ===== verification/Identity.thy ===== *)
theory Identity
  imports Prelude
begin

text \<open>
  The identity key of a device, \<open>src/kernel/core/identity_crypto.c\<close>: the test that a key
  belongs to a node, signing and verification. A kernel key is its type, what \<open>key_validate\<close>
  answers for it and its payload. Ed25519 is vendored and enters through the parameters
  \<open>key_pair\<close>, \<open>sign\<close> and \<open>check\<close>; the property of it that is used is that a signature made with
  the secret half of a key pair verifies with the public half. Locals that the code does not
  initialise are the parameters \<open>secret0\<close> and \<open>public0\<close>.
\<close>

record kernel_key =
  key_is_user :: bool
  key_validation :: "unit res"
  key_payload :: "bytes option"

definition payload_seed :: "kernel_key \<Rightarrow> bytes option" where
  "payload_seed key = (case key_payload key of Some d \<Rightarrow> if length d = 32 then Some d else None | None \<Rightarrow> None)"

definition melodi_identity_key_matches :: "(bytes \<Rightarrow> bytes \<times> bytes) \<Rightarrow> kernel_key \<Rightarrow> bytes \<Rightarrow> unit res" where
  "melodi_identity_key_matches key_pair key node_id =
     (if \<not> key_is_user key then Inl EKEYREJECTED
      else case payload_seed key of
             None \<Rightarrow> Inl EKEYREJECTED
           | Some seed \<Rightarrow>
               let (secret_key, public_key) = key_pair seed
               in if public_key = drop 1 node_id then Inr () else Inl EKEYREJECTED)"

text \<open>
  The secret key is written through an output pointer: the result is the contents of the array
  afterwards and the return value. After \<open>key_validate\<close> has answered 0, \<open>error\<close> is 0.
\<close>

definition melodi_identity_secret ::
  "(bytes \<Rightarrow> bytes \<times> bytes) \<Rightarrow> kernel_key \<Rightarrow> bytes \<Rightarrow> bytes \<times> unit res" where
  "melodi_identity_secret key_pair key secret_key =
     (if \<not> key_is_user key then (secret_key, Inl EKEYREJECTED)
      else case key_validation key of
             Inl error \<Rightarrow> (secret_key, Inl error)
           | Inr _ \<Rightarrow>
               (case payload_seed key of
                  Some seed \<Rightarrow> (fst (key_pair seed), Inr ())
                | None \<Rightarrow> (secret_key, Inr ())))"

definition melodi_identity_sign ::
  "(bytes \<Rightarrow> bytes \<times> bytes) \<Rightarrow> (bytes \<Rightarrow> bytes \<Rightarrow> bytes) \<Rightarrow> bytes \<Rightarrow> kernel_key option \<Rightarrow> bytes \<Rightarrow> bytes res" where
  "melodi_identity_sign key_pair sign secret0 identity_key msg =
     (if length msg > MELODI_FRAME_MTU_MAX then Inl EINVAL
      else case identity_key of
             None \<Rightarrow> Inl ENOKEY
           | Some key \<Rightarrow>
               (case melodi_identity_secret key_pair key secret0 of
                  (secret_key, Inl error) \<Rightarrow> Inl error
                | (secret_key, Inr _) \<Rightarrow> Inr (sign secret_key msg)))"

definition melodi_identity_verify ::
  "(bytes \<Rightarrow> bytes \<Rightarrow> bytes \<Rightarrow> int) \<Rightarrow> bytes \<Rightarrow> bytes \<Rightarrow> bytes \<Rightarrow> unit res" where
  "melodi_identity_verify check node_id msg signature =
     (if length msg > MELODI_FRAME_MTU_MAX \<or> node_id ! 0 \<noteq> MELODI_NODE_ID_SCHEME_ED25519 then Inl EINVAL
      else if check signature (drop 1 node_id) msg = 0 then Inr () else Inl EKEYREJECTED)"

subsection \<open>Signatures of a device verify for its node\<close>

lemma melodi_identity_key_matches_iff:
  "melodi_identity_key_matches key_pair key node_id = Inr () \<longleftrightarrow>
     key_is_user key \<and> (\<exists>seed. payload_seed key = Some seed \<and> snd (key_pair seed) = drop 1 node_id)"
  by (auto simp: melodi_identity_key_matches_def split: option.splits prod.splits)

lemma melodi_identity_sign_seed:
  assumes "key_is_user key" "payload_seed key = Some seed"
  shows "melodi_identity_sign key_pair sign secret0 (Some key) msg =
    (if 4176 < length msg then Inl EINVAL
     else case key_validation key of Inl e \<Rightarrow> Inl e | Inr _ \<Rightarrow> Inr (sign (fst (key_pair seed)) msg))"
  using assms by (simp add: melodi_identity_sign_def melodi_identity_secret_def split: sum.splits)

text \<open>
  C34. While the key of a device is valid and matches its node, every message of at most the frame
  size is signed, the signature verifies for the node, and it does not depend on uninitialised
  memory.
\<close>

theorem identity_sign_verifies:
  assumes scheme: "\<And>seed m. check (sign (fst (key_pair seed)) m) (snd (key_pair seed)) m = 0"
    and "melodi_identity_key_matches key_pair key node_id = Inr ()" "key_validation key = Inr ()"
    and "node_id ! 0 = 1" "length msg \<le> 4176"
  shows "\<exists>signature. (\<forall>secret0. melodi_identity_sign key_pair sign secret0 (Some key) msg = Inr signature)
    \<and> melodi_identity_verify check node_id msg signature = Inr ()"
proof -
  obtain seed where seed: "key_is_user key" "payload_seed key = Some seed" "snd (key_pair seed) = drop 1 node_id"
    using assms(2) by (auto simp: melodi_identity_key_matches_iff)
  then show ?thesis
    using assms(3-5) scheme [of seed msg]
    by (intro exI [of _ "sign (fst (key_pair seed)) msg"])
       (simp add: melodi_identity_sign_seed [OF seed(1,2)] melodi_identity_verify_def)
qed

theorem identity_sign_verifies_witness:
  "\<exists>signature. (\<forall>secret0. melodi_identity_sign (\<lambda>seed. (seed, seed)) (\<lambda>k m. k @ m) secret0
        (Some \<lparr>key_is_user = True, key_validation = Inr (), key_payload = Some (replicate 32 7)\<rparr>) [1, 2] = Inr signature)
    \<and> melodi_identity_verify (\<lambda>s p m. if s = p @ m then 0 else -1) (1 # replicate 32 7) [1, 2] signature = Inr ()"
  by (rule identity_sign_verifies) (simp_all add: melodi_identity_key_matches_def payload_seed_def)

text \<open>
  C35. A key that is still valid but whose payload no longer has the size of a seed does not stop
  signing: the message is signed, with success, with whatever the uninitialised secret array of
  \<open>melodi_identity_sign\<close> holds, although such a key is rejected for every node.
\<close>

theorem identity_sign_uninitialised:
  assumes "key_is_user key" "key_validation key = Inr ()" "payload_seed key = None" "length msg \<le> 4176"
  shows "melodi_identity_sign key_pair sign secret0 (Some key) msg = Inr (sign secret0 msg)
    \<and> melodi_identity_key_matches key_pair key node_id = Inl EKEYREJECTED"
  using assms by (simp add: melodi_identity_sign_def melodi_identity_secret_def melodi_identity_key_matches_def)

theorem identity_sign_uninitialised_witness:
  "melodi_identity_sign (\<lambda>seed. (seed, seed)) (\<lambda>k m. k @ m) [9, 9]
     (Some \<lparr>key_is_user = True, key_validation = Inr (), key_payload = Some [3]\<rparr>) [1] = Inr [9, 9, 1]"
  using identity_sign_uninitialised
    [of "\<lparr>key_is_user = True, key_validation = Inr (), key_payload = Some [3]\<rparr>" "[1]" "\<lambda>seed. (seed, seed)" "\<lambda>k m. k @ m" "[9, 9]"]
  by (simp add: payload_seed_def)


subsection \<open>Valid node identities\<close>

text \<open>
  The test of a node identity in the kernel, from \<open>src/kernel/core/main.c\<close>. The loop that compares
  the key with the prime of the field runs over the reversed arrays; \<open>check\<close> is the key check of
  the vendored library.
\<close>

definition melodi_prime :: bytes where
  "melodi_prime =
     [0xed, 0xff, 0xff, 0xff, 0xff, 0xff, 0xff, 0xff,
      0xff, 0xff, 0xff, 0xff, 0xff, 0xff, 0xff, 0xff,
      0xff, 0xff, 0xff, 0xff, 0xff, 0xff, 0xff, 0xff,
      0xff, 0xff, 0xff, 0xff, 0xff, 0xff, 0xff, 0x7f]"

fun melodi_prime_compare :: "bytes \<Rightarrow> bytes \<Rightarrow> bool option" where
  "melodi_prime_compare (e # es) (p # ps) =
     (if e < p then Some True else if e > p then Some False else melodi_prime_compare es ps)"
| "melodi_prime_compare es ps = None"

definition melodi_node_id_valid :: "(bytes \<Rightarrow> int) \<Rightarrow> bytes \<Rightarrow> bool" where
  "melodi_node_id_valid check node_id =
     (if node_id ! 0 \<noteq> MELODI_NODE_ID_SCHEME_ED25519 then False
      else
        let encoded = drop 1 node_id;
            different_zero = fold (\<lambda>b d. d OR b) encoded 0;
            different_ones = fold (\<lambda>b d. d OR (b XOR 0xff)) encoded 0
        in if different_zero = 0 \<or> different_ones = 0 then False
           else
             let encoded = encoded[31 := encoded ! 31 AND 0x7f]
             in case melodi_prime_compare (rev encoded) (rev melodi_prime) of
                  Some result \<Rightarrow> result
                | None \<Rightarrow> check (drop 1 node_id) = 0)"

text \<open>The coordinate that a key encodes: its octets in little endian order without the sign bit.\<close>

definition key_coordinate :: "bytes \<Rightarrow> nat" where
  "key_coordinate key = radix 256 0 (map unat (rev (key[31 := key ! 31 AND 0x7f])))"

lemma radix_less:
  assumes "length xs = length ys" "\<forall>d\<in>set xs. d < b" "\<forall>d\<in>set ys. d < b" "v < w"
  shows "radix b v xs < radix b w ys"
  using assms
proof (induction xs arbitrary: ys v w)
  case (Cons x xs)
  then obtain y zs where ys: "ys = y # zs" by (cases ys) auto
  have "v * b + x < (v + 1) * b" using Cons.prems(2) by simp
  also have "\<dots> \<le> w * b" using Cons.prems(4) by (intro mult_right_mono) simp_all
  finally have "v * b + x < w * b + y" by simp
  then show ?case using Cons.IH [of zs] Cons.prems by (simp add: ys)
qed simp

lemma unat_bytes_less: "\<forall>d\<in>set (map unat (bs :: bytes)). d < 256"
  using unsigned_less [where 'a = nat and 'b = 8] by auto

lemma prime_compare:
  assumes "length es = length ps"
  shows "melodi_prime_compare es ps =
    (let e = radix 256 v (map unat es); p = radix 256 v (map unat ps)
     in if e < p then Some True else if p < e then Some False else None)"
  using assms
proof (induction es ps arbitrary: v rule: melodi_prime_compare.induct)
  case (1 e es p ps)
  have less: "radix 256 (v * 256 + unat a) (map unat as) < radix 256 (v * 256 + unat b) (map unat bs)"
    if "a < b" "length as = length bs" for a b and as bs :: bytes
    using that unat_bytes_less by (intro radix_less) (simp_all add: word_less_nat_alt)
  show ?case
    using 1 less [of e p es ps] less [of p e ps es] by (cases e p rule: linorder_cases) (auto simp: Let_def)
qed simp_all

lemma prime_value: "radix 256 0 (map unat (rev melodi_prime)) = 2 ^ 255 - 19"
  by (simp add: melodi_prime_def)

lemma fold_or_zero: "fold (\<lambda>b d. d OR f b) bs d = (0 :: u8) \<longleftrightarrow> d = 0 \<and> (\<forall>b\<in>set bs. f b = 0)"
  by (induction bs arbitrary: d) (auto simp: or_eq_0_iff)

text \<open>
  C36. Which identities the kernel takes for valid: those of the Ed25519 scheme whose key is neither
  all zeros nor all ones and encodes a coordinate below the prime of the field. The key check of the
  library has a say only for the one coordinate that equals the prime; for every other key the
  comparison decides alone, so keys that are not points of the prime order group are accepted.
\<close>

theorem node_id_valid_iff:
  assumes "length node_id = 33"
  shows "melodi_node_id_valid check node_id \<longleftrightarrow>
    node_id ! 0 = 1 \<and> drop 1 node_id \<noteq> replicate 32 0 \<and> drop 1 node_id \<noteq> replicate 32 0xff
    \<and> (key_coordinate (drop 1 node_id) < 2 ^ 255 - 19
       \<or> key_coordinate (drop 1 node_id) = 2 ^ 255 - 19 \<and> check (drop 1 node_id) = 0)"
proof -
  let ?k = "drop 1 node_id"
  have len: "length ?k = 32" using assms by simp
  have all: "(\<forall>b\<in>set ?k. b = c) \<longleftrightarrow> ?k = replicate 32 c" for c :: u8
    using len by (metis in_set_replicate replicate_eqI)
  have zero: "fold (\<lambda>b d. d OR b) ?k 0 = 0 \<longleftrightarrow> ?k = replicate 32 0"
    using fold_or_zero [of "\<lambda>b. b" ?k 0] all [of 0] by simp
  have "b XOR 0xff = 0 \<longleftrightarrow> b = 0xff" for b :: u8 by (auto simp: bit_eq_iff bit_xor_iff)
  then have ones: "fold (\<lambda>b d. d OR (b XOR 0xff)) ?k 0 = 0 \<longleftrightarrow> ?k = replicate 32 0xff"
    using fold_or_zero [of "\<lambda>b. b XOR 0xff" ?k 0] all [of "0xff"] by simp
  have compare: "melodi_prime_compare (rev (?k[31 := ?k ! 31 AND 0x7f])) (rev melodi_prime) =
    (if key_coordinate ?k < 2 ^ 255 - 19 then Some True
     else if 2 ^ 255 - 19 < key_coordinate ?k then Some False else None)"
    using prime_compare [of "rev (?k[31 := ?k ! 31 AND 0x7f])" "rev melodi_prime" 0] len
    unfolding prime_value key_coordinate_def by (simp add: Let_def melodi_prime_def)
  show ?thesis
    unfolding melodi_node_id_valid_def Let_def zero ones compare by auto
qed

theorem node_id_valid_iff_witness:
  "melodi_node_id_valid (\<lambda>_. -1) (1 # 1 # replicate 31 0)"
proof -
  have "(replicate 31 0)[30 := 0] = replicate 31 (0 :: u8)" by (simp add: list_update_same_conv)
  moreover have "radix 256 0 (replicate n 0) = 0" for n by (induction n) simp_all
  ultimately have "key_coordinate (1 # replicate 31 0) = 1"
    by (simp add: key_coordinate_def)
  then show ?thesis
    using node_id_valid_iff [of "1 # 1 # replicate 31 0" "\<lambda>_. -1"] by (simp add: Cons_replicate_eq)
qed

end
