(* ===== verification/Uapi.thy ===== *)
theory Uapi
  imports Prelude
begin

text \<open>
  The constants of the user interface, \<open>src/proto/melodi.h\<close>: commands, attributes, flags, and
  the enumerations of peer states and policies as datatypes with their numbers.
\<close>

abbreviation (input) MELODI_GENL_VERSION :: u8 where "MELODI_GENL_VERSION \<equiv> 1"
abbreviation (input) MELODI_FRAME_HEADER_MIN :: nat where "MELODI_FRAME_HEADER_MIN \<equiv> 40"
abbreviation (input) MELODI_SERVICE_CONTROL :: u16 where "MELODI_SERVICE_CONTROL \<equiv> 0"
abbreviation (input) MELODI_SERVICE_ECHO :: u16 where "MELODI_SERVICE_ECHO \<equiv> 65535"
abbreviation (input) MELODI_PRIORITY_MAX :: u8 where "MELODI_PRIORITY_MAX \<equiv> 3"
abbreviation (input) MELODI_TTL_DEFAULT_MS :: u32 where "MELODI_TTL_DEFAULT_MS \<equiv> 30000"
abbreviation (input) MELODI_RADIO_SERIAL_MAX :: nat where "MELODI_RADIO_SERIAL_MAX \<equiv> 63"
abbreviation (input) MELODI_BUS_INFO_MAX :: nat where "MELODI_BUS_INFO_MAX \<equiv> 31"

abbreviation (input) MELODI_CMD_BIND :: u8 where "MELODI_CMD_BIND \<equiv> 1"
abbreviation (input) MELODI_CMD_UNBIND :: u8 where "MELODI_CMD_UNBIND \<equiv> 2"
abbreviation (input) MELODI_CMD_SEND :: u8 where "MELODI_CMD_SEND \<equiv> 3"
abbreviation (input) MELODI_CMD_RECV :: u8 where "MELODI_CMD_RECV \<equiv> 4"
abbreviation (input) MELODI_CMD_ERROR :: u8 where "MELODI_CMD_ERROR \<equiv> 5"
abbreviation (input) MELODI_CMD_GET_BINDING :: u8 where "MELODI_CMD_GET_BINDING \<equiv> 6"
abbreviation (input) MELODI_CMD_LINK_GET :: u8 where "MELODI_CMD_LINK_GET \<equiv> 32"
abbreviation (input) MELODI_CMD_LINK_SET :: u8 where "MELODI_CMD_LINK_SET \<equiv> 33"
abbreviation (input) MELODI_CMD_IDENTITY_LOAD :: u8 where "MELODI_CMD_IDENTITY_LOAD \<equiv> 34"
abbreviation (input) MELODI_CMD_IDENTITY_GET_PUBLIC :: u8 where "MELODI_CMD_IDENTITY_GET_PUBLIC \<equiv> 35"
abbreviation (input) MELODI_CMD_PEER_DUMP :: u8 where "MELODI_CMD_PEER_DUMP \<equiv> 36"
abbreviation (input) MELODI_CMD_PEER_TRUST :: u8 where "MELODI_CMD_PEER_TRUST \<equiv> 37"
abbreviation (input) MELODI_CMD_PEER_BLOCK :: u8 where "MELODI_CMD_PEER_BLOCK \<equiv> 38"
abbreviation (input) MELODI_CMD_PEER_CLEAR :: u8 where "MELODI_CMD_PEER_CLEAR \<equiv> 39"
abbreviation (input) MELODI_CMD_PEER_REVERIFY :: u8 where "MELODI_CMD_PEER_REVERIFY \<equiv> 40"
abbreviation (input) MELODI_CMD_DISCOVER :: u8 where "MELODI_CMD_DISCOVER \<equiv> 41"
abbreviation (input) MELODI_CMD_POLICY_GET :: u8 where "MELODI_CMD_POLICY_GET \<equiv> 42"
abbreviation (input) MELODI_CMD_POLICY_SET :: u8 where "MELODI_CMD_POLICY_SET \<equiv> 43"
abbreviation (input) MELODI_CMD_STATS_GET :: u8 where "MELODI_CMD_STATS_GET \<equiv> 44"
abbreviation (input) MELODI_CMD_MONITOR_BIND :: u8 where "MELODI_CMD_MONITOR_BIND \<equiv> 45"
abbreviation (input) MELODI_CMD_MONITOR_FRAME :: u8 where "MELODI_CMD_MONITOR_FRAME \<equiv> 46"

abbreviation (input) MELODI_A_UNSPEC :: u16 where "MELODI_A_UNSPEC \<equiv> 0"
abbreviation (input) MELODI_A_IFINDEX :: u16 where "MELODI_A_IFINDEX \<equiv> 1"
abbreviation (input) MELODI_A_LOCAL_SERVICE :: u16 where "MELODI_A_LOCAL_SERVICE \<equiv> 2"
abbreviation (input) MELODI_A_DEST_NODE :: u16 where "MELODI_A_DEST_NODE \<equiv> 3"
abbreviation (input) MELODI_A_DEST_SERVICE :: u16 where "MELODI_A_DEST_SERVICE \<equiv> 4"
abbreviation (input) MELODI_A_SOURCE_NODE :: u16 where "MELODI_A_SOURCE_NODE \<equiv> 5"
abbreviation (input) MELODI_A_SOURCE_SERVICE :: u16 where "MELODI_A_SOURCE_SERVICE \<equiv> 6"
abbreviation (input) MELODI_A_PAYLOAD :: u16 where "MELODI_A_PAYLOAD \<equiv> 7"
abbreviation (input) MELODI_A_FLAGS :: u16 where "MELODI_A_FLAGS \<equiv> 8"
abbreviation (input) MELODI_A_COOKIE :: u16 where "MELODI_A_COOKIE \<equiv> 9"
abbreviation (input) MELODI_A_TTL_MS :: u16 where "MELODI_A_TTL_MS \<equiv> 10"
abbreviation (input) MELODI_A_PRIORITY :: u16 where "MELODI_A_PRIORITY \<equiv> 11"
abbreviation (input) MELODI_A_RX_META :: u16 where "MELODI_A_RX_META \<equiv> 12"
abbreviation (input) MELODI_A_ERROR :: u16 where "MELODI_A_ERROR \<equiv> 13"
abbreviation (input) MELODI_A_NODE_ID :: u16 where "MELODI_A_NODE_ID \<equiv> 14"
abbreviation (input) MELODI_A_KEY_SERIAL :: u16 where "MELODI_A_KEY_SERIAL \<equiv> 15"
abbreviation (input) MELODI_A_LINK_STATE :: u16 where "MELODI_A_LINK_STATE \<equiv> 16"
abbreviation (input) MELODI_A_PEER_NATIVE_LOCATOR :: u16 where "MELODI_A_PEER_NATIVE_LOCATOR \<equiv> 17"
abbreviation (input) MELODI_A_COLLISION_ROUND :: u16 where "MELODI_A_COLLISION_ROUND \<equiv> 18"
abbreviation (input) MELODI_A_PEER_STATE :: u16 where "MELODI_A_PEER_STATE \<equiv> 19"
abbreviation (input) MELODI_A_GENERATION :: u16 where "MELODI_A_GENERATION \<equiv> 20"
abbreviation (input) MELODI_A_POLICY_MODE :: u16 where "MELODI_A_POLICY_MODE \<equiv> 21"
abbreviation (input) MELODI_A_LINK_FAILURE :: u16 where "MELODI_A_LINK_FAILURE \<equiv> 22"
abbreviation (input) MELODI_A_LINK_ERROR :: u16 where "MELODI_A_LINK_ERROR \<equiv> 23"
abbreviation (input) MELODI_A_RADIO_SERIAL :: u16 where "MELODI_A_RADIO_SERIAL \<equiv> 24"
abbreviation (input) MELODI_A_STATS :: u16 where "MELODI_A_STATS \<equiv> 25"
abbreviation (input) MELODI_A_MONITOR_DIRECTION :: u16 where "MELODI_A_MONITOR_DIRECTION \<equiv> 26"
abbreviation (input) MELODI_A_FRAME :: u16 where "MELODI_A_FRAME \<equiv> 27"
abbreviation (input) MELODI_A_BUS_INFO :: u16 where "MELODI_A_BUS_INFO \<equiv> 28"
abbreviation (input) MELODI_A_PREVIOUS_NODE_ID :: u16 where "MELODI_A_PREVIOUS_NODE_ID \<equiv> 29"
abbreviation (input) MELODI_A_POLICY_SERVICE :: u16 where "MELODI_A_POLICY_SERVICE \<equiv> 30"
abbreviation (input) MELODI_A_POLICY_ACTION :: u16 where "MELODI_A_POLICY_ACTION \<equiv> 31"
abbreviation (input) MELODI_A_POLICY_BROADCAST :: u16 where "MELODI_A_POLICY_BROADCAST \<equiv> 32"
abbreviation (input) MELODI_A_PEER_EXPIRY_MS :: u16 where "MELODI_A_PEER_EXPIRY_MS \<equiv> 33"
abbreviation (input) MELODI_A_PEER_CAPABILITIES :: u16 where "MELODI_A_PEER_CAPABILITIES \<equiv> 34"
abbreviation (input) MELODI_A_PEER_RSSI :: u16 where "MELODI_A_PEER_RSSI \<equiv> 35"
abbreviation (input) MELODI_A_PEER_SNR :: u16 where "MELODI_A_PEER_SNR \<equiv> 36"
abbreviation (input) MELODI_A_PEER_HOPS :: u16 where "MELODI_A_PEER_HOPS \<equiv> 37"
abbreviation (input) MELODI_A_PEER_LAST_SEEN_NS :: u16 where "MELODI_A_PEER_LAST_SEEN_NS \<equiv> 38"
abbreviation (input) MELODI_A_PEER_POLICY :: u16 where "MELODI_A_PEER_POLICY \<equiv> 39"
abbreviation (input) MELODI_A_POLICY_RESET :: u16 where "MELODI_A_POLICY_RESET \<equiv> 40"
abbreviation (input) MELODI_A_FRAME_PACE_US :: u16 where "MELODI_A_FRAME_PACE_US \<equiv> 41"
abbreviation (input) MELODI_A_MAX :: u16 where "MELODI_A_MAX \<equiv> 41"

abbreviation (input) MELODI_RX_A_AUTHENTICATED :: u16 where "MELODI_RX_A_AUTHENTICATED \<equiv> 1"
abbreviation (input) MELODI_RX_A_DUPLICATES :: u16 where "MELODI_RX_A_DUPLICATES \<equiv> 2"
abbreviation (input) MELODI_RX_A_HOPS :: u16 where "MELODI_RX_A_HOPS \<equiv> 3"
abbreviation (input) MELODI_RX_A_RSSI :: u16 where "MELODI_RX_A_RSSI \<equiv> 4"
abbreviation (input) MELODI_RX_A_SNR :: u16 where "MELODI_RX_A_SNR \<equiv> 5"
abbreviation (input) MELODI_RX_A_TIMESTAMP_NS :: u16 where "MELODI_RX_A_TIMESTAMP_NS \<equiv> 6"
abbreviation (input) MELODI_RX_A_RETRANSMISSIONS :: u16 where "MELODI_RX_A_RETRANSMISSIONS \<equiv> 7"
abbreviation (input) MELODI_RX_A_MAX :: u16 where "MELODI_RX_A_MAX \<equiv> 7"
abbreviation (input) MELODI_ERROR_A_CODE :: u16 where "MELODI_ERROR_A_CODE \<equiv> 1"
abbreviation (input) MELODI_ERROR_A_DETAIL :: u16 where "MELODI_ERROR_A_DETAIL \<equiv> 2"
abbreviation (input) MELODI_ERROR_A_MAX :: u16 where "MELODI_ERROR_A_MAX \<equiv> 2"
abbreviation (input) MELODI_STAT_A_MAX :: u16 where "MELODI_STAT_A_MAX \<equiv> 24"

abbreviation (input) MELODI_MONITOR_RX :: u8 where "MELODI_MONITOR_RX \<equiv> 0"
abbreviation (input) MELODI_MONITOR_TX :: u8 where "MELODI_MONITOR_TX \<equiv> 1"
abbreviation (input) MELODI_F_RELIABLE :: u32 where "MELODI_F_RELIABLE \<equiv> 1"
abbreviation (input) MELODI_F_ORDERED :: u32 where "MELODI_F_ORDERED \<equiv> 2"
abbreviation (input) MELODI_F_AUTH_REQUIRED :: u32 where "MELODI_F_AUTH_REQUIRED \<equiv> 4"
abbreviation (input) MELODI_F_BROADCAST :: u32 where "MELODI_F_BROADCAST \<equiv> 8"
abbreviation (input) MELODI_F_DONTWAIT :: u32 where "MELODI_F_DONTWAIT \<equiv> 16"
abbreviation (input) MELODI_F_ALL :: u32 where
  "MELODI_F_ALL \<equiv> MELODI_F_RELIABLE OR MELODI_F_ORDERED OR MELODI_F_AUTH_REQUIRED OR MELODI_F_BROADCAST OR MELODI_F_DONTWAIT"

datatype melodi_peer_state =
    MELODI_PEER_AUTHENTICATED | MELODI_PEER_TRUSTED | MELODI_PEER_BLOCKED
  | MELODI_PEER_CONFLICTED | MELODI_PEER_OBSERVED | MELODI_PEER_CHALLENGED

fun peer_state_code :: "melodi_peer_state \<Rightarrow> u8" where
  "peer_state_code MELODI_PEER_AUTHENTICATED = 0"
| "peer_state_code MELODI_PEER_TRUSTED = 1"
| "peer_state_code MELODI_PEER_BLOCKED = 2"
| "peer_state_code MELODI_PEER_CONFLICTED = 3"
| "peer_state_code MELODI_PEER_OBSERVED = 4"
| "peer_state_code MELODI_PEER_CHALLENGED = 5"

datatype melodi_peer_policy =
    MELODI_PEER_POLICY_DEFAULT | MELODI_PEER_POLICY_TRUSTED | MELODI_PEER_POLICY_BLOCKED

fun peer_policy_code :: "melodi_peer_policy \<Rightarrow> u8" where
  "peer_policy_code MELODI_PEER_POLICY_DEFAULT = 0"
| "peer_policy_code MELODI_PEER_POLICY_TRUSTED = 1"
| "peer_policy_code MELODI_PEER_POLICY_BLOCKED = 2"

text \<open>Actions and modes arrive as numbers and are range checked as such.\<close>

abbreviation (input) MELODI_POLICY_SERVICE_ALLOW :: u8 where "MELODI_POLICY_SERVICE_ALLOW \<equiv> 1"
abbreviation (input) MELODI_POLICY_SERVICE_DENY :: u8 where "MELODI_POLICY_SERVICE_DENY \<equiv> 2"
abbreviation (input) MELODI_POLICY_SERVICE_CLEAR :: u8 where "MELODI_POLICY_SERVICE_CLEAR \<equiv> 3"
abbreviation (input) MELODI_POLICY_ALLOW_AUTHENTICATED :: u8 where "MELODI_POLICY_ALLOW_AUTHENTICATED \<equiv> 0"
abbreviation (input) MELODI_POLICY_REQUIRE_TRUST :: u8 where "MELODI_POLICY_REQUIRE_TRUST \<equiv> 1"

end
