(* ===== verification/Genl.thy ===== *)
theory Genl
  imports Uapi
begin

text \<open>
  The generic netlink messages between the user tools and the kernel, \<open>src/proto/genl.c\<close>: the
  builder, the parser and the schema of every command. The headers are structures in host byte
  order; the model is for a little endian host. An attribute pointer with its length is the list
  of octets it points to. \<open>MELODI_ALIGN\<close> is computed on lengths below \<open>2 ^ 17\<close>.
\<close>

abbreviation (input) NLMSG_HDRLEN :: nat where "NLMSG_HDRLEN \<equiv> 16"
abbreviation (input) GENL_HDRLEN :: nat where "GENL_HDRLEN \<equiv> 4"
abbreviation (input) NLATTR_SIZE :: nat where "NLATTR_SIZE \<equiv> 4"
abbreviation (input) NLA_F_NESTED :: u16 where "NLA_F_NESTED \<equiv> 0x8000"
abbreviation (input) NLA_TYPE_MASK :: u16 where "NLA_TYPE_MASK \<equiv> 0x3fff"

definition host_put16 :: "u16 \<Rightarrow> bytes" where
  "host_put16 v = [ucast v, ucast (drop_bit 8 v)]"

definition host_get16 :: "bytes \<Rightarrow> u16" where
  "host_get16 b = push_bit 8 (ucast (b ! 1)) OR ucast (b ! 0)"

definition host_put32 :: "u32 \<Rightarrow> bytes" where
  "host_put32 v = [ucast v, ucast (drop_bit 8 v), ucast (drop_bit 16 v), ucast (drop_bit 24 v)]"

definition host_get32 :: "bytes \<Rightarrow> u32" where
  "host_get32 b = push_bit 24 (ucast (b ! 3)) OR push_bit 16 (ucast (b ! 2)) OR push_bit 8 (ucast (b ! 1)) OR ucast (b ! 0)"

definition MELODI_ALIGN :: "nat \<Rightarrow> nat" where
  "MELODI_ALIGN val = (val + 3) div 4 * 4"

record melodi_genl_builder =
  bld_data :: bytes
  bld_capacity :: nat
  bld_length :: nat

record melodi_genl_message =
  gm_family :: u16
  gm_flags :: u16
  gm_sequence :: u32
  gm_portid :: u32
  gm_command :: u8
  gm_attributes :: "u16 \<rightharpoonup> bytes"

definition melodi_command_valid :: "u8 \<Rightarrow> bool" where
  "melodi_command_valid command \<longleftrightarrow>
     (command \<ge> MELODI_CMD_BIND \<and> command \<le> MELODI_CMD_GET_BINDING) \<or>
     (command \<ge> MELODI_CMD_LINK_GET \<and> command \<le> MELODI_CMD_MONITOR_FRAME)"

definition melodi_attribute_width :: "u16 \<Rightarrow> nat \<Rightarrow> bool" where
  "melodi_attribute_width type len =
     (if type \<in> set [MELODI_A_IFINDEX, MELODI_A_FLAGS, MELODI_A_TTL_MS, MELODI_A_KEY_SERIAL,
           MELODI_A_PEER_NATIVE_LOCATOR, MELODI_A_COLLISION_ROUND, MELODI_A_GENERATION, MELODI_A_LINK_ERROR,
           MELODI_A_PEER_EXPIRY_MS, MELODI_A_PEER_CAPABILITIES, MELODI_A_FRAME_PACE_US]
      then len = 4
      else if type \<in> set [MELODI_A_LOCAL_SERVICE, MELODI_A_DEST_SERVICE, MELODI_A_SOURCE_SERVICE,
           MELODI_A_LINK_FAILURE, MELODI_A_POLICY_SERVICE, MELODI_A_PEER_RSSI, MELODI_A_PEER_SNR]
      then len = 2
      else if type \<in> set [MELODI_A_DEST_NODE, MELODI_A_SOURCE_NODE, MELODI_A_NODE_ID, MELODI_A_PREVIOUS_NODE_ID]
      then len = MELODI_NODE_ID_SIZE
      else if type \<in> set [MELODI_A_COOKIE, MELODI_A_PEER_LAST_SEEN_NS]
      then len = 8
      else if type \<in> set [MELODI_A_PRIORITY, MELODI_A_LINK_STATE, MELODI_A_PEER_STATE, MELODI_A_POLICY_MODE,
           MELODI_A_POLICY_ACTION, MELODI_A_POLICY_BROADCAST, MELODI_A_POLICY_RESET, MELODI_A_PEER_HOPS,
           MELODI_A_PEER_POLICY, MELODI_A_MONITOR_DIRECTION]
      then len = 1
      else if type = MELODI_A_PAYLOAD then len \<le> MELODI_MESSAGE_MTU
      else if type = MELODI_A_RADIO_SERIAL then len \<ge> 2 \<and> len \<le> MELODI_RADIO_SERIAL_MAX + 1
      else if type = MELODI_A_BUS_INFO then len \<ge> 2 \<and> len \<le> MELODI_BUS_INFO_MAX + 1
      else if type \<in> set [MELODI_A_RX_META, MELODI_A_ERROR, MELODI_A_STATS] then len \<ge> NLATTR_SIZE
      else if type = MELODI_A_FRAME then len \<ge> MELODI_FRAME_HEADER_MIN \<and> len \<le> MELODI_FRAME_MTU_MAX
      else False)"

definition melodi_has :: "melodi_genl_message \<Rightarrow> u16 \<Rightarrow> bool" where
  "melodi_has message type \<longleftrightarrow> gm_attributes message type \<noteq> None"

definition melodi_present :: "melodi_genl_message \<Rightarrow> u64" where
  "melodi_present message =
     fold (\<lambda>type present. if melodi_has message (of_nat type) then present OR push_bit type 1 else present) [1..<42] 0"

text \<open>The value of an attribute that the caller knows to be present.\<close>

definition attribute_value :: "melodi_genl_message \<Rightarrow> u16 \<Rightarrow> bytes" where
  "attribute_value message type = (case gm_attributes message type of Some v \<Rightarrow> v | None \<Rightarrow> [])"

definition melodi_validate_bind :: "melodi_genl_message \<Rightarrow> unit res" where
  "melodi_validate_bind message =
     (if \<not> melodi_has message MELODI_A_IFINDEX \<or> \<not> melodi_has message MELODI_A_LOCAL_SERVICE then Inl EINVAL
      else
        let service = host_get16 (attribute_value message MELODI_A_LOCAL_SERVICE)
        in if service = MELODI_SERVICE_CONTROL \<or> service = MELODI_SERVICE_ECHO then Inl EINVAL else Inr ())"

definition melodi_validate_send :: "melodi_genl_message \<Rightarrow> unit res" where
  "melodi_validate_send message =
     (if \<not> melodi_has message MELODI_A_DEST_SERVICE \<or> \<not> melodi_has message MELODI_A_PAYLOAD then Inl EINVAL
      else
        let flags = (if melodi_has message MELODI_A_FLAGS then host_get32 (attribute_value message MELODI_A_FLAGS) else 0)
        in if flags AND NOT MELODI_F_ALL \<noteq> 0 then Inl EINVAL
           else if (flags AND MELODI_F_BROADCAST \<noteq> 0) = melodi_has message MELODI_A_DEST_NODE then Inl EINVAL
           else if flags AND MELODI_F_BROADCAST \<noteq> 0 \<and> flags AND (MELODI_F_RELIABLE OR MELODI_F_ORDERED) \<noteq> 0
           then Inl EINVAL
           else if flags AND MELODI_F_BROADCAST \<noteq> 0 \<and>
                   length (attribute_value message MELODI_A_PAYLOAD) > MELODI_BROADCAST_MTU
           then Inl EMSGSIZE
           else if melodi_has message MELODI_A_PRIORITY \<and>
                   attribute_value message MELODI_A_PRIORITY ! 0 > MELODI_PRIORITY_MAX
           then Inl EINVAL
           else if melodi_has message MELODI_A_TTL_MS \<and>
                   (let ttl_ms = host_get32 (attribute_value message MELODI_A_TTL_MS)
                    in ttl_ms = 0 \<or> ttl_ms > MELODI_TTL_DEFAULT_MS)
           then Inl EINVAL
           else Inr ())"

definition melodi_validate_radio_serial :: "melodi_genl_message \<Rightarrow> unit res" where
  "melodi_validate_radio_serial message =
     (case gm_attributes message MELODI_A_RADIO_SERIAL of
        None \<Rightarrow> Inl EINVAL
      | Some serial \<Rightarrow>
          if serial ! (length serial - 1) \<noteq> 0 then Inl EINVAL
          else if list_ex (\<lambda>c. c < 0x21 \<or> c > 0x7e \<or> c = 0x2c) (take (length serial - 1) serial) then Inl EINVAL
          else Inr ())"

definition melodi_validate_bus_info :: "melodi_genl_message \<Rightarrow> unit res" where
  "melodi_validate_bus_info message =
     (case gm_attributes message MELODI_A_BUS_INFO of
        None \<Rightarrow> Inl EINVAL
      | Some bus \<Rightarrow>
          if bus ! (length bus - 1) \<noteq> 0 then Inl EINVAL
          else if list_ex (\<lambda>c. c < 0x21 \<or> c > 0x7e) (take (length bus - 1) bus) then Inl EINVAL
          else Inr ())"

definition attr_mask :: "u16 list \<Rightarrow> u64" where
  "attr_mask types = fold (\<lambda>type m. m OR push_bit (unat type) 1) types 0"

definition accept_if :: "bool \<Rightarrow> unit res" where
  "accept_if b = (if b then Inr () else Inl EINVAL)"

definition melodi_validate_schema :: "melodi_genl_message \<Rightarrow> unit res" where
  "melodi_validate_schema message =
     (let bind = attr_mask [MELODI_A_IFINDEX, MELODI_A_LOCAL_SERVICE];
          peer = attr_mask [MELODI_A_IFINDEX, MELODI_A_NODE_ID];
          interface = attr_mask [MELODI_A_IFINDEX];
          present = melodi_present message;
          command = gm_command message
      in if command = MELODI_CMD_BIND
         then if present \<noteq> bind then Inl EINVAL else melodi_validate_bind message
         else if command = MELODI_CMD_SEND
         then
           let allowed = attr_mask [MELODI_A_DEST_NODE, MELODI_A_DEST_SERVICE, MELODI_A_PAYLOAD, MELODI_A_FLAGS,
                 MELODI_A_COOKIE, MELODI_A_TTL_MS, MELODI_A_PRIORITY]
           in if present AND NOT allowed \<noteq> 0 then Inl EINVAL else melodi_validate_send message
         else if command = MELODI_CMD_UNBIND \<or> command = MELODI_CMD_GET_BINDING
         then accept_if (present = 0 \<or> (command = MELODI_CMD_GET_BINDING \<and> present = bind))
         else if command = MELODI_CMD_RECV
         then
           let allowed = attr_mask [MELODI_A_SOURCE_NODE, MELODI_A_SOURCE_SERVICE, MELODI_A_LOCAL_SERVICE,
                 MELODI_A_PAYLOAD, MELODI_A_COOKIE, MELODI_A_RX_META]
           in accept_if (present = allowed \<or> present = allowed AND NOT (attr_mask [MELODI_A_COOKIE]))
         else if command = MELODI_CMD_ERROR
         then
           let allowed = attr_mask [MELODI_A_IFINDEX, MELODI_A_LOCAL_SERVICE, MELODI_A_COOKIE, MELODI_A_ERROR]
           in accept_if (present AND attr_mask [MELODI_A_ERROR] \<noteq> 0 \<and> present AND NOT allowed = 0)
         else if command = MELODI_CMD_LINK_GET
         then
           let allowed = attr_mask [MELODI_A_LINK_STATE, MELODI_A_LINK_FAILURE, MELODI_A_LINK_ERROR]
           in if present = interface then Inr ()
              else if present AND allowed \<noteq> allowed \<or>
                      present AND NOT (allowed OR attr_mask [MELODI_A_RADIO_SERIAL, MELODI_A_BUS_INFO, MELODI_A_FRAME_PACE_US]) \<noteq> 0
              then Inl EINVAL
              else if melodi_has message MELODI_A_BUS_INFO then melodi_validate_bus_info message else Inr ()
         else if command = MELODI_CMD_LINK_SET
         then if present = attr_mask [MELODI_A_IFINDEX, MELODI_A_RADIO_SERIAL]
              then melodi_validate_radio_serial message else Inl EINVAL
         else if command = MELODI_CMD_IDENTITY_LOAD
         then
           let allowed = attr_mask [MELODI_A_IFINDEX, MELODI_A_NODE_ID, MELODI_A_KEY_SERIAL, MELODI_A_GENERATION]
           in if present \<noteq> allowed \<and> present \<noteq> allowed OR attr_mask [MELODI_A_PREVIOUS_NODE_ID] then Inl EINVAL
              else accept_if (host_get32 (attribute_value message MELODI_A_GENERATION) \<noteq> 0)
         else if command = MELODI_CMD_IDENTITY_GET_PUBLIC
         then accept_if (present = interface \<or> present = attr_mask [MELODI_A_NODE_ID, MELODI_A_GENERATION])
         else if command = MELODI_CMD_PEER_DUMP
         then
           let allowed = attr_mask [MELODI_A_IFINDEX, MELODI_A_NODE_ID, MELODI_A_PEER_NATIVE_LOCATOR,
                 MELODI_A_COLLISION_ROUND, MELODI_A_GENERATION, MELODI_A_PEER_STATE, MELODI_A_PEER_EXPIRY_MS,
                 MELODI_A_PEER_CAPABILITIES, MELODI_A_PEER_RSSI, MELODI_A_PEER_SNR, MELODI_A_PEER_HOPS,
                 MELODI_A_PEER_LAST_SEEN_NS, MELODI_A_PEER_POLICY]
           in if present = interface then Inr ()
              else if present \<noteq> allowed then Inl EINVAL
              else if attribute_value message MELODI_A_PEER_STATE ! 0 > peer_state_code MELODI_PEER_CHALLENGED
              then Inl EINVAL
              else accept_if (attribute_value message MELODI_A_PEER_POLICY ! 0 \<le> peer_policy_code MELODI_PEER_POLICY_BLOCKED)
         else if command = MELODI_CMD_PEER_TRUST \<or> command = MELODI_CMD_PEER_BLOCK \<or>
                 command = MELODI_CMD_PEER_CLEAR \<or> command = MELODI_CMD_PEER_REVERIFY
         then accept_if (present = peer)
         else if command = MELODI_CMD_POLICY_GET
         then accept_if (present = interface \<or> present = attr_mask [MELODI_A_POLICY_MODE])
         else if command = MELODI_CMD_POLICY_SET
         then
           let mode = interface OR attr_mask [MELODI_A_POLICY_MODE];
               service = interface OR attr_mask [MELODI_A_POLICY_SERVICE, MELODI_A_POLICY_ACTION];
               broadcast = interface OR attr_mask [MELODI_A_POLICY_BROADCAST];
               reset = interface OR attr_mask [MELODI_A_POLICY_RESET]
           in if present = service
              then
                let val = attribute_value message MELODI_A_POLICY_ACTION ! 0
                in accept_if (val \<ge> MELODI_POLICY_SERVICE_ALLOW \<and> val \<le> MELODI_POLICY_SERVICE_CLEAR)
              else if present = broadcast then accept_if (attribute_value message MELODI_A_POLICY_BROADCAST ! 0 \<le> 1)
              else if present = reset then accept_if (attribute_value message MELODI_A_POLICY_RESET ! 0 = 1)
              else accept_if (present = mode)
         else if command = MELODI_CMD_DISCOVER then accept_if (present = interface)
         else if command = MELODI_CMD_STATS_GET
         then accept_if (present = interface \<or> present = attr_mask [MELODI_A_STATS])
         else if command = MELODI_CMD_MONITOR_BIND then accept_if (present = interface)
         else if command = MELODI_CMD_MONITOR_FRAME
         then
           let allowed = attr_mask [MELODI_A_IFINDEX, MELODI_A_MONITOR_DIRECTION, MELODI_A_FRAME]
           in if present \<noteq> allowed \<and> present \<noteq> allowed OR attr_mask [MELODI_A_RX_META] then Inl EINVAL
              else
                let direction = attribute_value message MELODI_A_MONITOR_DIRECTION ! 0
                in accept_if ((direction = MELODI_MONITOR_RX) = melodi_has message MELODI_A_RX_META \<and>
                     direction \<le> MELODI_MONITOR_TX)
         else Inl EOPNOTSUPP)"

definition melodi_nested_width :: "u16 \<Rightarrow> u16 \<Rightarrow> bytes \<Rightarrow> bool" where
  "melodi_nested_width outer type val =
     (if outer = MELODI_A_RX_META
      then if type = MELODI_RX_A_AUTHENTICATED then length val = 1 \<and> val ! 0 \<le> 1
           else if type = MELODI_RX_A_DUPLICATES then length val = 2
           else if type = MELODI_RX_A_HOPS \<or> type = MELODI_RX_A_RETRANSMISSIONS then length val = 1
           else if type = MELODI_RX_A_RSSI \<or> type = MELODI_RX_A_SNR then length val = 2
           else if type = MELODI_RX_A_TIMESTAMP_NS then length val = 8
           else False
      else if outer = MELODI_A_STATS then type \<le> MELODI_STAT_A_MAX \<and> length val = 8
      else if type = MELODI_ERROR_A_CODE then length val = 4
      else if type = MELODI_ERROR_A_DETAIL then length val > 0 \<and> length val \<le> 128 \<and> val ! (length val - 1) = 0
      else False)"

text \<open>
  The loop over the attributes of a nest; \<open>position\<close> is the rest of the nest, \<open>remaining\<close> its
  length. The result is the set of attributes seen.
\<close>

function melodi_validate_nested_loop :: "u16 \<Rightarrow> u16 \<Rightarrow> bytes \<Rightarrow> u64 \<Rightarrow> u64 res" where
  "melodi_validate_nested_loop outer maximum position seen =
     (if position = [] then Inr seen
      else if length position < NLATTR_SIZE then Inl EPROTO
      else
        let raw_length = unat (host_get16 position)
        in if raw_length < NLATTR_SIZE \<or> raw_length > length position then Inl EPROTO
           else
             let aligned_length = MELODI_ALIGN raw_length
             in if aligned_length > length position then Inl EPROTO
                else
                  let type = host_get16 (drop 2 position)
                  in if type = 0 \<and> raw_length = NLATTR_SIZE
                     then melodi_validate_nested_loop outer maximum (drop aligned_length position) seen
                     else if type > maximum \<or> type = 0 \<or> type \<ge> 64 \<or> seen AND push_bit (unat type) 1 \<noteq> 0 \<or>
                             \<not> melodi_nested_width outer type (chunk NLATTR_SIZE (raw_length - NLATTR_SIZE) position)
                     then Inl EINVAL
                     else if list_ex (\<lambda>b. b \<noteq> 0) (chunk raw_length (aligned_length - raw_length) position) then Inl EPROTO
                     else melodi_validate_nested_loop outer maximum (drop aligned_length position)
                            (seen OR push_bit (unat type) 1))"
  by pat_completeness auto

lemma MELODI_ALIGN_bounds: "n \<le> MELODI_ALIGN n" "MELODI_ALIGN n < n + 4"
  by (simp_all add: MELODI_ALIGN_def)

termination melodi_validate_nested_loop
  using MELODI_ALIGN_bounds(1)
  by (relation "measure (\<lambda>(_, _, position, _). length position)")
     (auto simp: not_less intro!: diff_less intro: order.strict_trans2 [OF _ MELODI_ALIGN_bounds(1)])

declare melodi_validate_nested_loop.simps [simp del]

definition melodi_validate_nested :: "u16 \<Rightarrow> bytes \<Rightarrow> unit res" where
  "melodi_validate_nested outer position =
     (let maximum = (if outer = MELODI_A_RX_META then MELODI_RX_A_MAX
            else if outer = MELODI_A_STATS then MELODI_STAT_A_MAX else MELODI_ERROR_A_MAX)
      in case melodi_validate_nested_loop outer maximum position 0 of
           Inl e \<Rightarrow> Inl e
         | Inr seen \<Rightarrow>
             if outer = MELODI_A_RX_META then accept_if (seen = push_bit (unat (MELODI_RX_A_MAX + 1)) 1 - 2)
             else if outer = MELODI_A_STATS then accept_if (seen = push_bit (unat (MELODI_STAT_A_MAX + 1)) 1 - 2)
             else accept_if (seen AND push_bit (unat MELODI_ERROR_A_CODE) 1 \<noteq> 0))"

subsection \<open>Building\<close>

definition melodi_genl_begin ::
  "bytes \<Rightarrow> u16 \<Rightarrow> u16 \<Rightarrow> u32 \<Rightarrow> u32 \<Rightarrow> u8 \<Rightarrow> melodi_genl_builder res" where
  "melodi_genl_begin buffer family flags sequence portid command =
     (let header_length = NLMSG_HDRLEN + GENL_HDRLEN
      in if length buffer < header_length \<or> \<not> melodi_command_valid command then Inl EINVAL
         else
           let data = replicate (length buffer) 0;
               data = poke 0 (host_put32 (of_nat header_length)) data;
               data = poke 4 (host_put16 family) data;
               data = poke 6 (host_put16 flags) data;
               data = poke 8 (host_put32 sequence) data;
               data = poke 12 (host_put32 portid) data;
               data = poke NLMSG_HDRLEN [command] data;
               data = poke (NLMSG_HDRLEN + 1) [MELODI_GENL_VERSION] data;
               data = poke (NLMSG_HDRLEN + 2) (host_put16 0) data
           in Inr \<lparr>bld_data = data, bld_capacity = length buffer, bld_length = header_length\<rparr>)"

definition melodi_genl_put :: "melodi_genl_builder \<Rightarrow> u16 \<Rightarrow> bytes \<Rightarrow> melodi_genl_builder res" where
  "melodi_genl_put builder type val =
     (let raw_length = NLATTR_SIZE + length val;
          aligned_length = MELODI_ALIGN raw_length
      in if type = MELODI_A_UNSPEC \<or> type > MELODI_A_MAX \<or> \<not> melodi_attribute_width type (length val) \<or>
            aligned_length > bld_capacity builder - bld_length builder
         then Inl EINVAL
         else
           let at = bld_length builder;
               data = poke at (host_put16 (of_nat raw_length)) (bld_data builder);
               data = poke (at + 2) (host_put16 type) data;
               data = poke (at + NLATTR_SIZE) val data;
               data = poke (at + raw_length) (replicate (aligned_length - raw_length) 0) data
           in Inr (builder\<lparr>bld_data := data, bld_length := bld_length builder + aligned_length\<rparr>))"

definition melodi_genl_put_u8 :: "melodi_genl_builder \<Rightarrow> u16 \<Rightarrow> u8 \<Rightarrow> melodi_genl_builder res" where
  "melodi_genl_put_u8 builder type val = melodi_genl_put builder type [val]"

definition melodi_genl_put_u16 :: "melodi_genl_builder \<Rightarrow> u16 \<Rightarrow> u16 \<Rightarrow> melodi_genl_builder res" where
  "melodi_genl_put_u16 builder type val = melodi_genl_put builder type (host_put16 val)"

definition melodi_genl_put_u32 :: "melodi_genl_builder \<Rightarrow> u16 \<Rightarrow> u32 \<Rightarrow> melodi_genl_builder res" where
  "melodi_genl_put_u32 builder type val = melodi_genl_put builder type (host_put32 val)"

definition melodi_genl_put_u64 :: "melodi_genl_builder \<Rightarrow> u16 \<Rightarrow> u64 \<Rightarrow> melodi_genl_builder res" where
  "melodi_genl_put_u64 builder type val =
     melodi_genl_put builder type (host_put32 (ucast val) @ host_put32 (ucast (drop_bit 32 val)))"

definition melodi_genl_end :: "melodi_genl_builder \<Rightarrow> melodi_genl_builder res" where
  "melodi_genl_end builder =
     (if bld_length builder > 2 ^ 32 - 1 then Inl EINVAL
      else Inr (builder\<lparr>bld_data := poke 0 (host_put32 (of_nat (bld_length builder))) (bld_data builder)\<rparr>))"

subsection \<open>Parsing\<close>

definition melodi_attribute_nested :: "u16 \<Rightarrow> bool" where
  "melodi_attribute_nested type \<longleftrightarrow> type = MELODI_A_RX_META \<or> type = MELODI_A_ERROR \<or> type = MELODI_A_STATS"

function melodi_genl_parse_loop :: "bytes \<Rightarrow> melodi_genl_message \<Rightarrow> melodi_genl_message res" where
  "melodi_genl_parse_loop position message =
     (if position = [] then Inr message
      else if length position < NLATTR_SIZE then Inl EPROTO
      else
        let raw_length = unat (host_get16 position)
        in if raw_length < NLATTR_SIZE \<or> raw_length > length position then Inl EPROTO
           else
             let aligned_length = MELODI_ALIGN raw_length
             in if aligned_length > length position then Inl EPROTO
                else
                  let type = host_get16 (drop 2 position) AND NLA_TYPE_MASK;
                      flags = host_get16 (drop 2 position) AND NOT NLA_TYPE_MASK;
                      val = chunk NLATTR_SIZE (raw_length - NLATTR_SIZE) position
                  in if type = MELODI_A_UNSPEC \<or> type > MELODI_A_MAX \<or> gm_attributes message type \<noteq> None \<or>
                        \<not> melodi_attribute_width type (raw_length - NLATTR_SIZE)
                     then Inl EINVAL
                     else if (if melodi_attribute_nested type then flags \<noteq> NLA_F_NESTED else flags \<noteq> 0) then Inl EINVAL
                     else if melodi_attribute_nested type \<and> isl (melodi_validate_nested type val) then Inl EINVAL
                     else if list_ex (\<lambda>b. b \<noteq> 0) (chunk raw_length (aligned_length - raw_length) position) then Inl EPROTO
                     else melodi_genl_parse_loop (drop aligned_length position)
                            (message\<lparr>gm_attributes := (gm_attributes message)(type \<mapsto> val)\<rparr>))"
  by pat_completeness auto

termination melodi_genl_parse_loop
  using MELODI_ALIGN_bounds(1)
  by (relation "measure (\<lambda>(position, _). length position)")
     (auto simp: not_less intro!: diff_less intro: order.strict_trans2 [OF _ MELODI_ALIGN_bounds(1)])

declare melodi_genl_parse_loop.simps [simp del]

definition melodi_genl_parse :: "bytes \<Rightarrow> melodi_genl_message res" where
  "melodi_genl_parse buffer =
     (if length buffer < NLMSG_HDRLEN + GENL_HDRLEN then Inl EINVAL
      else if unat (host_get32 buffer) \<noteq> length buffer then Inl EPROTO
      else
        let generic = drop NLMSG_HDRLEN buffer
        in if generic ! 1 \<noteq> MELODI_GENL_VERSION \<or> host_get16 (drop 2 generic) \<noteq> 0 \<or> \<not> melodi_command_valid (generic ! 0)
           then Inl EPROTO
           else
             case melodi_genl_parse_loop (drop GENL_HDRLEN generic)
                    \<lparr>gm_family = host_get16 (drop 4 buffer), gm_flags = host_get16 (drop 6 buffer),
                     gm_sequence = host_get32 (drop 8 buffer), gm_portid = host_get32 (drop 12 buffer),
                     gm_command = generic ! 0, gm_attributes = Map.empty\<rparr> of
               Inl e \<Rightarrow> Inl e
             | Inr message \<Rightarrow>
                 (case melodi_validate_schema message of Inl e \<Rightarrow> Inl e | Inr _ \<Rightarrow> Inr message))"

subsection \<open>Header fields\<close>

interpretation host16: fixed_field host_put16 host_get16 2
proof
  fix v xs
  show "length (host_put16 v) = 2" by (simp add: host_put16_def)
  show "host_get16 (take 2 xs) = host_get16 xs" by (simp add: host_get16_def)
  show "host_get16 (host_put16 v) = v"
    by (simp add: host_get16_def host_put16_def ucast_u16_split)
  show "length xs = 2 \<Longrightarrow> host_put16 (host_get16 xs) = xs"
    by (cases xs; cases "tl xs")
       (auto simp: host_get16_def host_put16_def bit_simps intro!: bit_word_eqI)
qed

lemma host_put32_get32: "host_put32 (host_get32 (a # b # c # d # ys)) = [a, b, c, d]"
  by (auto simp: host_get32_def host_put32_def bit_simps intro!: bit_word_eqI)

interpretation host32: fixed_field host_put32 host_get32 4
proof
  fix v xs
  show "length (host_put32 v) = 4" by (simp add: host_put32_def)
  show "host_get32 (take 4 xs) = host_get32 xs" by (simp add: host_get32_def)
  show "host_get32 (host_put32 v) = v"
    by (simp add: host_get32_def host_put32_def ucast_u32_split)
  show "length xs = 4 \<Longrightarrow> host_put32 (host_get32 xs) = xs"
    using host_put32_get32 [of _ _ _ _ "[]"] by (auto simp: eval_nat_numeral length_Suc_conv)
qed

lemma host_lengths [simp]: "length (host_put16 v) = 2" "length (host_put32 w) = 4"
  by (rule host16.length_put host32.length_put)+

lemmas host_reads [simp] = host16.get_put_append host32.get_put_append host16.get_put host32.get_put

subsection \<open>The grammar of the messages\<close>

type_synonym attribute = "u16 \<times> bytes"

definition padding :: "nat \<Rightarrow> nat" where
  "padding n = MELODI_ALIGN (4 + n) - (4 + n)"

definition attr_word :: "u16 \<Rightarrow> u16" where
  "attr_word t = t OR (if melodi_attribute_nested t then NLA_F_NESTED else 0)"

definition attr_bytes :: "attribute \<Rightarrow> bytes" where
  "attr_bytes = (\<lambda>(t, v). host_put16 (of_nat (4 + length v)) @ host_put16 (attr_word t) @ v @ replicate (padding (length v)) 0)"

definition attr_ok :: "attribute \<Rightarrow> bool" where
  "attr_ok = (\<lambda>(t, v). t \<noteq> 0 \<and> t \<le> MELODI_A_MAX \<and> melodi_attribute_width t (length v) \<and> length v + 4 < 65536
     \<and> (melodi_attribute_nested t \<longrightarrow> melodi_validate_nested t v = Inr ()))"

lemma aligned_padding: "MELODI_ALIGN (4 + n) = 4 + n + padding n"
  using MELODI_ALIGN_bounds(1) [of "4 + n"] by (simp add: padding_def)

lemma length_attr_bytes [simp]: "length (attr_bytes (t, v)) = MELODI_ALIGN (4 + length v)"
  by (simp add: attr_bytes_def aligned_padding)

lemma attr_word_parts:
  assumes "t \<le> MELODI_A_MAX"
  shows "attr_word t AND 0x3fff = t" "attr_word t AND NOT 0x3fff = (if melodi_attribute_nested t then 0x8000 else 0)"
proof -
  have "\<forall>k\<in>set [0..<42]. attr_word (of_nat k) AND 0x3fff = of_nat k
      \<and> attr_word (of_nat k) AND NOT 0x3fff = (if melodi_attribute_nested (of_nat k) then 0x8000 else 0)" by code_simp
  moreover have "unat t \<in> set [0..<42]" using assms by (simp add: word_le_nat_alt)
  ultimately have "attr_word (of_nat (unat t)) AND 0x3fff = of_nat (unat t)
      \<and> attr_word (of_nat (unat t)) AND NOT 0x3fff = (if melodi_attribute_nested (of_nat (unat t)) then 0x8000 else 0)" by (rule bspec)
  then show "attr_word t AND 0x3fff = t" "attr_word t AND NOT 0x3fff = (if melodi_attribute_nested t then 0x8000 else 0)"
    by (simp_all only: of_nat_unat ucast_id)
qed

lemma attr_word_unique:
  assumes "w AND 0x3fff = t" "w AND NOT 0x3fff = (if melodi_attribute_nested t then 0x8000 else 0)"
  shows "w = attr_word t"
proof -
  have "w = (w AND 0x3fff) OR (w AND NOT 0x3fff)" by (rule bit_word_eqI) (auto simp: bit_simps)
  then show ?thesis using assms by (simp add: attr_word_def)
qed

lemma unat_raw: "n + 4 < 65536 \<Longrightarrow> unat (of_nat (4 + n) :: u16) = 4 + n"
  unfolding unat_of_nat by simp

lemma parse_loop_attribute:
  assumes "attr_ok (t, v)" "gm_attributes m t = None"
  shows "melodi_genl_parse_loop (attr_bytes (t, v) @ rest) m =
    melodi_genl_parse_loop rest (m\<lparr>gm_attributes := (gm_attributes m)(t \<mapsto> v)\<rparr>)"
proof -
  let ?p = "attr_bytes (t, v) @ rest"
  let ?n = "length v"
  have ok: "t \<noteq> 0" "t \<le> 41" "melodi_attribute_width t ?n" "?n + 4 < 65536"
    "melodi_attribute_nested t \<longrightarrow> melodi_validate_nested t v = Inr ()" using assms(1) by (simp_all add: attr_ok_def)
  have get: "host_get16 ?p = of_nat (4 + ?n)" "host_get16 (drop 2 ?p) = attr_word t"
    by (simp_all add: attr_bytes_def)
  have parts: "chunk 4 ?n ?p = v" "chunk (4 + ?n) (MELODI_ALIGN (4 + ?n) - (4 + ?n)) ?p = replicate (padding ?n) 0"
    "drop (MELODI_ALIGN (4 + ?n)) ?p = rest"
    by (simp_all add: attr_bytes_def chunk_def aligned_padding)
  have "length ?p = MELODI_ALIGN (4 + ?n) + length rest" "?p \<noteq> []"
    using aligned_padding [of ?n] by (simp_all flip: length_greater_0_conv)
  moreover have "4 + ?n \<le> MELODI_ALIGN (4 + ?n)" by (rule MELODI_ALIGN_bounds)
  ultimately have len: "\<not> length ?p < 4" "\<not> 4 + ?n > length ?p" "\<not> MELODI_ALIGN (4 + ?n) > length ?p" "?p \<noteq> []" by auto
  show ?thesis
    unfolding melodi_genl_parse_loop.simps [of ?p] get unat_raw [OF ok(4)] Let_def attr_word_parts [OF ok(2)] parts
    using ok len assms(2) by (simp add: list_ex_iff parts not_less [THEN iffD2, OF ok(2)]) blast
qed

lemma parse_loop_step:
  assumes "melodi_genl_parse_loop p m = Inr m'" "p \<noteq> []"
  obtains t v where "p = attr_bytes (t, v) @ drop (MELODI_ALIGN (4 + length v)) p" "attr_ok (t, v)" "gm_attributes m t = None"
    "melodi_genl_parse_loop (drop (MELODI_ALIGN (4 + length v)) p) (m\<lparr>gm_attributes := (gm_attributes m)(t \<mapsto> v)\<rparr>) = Inr m'"
proof -
  let ?raw = "unat (host_get16 p)" and ?t = "host_get16 (drop 2 p) AND 0x3fff"
  let ?v = "chunk 4 (?raw - 4) p"
  have c: "4 \<le> length p" "4 \<le> ?raw" "?raw \<le> length p" "MELODI_ALIGN ?raw \<le> length p"
    and t: "?t \<noteq> 0" "?t \<le> 41" "gm_attributes m ?t = None" "melodi_attribute_width ?t (?raw - 4)"
    and f: "host_get16 (drop 2 p) AND NOT 0x3fff = (if melodi_attribute_nested ?t then 0x8000 else 0)"
    and n: "melodi_attribute_nested ?t \<longrightarrow> \<not> isl (melodi_validate_nested ?t ?v)"
    and z: "\<not> list_ex (\<lambda>b. b \<noteq> 0) (chunk ?raw (MELODI_ALIGN ?raw - ?raw) p)"
    and r: "melodi_genl_parse_loop (drop (MELODI_ALIGN ?raw) p) (m\<lparr>gm_attributes := (gm_attributes m)(?t \<mapsto> ?v)\<rparr>) = Inr m'"
    using assms by (subst (asm) melodi_genl_parse_loop.simps; simp add: Let_def not_less split: if_splits)+
  have lv: "length ?v = ?raw - 4" "4 + length ?v = ?raw" using c by auto
  have "chunk ?raw (MELODI_ALIGN ?raw - ?raw) p = replicate (padding (length ?v)) 0"
    using z c lv by (intro replicate_eqI) (auto simp: list_ex_iff padding_def)
  moreover have "host_put16 (of_nat (4 + length ?v)) = chunk 0 2 p"
    using c host16.put_get_chunk [of 0 p] by (simp add: lv)
  moreover have "host_put16 (attr_word ?t) = chunk 2 2 p"
    using c host16.put_get_chunk [of 2 p] attr_word_unique [OF refl f] by simp
  ultimately have "attr_bytes (?t, ?v) = chunk 0 2 p @ chunk 2 2 p @ chunk 4 (?raw - 4) p @ chunk ?raw (MELODI_ALIGN ?raw - ?raw) p"
    by (simp add: attr_bytes_def)
  also have "\<dots> = take (MELODI_ALIGN ?raw) p"
  proof -
    have join: "chunk 0 2 p @ chunk 2 2 p @ chunk 4 a p @ chunk (4 + a) b p = take (4 + a + b) p" for a b
      by (simp add: chunk_join_append chunk_join) (simp add: chunk_def eval_nat_numeral)
    from join [of "?raw - 4" "MELODI_ALIGN ?raw - ?raw"] show ?thesis
      using c MELODI_ALIGN_bounds(1) [of ?raw] by simp
  qed
  finally have "p = attr_bytes (?t, ?v) @ drop (MELODI_ALIGN ?raw) p" by simp
  moreover have "attr_ok (?t, ?v)"
    using t n c lv unsigned_less [of "host_get16 p", where 'a = nat]
    by (cases "melodi_validate_nested ?t ?v") (auto simp: attr_ok_def)
  ultimately show thesis using that [of ?t ?v] t(3) r unfolding lv(2) by blast
qed

lemma attributes_update:
  "gm_attributes (m\<lparr>gm_attributes := f\<rparr>) = f" "m\<lparr>gm_attributes := f\<rparr>\<lparr>gm_attributes := g\<rparr> = m\<lparr>gm_attributes := g\<rparr>"
  by simp_all

lemma map_add_new: "t \<notin> fst ` set as \<Longrightarrow> m(t \<mapsto> v) ++ map_of as = m ++ map_of ((t, v) # as)"
  using map_of_eq_None_iff [of as t] by (intro ext) (auto simp: map_add_def split: option.splits)

lemma parse_loop_iff:
  "melodi_genl_parse_loop p m = Inr m' \<longleftrightarrow>
    (\<exists>as. p = concat (map attr_bytes as) \<and> (\<forall>a\<in>set as. attr_ok a) \<and> distinct (map fst as)
      \<and> (\<forall>a\<in>set as. gm_attributes m (fst a) = None) \<and> m' = m\<lparr>gm_attributes := gm_attributes m ++ map_of as\<rparr>)"
    (is "?parse p m \<longleftrightarrow> ?grammar p m")
proof
  show "?grammar p m" if "?parse p m"
    using that
  proof (induction "length p" arbitrary: p m rule: less_induct)
    case less
    show ?case
    proof (cases "p = []")
      case True
      with less.prems show ?thesis by (intro exI [of _ "[]"]) (simp add: melodi_genl_parse_loop.simps)
    next
      case False
      obtain t v where s: "p = attr_bytes (t, v) @ drop (MELODI_ALIGN (4 + length v)) p" "attr_ok (t, v)" "gm_attributes m t = None"
        "melodi_genl_parse_loop (drop (MELODI_ALIGN (4 + length v)) p) (m\<lparr>gm_attributes := (gm_attributes m)(t \<mapsto> v)\<rparr>) = Inr m'"
        using parse_loop_step [OF less.prems False] .
      have "length (drop (MELODI_ALIGN (4 + length v)) p) < length p"
        using False MELODI_ALIGN_bounds(1) [of "4 + length v"] by simp
      from less.hyps [OF this s(4)] obtain as where
        as: "drop (MELODI_ALIGN (4 + length v)) p = concat (map attr_bytes as)" "\<forall>a\<in>set as. attr_ok a" "distinct (map fst as)"
        "\<forall>a\<in>set as. ((gm_attributes m)(t \<mapsto> v)) (fst a) = None"
        "m' = m\<lparr>gm_attributes := (gm_attributes m)(t \<mapsto> v) ++ map_of as\<rparr>" by auto
      from as(4) have new: "t \<notin> fst ` set as" by (auto split: if_splits)
      then have "(gm_attributes m)(t \<mapsto> v) ++ map_of as = gm_attributes m ++ map_of ((t, v) # as)"
        by (rule map_add_new)
      moreover have "p = concat (map attr_bytes ((t, v) # as))" using s(1) as(1) by simp
      moreover have "\<forall>a\<in>set as. gm_attributes m (fst a) = None" using as(4) by (auto split: if_splits)
      ultimately show ?thesis using as new s by (intro exI [of _ "(t, v) # as"]) auto
    qed
  qed
next
  assume "?grammar p m"
  then obtain as where "p = concat (map attr_bytes as)" "\<forall>a\<in>set as. attr_ok a" "distinct (map fst as)"
    "\<forall>a\<in>set as. gm_attributes m (fst a) = None" "m' = m\<lparr>gm_attributes := gm_attributes m ++ map_of as\<rparr>" by blast
  then show "?parse p m"
  proof (induction as arbitrary: p m)
    case Nil
    then show ?case by (simp add: melodi_genl_parse_loop.simps)
  next
    case (Cons a as)
    obtain t v where a: "a = (t, v)" by (cases a)
    have new: "t \<notin> fst ` set as" using Cons.prems(3) by (simp add: a)
    then have eq: "(gm_attributes m)(t \<mapsto> v) ++ map_of as = gm_attributes m ++ map_of ((t, v) # as)"
        by (rule map_add_new)
    have m': "m' = (m\<lparr>gm_attributes := (gm_attributes m)(t \<mapsto> v)\<rparr>)
        \<lparr>gm_attributes := gm_attributes (m\<lparr>gm_attributes := (gm_attributes m)(t \<mapsto> v)\<rparr>) ++ map_of as\<rparr>"
      using Cons.prems(5) by (simp only: a eq attributes_update)
    have free: "\<forall>b\<in>set as. gm_attributes (m\<lparr>gm_attributes := (gm_attributes m)(t \<mapsto> v)\<rparr>) (fst b) = None"
    proof
      fix b assume "b \<in> set as"
      then have "fst b \<noteq> t" "gm_attributes m (fst b) = None" using new Cons.prems(4) by auto
      then show "gm_attributes (m\<lparr>gm_attributes := (gm_attributes m)(t \<mapsto> v)\<rparr>) (fst b) = None" by simp
    qed
    have rest: "\<forall>b\<in>set as. attr_ok b" "distinct (map fst as)" "attr_ok (t, v)" "gm_attributes m t = None"
      using Cons.prems(2-4) by (simp_all add: a)
    have "p = attr_bytes (t, v) @ concat (map attr_bytes as)" using Cons.prems(1) by (simp add: a)
    then show ?case
      using Cons.IH [OF refl rest(1,2) free m'] by (simp only: parse_loop_attribute [OF rest(3,4)])
  qed
qed

text \<open>The bits of a mask are the attributes it stands for.\<close>

lemma bit_attr_fold:
  "bit (fold (\<lambda>x m. if P x then m OR push_bit (f x) 1 else m) xs m0 :: u64) n \<longleftrightarrow>
     bit m0 n \<or> (n < 64 \<and> (\<exists>x\<in>set xs. P x \<and> f x = n))"
  by (induction xs arbitrary: m0) (auto simp: bit_simps)

lemma bit_melodi_present: "bit (melodi_present m) n \<longleftrightarrow> n \<in> {1..<42} \<and> melodi_has m (of_nat n)"
  unfolding melodi_present_def bit_attr_fold by auto

lemma bit_attr_mask: "bit (attr_mask ts) n \<longleftrightarrow> n < 64 \<and> n \<in> unat ` set ts"
  using bit_attr_fold [of "\<lambda>_. True" unat ts 0 n] by (auto simp: attr_mask_def)

lemma melodi_present_eq:
  "melodi_present m = attr_mask ts \<longleftrightarrow> (\<forall>n<64. (n \<in> {1..<42} \<and> melodi_has m (of_nat n)) = (n \<in> unat ` set ts))"
  unfolding bit_eq_iff bit_melodi_present bit_attr_mask by auto

lemma of_nat_u16_eq: "n < 42 \<Longrightarrow> (of_nat n :: u16) = w \<longleftrightarrow> n = unat w"
  unfolding word_unat_eq_iff unat_of_nat by simp

lemma melodi_present_subset:
  "melodi_present m AND NOT (attr_mask ts) = 0 \<longleftrightarrow> (\<forall>n\<in>{1..<42}. melodi_has m (of_nat n) \<longrightarrow> n \<in> unat ` set ts)"
  unfolding bit_eq_iff bit_and_iff bit_not_iff bit_melodi_present bit_attr_mask by auto

definition genl_header :: "melodi_genl_message \<Rightarrow> nat \<Rightarrow> bytes" where
  "genl_header m n = host_put32 (of_nat n) @ host_put16 (gm_family m) @ host_put16 (gm_flags m)
     @ host_put32 (gm_sequence m) @ host_put32 (gm_portid m) @ [gm_command m] @ [MELODI_GENL_VERSION] @ host_put16 0"

definition message_bytes :: "melodi_genl_message \<Rightarrow> attribute list \<Rightarrow> bytes" where
  "message_bytes m as = genl_header m (20 + length (concat (map attr_bytes as))) @ concat (map attr_bytes as)"

lemma length_genl_header [simp]: "length (genl_header m n) = 20"
  by (simp add: genl_header_def)

lemma poke_header: "poke 0 (host_put32 (of_nat k)) (genl_header m n @ rest) = genl_header m k @ rest"
  by (simp add: genl_header_def poke_start)

lemma length_message_bytes [simp]: "length (message_bytes m as) = 20 + length (concat (map attr_bytes as))"
  by (simp add: message_bytes_def del: length_concat)

lemma unat_u32_small: "n < 2 ^ 32 \<Longrightarrow> unat (of_nat n :: u32) = n"
  unfolding unat_of_nat by simp

lemma parse_header:
  "20 + length rest < 2 ^ 32 \<Longrightarrow>
   melodi_genl_parse (genl_header m (20 + length rest) @ rest) =
     (if \<not> melodi_command_valid (gm_command m) then Inl EPROTO
      else case melodi_genl_parse_loop rest (m\<lparr>gm_attributes := Map.empty\<rparr>) of
             Inl e \<Rightarrow> Inl e
           | Inr m' \<Rightarrow> (case melodi_validate_schema m' of Inl e \<Rightarrow> Inl e | Inr _ \<Rightarrow> Inr m'))"
  by (cases m) (simp add: melodi_genl_parse_def genl_header_def unat_u32_small Let_def nth_append del: of_nat_numeral of_nat_add)

lemma header_of_bytes:
  assumes "20 \<le> length bs" "unat (host_get32 bs) = length bs" "bs ! 17 = 1" "host_get16 (drop 18 bs) = 0"
    "m = \<lparr>gm_family = host_get16 (drop 4 bs), gm_flags = host_get16 (drop 6 bs),
       gm_sequence = host_get32 (drop 8 bs), gm_portid = host_get32 (drop 12 bs), gm_command = bs ! 16, gm_attributes = f\<rparr>"
  shows "bs = genl_header m (length bs) @ drop 20 bs"
proof -
  have "(of_nat (length bs) :: u32) = host_get32 bs" by (simp flip: assms(2))
  then have "genl_header m (length bs) = chunk 0 4 bs @ chunk 4 2 bs @ chunk 6 2 bs @ chunk 8 4 bs @ chunk 12 4 bs
      @ chunk 16 1 bs @ chunk 17 1 bs @ chunk 18 2 bs"
    using assms host32.put_get_chunk [of 0 bs] host32.put_get_chunk [of 8 bs] host32.put_get_chunk [of 12 bs]
      host16.put_get_chunk [of 4 bs] host16.put_get_chunk [of 6 bs] host16.put_get_chunk [of 18 bs]
      chunk_nth [of 16 bs] chunk_nth [of 17 bs]
    by (simp add: genl_header_def)
  also have "\<dots> = take 20 bs" by (simp add: chunk_join_append chunk_join) (simp add: chunk_def)
  finally show ?thesis by simp
qed

lemma genl_parse_grammar:
  "melodi_genl_parse bs = Inr m \<longleftrightarrow>
    (\<exists>as. bs = message_bytes m as \<and> length bs < 2 ^ 32 \<and> list_all attr_ok as \<and> distinct (map fst as)
      \<and> gm_attributes m = map_of as \<and> melodi_command_valid (gm_command m) \<and> melodi_validate_schema m = Inr ())"
proof
  assume p: "melodi_genl_parse bs = Inr m"
  define m0 where "m0 = \<lparr>gm_family = host_get16 (drop 4 bs), gm_flags = host_get16 (drop 6 bs),
      gm_sequence = host_get32 (drop 8 bs), gm_portid = host_get32 (drop 12 bs), gm_command = bs ! 16, gm_attributes = Map.empty\<rparr>"
  from p have h: "20 \<le> length bs" "unat (host_get32 bs) = length bs" "bs ! 17 = 1" "host_get16 (drop 18 bs) = 0"
    "melodi_command_valid (bs ! 16)" and l: "melodi_genl_parse_loop (drop 20 bs) m0 = Inr m" and v: "melodi_validate_schema m = Inr ()"
    by (auto simp: melodi_genl_parse_def Let_def m0_def nth_drop split: if_splits sum.splits)
  from l obtain as where as: "drop 20 bs = concat (map attr_bytes as)" "\<forall>a\<in>set as. attr_ok a" "distinct (map fst as)"
    "m = m0\<lparr>gm_attributes := map_of as\<rparr>" unfolding parse_loop_iff by (auto simp: m0_def)
  have "bs = genl_header m (length bs) @ drop 20 bs"
    using h(1-4) by (rule header_of_bytes) (simp add: as(4) m0_def)
  moreover have "length bs = 20 + length (concat (map attr_bytes as))" using h(1) by (simp flip: as(1) del: length_concat)
  ultimately have "bs = message_bytes m as" unfolding message_bytes_def using as(1) by metis
  moreover have "length bs < 2 ^ 32" using h(2) unsigned_less [of "host_get32 bs", where 'a = nat] by simp
  ultimately show "\<exists>as. bs = message_bytes m as \<and> length bs < 2 ^ 32 \<and> list_all attr_ok as \<and> distinct (map fst as)
      \<and> gm_attributes m = map_of as \<and> melodi_command_valid (gm_command m) \<and> melodi_validate_schema m = Inr ()"
    using as h v by (intro exI [of _ as]) (simp add: list_all_iff m0_def)
next
  assume "\<exists>as. bs = message_bytes m as \<and> length bs < 2 ^ 32 \<and> list_all attr_ok as \<and> distinct (map fst as)
      \<and> gm_attributes m = map_of as \<and> melodi_command_valid (gm_command m) \<and> melodi_validate_schema m = Inr ()"
  then obtain as where as: "bs = message_bytes m as" "length bs < 2 ^ 32" "list_all attr_ok as" "distinct (map fst as)"
    "gm_attributes m = map_of as" "melodi_command_valid (gm_command m)" "melodi_validate_schema m = Inr ()" by blast
  let ?p = "concat (map attr_bytes as)"
  have m: "m = m\<lparr>gm_attributes := Map.empty\<rparr>\<lparr>gm_attributes := map_of as\<rparr>" using as(5) by simp
  have "melodi_genl_parse_loop ?p (m\<lparr>gm_attributes := Map.empty\<rparr>) = Inr m"
    unfolding parse_loop_iff using as(3,4) m by (intro exI [of _ as]) (simp add: list_all_iff)
  with as parse_header [of ?p m] show "melodi_genl_parse bs = Inr m"
    by (simp add: message_bytes_def del: length_concat)
qed

text \<open>
  C37. The parser accepts exactly the messages of the grammar: a header with the length, the version
  and a known command, followed by aligned attributes of known types and widths, none twice, nests
  flagged and well-formed, padding zero, such that the attributes obey the schema of the command.
  The parsed message has exactly these attributes.
\<close>

theorem genl_parse_iff:
  "melodi_genl_parse bs = Inr m \<longleftrightarrow>
    (\<exists>as. bs = message_bytes m as \<and> length bs < 2 ^ 32 \<and> list_all attr_ok as \<and> distinct (map fst as)
      \<and> gm_attributes m = map_of as \<and> melodi_command_valid (gm_command m) \<and> melodi_validate_schema m = Inr ())"
  by (rule genl_parse_grammar)

subsection \<open>Built messages\<close>

fun put_all :: "melodi_genl_builder \<Rightarrow> attribute list \<Rightarrow> melodi_genl_builder res" where
  "put_all b [] = Inr b"
| "put_all b ((t, v) # as) = (case melodi_genl_put b t v of Inl e \<Rightarrow> Inl e | Inr b \<Rightarrow> put_all b as)"

definition build :: "bytes \<Rightarrow> melodi_genl_message \<Rightarrow> attribute list \<Rightarrow> bytes res" where
  "build buffer m as =
     (case melodi_genl_begin buffer (gm_family m) (gm_flags m) (gm_sequence m) (gm_portid m) (gm_command m) of
        Inl e \<Rightarrow> Inl e
      | Inr b \<Rightarrow>
          (case put_all b as of
             Inl e \<Rightarrow> Inl e
           | Inr b \<Rightarrow> (case melodi_genl_end b of Inl e \<Rightarrow> Inl e | Inr b \<Rightarrow> Inr (take (bld_length b) (bld_data b)))))"

definition built :: "melodi_genl_builder \<Rightarrow> bytes \<Rightarrow> bool" where
  "built b pre \<longleftrightarrow> (\<exists>rest. bld_data b = pre @ rest) \<and> bld_length b = length pre \<and> bld_capacity b = length (bld_data b)"

lemma begin_built:
  "melodi_genl_begin buffer (gm_family m) (gm_flags m) (gm_sequence m) (gm_portid m) (gm_command m) =
    (if length buffer < 20 \<or> \<not> melodi_command_valid (gm_command m) then Inl EINVAL
     else Inr \<lparr>bld_data = genl_header m 20 @ replicate (length buffer - 20) 0, bld_capacity = length buffer, bld_length = 20\<rparr>)"
proof -
  let ?d = "poke 18 (host_put16 0) (poke 17 [1] (poke 16 [gm_command m] (poke 12 (host_put32 (gm_portid m))
    (poke 8 (host_put32 (gm_sequence m)) (poke 6 (host_put16 (gm_flags m)) (poke 4 (host_put16 (gm_family m))
    (poke 0 (host_put32 20) (replicate (length buffer) 0))))))))"
  have "?d = genl_header m 20 @ replicate (length buffer - 20) 0" if "20 \<le> length buffer"
    using that by (simp add: poke_start poke_fill del: append.simps append_assoc) (simp add: genl_header_def)
  then show ?thesis by (simp add: melodi_genl_begin_def Let_def not_less)
qed

lemma put_built:
  assumes "built b pre" "melodi_genl_put b t v = Inr b'" "\<not> melodi_attribute_nested t"
  shows "built b' (pre @ attr_bytes (t, v)) \<and> attr_ok (t, v)"
proof -
  obtain rest where b: "bld_data b = pre @ rest" "bld_length b = length pre" "bld_capacity b = length pre + length rest"
    using assms(1) by (auto simp: built_def)
  have c: "t \<noteq> 0" "t \<le> 41" "melodi_attribute_width t (length v)" "MELODI_ALIGN (4 + length v) \<le> length rest"
    and b': "b' = b\<lparr>bld_data := poke (length pre + (4 + length v)) (replicate (MELODI_ALIGN (4 + length v) - (4 + length v)) 0)
      (poke (length pre + 4) v (poke (length pre + 2) (host_put16 t) (poke (length pre) (host_put16 (of_nat (4 + length v))) (pre @ rest)))),
      bld_length := length pre + MELODI_ALIGN (4 + length v)\<rparr>"
    using assms(2) by (auto simp: melodi_genl_put_def Let_def b not_less split: if_splits)
  have "length v < 65532" using c(3) assms(3) by (auto simp: melodi_attribute_width_def melodi_attribute_nested_def split: if_splits)
  moreover have "bld_data b' = pre @ attr_bytes (t, v) @ drop (MELODI_ALIGN (4 + length v)) rest"
    using c(4) assms(3) MELODI_ALIGN_bounds(1) [of "length v + 4"] unfolding b'
    by (simp add: poke_fill del: append.simps append_assoc)
       (simp add: attr_bytes_def attr_word_def aligned_padding padding_def add.commute)
  ultimately show ?thesis
    using c assms(3) b b' by (auto simp: built_def attr_ok_def)
qed

lemma put_all_built:
  assumes "built b pre" "put_all b as = Inr b'" "\<forall>a\<in>set as. \<not> melodi_attribute_nested (fst a)"
  shows "built b' (pre @ concat (map attr_bytes as)) \<and> (\<forall>a\<in>set as. attr_ok a)"
  using assms
proof (induction as arbitrary: b pre)
  case (Cons a as)
  obtain t v where a: "a = (t, v)" by (cases a)
  with Cons.prems(2) obtain c where c: "melodi_genl_put b t v = Inr c" "put_all c as = Inr b'"
    by (auto split: sum.splits)
  have "\<not> melodi_attribute_nested t" using Cons.prems(3) by (simp add: a)
  from put_built [OF Cons.prems(1) c(1) this] Cons.IH [of c "pre @ attr_bytes (t, v)"] c(2) Cons.prems(3)
  show ?case by (simp add: a)
qed simp

text \<open>
  C38. What the builder produces from a sequence of puts of plain attributes, none twice, the parser
  reads back: header and attributes are the given ones, and only the schema of the command decides
  about acceptance.
\<close>

theorem genl_build_parse:
  assumes "build buffer m as = Inr bs" "distinct (map fst as)" "\<forall>a\<in>set as. \<not> melodi_attribute_nested (fst a)"
    and "gm_attributes m = map_of as"
  shows "melodi_genl_parse bs = (case melodi_validate_schema m of Inl e \<Rightarrow> Inl e | Inr _ \<Rightarrow> Inr m)"
proof -
  let ?p = "concat (map attr_bytes as)"
  obtain b b' where b: "melodi_genl_begin buffer (gm_family m) (gm_flags m) (gm_sequence m) (gm_portid m) (gm_command m) = Inr b"
    "put_all b as = Inr b'" "bld_length b' < 2 ^ 32"
    "bs = take (bld_length b') (poke 0 (host_put32 (of_nat (bld_length b'))) (bld_data b'))"
    using assms(1) by (auto simp: build_def melodi_genl_end_def split: sum.splits if_splits)
  have cmd: "melodi_command_valid (gm_command m)" and "built b (genl_header m 20)"
    using b(1) unfolding begin_built by (auto simp: built_def split: if_splits)
  from put_all_built [OF this(2) b(2) assms(3)] obtain rest where
    b': "bld_data b' = genl_header m 20 @ ?p @ rest" "bld_length b' = 20 + length ?p" and ok: "\<forall>a\<in>set as. attr_ok a"
    by (auto simp: built_def simp del: length_concat)
  have "bs = genl_header m (20 + length ?p) @ ?p"
    unfolding b(4) b' poke_header by (simp del: length_concat of_nat_add)
  moreover have "20 + length ?p < 2 ^ 32" using b(3) b'(2) by simp
  moreover have "melodi_genl_parse_loop ?p (m\<lparr>gm_attributes := Map.empty\<rparr>) = Inr m"
    unfolding parse_loop_iff using ok assms(2,4) by (intro exI [of _ as]) simp
  ultimately show ?thesis using cmd by (simp add: parse_header)
qed

theorem genl_build_parse_witness:
  "\<exists>bs. build (replicate 40 0) \<lparr>gm_family = 20, gm_flags = 1, gm_sequence = 5, gm_portid = 0,
       gm_command = MELODI_CMD_DISCOVER, gm_attributes = map_of [(MELODI_A_IFINDEX, [7, 0, 0, 0])]\<rparr>
       [(MELODI_A_IFINDEX, [7, 0, 0, 0])] = Inr bs
     \<and> melodi_genl_parse bs = Inr \<lparr>gm_family = 20, gm_flags = 1, gm_sequence = 5, gm_portid = 0,
       gm_command = MELODI_CMD_DISCOVER, gm_attributes = map_of [(MELODI_A_IFINDEX, [7, 0, 0, 0])]\<rparr>"
proof -
  let ?m = "\<lparr>gm_family = 20, gm_flags = 1, gm_sequence = 5, gm_portid = 0,
       gm_command = MELODI_CMD_DISCOVER, gm_attributes = map_of [(MELODI_A_IFINDEX, [7, 0, 0, 0])]\<rparr> :: melodi_genl_message"
  let ?as = "[(MELODI_A_IFINDEX, [7, 0, 0, 0])] :: attribute list"
  have "\<not> isl (build (replicate 40 0) ?m ?as)"
    by (simp add: build_def melodi_genl_begin_def melodi_command_valid_def melodi_genl_put_def melodi_attribute_width_def
        MELODI_ALIGN_def Let_def melodi_genl_end_def)
  then obtain bs where bs: "build (replicate 40 0) ?m ?as = Inr bs" by (cases "build (replicate 40 0) ?m ?as") auto
  have "melodi_present ?m = attr_mask [MELODI_A_IFINDEX]"
    unfolding melodi_present_eq by (auto simp: melodi_has_def of_nat_u16_eq split: if_splits)
  then have "melodi_validate_schema ?m = Inr ()"
    by (simp add: melodi_validate_schema_def accept_if_def Let_def)
  moreover have "melodi_genl_parse bs = (case melodi_validate_schema ?m of Inl e \<Rightarrow> Inl e | Inr _ \<Rightarrow> Inr ?m)"
    using bs by (rule genl_build_parse) (simp_all add: melodi_attribute_nested_def)
  ultimately show ?thesis using bs by auto
qed

text \<open>
  C39. A send request that the parser accepts is well-formed: it names a service and a payload of at
  most the message size, it uses known flags, exactly one of a destination node and the broadcast
  flag, a broadcast is neither reliable nor ordered and fits one frame, and priority and lifetime
  are in range.
\<close>

theorem genl_send_accepted:
  assumes "melodi_genl_parse bs = Inr m" "gm_command m = MELODI_CMD_SEND"
  shows "\<exists>service payload. gm_attributes m MELODI_A_DEST_SERVICE = Some service \<and> length service = 2
    \<and> gm_attributes m MELODI_A_PAYLOAD = Some payload \<and> length payload \<le> 4096
    \<and> (let flags = (case gm_attributes m MELODI_A_FLAGS of None \<Rightarrow> 0 | Some f \<Rightarrow> host_get32 f)
       in flags AND NOT MELODI_F_ALL = 0
        \<and> (case gm_attributes m MELODI_A_DEST_NODE of
             None \<Rightarrow> flags AND MELODI_F_BROADCAST \<noteq> 0 \<and> flags AND (MELODI_F_RELIABLE OR MELODI_F_ORDERED) = 0
               \<and> length payload \<le> 512
           | Some node \<Rightarrow> flags AND MELODI_F_BROADCAST = 0 \<and> length node = 33))
    \<and> (case gm_attributes m MELODI_A_PRIORITY of None \<Rightarrow> True | Some p \<Rightarrow> length p = 1 \<and> p ! 0 \<le> 3)
    \<and> (case gm_attributes m MELODI_A_TTL_MS of
         None \<Rightarrow> True | Some t \<Rightarrow> length t = 4 \<and> host_get32 t \<noteq> 0 \<and> host_get32 t \<le> 30000)"
proof -
  obtain as where as: "list_all attr_ok as" "gm_attributes m = map_of as" and v: "melodi_validate_schema m = Inr ()"
    using assms(1) unfolding genl_parse_grammar by blast
  have width: "melodi_attribute_width t (length v)" if "gm_attributes m t = Some v" for t v
    using that as by (auto simp: list_all_iff attr_ok_def dest!: map_of_SomeD)
  have send: "melodi_validate_send m = Inr ()"
    using v assms(2) by (simp add: melodi_validate_schema_def Let_def split: if_splits)
  then obtain service payload where sp: "gm_attributes m MELODI_A_DEST_SERVICE = Some service" "gm_attributes m MELODI_A_PAYLOAD = Some payload"
    by (auto simp: melodi_validate_send_def melodi_has_def split: if_splits)
  show ?thesis
    using send sp width [of MELODI_A_DEST_SERVICE] width [of MELODI_A_PAYLOAD] width [of MELODI_A_DEST_NODE]
      width [of MELODI_A_PRIORITY] width [of MELODI_A_TTL_MS]
    by (auto simp: melodi_validate_send_def Let_def melodi_has_def attribute_value_def melodi_attribute_width_def not_less
        split: if_splits option.splits)
qed

theorem genl_send_accepted_witness:
  "\<exists>bs m. melodi_genl_parse bs = Inr m \<and> gm_command m = MELODI_CMD_SEND
     \<and> (\<exists>payload. gm_attributes m MELODI_A_PAYLOAD = Some payload \<and> payload \<noteq> [] \<and> length payload \<le> 4096)"
proof -
  let ?as = "[(MELODI_A_DEST_SERVICE, [1, 0]), (MELODI_A_PAYLOAD, [9]), (MELODI_A_FLAGS, [8, 0, 0, 0])] :: attribute list"
  let ?m = "\<lparr>gm_family = 20, gm_flags = 1, gm_sequence = 5, gm_portid = 0,
       gm_command = MELODI_CMD_SEND, gm_attributes = map_of ?as\<rparr> :: melodi_genl_message"
  have present: "melodi_present ?m AND NOT (attr_mask [MELODI_A_DEST_NODE, MELODI_A_DEST_SERVICE, MELODI_A_PAYLOAD,
      MELODI_A_FLAGS, MELODI_A_COOKIE, MELODI_A_TTL_MS, MELODI_A_PRIORITY]) = 0"
    unfolding melodi_present_subset by (auto simp: melodi_has_def of_nat_u16_eq split: if_splits)
  have "melodi_validate_send ?m = Inr ()"
    by (simp add: melodi_validate_send_def melodi_has_def attribute_value_def host_get32_def Let_def)
  with present have "melodi_validate_schema ?m = Inr ()" by (simp add: melodi_validate_schema_def Let_def)
  moreover have "list_all attr_ok ?as"
    by (simp add: attr_ok_def melodi_attribute_width_def melodi_attribute_nested_def)
  ultimately have parse: "melodi_genl_parse (message_bytes ?m ?as) = Inr ?m"
    unfolding genl_parse_grammar
    by (intro exI [of _ ?as]) (simp add: melodi_command_valid_def MELODI_ALIGN_def)
  from genl_send_accepted [OF this] show ?thesis
    by (intro exI [of _ "message_bytes ?m ?as"] exI [of _ ?m]) (use parse in auto)
qed

end
