(* ===== verification/Usb_Contract.thy ===== *)
theory Usb_Contract
  imports Prelude
begin

text \<open>
  Which USB radios the driver binds to, \<open>src/kernel/usb/contract.c\<close>: the descriptor contract
  and the firmware versions. A (string pointer, length) pair is the list of its octets.
\<close>

definition c_string :: "string \<Rightarrow> bytes" where
  "c_string s = map (\<lambda>c. of_nat (of_char c)) s"

abbreviation (input) MELODI_USB_TEST_VENDOR :: u16 where "MELODI_USB_TEST_VENDOR \<equiv> 0x1d6b"
abbreviation (input) MELODI_USB_TEST_PRODUCT :: u16 where "MELODI_USB_TEST_PRODUCT \<equiv> 0xf00d"
abbreviation (input) MELODI_USB_TEST_BCD :: u16 where "MELODI_USB_TEST_BCD \<equiv> 0x0100"
abbreviation (input) MELODI_USB_TEST_INTERFACE :: u8 where "MELODI_USB_TEST_INTERFACE \<equiv> 0"
abbreviation (input) MELODI_USB_TEST_CLASS :: u8 where "MELODI_USB_TEST_CLASS \<equiv> 0xff"
abbreviation (input) MELODI_USB_TEST_SUBCLASS :: u8 where "MELODI_USB_TEST_SUBCLASS \<equiv> 0x4d"
abbreviation (input) MELODI_USB_TEST_PROTOCOL :: u8 where "MELODI_USB_TEST_PROTOCOL \<equiv> 0x01"
abbreviation (input) MELODI_USB_TEST_IN :: u8 where "MELODI_USB_TEST_IN \<equiv> 0x81"
abbreviation (input) MELODI_USB_TEST_OUT :: u8 where "MELODI_USB_TEST_OUT \<equiv> 0x01"
abbreviation (input) MELODI_USB_TEST_MAX_PACKET :: u16 where "MELODI_USB_TEST_MAX_PACKET \<equiv> 512"
abbreviation (input) MELODI_USB_TEST_PRODUCT_NAME :: bytes where "MELODI_USB_TEST_PRODUCT_NAME \<equiv> c_string ''Melodi USB Test Radio''"
abbreviation (input) MELODI_USB_PICO_VENDOR :: u16 where "MELODI_USB_PICO_VENDOR \<equiv> 0x2e8a"
abbreviation (input) MELODI_USB_PICO_PRODUCT :: u16 where "MELODI_USB_PICO_PRODUCT \<equiv> 0x000a"
abbreviation (input) MELODI_USB_PICO_BCD :: u16 where "MELODI_USB_PICO_BCD \<equiv> 0x0100"
abbreviation (input) MELODI_USB_CDC_INTERFACE :: u8 where "MELODI_USB_CDC_INTERFACE \<equiv> 1"
abbreviation (input) MELODI_USB_CDC_CLASS :: u8 where "MELODI_USB_CDC_CLASS \<equiv> 0x0a"
abbreviation (input) MELODI_USB_CDC_SUBCLASS :: u8 where "MELODI_USB_CDC_SUBCLASS \<equiv> 0x00"
abbreviation (input) MELODI_USB_CDC_PROTOCOL :: u8 where "MELODI_USB_CDC_PROTOCOL \<equiv> 0x00"
abbreviation (input) MELODI_USB_CDC_IN :: u8 where "MELODI_USB_CDC_IN \<equiv> 0x82"
abbreviation (input) MELODI_USB_CDC_OUT :: u8 where "MELODI_USB_CDC_OUT \<equiv> 0x01"
abbreviation (input) MELODI_USB_CDC_MAX_PACKET :: u16 where "MELODI_USB_CDC_MAX_PACKET \<equiv> 64"
abbreviation (input) MELODI_USB_PICO_PRODUCT_NAME :: bytes where "MELODI_USB_PICO_PRODUCT_NAME \<equiv> c_string ''Pico''"
abbreviation (input) MELODI_USB_FEATHER_VENDOR :: u16 where "MELODI_USB_FEATHER_VENDOR \<equiv> 0x239a"
abbreviation (input) MELODI_USB_FEATHER_PRODUCT :: u16 where "MELODI_USB_FEATHER_PRODUCT \<equiv> 0x812d"
abbreviation (input) MELODI_USB_FEATHER_BCD :: u16 where "MELODI_USB_FEATHER_BCD \<equiv> 0x0100"
abbreviation (input) MELODI_USB_FEATHER_PRODUCT_NAME :: bytes where "MELODI_USB_FEATHER_PRODUCT_NAME \<equiv> c_string ''Feather RP2040 RFM''"
abbreviation (input) MELODI_USB_CONTRACT_ENDPOINTS :: u8 where "MELODI_USB_CONTRACT_ENDPOINTS \<equiv> 2"
abbreviation (input) MELODI_USB_ENDPOINT_BULK :: u8 where "MELODI_USB_ENDPOINT_BULK \<equiv> 2"
abbreviation (input) MELODI_USB_CONTRACT_TEST :: u8 where "MELODI_USB_CONTRACT_TEST \<equiv> 1"
abbreviation (input) MELODI_USB_CONTRACT_CDC :: u8 where "MELODI_USB_CONTRACT_CDC \<equiv> 2"

record melodi_usb_contract_endpoint =
  ep_max_packet :: u16
  ep_address :: u8
  ep_attributes :: u8

record melodi_usb_contract =
  uc_endpoints :: "melodi_usb_contract_endpoint list"
  uc_product :: bytes
  uc_serial :: bytes
  uc_vendor :: u16
  uc_product_id :: u16
  uc_device_version :: u16
  uc_interface_number :: u8
  uc_alternate :: u8
  uc_interface_class :: u8
  uc_interface_subclass :: u8
  uc_interface_protocol :: u8
  uc_endpoint_count :: u8
  uc_profile :: u8
  uc_full_speed :: bool
  uc_high_speed :: bool

text \<open>The loop over the endpoints, with the flags \<open>found_in\<close> and \<open>found_out\<close>.\<close>

fun melodi_usb_contract_scan ::
  "u16 \<Rightarrow> u8 \<Rightarrow> u8 \<Rightarrow> melodi_usb_contract_endpoint list \<Rightarrow> bool \<Rightarrow> bool \<Rightarrow> unit res" where
  "melodi_usb_contract_scan max_packet inp out [] found_in found_out =
     (if found_in \<and> found_out then Inr () else Inl ENODEV)"
| "melodi_usb_contract_scan max_packet inp out (e # es) found_in found_out =
     (if ep_attributes e \<noteq> MELODI_USB_ENDPOINT_BULK \<or> ep_max_packet e \<noteq> max_packet then Inl ENODEV
      else if ep_address e = inp \<and> \<not> found_in then melodi_usb_contract_scan max_packet inp out es True found_out
      else if ep_address e = out \<and> \<not> found_out then melodi_usb_contract_scan max_packet inp out es found_in True
      else Inl ENODEV)"

definition melodi_usb_contract_validate :: "melodi_usb_contract \<Rightarrow> unit res" where
  "melodi_usb_contract_validate contract =
     (if uc_alternate contract \<noteq> 0 \<or> uc_endpoint_count contract \<noteq> MELODI_USB_CONTRACT_ENDPOINTS \<or>
         length (uc_serial contract) = 0 \<or> length (uc_serial contract) > 64
      then Inl ENODEV
      else
        case (if uc_profile contract = MELODI_USB_CONTRACT_TEST
              then if uc_vendor contract \<noteq> MELODI_USB_TEST_VENDOR \<or>
                      uc_product_id contract \<noteq> MELODI_USB_TEST_PRODUCT \<or>
                      uc_device_version contract \<noteq> MELODI_USB_TEST_BCD \<or>
                      uc_interface_number contract \<noteq> MELODI_USB_TEST_INTERFACE \<or>
                      uc_interface_class contract \<noteq> MELODI_USB_TEST_CLASS \<or>
                      uc_interface_subclass contract \<noteq> MELODI_USB_TEST_SUBCLASS \<or>
                      uc_interface_protocol contract \<noteq> MELODI_USB_TEST_PROTOCOL \<or>
                      \<not> uc_high_speed contract
                   then Inl ENODEV
                   else Inr (MELODI_USB_TEST_PRODUCT_NAME, MELODI_USB_TEST_MAX_PACKET, MELODI_USB_TEST_IN, MELODI_USB_TEST_OUT)
              else if uc_profile contract = MELODI_USB_CONTRACT_CDC
              then case (if uc_vendor contract = MELODI_USB_PICO_VENDOR \<and>
                            uc_product_id contract = MELODI_USB_PICO_PRODUCT \<and>
                            uc_device_version contract = MELODI_USB_PICO_BCD
                         then Inr MELODI_USB_PICO_PRODUCT_NAME
                         else if uc_vendor contract = MELODI_USB_FEATHER_VENDOR \<and>
                                 uc_product_id contract = MELODI_USB_FEATHER_PRODUCT \<and>
                                 uc_device_version contract = MELODI_USB_FEATHER_BCD
                         then Inr MELODI_USB_FEATHER_PRODUCT_NAME
                         else Inl ENODEV) of
                     Inl e \<Rightarrow> Inl e
                   | Inr product \<Rightarrow>
                       if uc_interface_number contract \<noteq> MELODI_USB_CDC_INTERFACE \<or>
                          uc_interface_class contract \<noteq> MELODI_USB_CDC_CLASS \<or>
                          uc_interface_subclass contract \<noteq> MELODI_USB_CDC_SUBCLASS \<or>
                          uc_interface_protocol contract \<noteq> MELODI_USB_CDC_PROTOCOL \<or>
                          \<not> uc_full_speed contract \<or> length (uc_serial contract) \<noteq> 16
                       then Inl ENODEV
                       else Inr (product, MELODI_USB_CDC_MAX_PACKET, MELODI_USB_CDC_IN, MELODI_USB_CDC_OUT)
              else Inl ENODEV) of
          Inl e \<Rightarrow> Inl e
        | Inr (product, max_packet, inp, out) \<Rightarrow>
            if uc_product contract \<noteq> product then Inl ENODEV
            else if list_ex (\<lambda>c. c < 0x21 \<or> c > 0x7e \<or> c = 0x2c) (uc_serial contract) then Inl ENODEV
            else if uc_profile contract = MELODI_USB_CONTRACT_CDC \<and>
                    list_ex (\<lambda>c. \<not> (0x30 \<le> c \<and> c \<le> 0x39 \<or> 0x41 \<le> c \<and> c \<le> 0x46)) (uc_serial contract)
            then Inl ENODEV
            else melodi_usb_contract_scan max_packet inp out (uc_endpoints contract) False False)"

definition melodi_usb_firmware_supported :: "bytes \<Rightarrow> bool \<Rightarrow> bool" where
  "melodi_usb_firmware_supported firmware test_profile =
     (if firmware = [] then False
      else if test_profile then firmware = c_string ''melodi-usb-test-1''
      else if length firmware < 5 \<or> firmware ! 0 \<noteq> 0x32 \<or> firmware ! 1 \<noteq> 0x2e \<or> firmware ! 3 \<noteq> 0x2e \<or>
              firmware ! 2 < 0x30 \<or> firmware ! 2 > 0x39
      then False
      else
        let minor = firmware ! 2 - 0x30
        in if minor < 7 \<or> minor > 8 then False
           else if list_ex (\<lambda>c. c < 0x20 \<or> c > 0x7e) (drop 4 firmware) then False
           else 0x30 \<le> firmware ! 4 \<and> firmware ! 4 \<le> 0x39)"

subsection \<open>The table of supported hardware\<close>

record hardware =
  hw_profile :: u8
  hw_ids :: "u16 \<times> u16 \<times> u16"
  hw_interface :: "u8 \<times> u8 \<times> u8 \<times> u8"
  hw_name :: bytes
  hw_serial :: "bytes \<Rightarrow> bool"
  hw_speed :: "melodi_usb_contract \<Rightarrow> bool"
  hw_endpoints :: "u8 \<times> u8 \<times> u16"

definition printable_serial :: "bytes \<Rightarrow> bool" where
  "printable_serial s \<longleftrightarrow> s \<noteq> [] \<and> length s \<le> 64 \<and> (\<forall>c\<in>set s. 0x21 \<le> c \<and> c \<le> 0x7e \<and> c \<noteq> 0x2c)"

definition hex_serial :: "bytes \<Rightarrow> bool" where
  "hex_serial s \<longleftrightarrow> length s = 16 \<and> (\<forall>c\<in>set s. 0x30 \<le> c \<and> c \<le> 0x39 \<or> 0x41 \<le> c \<and> c \<le> 0x46)"

definition test_radio :: hardware where
  "test_radio = \<lparr>hw_profile = 1, hw_ids = (0x1d6b, 0xf00d, 0x0100), hw_interface = (0, 0xff, 0x4d, 1),
     hw_name = c_string ''Melodi USB Test Radio'', hw_serial = printable_serial, hw_speed = uc_high_speed,
     hw_endpoints = (0x81, 0x01, 512)\<rparr>"

definition pico :: hardware where
  "pico = \<lparr>hw_profile = 2, hw_ids = (0x2e8a, 0x000a, 0x0100), hw_interface = (1, 0x0a, 0, 0),
     hw_name = c_string ''Pico'', hw_serial = hex_serial, hw_speed = uc_full_speed, hw_endpoints = (0x82, 0x01, 64)\<rparr>"

definition feather :: hardware where
  "feather = \<lparr>hw_profile = 2, hw_ids = (0x239a, 0x812d, 0x0100), hw_interface = (1, 0x0a, 0, 0),
     hw_name = c_string ''Feather RP2040 RFM'', hw_serial = hex_serial, hw_speed = uc_full_speed,
     hw_endpoints = (0x82, 0x01, 64)\<rparr>"

definition bulk :: "u16 \<Rightarrow> u8 \<Rightarrow> melodi_usb_contract_endpoint" where
  "bulk n a = \<lparr>ep_max_packet = n, ep_address = a, ep_attributes = 2\<rparr>"

definition fits :: "melodi_usb_contract \<Rightarrow> hardware \<Rightarrow> bool" where
  "fits c h \<longleftrightarrow> uc_profile c = hw_profile h \<and> (uc_vendor c, uc_product_id c, uc_device_version c) = hw_ids h
     \<and> (uc_interface_number c, uc_interface_class c, uc_interface_subclass c, uc_interface_protocol c) = hw_interface h
     \<and> uc_alternate c = 0 \<and> uc_endpoint_count c = 2 \<and> uc_product c = hw_name h \<and> hw_serial h (uc_serial c) \<and> hw_speed h c
     \<and> (case hw_endpoints h of (i, out, n) \<Rightarrow> uc_endpoints c = [bulk n i, bulk n out] \<or> uc_endpoints c = [bulk n out, bulk n i])"

lemma contract_scan:
  assumes "i \<noteq> out" "length es = 2"
  shows "melodi_usb_contract_scan n i out es False False = Inr () \<longleftrightarrow> es = [bulk n i, bulk n out] \<or> es = [bulk n out, bulk n i]"
proof -
  obtain d e where "es = [d, e]" using assms(2) by (auto simp: eval_nat_numeral length_Suc_conv)
  then show ?thesis using assms(1) by (cases d; cases e) (auto simp: bulk_def)
qed

lemma hex_printable: "hex_serial s \<Longrightarrow> printable_serial s"
proof -
  assume h: "hex_serial s"
  have "0x21 \<le> c \<and> c \<le> 0x7e \<and> c \<noteq> (0x2c :: u8)" if "0x30 \<le> c \<and> c \<le> 0x39 \<or> 0x41 \<le> c \<and> c \<le> 0x46" for c :: u8
    using that by (auto simp: word_le_nat_alt)
  then show ?thesis using h by (auto simp: hex_serial_def printable_serial_def)
qed

text \<open>
  C40. The driver binds exactly to the three supported radios: the contract is accepted if and only
  if every field of the descriptor is that of the test radio, the Pico or the Feather, with a legal
  serial number and the pair of bulk endpoints in either order.
\<close>

theorem usb_contract_supported:
  assumes "length (uc_endpoints c) = 2"
  shows "melodi_usb_contract_validate c = Inr () \<longleftrightarrow> fits c test_radio \<or> fits c pico \<or> fits c feather"
proof -
  have test: "printable_serial (uc_serial c) \<longleftrightarrow> uc_serial c \<noteq> [] \<and> length (uc_serial c) \<le> 64
      \<and> \<not> list_ex (\<lambda>c. c < 0x21 \<or> c > 0x7e \<or> c = 0x2c) (uc_serial c)"
    by (auto simp: printable_serial_def list_ex_iff not_less)
  have hex: "hex_serial (uc_serial c) \<longleftrightarrow> printable_serial (uc_serial c) \<and> length (uc_serial c) = 16
      \<and> \<not> list_ex (\<lambda>c. \<not> (0x30 \<le> c \<and> c \<le> 0x39 \<or> 0x41 \<le> c \<and> c \<le> 0x46)) (uc_serial c)"
    using hex_printable [of "uc_serial c"] by (auto simp: hex_serial_def list_ex_iff)
  have scan: "melodi_usb_contract_scan n i out (uc_endpoints c) False False = Inr () \<longleftrightarrow>
      uc_endpoints c = [bulk n i, bulk n out] \<or> uc_endpoints c = [bulk n out, bulk n i]" if "i \<noteq> out" for n i out
    using that assms by (rule contract_scan)
  consider "uc_profile c = 1" | "uc_profile c = 2" | "uc_profile c \<noteq> 1" "uc_profile c \<noteq> 2" by blast
  then show ?thesis
  proof cases
    case 1
    then show ?thesis
      by (auto simp: melodi_usb_contract_validate_def fits_def test_radio_def pico_def feather_def test scan not_less)
  next
    case 2
    then show ?thesis
      by (auto simp: melodi_usb_contract_validate_def fits_def test_radio_def pico_def feather_def hex test scan not_less)
  next
    case 3
    then show ?thesis
      by (simp add: melodi_usb_contract_validate_def fits_def test_radio_def pico_def feather_def)
  qed
qed

theorem usb_contract_supported_witness:
  "melodi_usb_contract_validate
     \<lparr>uc_endpoints = [bulk 64 0x01, bulk 64 0x82], uc_product = c_string ''Pico'', uc_serial = c_string ''0123456789ABCDEF'',
      uc_vendor = 0x2e8a, uc_product_id = 0x000a, uc_device_version = 0x0100, uc_interface_number = 1, uc_alternate = 0,
      uc_interface_class = 0x0a, uc_interface_subclass = 0, uc_interface_protocol = 0, uc_endpoint_count = 2,
      uc_profile = 2, uc_full_speed = True, uc_high_speed = False\<rparr> = Inr ()"
  by (subst usb_contract_supported) (simp_all add: fits_def pico_def hex_serial_def c_string_def)

text \<open>
  Apart from the test firmware, exactly the versions 2.7 and 2.8 with a numbered patch level and
  an otherwise printable rest are supported.
\<close>

lemma usb_firmware_versions:
  "melodi_usb_firmware_supported firmware test_profile \<longleftrightarrow>
     (if test_profile then firmware = c_string ''melodi-usb-test-1''
      else (\<exists>minor patch rest. firmware = c_string ''2.'' @ [minor] @ c_string ''.'' @ [patch] @ rest
        \<and> minor \<in> {0x37, 0x38} \<and> 0x30 \<le> patch \<and> patch \<le> 0x39 \<and> list_all (\<lambda>c. 0x20 \<le> c \<and> c \<le> 0x7e) rest))"
proof (cases "test_profile \<or> length firmware < 5")
  case True
  then show ?thesis by (auto simp: melodi_usb_firmware_supported_def c_string_def)
next
  case False
  then have "Suc (Suc (Suc (Suc (Suc 0)))) \<le> length firmware" by simp
  then obtain a b c d e rest where f: "firmware = a # b # c # d # e # rest" by (auto simp: Suc_le_length_iff)
  have minor: "\<not> (c < 0x30 \<or> 0x39 < c) \<and> \<not> (c - 0x30 < 7 \<or> 8 < c - 0x30) \<longleftrightarrow> c \<in> {0x37, 0x38}"
    by (auto simp: word_less_nat_alt word_le_nat_alt unat_sub_if_size word_size word_unat_eq_iff not_less)
  have patch: "0x20 \<le> e \<and> e \<le> 0x7e" if "0x30 \<le> e" "e \<le> 0x39" using that by (auto simp: word_le_nat_alt)
  show ?thesis
    using False minor patch
    by (auto simp: melodi_usb_firmware_supported_def f c_string_def Let_def list_ex_iff list_all_iff not_less dest: leD)
qed


end
