(* ===== verification/Device.thy ===== *)
theory Device
  imports Uapi Replay Ordering Reliability
begin

text \<open>
  The state of a network device that \<open>melodi->lock\<close> protects, from
  \<open>src/kernel/core/internal.h\<close> and \<open>src/kernel/include/melodi/core.h\<close>: peers, policy, pending
  messages, reassembly, receipts and order flows, with the zeroed value of every structure. An
  owned buffer is the list of its octets, a table is a list of slots of the length of the array.
\<close>

abbreviation (input) MELODI_PEER_LIMIT :: nat where "MELODI_PEER_LIMIT \<equiv> 64"
abbreviation (input) MELODI_FRAGMENT_LIMIT :: nat where "MELODI_FRAGMENT_LIMIT \<equiv> 64"
abbreviation (input) MELODI_REASSEMBLY_LIMIT :: nat where "MELODI_REASSEMBLY_LIMIT \<equiv> 16"
abbreviation (input) MELODI_POLICY_PEER_LIMIT :: nat where "MELODI_POLICY_PEER_LIMIT \<equiv> 64"
abbreviation (input) MELODI_POLICY_SERVICE_LIMIT :: nat where "MELODI_POLICY_SERVICE_LIMIT \<equiv> 64"
abbreviation (input) MELODI_PENDING_LIMIT :: nat where "MELODI_PENDING_LIMIT \<equiv> 32"
abbreviation (input) MELODI_DISCOVERY_TARGET_LIMIT :: nat where "MELODI_DISCOVERY_TARGET_LIMIT \<equiv> 16"
abbreviation (input) MELODI_DISCOVERY_PENDING_LIMIT :: nat where "MELODI_DISCOVERY_PENDING_LIMIT \<equiv> 32"
abbreviation (input) MELODI_RECEIPT_LIMIT :: nat where "MELODI_RECEIPT_LIMIT \<equiv> 64"
abbreviation (input) MELODI_ORDER_FLOW_LIMIT :: nat where "MELODI_ORDER_FLOW_LIMIT \<equiv> 32"
abbreviation (input) MELODI_ORDER_BUFFER_LIMIT :: nat where "MELODI_ORDER_BUFFER_LIMIT \<equiv> 64"

definition zero_order_state :: melodi_order_state where
  "zero_order_state = \<lparr>order_deadline_ms = 0, order_expected = 0, order_pending = 0\<rparr>"

record melodi_tx_meta =
  tm_destination_locator :: u32
  tm_source_locator :: u32
  tm_cookie :: u64

definition zero_tx_meta :: melodi_tx_meta where
  "zero_tx_meta = \<lparr>tm_destination_locator = 0, tm_source_locator = 0, tm_cookie = 0\<rparr>"

record melodi_rx_meta =
  rm_timestamp_ns :: u64
  rm_source_locator :: u32
  rm_destination_locator :: u32
  rm_duplicates :: u16
  rm_rssi :: s16
  rm_snr :: s16
  rm_hops :: u8
  rm_retransmissions :: u8
  rm_authenticated :: bool

definition zero_rx_meta :: melodi_rx_meta where
  "zero_rx_meta = \<lparr>rm_timestamp_ns = 0, rm_source_locator = 0, rm_destination_locator = 0, rm_duplicates = 0,
     rm_rssi = 0, rm_snr = 0, rm_hops = 0, rm_retransmissions = 0, rm_authenticated = False\<rparr>"

record melodi_pending_message =
  pm_reliability :: melodi_reliability_state
  pm_destination :: bytes
  pm_fragments :: "bytes option list"
  pm_reservation_id :: u64
  pm_cookie :: u64
  pm_expires_ms :: u64
  pm_session_epoch :: u64
  pm_binding_generation :: u64
  pm_source_native_locator :: u32
  pm_destination_native_locator :: u32
  pm_source_link_locator :: u32
  pm_destination_link_locator :: u32
  pm_destination_generation :: u32
  pm_source_service :: u16
  pm_destination_service :: u16
  pm_binding_portid :: u32
  pm_priority :: u8
  pm_allocated :: bool

definition zero_pending :: melodi_pending_message where
  "zero_pending = \<lparr>pm_reliability = melodi_reliability_zero, pm_destination = replicate MELODI_NODE_ID_SIZE 0,
     pm_fragments = replicate MELODI_FRAGMENT_LIMIT None, pm_reservation_id = 0, pm_cookie = 0,
     pm_expires_ms = 0, pm_session_epoch = 0, pm_binding_generation = 0,
     pm_source_native_locator = 0, pm_destination_native_locator = 0, pm_source_link_locator = 0,
     pm_destination_link_locator = 0, pm_destination_generation = 0, pm_source_service = 0,
     pm_destination_service = 0, pm_binding_portid = 0, pm_priority = 0, pm_allocated = False\<rparr>"

record melodi_discovery_target =
  dt_destination :: bytes
  dt_expires_ms :: u64
  dt_active :: bool

definition zero_discovery_target :: melodi_discovery_target where
  "zero_discovery_target = \<lparr>dt_destination = replicate MELODI_NODE_ID_SIZE 0, dt_expires_ms = 0, dt_active = False\<rparr>"

record melodi_discovery_pending =
  dp_destination :: bytes
  dp_payload :: bytes
  dp_cookie :: u64
  dp_expires_ms :: u64
  dp_binding_generation :: u64
  dp_binding_portid :: u32
  dp_flags :: u32
  dp_length :: u32
  dp_source_service :: u16
  dp_destination_service :: u16
  dp_priority :: u8
  dp_in_flight :: bool
  dp_active :: bool

definition zero_discovery_pending :: melodi_discovery_pending where
  "zero_discovery_pending = \<lparr>dp_destination = replicate MELODI_NODE_ID_SIZE 0, dp_payload = [], dp_cookie = 0,
     dp_expires_ms = 0, dp_binding_generation = 0, dp_binding_portid = 0, dp_flags = 0,
     dp_length = 0, dp_source_service = 0, dp_destination_service = 0, dp_priority = 0,
     dp_in_flight = False, dp_active = False\<rparr>"

record melodi_receipt =
  rc_source :: bytes
  rc_message_id :: u64
  rc_bitmap :: u64
  rc_session_epoch :: u64
  rc_expires :: u64
  rc_generation :: u32
  rc_fragment_count :: u16
  rc_status :: u8
  rc_active :: bool

definition zero_receipt :: melodi_receipt where
  "zero_receipt = \<lparr>rc_source = replicate MELODI_NODE_ID_SIZE 0, rc_message_id = 0, rc_bitmap = 0,
     rc_session_epoch = 0, rc_expires = 0, rc_generation = 0, rc_fragment_count = 0, rc_status = 0,
     rc_active = False\<rparr>"

record melodi_order_tx_flow =
  ot_destination :: bytes
  ot_session_epoch :: u64
  ot_generation :: u32
  ot_next_marker :: u32
  ot_source_service :: u16
  ot_destination_service :: u16
  ot_active :: bool

definition zero_order_tx :: melodi_order_tx_flow where
  "zero_order_tx = \<lparr>ot_destination = replicate MELODI_NODE_ID_SIZE 0, ot_session_epoch = 0, ot_generation = 0,
     ot_next_marker = 0, ot_source_service = 0, ot_destination_service = 0, ot_active = False\<rparr>"

record melodi_order_rx_flow =
  or_state :: melodi_order_state
  or_source :: bytes
  or_session_epoch :: u64
  or_generation :: u32
  or_source_service :: u16
  or_destination_service :: u16
  or_active :: bool

definition zero_order_rx :: melodi_order_rx_flow where
  "zero_order_rx = \<lparr>or_state = zero_order_state, or_source = replicate MELODI_NODE_ID_SIZE 0,
     or_session_epoch = 0, or_generation = 0, or_source_service = 0, or_destination_service = 0,
     or_active = False\<rparr>"

record melodi_order_message =
  om_source :: bytes
  om_metadata :: melodi_rx_meta
  om_payload :: bytes
  om_length :: nat
  om_marker :: u32
  om_source_service :: u16
  om_destination_service :: u16
  om_flow_index :: u8
  om_active :: bool

definition zero_order_message :: melodi_order_message where
  "zero_order_message = \<lparr>om_source = replicate MELODI_NODE_ID_SIZE 0, om_metadata = zero_rx_meta, om_payload = [],
     om_length = 0, om_marker = 0, om_source_service = 0, om_destination_service = 0,
     om_flow_index = 0, om_active = False\<rparr>"

record melodi_policy_peer =
  pp_node_id :: bytes
  pp_state :: melodi_peer_state
  pp_active :: bool

definition zero_policy_peer :: melodi_policy_peer where
  "zero_policy_peer = \<lparr>pp_node_id = replicate MELODI_NODE_ID_SIZE 0, pp_state = MELODI_PEER_AUTHENTICATED,
     pp_active = False\<rparr>"

record melodi_policy_service =
  ps_service :: u16
  ps_action :: u8
  ps_active :: bool

definition zero_policy_service :: melodi_policy_service where
  "zero_policy_service = \<lparr>ps_service = 0, ps_action = 0, ps_active = False\<rparr>"

record melodi_reassembly =
  ra_source :: bytes
  ra_metadata :: melodi_rx_meta
  ra_message_id :: u64
  ra_session_epoch :: u64
  ra_expires :: u64
  ra_received :: u64
  ra_generation :: u32
  ra_logical_length :: u32
  ra_received_length :: u32
  ra_ordering_marker :: u32
  ra_source_service :: u16
  ra_destination_service :: u16
  ra_fragment_count :: u16
  ra_flags :: u16
  ra_delivery_mode :: u8
  ra_priority :: u8
  ra_active :: bool
  ra_fragments :: "bytes option list"

definition zero_reassembly :: melodi_reassembly where
  "zero_reassembly = \<lparr>ra_source = replicate MELODI_NODE_ID_SIZE 0, ra_metadata = zero_rx_meta, ra_message_id = 0,
     ra_session_epoch = 0, ra_expires = 0, ra_received = 0, ra_generation = 0,
     ra_logical_length = 0, ra_received_length = 0, ra_ordering_marker = 0, ra_source_service = 0,
     ra_destination_service = 0, ra_fragment_count = 0, ra_flags = 0, ra_delivery_mode = 0,
     ra_priority = 0, ra_active = False, ra_fragments = replicate MELODI_FRAGMENT_LIMIT None\<rparr>"

record melodi_peer =
  pe_node_id :: bytes
  pe_native_locator :: u32
  pe_link_locator :: u32
  pe_collision_round :: u32
  pe_generation :: u32
  pe_control_counter :: u64
  pe_expires :: u64
  pe_capabilities :: u32
  pe_last_seen_ns :: u64
  pe_rssi :: s16
  pe_snr :: s16
  pe_hops :: u8
  pe_receive_replay :: melodi_replay_window
  pe_session_epoch :: u64
  pe_transmit_key :: bytes
  pe_receive_key :: bytes
  pe_ephemeral_private :: bytes
  pe_ephemeral_public :: bytes
  pe_remote_hello_challenge :: bytes
  pe_local_challenge :: bytes
  pe_authenticated :: bool
  pe_conflicted :: bool
  pe_handshake_pending :: bool
  pe_session_ready :: bool

definition zero_peer :: melodi_peer where
  "zero_peer = \<lparr>pe_node_id = replicate MELODI_NODE_ID_SIZE 0, pe_native_locator = 0, pe_link_locator = 0,
     pe_collision_round = 0, pe_generation = 0, pe_control_counter = 0, pe_expires = 0,
     pe_capabilities = 0, pe_last_seen_ns = 0, pe_rssi = 0, pe_snr = 0, pe_hops = 0,
     pe_receive_replay = melodi_replay_reset, pe_session_epoch = 0,
     pe_transmit_key = replicate 32 0, pe_receive_key = replicate 32 0,
     pe_ephemeral_private = replicate 32 0, pe_ephemeral_public = replicate 32 0,
     pe_remote_hello_challenge = replicate 32 0, pe_local_challenge = replicate 32 0,
     pe_authenticated = False, pe_conflicted = False, pe_handshake_pending = False,
     pe_session_ready = False\<rparr>"


record melodi_device =
  dev_node_id :: bytes
  dev_identity_ready :: bool
  dev_transport_ready :: bool
  dev_mesh_domain :: bytes
  dev_local_native_locator :: u32
  dev_local_link_locator :: u32
  dev_local_collision_round :: u32
  dev_identity_generation :: u32
  dev_transmit_counter :: u64
  dev_last_hello_challenge :: bytes
  dev_previous_hello_challenge :: bytes
  dev_conflict_pending :: bool
  dev_peers :: "melodi_peer list"
  dev_reassembly_bytes :: u32
  dev_reassemblies :: "melodi_reassembly list"
  dev_receipts :: "melodi_receipt list"
  dev_order_tx :: "melodi_order_tx_flow list"
  dev_order_rx :: "melodi_order_rx_flow list"
  dev_order_messages :: "melodi_order_message list"
  dev_order_bytes :: u32
  dev_pending :: "melodi_pending_message list"
  dev_discovery_targets :: "melodi_discovery_target list"
  dev_discovery_pending :: "melodi_discovery_pending list"
  dev_discovery_bytes :: u32
  dev_discovery_count :: u16
  dev_policy_mode :: u8
  dev_broadcast_allowed :: bool
  dev_policy_peers :: "melodi_policy_peer list"
  dev_policy_services :: "melodi_policy_service list"

text \<open>The zeroed memory a device starts from.\<close>

definition zero_device :: melodi_device where
  "zero_device = \<lparr>dev_node_id = replicate MELODI_NODE_ID_SIZE 0, dev_identity_ready = False, dev_transport_ready = False,
     dev_mesh_domain = replicate 32 0,
     dev_local_native_locator = 0, dev_local_link_locator = 0, dev_local_collision_round = 0,
     dev_identity_generation = 0, dev_transmit_counter = 0, dev_last_hello_challenge = replicate 32 0,
     dev_previous_hello_challenge = replicate 32 0, dev_conflict_pending = False,
     dev_peers = replicate MELODI_PEER_LIMIT zero_peer, dev_reassembly_bytes = 0,
     dev_reassemblies = replicate MELODI_REASSEMBLY_LIMIT zero_reassembly,
     dev_receipts = replicate MELODI_RECEIPT_LIMIT zero_receipt,
     dev_order_tx = replicate MELODI_ORDER_FLOW_LIMIT zero_order_tx,
     dev_order_rx = replicate MELODI_ORDER_FLOW_LIMIT zero_order_rx,
     dev_order_messages = replicate MELODI_ORDER_BUFFER_LIMIT zero_order_message, dev_order_bytes = 0,
     dev_pending = replicate MELODI_PENDING_LIMIT zero_pending,
     dev_discovery_targets = replicate MELODI_DISCOVERY_TARGET_LIMIT zero_discovery_target,
     dev_discovery_pending = replicate MELODI_DISCOVERY_PENDING_LIMIT zero_discovery_pending,
     dev_discovery_bytes = 0, dev_discovery_count = 0, dev_policy_mode = 0, dev_broadcast_allowed = False,
     dev_policy_peers = replicate MELODI_POLICY_PEER_LIMIT zero_policy_peer,
     dev_policy_services = replicate MELODI_POLICY_SERVICE_LIMIT zero_policy_service\<rparr>"

end
