(* ===== verification/Slots.thy ===== *)
theory Slots
  imports Prelude
begin

text \<open>
  Tables of slots as maps. Several tables of the kernel module hold at most one active slot per
  key; looking a key up, storing under it and clearing it are then the operations of a finite map.
  The locale is the contract of such a table: what makes a slot active, its key and the cleared
  slot.
\<close>

definition slot_of :: "('a \<Rightarrow> bool) \<Rightarrow> ('a \<Rightarrow> 'k) \<Rightarrow> 'a list \<Rightarrow> 'k \<Rightarrow> nat option" where
  "slot_of active key xs k = find_slot (\<lambda>x. active x \<and> key x = k) xs"

definition slot_map :: "('a \<Rightarrow> bool) \<Rightarrow> ('a \<Rightarrow> 'k) \<Rightarrow> 'a list \<Rightarrow> 'k \<rightharpoonup> 'a" where
  "slot_map active key xs k = map_option ((!) xs) (slot_of active key xs k)"

definition slots_wf :: "('a \<Rightarrow> bool) \<Rightarrow> ('a \<Rightarrow> 'k) \<Rightarrow> 'a list \<Rightarrow> bool" where
  "slots_wf active key xs \<longleftrightarrow>
     (\<forall>i<length xs. \<forall>j<length xs. active (xs ! i) \<longrightarrow> active (xs ! j) \<longrightarrow> key (xs ! i) = key (xs ! j) \<longrightarrow> i = j)"

locale slot_table =
  fixes active :: "'a \<Rightarrow> bool" and key :: "'a \<Rightarrow> 'k" and zero :: 'a
  assumes not_active_zero: "\<not> active zero"
begin

lemma slot_ofD:
  assumes "slot_of active key xs k = Some i"
  shows "i < length xs" "active (xs ! i)" "key (xs ! i) = k"
  using assms by (auto simp: slot_of_def find_slot_Some_iff)

lemma slot_map_Some_iff:
  assumes "slots_wf active key xs"
  shows "slot_map active key xs k = Some x \<longleftrightarrow> x \<in> set xs \<and> active x \<and> key x = k"
proof
  assume "slot_map active key xs k = Some x"
  then obtain i where "slot_of active key xs k = Some i" "x = xs ! i" by (auto simp: slot_map_def)
  then show "x \<in> set xs \<and> active x \<and> key x = k" using slot_ofD [of xs k i] by simp
next
  assume x: "x \<in> set xs \<and> active x \<and> key x = k"
  then obtain j where j: "j < length xs" "xs ! j = x" by (auto simp: in_set_conv_nth)
  from x have "slot_of active key xs k \<noteq> None" unfolding slot_of_def find_slot_None_iff by blast
  then obtain i where i: "slot_of active key xs k = Some i" by blast
  with slot_ofD [OF i] j x assms have "i = j" by (simp add: slots_wf_def)
  with i j show "slot_map active key xs k = Some x" by (simp add: slot_map_def)
qed

lemma slot_map_None_iff: "slot_map active key xs k = None \<longleftrightarrow> (\<forall>x\<in>set xs. active x \<longrightarrow> key x \<noteq> k)"
  by (auto simp: slot_map_def slot_of_def find_slot_None_iff)

lemma slots_wf_store:
  assumes "slots_wf active key xs" "i < length xs" "active (xs ! i) \<longrightarrow> key (xs ! i) = key x"
    "slot_of active key xs (key x) = None \<or> slot_of active key xs (key x) = Some i"
  shows "slots_wf active key (xs[i := x])"
proof -
  have other: "\<not> (active (xs ! j) \<and> key (xs ! j) = key x)" if "j < length xs" "j \<noteq> i" for j
  proof (cases "slot_of active key xs (key x)")
    case None
    then show ?thesis using that by (auto simp: slot_of_def find_slot_None_iff)
  next
    case (Some k)
    with assms(4) have "k = i" by simp
    with slot_ofD [OF Some] that assms(1) show ?thesis by (auto simp: slots_wf_def)
  qed
  show ?thesis
    using assms(1,2) other unfolding slots_wf_def by (simp add: nth_list_update) metis
qed

lemma slot_map_store:
  assumes "slots_wf active key xs" "i < length xs" "active x" "active (xs ! i) \<longrightarrow> key (xs ! i) = key x"
    "slot_of active key xs (key x) = None \<or> slot_of active key xs (key x) = Some i"
  shows "slot_map active key (xs[i := x]) = (slot_map active key xs)(key x \<mapsto> x)"
proof
  fix k
  have wf: "slots_wf active key (xs[i := x])" using assms by (intro slots_wf_store) auto
  show "slot_map active key (xs[i := x]) k = ((slot_map active key xs)(key x \<mapsto> x)) k"
  proof (cases "k = key x")
    case True
    then show ?thesis using assms(2,3) by (simp add: slot_map_Some_iff [OF wf] set_update_memI)
  next
    case False
    have "slot_map active key (xs[i := x]) k = Some y \<longleftrightarrow> slot_map active key xs k = Some y" for y
      unfolding slot_map_Some_iff [OF wf] slot_map_Some_iff [OF assms(1)]
      using False assms(2,4) by (auto simp: in_set_conv_nth nth_list_update split: if_splits)
    then show ?thesis using False by (cases "slot_map active key xs k") (auto intro: option.exhaust)
  qed
qed

lemma slots_wf_clear: "slots_wf active key xs \<Longrightarrow> slots_wf active key (xs[i := zero])"
  using not_active_zero unfolding slots_wf_def
  by (cases "i < length xs") (simp_all add: nth_list_update list_update_beyond)

lemma slot_map_clear:
  assumes "slots_wf active key xs" "slot_of active key xs k = Some i"
  shows "slot_map active key (xs[i := zero]) = (slot_map active key xs)(k := None)"
proof
  fix k'
  have wf: "slots_wf active key (xs[i := zero])" using assms(1) by (rule slots_wf_clear)
  note i = slot_ofD [OF assms(2)]
  have "slot_map active key (xs[i := zero]) k' = Some y \<longleftrightarrow> k' \<noteq> k \<and> slot_map active key xs k' = Some y" for y
    unfolding slot_map_Some_iff [OF wf] slot_map_Some_iff [OF assms(1)]
    using i assms(1) not_active_zero
    by (auto simp: in_set_conv_nth nth_list_update slots_wf_def split: if_splits)
  then show "slot_map active key (xs[i := zero]) k' = ((slot_map active key xs)(k := None)) k'"
    by (cases "slot_map active key xs k'"; cases "k' = k") (auto intro: option.exhaust)
qed

lemma slots_wf_zero: "slots_wf active key (replicate n zero)"
  using not_active_zero by (simp add: slots_wf_def)

lemma slot_map_zero: "slot_map active key (replicate n zero) = Map.empty"
  using not_active_zero by (auto simp: slot_map_None_iff)

lemma free_slot:
  assumes "slot_of active key xs k = None" "find_slot (\<lambda>x. \<not> active x) xs = Some i"
  shows "i < length xs" "\<not> active (xs ! i)"
  using assms(2) by (auto simp: find_slot_Some_iff)

end

end
