(* ===== verification/Policy.thy ===== *)
theory Policy
  imports Device Slots
begin

text \<open>
  The decisions of \<open>src/kernel/core/policy.c\<close>: which peers and services a device may talk to, and
  the state of a peer that is reported to the user.
\<close>

definition melodi_policy_peer_locked :: "melodi_device \<Rightarrow> bytes \<Rightarrow> bool \<Rightarrow> nat option" where
  "melodi_policy_peer_locked melodi node_id create =
     (case find_slot (\<lambda>entry. pp_active entry \<and> pp_node_id entry = node_id) (dev_policy_peers melodi) of
        Some index \<Rightarrow> Some index
      | None \<Rightarrow> if create then find_slot (\<lambda>entry. \<not> pp_active entry) (dev_policy_peers melodi) else None)"

definition policy_entry :: "melodi_device \<Rightarrow> bytes \<Rightarrow> melodi_policy_peer option" where
  "policy_entry melodi node_id = map_option ((!) (dev_policy_peers melodi)) (melodi_policy_peer_locked melodi node_id False)"

definition melodi_policy_check_locked :: "melodi_device \<Rightarrow> bytes \<Rightarrow> unit res" where
  "melodi_policy_check_locked melodi node_id =
     (case policy_entry melodi node_id of
        Some entry \<Rightarrow>
          if pp_state entry = MELODI_PEER_BLOCKED then Inl EACCES
          else if dev_policy_mode melodi = MELODI_POLICY_REQUIRE_TRUST \<and> pp_state entry \<noteq> MELODI_PEER_TRUSTED then Inl EACCES
          else Inr ()
      | None \<Rightarrow> if dev_policy_mode melodi = MELODI_POLICY_REQUIRE_TRUST then Inl EACCES else Inr ())"

definition melodi_policy_check_service_locked :: "melodi_device \<Rightarrow> u16 \<Rightarrow> bool \<Rightarrow> unit res" where
  "melodi_policy_check_service_locked melodi service broadcast =
     (if broadcast \<and> \<not> dev_broadcast_allowed melodi then Inl EACCES
      else case find_slot (\<lambda>entry. ps_active entry \<and> ps_service entry = service) (dev_policy_services melodi) of
             Some index \<Rightarrow>
               if ps_action (dev_policy_services melodi ! index) = MELODI_POLICY_SERVICE_DENY then Inl EACCES else Inr ()
           | None \<Rightarrow> Inr ())"

definition melodi_policy_check_message_locked :: "melodi_device \<Rightarrow> bytes \<Rightarrow> u16 \<Rightarrow> bool \<Rightarrow> unit res" where
  "melodi_policy_check_message_locked melodi destination destination_service broadcast =
     (case (if \<not> broadcast then melodi_policy_check_locked melodi destination else Inr ()) of
        Inl error \<Rightarrow> Inl error
      | Inr _ \<Rightarrow> melodi_policy_check_service_locked melodi destination_service broadcast)"

definition melodi_policy_peer_state_locked :: "melodi_device \<Rightarrow> melodi_peer \<Rightarrow> melodi_peer_state" where
  "melodi_policy_peer_state_locked melodi peer =
     (let entry = policy_entry melodi (pe_node_id peer);
          has = (\<lambda>state. case entry of Some e \<Rightarrow> pp_state e = state | None \<Rightarrow> False)
      in if has MELODI_PEER_BLOCKED then MELODI_PEER_BLOCKED
         else if pe_conflicted peer then MELODI_PEER_CONFLICTED
         else if \<not> pe_session_ready peer
         then if pe_handshake_pending peer then MELODI_PEER_CHALLENGED else MELODI_PEER_OBSERVED
         else if has MELODI_PEER_TRUSTED then MELODI_PEER_TRUSTED else MELODI_PEER_AUTHENTICATED)"

definition melodi_policy_peer_policy_locked :: "melodi_device \<Rightarrow> melodi_peer \<Rightarrow> melodi_peer_policy" where
  "melodi_policy_peer_policy_locked melodi peer =
     (case policy_entry melodi (pe_node_id peer) of
        None \<Rightarrow> MELODI_PEER_POLICY_DEFAULT
      | Some entry \<Rightarrow>
          if pp_state entry = MELODI_PEER_BLOCKED then MELODI_PEER_POLICY_BLOCKED else MELODI_PEER_POLICY_TRUSTED)"

subsection \<open>The tables as maps\<close>

interpretation policy_peers: slot_table pp_active pp_node_id zero_policy_peer
  by unfold_locales (simp add: zero_policy_peer_def)

interpretation policy_services: slot_table ps_active ps_service zero_policy_service
  by unfold_locales (simp add: zero_policy_service_def)

abbreviation peer_policies :: "melodi_device \<Rightarrow> bytes \<rightharpoonup> melodi_policy_peer" where
  "peer_policies d \<equiv> slot_map pp_active pp_node_id (dev_policy_peers d)"

abbreviation service_policies :: "melodi_device \<Rightarrow> u16 \<rightharpoonup> melodi_policy_service" where
  "service_policies d \<equiv> slot_map ps_active ps_service (dev_policy_services d)"

lemma policy_entry_map: "policy_entry d n = peer_policies d n"
  by (simp add: policy_entry_def melodi_policy_peer_locked_def slot_map_def slot_of_def split: option.splits)

lemma melodi_policy_check_iff:
  "melodi_policy_check_locked d n = Inr () \<longleftrightarrow>
     (case peer_policies d n of
        None \<Rightarrow> dev_policy_mode d \<noteq> MELODI_POLICY_REQUIRE_TRUST
      | Some e \<Rightarrow> pp_state e \<noteq> MELODI_PEER_BLOCKED
          \<and> (dev_policy_mode d = MELODI_POLICY_REQUIRE_TRUST \<longrightarrow> pp_state e = MELODI_PEER_TRUSTED))"
  by (auto simp: melodi_policy_check_locked_def policy_entry_map split: option.splits)

lemma melodi_policy_check_service_iff:
  "melodi_policy_check_service_locked d s b = Inr () \<longleftrightarrow>
     (b \<longrightarrow> dev_broadcast_allowed d)
     \<and> (case service_policies d s of None \<Rightarrow> True | Some e \<Rightarrow> ps_action e \<noteq> MELODI_POLICY_SERVICE_DENY)"
  by (auto simp: melodi_policy_check_service_locked_def slot_map_def slot_of_def split: option.splits)

lemma melodi_policy_check_message_iff:
  "melodi_policy_check_message_locked d n s b = Inr () \<longleftrightarrow>
     (\<not> b \<longrightarrow> melodi_policy_check_locked d n = Inr ()) \<and> melodi_policy_check_service_locked d s b = Inr ()"
  by (auto simp: melodi_policy_check_message_locked_def split: sum.splits)

end
