(* ===== verification/Reassembly.thy ===== *)
theory Reassembly
  imports Device Wire
begin

unbundle bit_operations_syntax

text \<open>
  Reassembly of fragmented messages and the receipts of complete ones, from
  \<open>src/kernel/core/data.c\<close>. The clock \<open>jiffies\<close> is an argument of the operations that read it, the
  conversion \<open>msecs_to_jiffies\<close> and the success of an allocation are parameters. Scheduling of the
  expiry work has no counterpart.
\<close>

abbreviation (input) MELODI_REASSEMBLY_BYTE_LIMIT :: u32 where "MELODI_REASSEMBLY_BYTE_LIMIT \<equiv> 32768"
abbreviation (input) MELODI_REASSEMBLY_TIMEOUT_MS :: nat where "MELODI_REASSEMBLY_TIMEOUT_MS \<equiv> 5000"
abbreviation (input) MELODI_RECEIPT_TIMEOUT_MS :: nat where "MELODI_RECEIPT_TIMEOUT_MS \<equiv> 10000"

definition time_before :: "u64 \<Rightarrow> u64 \<Rightarrow> bool" where
  "time_before a b \<longleftrightarrow> sint (a - b) < 0"

definition time_after_eq :: "u64 \<Rightarrow> u64 \<Rightarrow> bool" where
  "time_after_eq a b \<longleftrightarrow> sint (a - b) \<ge> 0"

definition melodi_reassembly_clear :: "melodi_device \<Rightarrow> nat \<Rightarrow> melodi_device" where
  "melodi_reassembly_clear melodi index =
     (let entry = dev_reassemblies melodi ! index
      in if \<not> ra_active entry then melodi
         else melodi\<lparr>dev_reassembly_bytes :=
                       (if dev_reassembly_bytes melodi \<ge> ra_received_length entry
                        then dev_reassembly_bytes melodi - ra_received_length entry else 0),
                     dev_reassemblies := (dev_reassemblies melodi)[index := zero_reassembly]\<rparr>)"

definition melodi_receipt_find :: "melodi_device \<Rightarrow> bytes \<Rightarrow> u32 \<Rightarrow> u64 \<Rightarrow> u64 \<Rightarrow> nat option" where
  "melodi_receipt_find melodi source generation session_epoch message_id =
     find_slot (\<lambda>r. rc_active r \<and> rc_generation r = generation \<and> rc_session_epoch r = session_epoch \<and>
         rc_message_id r = message_id \<and> rc_source r = source) (dev_receipts melodi)"

definition receipt_oldest :: "melodi_receipt list \<Rightarrow> nat option" where
  "receipt_oldest receipts =
     fold (\<lambda>index oldest.
       case oldest of
         None \<Rightarrow> Some index
       | Some slot \<Rightarrow> if time_before (rc_expires (receipts ! index)) (rc_expires (receipts ! slot))
                      then Some index else oldest) [0..<length receipts] None"

definition melodi_receipt_store ::
  "(nat \<Rightarrow> u64) \<Rightarrow> u64 \<Rightarrow> melodi_device \<Rightarrow> bytes \<Rightarrow> u32 \<Rightarrow> u64 \<Rightarrow> u64 \<Rightarrow> u16 \<Rightarrow> u64 \<Rightarrow> u8 \<Rightarrow> melodi_device \<times> unit res" where
  "melodi_receipt_store msecs_to_jiffies jiffies melodi source generation session_epoch message_id fragment_count received status =
     (let slot = (case melodi_receipt_find melodi source generation session_epoch message_id of
            Some index \<Rightarrow> Some index
          | None \<Rightarrow>
              (case find_slot (\<lambda>r. \<not> rc_active r) (dev_receipts melodi) of
                 Some index \<Rightarrow> Some index
               | None \<Rightarrow> receipt_oldest (dev_receipts melodi)))
      in case slot of
           None \<Rightarrow> (melodi, Inl ENOSPC)
         | Some index \<Rightarrow>
             (melodi\<lparr>dev_receipts := (dev_receipts melodi)[index :=
                zero_receipt\<lparr>rc_source := source, rc_generation := generation, rc_session_epoch := session_epoch,
                  rc_message_id := message_id, rc_fragment_count := fragment_count, rc_bitmap := received,
                  rc_status := status, rc_expires := jiffies + msecs_to_jiffies MELODI_RECEIPT_TIMEOUT_MS,
                  rc_active := True\<rparr>]\<rparr>, Inr ()))"

definition melodi_reassembly_expire :: "u64 \<Rightarrow> melodi_device \<Rightarrow> melodi_device" where
  "melodi_reassembly_expire jiffies melodi =
     (let melodi = fold (\<lambda>index melodi.
            let entry = dev_reassemblies melodi ! index
            in if ra_active entry \<and> time_after_eq jiffies (ra_expires entry)
               then melodi_reassembly_clear melodi index else melodi) [0..<MELODI_REASSEMBLY_LIMIT] melodi
      in melodi\<lparr>dev_receipts := map (\<lambda>r. if rc_active r \<and> time_after_eq jiffies (rc_expires r) then zero_receipt else r)
            (dev_receipts melodi)\<rparr>)"

definition reassembly_matches :: "bytes \<Rightarrow> u32 \<Rightarrow> u64 \<Rightarrow> u64 \<Rightarrow> melodi_reassembly \<Rightarrow> bool" where
  "reassembly_matches source generation session_epoch message_id entry \<longleftrightarrow>
     ra_active entry \<and> ra_generation entry = generation \<and> ra_session_epoch entry = session_epoch \<and>
     ra_message_id entry = message_id \<and> ra_source entry = source"

definition melodi_reassembly_find :: "melodi_device \<Rightarrow> bytes \<Rightarrow> u32 \<Rightarrow> u64 \<Rightarrow> u64 \<Rightarrow> nat option" where
  "melodi_reassembly_find melodi source generation session_epoch message_id =
     (case find_slot (reassembly_matches source generation session_epoch message_id) (dev_reassemblies melodi) of
        Some index \<Rightarrow> Some index
      | None \<Rightarrow> find_slot (\<lambda>entry. \<not> ra_active entry) (dev_reassemblies melodi))"

definition melodi_reassembly_consistent :: "melodi_reassembly \<Rightarrow> melodi_wire_data \<Rightarrow> bool" where
  "melodi_reassembly_consistent entry header \<longleftrightarrow>
     ra_logical_length entry = d_logical_length header \<and>
     ra_source_service entry = d_source_service header \<and>
     ra_destination_service entry = d_destination_service header \<and>
     ra_fragment_count entry = d_fragment_count header \<and>
     ra_flags entry = c_flags (d_common header) AND NOT MELODI_WIRE_F_FINAL \<and>
     ra_delivery_mode entry = d_delivery_mode header \<and>
     ra_priority entry = d_priority header \<and>
     ra_ordering_marker entry = d_ordering_marker header"

definition reassembly_open ::
  "u64 \<Rightarrow> bytes \<Rightarrow> melodi_wire_data \<Rightarrow> u64 \<Rightarrow> melodi_rx_meta \<Rightarrow> melodi_reassembly" where
  "reassembly_open expires source header session_epoch metadata =
     zero_reassembly\<lparr>ra_source := source, ra_metadata := metadata,
       ra_message_id := c_message_id (d_common header), ra_session_epoch := session_epoch,
       ra_expires := expires, ra_generation := c_identity_generation (d_common header),
       ra_logical_length := d_logical_length header, ra_ordering_marker := d_ordering_marker header,
       ra_source_service := d_source_service header, ra_destination_service := d_destination_service header,
       ra_fragment_count := d_fragment_count header,
       ra_flags := c_flags (d_common header) AND NOT MELODI_WIRE_F_FINAL,
       ra_delivery_mode := d_delivery_mode header, ra_priority := d_priority header, ra_active := True\<rparr>"

text \<open>
  What an accepted fragment gives: the bitmap of the fragments held, and the message once all are.
\<close>

record reassembly_message =
  rmsg_source :: bytes
  rmsg_source_service :: u16
  rmsg_destination_service :: u16
  rmsg_metadata :: melodi_rx_meta
  rmsg_payload :: bytes

definition reassembly_expected :: "u16 \<Rightarrow> u64" where
  "reassembly_expected fragment_count =
     (if fragment_count = 64 then - 1 else push_bit (unat fragment_count) 1 - 1)"

definition reassembly_payload :: "melodi_reassembly \<Rightarrow> bytes" where
  "reassembly_payload entry =
     concat (map (\<lambda>index. case ra_fragments entry ! index of None \<Rightarrow> [] | Some bs \<Rightarrow> bs)
       [0..<unat (ra_fragment_count entry)])"

definition reassembly_insert :: "melodi_reassembly \<Rightarrow> melodi_wire_data \<Rightarrow> bytes \<Rightarrow> melodi_reassembly" where
  "reassembly_insert entry header fragment =
     entry\<lparr>ra_fragments := (ra_fragments entry)[unat (d_fragment_index header) := Some fragment],
       ra_received := ra_received entry OR push_bit (unat (d_fragment_index header)) 1,
       ra_received_length := ra_received_length entry + ucast (c_payload_length (d_common header))\<rparr>"

text \<open>The part of \<open>melodi_reassembly_add\<close> that follows the choice of a slot and its entry.\<close>

definition reassembly_accept ::
  "bool \<Rightarrow> melodi_device \<Rightarrow> nat \<Rightarrow> melodi_wire_data \<Rightarrow> bytes \<Rightarrow> melodi_device \<times> (u64 \<times> reassembly_message option) res" where
  "reassembly_accept memory melodi index header fragment =
     (let entry = dev_reassemblies melodi ! index
      in if bit (ra_received entry) (unat (d_fragment_index header)) then (melodi, Inl EALREADY)
         else if ucast (c_payload_length (d_common header)) > MELODI_REASSEMBLY_BYTE_LIMIT - dev_reassembly_bytes melodi
         then (melodi, Inl ENOSPC)
         else
          (let entry = reassembly_insert entry header fragment;
               melodi = melodi\<lparr>dev_reassemblies := (dev_reassemblies melodi)[index := entry],
                 dev_reassembly_bytes := dev_reassembly_bytes melodi + ucast (c_payload_length (d_common header))\<rparr>
           in if ra_received entry \<noteq> reassembly_expected (ra_fragment_count entry)
              then (melodi, Inr (ra_received entry, None))
              else if ra_received_length entry \<noteq> ra_logical_length entry
              then (melodi_reassembly_clear melodi index, Inl EPROTO)
              else if \<not> memory then (melodi_reassembly_clear melodi index, Inl ENOMEM)
              else (melodi_reassembly_clear melodi index,
                    Inr (ra_received entry, Some
                      \<lparr>rmsg_source = ra_source entry, rmsg_source_service = ra_source_service entry,
                       rmsg_destination_service = ra_destination_service entry,
                       rmsg_metadata = ra_metadata entry, rmsg_payload = reassembly_payload entry\<rparr>))))"

definition melodi_reassembly_add ::
  "(nat \<Rightarrow> u64) \<Rightarrow> bool \<Rightarrow> u64 \<Rightarrow> melodi_device \<Rightarrow> bytes \<Rightarrow> melodi_wire_data \<Rightarrow> u64 \<Rightarrow> melodi_rx_meta \<Rightarrow> bytes \<Rightarrow>
     melodi_device \<times> (u64 \<times> reassembly_message option) res" where
  "melodi_reassembly_add msecs_to_jiffies memory jiffies melodi source header session_epoch metadata fragment =
     (let melodi = melodi_reassembly_expire jiffies melodi
      in case melodi_reassembly_find melodi source (c_identity_generation (d_common header)) session_epoch
                (c_message_id (d_common header)) of
        None \<Rightarrow> (melodi, Inl ENOSPC)
      | Some index \<Rightarrow>
          if \<not> ra_active (dev_reassemblies melodi ! index)
          then reassembly_accept memory
                 (melodi\<lparr>dev_reassemblies := (dev_reassemblies melodi)[index :=
                    reassembly_open (jiffies + msecs_to_jiffies MELODI_REASSEMBLY_TIMEOUT_MS)
                      source header session_epoch metadata]\<rparr>) index header fragment
          else if \<not> melodi_reassembly_consistent (dev_reassemblies melodi ! index) header
          then (melodi_reassembly_clear melodi index, Inl EPROTO)
          else reassembly_accept memory melodi index header fragment)"

subsection \<open>Accounting\<close>

definition fragment_size :: "bytes option \<Rightarrow> nat" where
  "fragment_size fragment = (case fragment of None \<Rightarrow> 0 | Some bs \<Rightarrow> length bs)"

definition reassembly_held :: "melodi_reassembly \<Rightarrow> nat" where
  "reassembly_held entry = (if ra_active entry then unat (ra_received_length entry) else 0)"

definition reassembly_entry_ok :: "melodi_reassembly \<Rightarrow> bool" where
  "reassembly_entry_ok entry \<longleftrightarrow> ra_active entry \<longrightarrow>
     length (ra_fragments entry) = MELODI_FRAGMENT_LIMIT \<and>
     unat (ra_fragment_count entry) \<le> MELODI_FRAGMENT_LIMIT \<and>
     (\<forall>i < MELODI_FRAGMENT_LIMIT. bit (ra_received entry) i \<longleftrightarrow> ra_fragments entry ! i \<noteq> None) \<and>
     (\<forall>i < MELODI_FRAGMENT_LIMIT. unat (ra_fragment_count entry) \<le> i \<longrightarrow> ra_fragments entry ! i = None) \<and>
     unat (ra_received_length entry) = sum_list (map fragment_size (ra_fragments entry))"

definition reassembly_ok :: "melodi_device \<Rightarrow> bool" where
  "reassembly_ok melodi \<longleftrightarrow>
     length (dev_reassemblies melodi) = MELODI_REASSEMBLY_LIMIT \<and>
     list_all reassembly_entry_ok (dev_reassemblies melodi) \<and>
     unat (dev_reassembly_bytes melodi) = sum_list (map reassembly_held (dev_reassemblies melodi)) \<and>
     dev_reassembly_bytes melodi \<le> MELODI_REASSEMBLY_BYTE_LIMIT"

definition fragment_fits :: "melodi_wire_data \<Rightarrow> bytes \<Rightarrow> bool" where
  "fragment_fits header fragment \<longleftrightarrow>
     d_fragment_index header < d_fragment_count header \<and> unat (d_fragment_count header) \<le> MELODI_FRAGMENT_LIMIT \<and>
     unat (c_payload_length (d_common header)) = length fragment"

lemma zero_reassembly_inactive [simp]: "\<not> ra_active zero_reassembly"
  by (simp add: zero_reassembly_def)

lemma reassembly_held_inactive [simp]: "\<not> ra_active entry \<Longrightarrow> reassembly_held entry = 0"
  by (simp add: reassembly_held_def)

lemma reassembly_entry_ok_inactive [simp]: "\<not> ra_active entry \<Longrightarrow> reassembly_entry_ok entry"
  by (simp add: reassembly_entry_ok_def)

lemma reassembly_ok_store:
  assumes ok: "reassembly_ok melodi" and i: "i < MELODI_REASSEMBLY_LIMIT" and e: "reassembly_entry_ok entry"
    and b: "unat held + reassembly_held (dev_reassemblies melodi ! i) = unat (dev_reassembly_bytes melodi) + reassembly_held entry"
    and lim: "held \<le> MELODI_REASSEMBLY_BYTE_LIMIT"
  shows "reassembly_ok (melodi\<lparr>dev_reassembly_bytes := held, dev_reassemblies := (dev_reassemblies melodi)[i := entry]\<rparr>)"
proof -
  have "sum_list (map reassembly_held ((dev_reassemblies melodi)[i := entry])) + reassembly_held (dev_reassemblies melodi ! i)
      = sum_list (map reassembly_held (dev_reassemblies melodi)) + reassembly_held entry"
    by (rule sum_list_store) (use ok i in \<open>simp add: reassembly_ok_def\<close>)
  then show ?thesis
    using ok b lim e by (simp add: reassembly_ok_def list_all_store)
qed

lemma reassembly_clear_ok:
  assumes ok: "reassembly_ok melodi" and i: "i < MELODI_REASSEMBLY_LIMIT"
  shows "reassembly_ok (melodi_reassembly_clear melodi i)"
proof (cases "ra_active (dev_reassemblies melodi ! i)")
  case True
  let ?e = "dev_reassemblies melodi ! i"
  have "reassembly_held ?e \<le> unat (dev_reassembly_bytes melodi)"
    using ok i sum_list_slot [of i "dev_reassemblies melodi" reassembly_held] by (simp add: reassembly_ok_def)
  then have le: "ra_received_length ?e \<le> dev_reassembly_bytes melodi"
    using True by (simp add: reassembly_held_def word_le_nat_alt)
  have "dev_reassembly_bytes melodi - ra_received_length ?e \<le> dev_reassembly_bytes melodi"
    using le by (simp add: word_sub_le)
  then have "dev_reassembly_bytes melodi - ra_received_length ?e \<le> MELODI_REASSEMBLY_BYTE_LIMIT"
    using ok by (meson order_trans reassembly_ok_def)
  then have "reassembly_ok (melodi\<lparr>dev_reassembly_bytes := dev_reassembly_bytes melodi - ra_received_length ?e,
      dev_reassemblies := (dev_reassemblies melodi)[i := zero_reassembly]\<rparr>)"
    using True le by (intro reassembly_ok_store [OF ok i]) (simp_all add: reassembly_held_def unat_sub word_le_nat_alt)
  then show ?thesis
    using True le by (simp add: melodi_reassembly_clear_def Let_def)
qed (simp add: melodi_reassembly_clear_def ok)

subsection \<open>Expiry\<close>

definition reassembly_alive :: "u64 \<Rightarrow> melodi_reassembly \<Rightarrow> melodi_reassembly" where
  "reassembly_alive jiffies entry =
     (if ra_active entry \<and> time_after_eq jiffies (ra_expires entry) then zero_reassembly else entry)"

definition reassembly_expire_slot :: "u64 \<Rightarrow> nat \<Rightarrow> melodi_device \<Rightarrow> melodi_device" where
  "reassembly_expire_slot jiffies index melodi =
     (let entry = dev_reassemblies melodi ! index
      in if ra_active entry \<and> time_after_eq jiffies (ra_expires entry)
         then melodi_reassembly_clear melodi index else melodi)"

lemma reassembly_expire_slot_ok:
  "reassembly_ok melodi \<Longrightarrow> i < MELODI_REASSEMBLY_LIMIT \<Longrightarrow> reassembly_ok (reassembly_expire_slot jiffies i melodi)"
  by (simp add: reassembly_expire_slot_def Let_def reassembly_clear_ok)

lemma reassembly_expire_slot_entries:
  "dev_reassemblies (reassembly_expire_slot jiffies i melodi) =
     (dev_reassemblies melodi)[i := reassembly_alive jiffies (dev_reassemblies melodi ! i)]"
  by (simp add: reassembly_expire_slot_def reassembly_alive_def melodi_reassembly_clear_def Let_def)

lemma reassembly_expire_fold:
  assumes "reassembly_ok melodi" "n \<le> MELODI_REASSEMBLY_LIMIT"
  shows "reassembly_ok (fold (reassembly_expire_slot jiffies) [0..<n] melodi) \<and>
         dev_reassemblies (fold (reassembly_expire_slot jiffies) [0..<n] melodi) =
           map (reassembly_alive jiffies) (take n (dev_reassemblies melodi)) @ drop n (dev_reassemblies melodi)"
  using assms
proof (induction n)
  case (Suc n)
  let ?m = "fold (reassembly_expire_slot jiffies) [0..<n] melodi"
  have len: "length (dev_reassemblies melodi) = MELODI_REASSEMBLY_LIMIT" using Suc.prems by (simp add: reassembly_ok_def)
  have ih: "reassembly_ok ?m" "dev_reassemblies ?m =
      map (reassembly_alive jiffies) (take n (dev_reassemblies melodi)) @ drop n (dev_reassemblies melodi)"
    using Suc by auto
  have n: "n < length (dev_reassemblies melodi)" using Suc.prems len by simp
  have "dev_reassemblies (reassembly_expire_slot jiffies n ?m) =
      map (reassembly_alive jiffies) (take (Suc n) (dev_reassemblies melodi)) @ drop (Suc n) (dev_reassemblies melodi)"
    unfolding reassembly_expire_slot_entries ih(2)
    using n by (simp add: nth_append list_update_append take_Suc_conv_app_nth Cons_nth_drop_Suc [symmetric] del: Cons_nth_drop_Suc)
  moreover have "reassembly_ok (reassembly_expire_slot jiffies n ?m)"
    using Suc.prems ih(1) by (intro reassembly_expire_slot_ok) simp_all
  ultimately show ?case by simp
qed simp

lemma melodi_reassembly_expire_fold:
  "melodi_reassembly_expire jiffies melodi =
     (let melodi = fold (reassembly_expire_slot jiffies) [0..<MELODI_REASSEMBLY_LIMIT] melodi
      in melodi\<lparr>dev_receipts := map (\<lambda>r. if rc_active r \<and> time_after_eq jiffies (rc_expires r) then zero_receipt else r)
            (dev_receipts melodi)\<rparr>)"
  unfolding melodi_reassembly_expire_def reassembly_expire_slot_def [abs_def] ..

lemma reassembly_ok_receipts [simp]: "reassembly_ok (melodi\<lparr>dev_receipts := receipts\<rparr>) = reassembly_ok melodi"
  by (simp add: reassembly_ok_def)

lemma reassembly_expire_ok: "reassembly_ok melodi \<Longrightarrow> reassembly_ok (melodi_reassembly_expire jiffies melodi)"
  unfolding melodi_reassembly_expire_fold Let_def reassembly_ok_receipts
  using reassembly_expire_fold [of melodi MELODI_REASSEMBLY_LIMIT jiffies] by simp

lemma reassembly_expire_entries:
  assumes "reassembly_ok melodi"
  shows "dev_reassemblies (melodi_reassembly_expire jiffies melodi) = map (reassembly_alive jiffies) (dev_reassemblies melodi)"
proof -
  have "length (dev_reassemblies melodi) = MELODI_REASSEMBLY_LIMIT" using assms by (simp add: reassembly_ok_def)
  then show ?thesis
    unfolding melodi_reassembly_expire_fold Let_def
    using reassembly_expire_fold [OF assms order_refl, of jiffies] by simp
qed

subsection \<open>Adding a fragment\<close>

lemma reassembly_ok_replace:
  assumes "reassembly_ok melodi" "i < MELODI_REASSEMBLY_LIMIT" "reassembly_entry_ok entry"
    and "reassembly_held entry = reassembly_held (dev_reassemblies melodi ! i)"
  shows "reassembly_ok (melodi\<lparr>dev_reassemblies := (dev_reassemblies melodi)[i := entry]\<rparr>)"
proof -
  have "reassembly_ok (melodi\<lparr>dev_reassembly_bytes := dev_reassembly_bytes melodi,
      dev_reassemblies := (dev_reassemblies melodi)[i := entry]\<rparr>)"
    using assms by (intro reassembly_ok_store) (simp_all add: reassembly_ok_def)
  then show ?thesis by simp
qed

lemma reassembly_open_ok:
  assumes "fragment_fits header fragment"
  shows "reassembly_entry_ok (reassembly_open expires source header session_epoch metadata)"
    "reassembly_held (reassembly_open expires source header session_epoch metadata) = 0"
    "ra_active (reassembly_open expires source header session_epoch metadata)"
    "melodi_reassembly_consistent (reassembly_open expires source header session_epoch metadata) header"
  using assms by (simp_all add: reassembly_open_def zero_reassembly_def reassembly_entry_ok_def reassembly_held_def
      fragment_fits_def melodi_reassembly_consistent_def fragment_size_def sum_list_replicate)

lemma reassembly_insert_simps [simp]:
  "ra_active (reassembly_insert entry header fragment) = ra_active entry"
  "ra_fragment_count (reassembly_insert entry header fragment) = ra_fragment_count entry"
  "ra_logical_length (reassembly_insert entry header fragment) = ra_logical_length entry"
  "ra_source (reassembly_insert entry header fragment) = ra_source entry"
  "ra_expires (reassembly_insert entry header fragment) = ra_expires entry"
  "reassembly_matches s g e m (reassembly_insert entry header fragment) = reassembly_matches s g e m entry"
  "melodi_reassembly_consistent (reassembly_insert entry header fragment) h = melodi_reassembly_consistent entry h"
  by (simp_all add: reassembly_insert_def reassembly_matches_def melodi_reassembly_consistent_def)

lemma bit_or_index: "i < 64 \<Longrightarrow> bit (x OR push_bit k 1) i \<longleftrightarrow> bit x i \<or> i = k" for x :: u64
  by (auto simp: bit_or_iff bit_exp_iff)

lemma reassembly_insert_ok:
  assumes act: "ra_active entry" and ok: "reassembly_entry_ok entry" and fits: "fragment_fits header fragment"
    and con: "melodi_reassembly_consistent entry header"
    and new: "\<not> bit (ra_received entry) (unat (d_fragment_index header))"
    and lim: "unat (ra_received_length entry) \<le> 32768"
  shows "reassembly_entry_ok (reassembly_insert entry header fragment)"
    "reassembly_held (reassembly_insert entry header fragment) = reassembly_held entry + length fragment"
proof -
  let ?k = "unat (d_fragment_index header)" and ?n = "c_payload_length (d_common header)"
  have k: "?k < unat (ra_fragment_count entry)" "?k < 64"
    using fits con by (simp_all add: fragment_fits_def melodi_reassembly_consistent_def word_less_nat_alt)
  have n: "unat ?n = length fragment" using fits by (simp add: fragment_fits_def)
  have "unat ?n < 65536" using unsigned_less [of ?n] by simp
  then have sum: "unat (ra_received_length entry + ucast ?n) = unat (ra_received_length entry) + length fragment"
    using lim n by (subst unat_add_lem [THEN iffD1]) (simp_all add: unat_ucast_up)
  have none: "ra_fragments entry ! ?k = None"
    using ok act new k by (auto simp: reassembly_entry_ok_def)
  have "sum_list (map fragment_size ((ra_fragments entry)[?k := Some fragment])) + fragment_size (ra_fragments entry ! ?k)
      = sum_list (map fragment_size (ra_fragments entry)) + fragment_size (Some fragment)"
    by (rule sum_list_store) (use ok act k in \<open>simp add: reassembly_entry_ok_def\<close>)
  then have frags: "sum_list (map fragment_size ((ra_fragments entry)[?k := Some fragment]))
      = sum_list (map fragment_size (ra_fragments entry)) + length fragment"
    using none by (simp add: fragment_size_def)
  show "reassembly_held (reassembly_insert entry header fragment) = reassembly_held entry + length fragment"
    using act sum by (simp add: reassembly_held_def reassembly_insert_def)
  have bits: "bit (ra_received entry OR push_bit ?k 1) i \<longleftrightarrow> (ra_fragments entry)[?k := Some fragment] ! i \<noteq> None"
    if "i < 64" for i
    using ok act k that unfolding bit_or_index [OF that]
    by (cases "i = ?k") (auto simp: reassembly_entry_ok_def)
  have beyond: "(ra_fragments entry)[?k := Some fragment] ! i = None" if "i < 64" "unat (ra_fragment_count entry) \<le> i" for i
    using ok act k that by (cases "i = ?k") (auto simp: reassembly_entry_ok_def)
  show "reassembly_entry_ok (reassembly_insert entry header fragment)"
    using ok act sum frags bits beyond by (simp add: reassembly_entry_ok_def reassembly_insert_def del: push_bit_eq_mult)
qed

lemma melodi_reassembly_find_SomeD:
  assumes "melodi_reassembly_find melodi source generation session_epoch message_id = Some i"
  shows "i < length (dev_reassemblies melodi)"
    "ra_active (dev_reassemblies melodi ! i) \<Longrightarrow>
       reassembly_matches source generation session_epoch message_id (dev_reassemblies melodi ! i)"
  using assms by (auto simp: melodi_reassembly_find_def find_slot_Some_iff split: option.splits)

lemma reassembly_accept_ok:
  assumes ok: "reassembly_ok melodi" and i: "i < MELODI_REASSEMBLY_LIMIT" and fits: "fragment_fits header fragment"
    and act: "ra_active (dev_reassemblies melodi ! i)"
    and con: "melodi_reassembly_consistent (dev_reassemblies melodi ! i) header"
  shows "reassembly_ok (fst (reassembly_accept memory melodi i header fragment))"
proof -
  let ?e = "dev_reassemblies melodi ! i" and ?n = "ucast (c_payload_length (d_common header)) :: u32"
  let ?m = "melodi\<lparr>dev_reassemblies := (dev_reassemblies melodi)[i := reassembly_insert ?e header fragment],
      dev_reassembly_bytes := dev_reassembly_bytes melodi + ?n\<rparr>"
  have len: "i < length (dev_reassemblies melodi)" using ok i by (simp add: reassembly_ok_def)
  have eok: "reassembly_entry_ok ?e" using ok len by (simp add: reassembly_ok_def list_all_length)
  have "reassembly_held ?e \<le> unat (dev_reassembly_bytes melodi)"
    using ok sum_list_slot [OF len, of reassembly_held] by (simp add: reassembly_ok_def)
  moreover have lim: "unat (dev_reassembly_bytes melodi) \<le> 32768" using ok by (simp add: reassembly_ok_def word_le_nat_alt)
  ultimately have small: "unat (ra_received_length ?e) \<le> 32768" using act by (simp add: reassembly_held_def)
  have m: "reassembly_ok ?m"
    if new: "\<not> bit (ra_received ?e) (unat (d_fragment_index header))"
      and room: "\<not> ?n > MELODI_REASSEMBLY_BYTE_LIMIT - dev_reassembly_bytes melodi"
  proof -
    have n: "unat ?n = length fragment" using fits by (simp add: fragment_fits_def unat_ucast_up)
    have fit: "unat ?n + unat (dev_reassembly_bytes melodi) \<le> 32768"
      using room lim by (simp add: word_less_nat_alt unat_sub word_le_nat_alt not_less)
    then have sum: "unat (dev_reassembly_bytes melodi + ?n) = unat (dev_reassembly_bytes melodi) + unat ?n"
      by (intro unat_add_lem [THEN iffD1]) simp
    have "reassembly_ok (melodi\<lparr>dev_reassembly_bytes := dev_reassembly_bytes melodi + ?n,
        dev_reassemblies := (dev_reassemblies melodi)[i := reassembly_insert ?e header fragment]\<rparr>)"
      using reassembly_insert_ok [OF act eok fits con new small] sum n fit
      by (intro reassembly_ok_store [OF ok i]) (simp_all add: word_le_nat_alt)
    then show ?thesis by (simp add: reassembly_ok_def)
  qed
  show ?thesis
    using ok m reassembly_clear_ok [OF m i] by (auto simp: reassembly_accept_def Let_def)
qed

lemma reassembly_add_ok:
  assumes ok: "reassembly_ok melodi" and fits: "fragment_fits header fragment"
  shows "reassembly_ok (fst (melodi_reassembly_add msecs_to_jiffies memory jiffies melodi source header session_epoch metadata fragment))"
proof -
  let ?m = "melodi_reassembly_expire jiffies melodi"
  let ?e = "reassembly_open (jiffies + msecs_to_jiffies MELODI_REASSEMBLY_TIMEOUT_MS) source header session_epoch metadata"
  have m: "reassembly_ok ?m" by (rule reassembly_expire_ok [OF ok])
  then have len: "length (dev_reassemblies ?m) = MELODI_REASSEMBLY_LIMIT" by (simp add: reassembly_ok_def)
  show ?thesis
  proof (cases "melodi_reassembly_find ?m source (c_identity_generation (d_common header)) session_epoch (c_message_id (d_common header))")
    case (Some i)
    then have i: "i < MELODI_REASSEMBLY_LIMIT" using melodi_reassembly_find_SomeD(1) len by metis
    show ?thesis
    proof (cases "ra_active (dev_reassemblies ?m ! i)")
      case True
      then show ?thesis
        using Some reassembly_clear_ok [OF m i] reassembly_accept_ok [OF m i fits True]
        by (simp add: melodi_reassembly_add_def Let_def)
    next
      case False
      let ?o = "?m\<lparr>dev_reassemblies := (dev_reassemblies ?m)[i := ?e]\<rparr>"
      have "reassembly_ok ?o"
        using reassembly_open_ok [OF fits] False by (intro reassembly_ok_replace [OF m i]) simp_all
      then have "reassembly_ok (fst (reassembly_accept memory ?o i header fragment))"
        using reassembly_open_ok [OF fits] i len by (intro reassembly_accept_ok [OF _ i fits]) simp_all
      then show ?thesis
        using Some False by (simp add: melodi_reassembly_add_def Let_def)
    qed
  qed (simp add: melodi_reassembly_add_def Let_def m)
qed

subsection \<open>Fragments in any order\<close>

text \<open>
  The headers of the fragments of one message: they differ in the index, the length and the final
  flag only.
\<close>

definition message_header :: "bytes list \<Rightarrow> melodi_wire_data \<Rightarrow> nat \<Rightarrow> melodi_wire_data \<Rightarrow> bool" where
  "message_header fs h0 k header \<longleftrightarrow>
     d_fragment_index header = of_nat k \<and> d_fragment_count header = of_nat (length fs) \<and>
     unat (c_payload_length (d_common header)) = length (fs ! k) \<and>
     d_logical_length header = of_nat (length (concat fs)) \<and>
     c_identity_generation (d_common header) = c_identity_generation (d_common h0) \<and>
     c_message_id (d_common header) = c_message_id (d_common h0) \<and>
     c_flags (d_common header) AND NOT MELODI_WIRE_F_FINAL = c_flags (d_common h0) AND NOT MELODI_WIRE_F_FINAL \<and>
     d_source_service header = d_source_service h0 \<and> d_destination_service header = d_destination_service h0 \<and>
     d_delivery_mode header = d_delivery_mode h0 \<and> d_priority header = d_priority h0 \<and>
     d_ordering_marker header = d_ordering_marker h0"

definition message_headers :: "bytes list \<Rightarrow> (nat \<Rightarrow> melodi_wire_data) \<Rightarrow> bool" where
  "message_headers fs hdr \<longleftrightarrow> fs \<noteq> [] \<and> length fs \<le> MELODI_FRAGMENT_LIMIT \<and>
     list_all (\<lambda>k. message_header fs (hdr 0) k (hdr k)) [0..<length fs]"

text \<open>The entry that collects a message holds the fragments of a set of indices.\<close>

definition collecting :: "bytes list \<Rightarrow> (nat \<Rightarrow> melodi_wire_data) \<Rightarrow> nat set \<Rightarrow> melodi_reassembly \<Rightarrow> bool" where
  "collecting fs hdr S entry \<longleftrightarrow> ra_active entry \<and> reassembly_entry_ok entry \<and>
     (\<forall>k < length fs. melodi_reassembly_consistent entry (hdr k)) \<and>
     (\<forall>k < length fs. ra_fragments entry ! k = (if k \<in> S then Some (fs ! k) else None))"

lemma message_headersD:
  assumes "message_headers fs hdr" "k < length fs"
  shows "fragment_fits (hdr k) (fs ! k)" "unat (d_fragment_index (hdr k)) = k"
    "unat (d_fragment_count (hdr k)) = length fs" "message_header fs (hdr 0) k (hdr k)"
proof -
  show mh: "message_header fs (hdr 0) k (hdr k)" using assms by (simp add: message_headers_def list_all_iff)
  have n: "length fs \<le> 64" using assms by (simp add: message_headers_def)
  have "unat (of_nat k :: u16) = k" "unat (of_nat (length fs) :: u16) = length fs"
    using n assms(2) by (simp_all add: unat_of_nat)
  then show "unat (d_fragment_index (hdr k)) = k" "unat (d_fragment_count (hdr k)) = length fs"
    "fragment_fits (hdr k) (fs ! k)"
    using mh n assms(2) by (simp_all add: message_header_def fragment_fits_def word_less_nat_alt)
qed

lemma message_headers_consistent:
  assumes "message_headers fs hdr" "k < length fs" "j < length fs"
  shows "melodi_reassembly_consistent (reassembly_open expires source (hdr k) session_epoch metadata) (hdr j)"
  using message_headersD(4) [OF assms(1,2)] message_headersD(4) [OF assms(1,3)]
  by (simp add: reassembly_open_def melodi_reassembly_consistent_def message_header_def)

lemma bit_reassembly_expected:
  assumes "unat n \<le> 64" "i < 64"
  shows "bit (reassembly_expected n) i \<longleftrightarrow> i < unat n"
proof (cases "n = 64")
  case False
  then have "unat n \<noteq> 64" by (simp add: word_unat_eq_iff)
  have "(push_bit (unat n) 1 - 1 :: u64) = mask (unat n)" by (simp add: mask_eq_exp_minus_1)
  then show ?thesis using False assms by (simp add: reassembly_expected_def bit_mask_iff)
qed (use assms in \<open>simp add: reassembly_expected_def\<close>)

lemma collecting_count:
  assumes "message_headers fs hdr" "collecting fs hdr S entry"
  shows "unat (ra_fragment_count entry) = length fs" "length fs \<le> 64"
proof -
  have "0 < length fs" using assms(1) by (simp add: message_headers_def)
  then show "unat (ra_fragment_count entry) = length fs"
    using assms(2) message_headersD(3) [OF assms(1)] by (metis collecting_def melodi_reassembly_consistent_def)
  show "length fs \<le> 64" using assms(1) by (simp add: message_headers_def)
qed

lemma collecting_received:
  assumes "message_headers fs hdr" "collecting fs hdr S entry" "S \<subseteq> {..<length fs}"
  shows "ra_received entry = reassembly_expected (ra_fragment_count entry) \<longleftrightarrow> S = {..<length fs}"
    "k < length fs \<Longrightarrow> bit (ra_received entry) k \<longleftrightarrow> k \<in> S"
proof -
  note n = collecting_count [OF assms(1,2)]
  have bits: "bit (ra_received entry) i \<longleftrightarrow> i \<in> S" if "i < 64" for i
  proof (cases "i < length fs")
    case False
    then have "i \<notin> S" "ra_fragments entry ! i = None" "bit (ra_received entry) i \<longleftrightarrow> ra_fragments entry ! i \<noteq> None"
      using assms(2,3) n that by (auto simp: collecting_def reassembly_entry_ok_def)
    then show ?thesis by simp
  qed (use assms(2) that in \<open>auto simp: collecting_def reassembly_entry_ok_def\<close>)
  then show "k < length fs \<Longrightarrow> bit (ra_received entry) k \<longleftrightarrow> k \<in> S" using n by simp
  have ex: "bit (reassembly_expected (ra_fragment_count entry)) i \<longleftrightarrow> i < length fs" if "i < 64" for i
    using bit_reassembly_expected n that by simp
  show "ra_received entry = reassembly_expected (ra_fragment_count entry) \<longleftrightarrow> S = {..<length fs}"
  proof
    assume "ra_received entry = reassembly_expected (ra_fragment_count entry)"
    then have "i \<in> S" if "i < length fs" for i using bits ex n that by (metis order_less_le_trans)
    then show "S = {..<length fs}" using assms(3) by auto
  next
    assume "S = {..<length fs}"
    then have "bit (ra_received entry) i = bit (reassembly_expected (ra_fragment_count entry)) i" if "i < 64" for i
      using bits [OF that] ex [OF that] by simp
    then show "ra_received entry = reassembly_expected (ra_fragment_count entry)" by (intro bit_word_eqI) simp
  qed
qed

lemma collecting_insert:
  assumes mh: "message_headers fs hdr" and c: "collecting fs hdr S entry" and k: "k < length fs" "k \<notin> S"
    and S: "S \<subseteq> {..<length fs}" and lim: "unat (ra_received_length entry) \<le> 32768"
  shows "collecting fs hdr (insert k S) (reassembly_insert entry (hdr k) (fs ! k))"
proof -
  have "\<not> bit (ra_received entry) (unat (d_fragment_index (hdr k)))"
    using collecting_received(2) [OF mh c S] message_headersD(2) [OF mh k(1)] k by simp
  then have "reassembly_entry_ok (reassembly_insert entry (hdr k) (fs ! k))"
    using c k lim message_headersD(1) [OF mh k(1)] by (intro reassembly_insert_ok) (simp_all add: collecting_def)
  moreover have "ra_fragments (reassembly_insert entry (hdr k) (fs ! k)) ! j = (if j \<in> insert k S then Some (fs ! j) else None)"
    if "j < length fs" for j
    using c k that message_headersD(2) [OF mh k(1)] collecting_count [OF mh c]
    by (cases "j = k") (simp_all add: collecting_def reassembly_entry_ok_def reassembly_insert_def)
  ultimately show ?thesis using c by (simp add: collecting_def)
qed

lemma collecting_complete:
  assumes mh: "message_headers fs hdr" and c: "collecting fs hdr {..<length fs} entry"
  shows "reassembly_payload entry = concat fs" "unat (ra_received_length entry) = length (concat fs)"
proof -
  note n = collecting_count [OF mh c]
  have len: "length (ra_fragments entry) = 64" using c by (simp add: collecting_def reassembly_entry_ok_def)
  have "map (\<lambda>i. case ra_fragments entry ! i of None \<Rightarrow> [] | Some bs \<Rightarrow> bs) [0..<length fs] = fs"
    using c by (intro nth_equalityI) (auto simp: collecting_def)
  then show "reassembly_payload entry = concat fs" using n by (simp add: reassembly_payload_def)
  have head: "take (length fs) (ra_fragments entry) = map Some fs"
    using c n len by (intro nth_equalityI) (auto simp: collecting_def)
  have tail: "drop (length fs) (ra_fragments entry) = replicate (64 - length fs) None"
    using c n len by (intro nth_equalityI) (auto simp: collecting_def reassembly_entry_ok_def)
  have "ra_fragments entry = map Some fs @ replicate (64 - length fs) None"
    using head tail by (metis append_take_drop_id)
  then show "unat (ra_received_length entry) = length (concat fs)"
    using c by (simp add: collecting_def reassembly_entry_ok_def fragment_size_def length_concat sum_list_replicate comp_def)
qed

definition awaiting :: "bytes list \<Rightarrow> nat set \<Rightarrow> nat" where
  "awaiting fs S = (\<Sum>k \<in> {..<length fs} - S. length (fs ! k))"

lemma awaiting_insert:
  assumes "k < length fs" "k \<notin> S"
  shows "awaiting fs S = length (fs ! k) + awaiting fs (insert k S)"
proof -
  have "{..<length fs} - insert k S = ({..<length fs} - S) - {k}" by auto
  then show ?thesis using assms by (simp add: awaiting_def sum.remove [of "{..<length fs} - S" k])
qed

lemma awaiting_empty: "awaiting fs {} = length (concat fs)"
  by (simp add: awaiting_def length_concat sum_list_sum_nth atLeast0LessThan)

text \<open>The slot \<open>i\<close> of the device collects the message, and the bytes still to come fit in the limit.\<close>

definition reassembling :: "bytes list \<Rightarrow> (nat \<Rightarrow> melodi_wire_data) \<Rightarrow> nat set \<Rightarrow> nat \<Rightarrow> melodi_device \<Rightarrow> bool" where
  "reassembling fs hdr S i melodi \<longleftrightarrow> reassembly_ok melodi \<and> i < MELODI_REASSEMBLY_LIMIT \<and> S \<subseteq> {..<length fs} \<and>
     collecting fs hdr S (dev_reassemblies melodi ! i) \<and>
     unat (dev_reassembly_bytes melodi) + awaiting fs S \<le> 32768"

lemma reassembling_received_length:
  assumes "reassembling fs hdr S i melodi"
  shows "unat (ra_received_length (dev_reassemblies melodi ! i)) \<le> unat (dev_reassembly_bytes melodi)"
proof -
  have i: "i < length (dev_reassemblies melodi)" using assms by (simp add: reassembling_def reassembly_ok_def)
  have "ra_active (dev_reassemblies melodi ! i)" using assms by (simp add: reassembling_def collecting_def)
  then show ?thesis
    using assms sum_list_slot [OF i, of reassembly_held] by (simp add: reassembling_def reassembly_ok_def reassembly_held_def)
qed

text \<open>Accepting a fragment that is not held yet: the entry with the fragment, complete or not.\<close>

definition reassembly_stored :: "melodi_device \<Rightarrow> nat \<Rightarrow> melodi_wire_data \<Rightarrow> bytes \<Rightarrow> melodi_device" where
  "reassembly_stored melodi i header fragment =
     melodi\<lparr>dev_reassemblies := (dev_reassemblies melodi)[i := reassembly_insert (dev_reassemblies melodi ! i) header fragment],
       dev_reassembly_bytes := dev_reassembly_bytes melodi + ucast (c_payload_length (d_common header))\<rparr>"

lemma reassembling_stored:
  assumes mh: "message_headers fs hdr" and r: "reassembling fs hdr S i melodi" and k: "k < length fs" "k \<notin> S"
  defines "entry \<equiv> reassembly_insert (dev_reassemblies melodi ! i) (hdr k) (fs ! k)"
  shows "collecting fs hdr (insert k S) entry"
    "reassembly_accept memory melodi i (hdr k) (fs ! k) =
      (let melodi = reassembly_stored melodi i (hdr k) (fs ! k)
       in if ra_received entry \<noteq> reassembly_expected (ra_fragment_count entry) then (melodi, Inr (ra_received entry, None))
       else if ra_received_length entry \<noteq> ra_logical_length entry then (melodi_reassembly_clear melodi i, Inl EPROTO)
       else if \<not> memory then (melodi_reassembly_clear melodi i, Inl ENOMEM)
       else (melodi_reassembly_clear melodi i, Inr (ra_received entry, Some
         \<lparr>rmsg_source = ra_source entry, rmsg_source_service = ra_source_service entry,
          rmsg_destination_service = ra_destination_service entry,
          rmsg_metadata = ra_metadata entry, rmsg_payload = reassembly_payload entry\<rparr>)))"
    "unat (dev_reassembly_bytes (reassembly_stored melodi i (hdr k) (fs ! k))) + awaiting fs (insert k S) \<le> 32768"
proof -
  let ?e = "dev_reassemblies melodi ! i" and ?n = "ucast (c_payload_length (d_common (hdr k))) :: u32"
  have ok: "reassembly_ok melodi" and S: "S \<subseteq> {..<length fs}" and c: "collecting fs hdr S ?e"
    and room: "unat (dev_reassembly_bytes melodi) + awaiting fs S \<le> 32768"
    using r by (simp_all add: reassembling_def)
  have new: "\<not> bit (ra_received ?e) (unat (d_fragment_index (hdr k)))"
    using collecting_received(2) [OF mh c S k(1)] message_headersD(2) [OF mh k(1)] k by simp
  have n: "unat ?n = length (fs ! k)"
    using message_headersD(1) [OF mh k(1)] by (simp add: fragment_fits_def unat_ucast_up)
  have le: "dev_reassembly_bytes melodi \<le> MELODI_REASSEMBLY_BYTE_LIMIT" using ok by (simp add: reassembly_ok_def)
  have fit: "unat (dev_reassembly_bytes melodi) + unat ?n + awaiting fs (insert k S) \<le> 32768"
    using room n awaiting_insert [OF k] by simp
  then have "\<not> ?n > MELODI_REASSEMBLY_BYTE_LIMIT - dev_reassembly_bytes melodi"
    using le by (simp add: word_less_nat_alt unat_sub word_le_nat_alt)
  then show "reassembly_accept memory melodi i (hdr k) (fs ! k) =
      (let melodi = reassembly_stored melodi i (hdr k) (fs ! k)
       in if ra_received entry \<noteq> reassembly_expected (ra_fragment_count entry) then (melodi, Inr (ra_received entry, None))
       else if ra_received_length entry \<noteq> ra_logical_length entry then (melodi_reassembly_clear melodi i, Inl EPROTO)
       else if \<not> memory then (melodi_reassembly_clear melodi i, Inl ENOMEM)
       else (melodi_reassembly_clear melodi i, Inr (ra_received entry, Some
         \<lparr>rmsg_source = ra_source entry, rmsg_source_service = ra_source_service entry,
          rmsg_destination_service = ra_destination_service entry,
          rmsg_metadata = ra_metadata entry, rmsg_payload = reassembly_payload entry\<rparr>)))"
    using new by (simp add: reassembly_accept_def reassembly_stored_def Let_def entry_def del: push_bit_eq_mult)
  have "unat (dev_reassembly_bytes melodi + ?n) = unat (dev_reassembly_bytes melodi) + unat ?n"
    using fit by (intro unat_add_lem [THEN iffD1]) simp
  then show "unat (dev_reassembly_bytes (reassembly_stored melodi i (hdr k) (fs ! k))) + awaiting fs (insert k S) \<le> 32768"
    using fit by (simp add: reassembly_stored_def)
  have "unat (ra_received_length ?e) \<le> 32768" using reassembling_received_length [OF r] room by simp
  then show "collecting fs hdr (insert k S) entry"
    unfolding entry_def by (rule collecting_insert [OF mh c k S])
qed

lemma reassembling_more:
  assumes mh: "message_headers fs hdr" and r: "reassembling fs hdr S i melodi" and k: "k < length fs" "k \<notin> S"
    and more: "insert k S \<noteq> {..<length fs}"
  defines "melodi' \<equiv> reassembly_stored melodi i (hdr k) (fs ! k)"
  shows "reassembly_accept memory melodi i (hdr k) (fs ! k) = (melodi', Inr (ra_received (dev_reassemblies melodi' ! i), None))"
    "reassembling fs hdr (insert k S) i melodi'"
proof -
  have ok: "reassembly_ok melodi" and i: "i < 16" and S: "insert k S \<subseteq> {..<length fs}" and c: "collecting fs hdr S (dev_reassemblies melodi ! i)"
    using r k by (simp_all add: reassembling_def)
  have e: "dev_reassemblies melodi' ! i = reassembly_insert (dev_reassemblies melodi ! i) (hdr k) (fs ! k)"
    using ok i by (simp add: melodi'_def reassembly_stored_def reassembly_ok_def)
  note st = reassembling_stored [OF mh r k]
  show a: "reassembly_accept memory melodi i (hdr k) (fs ! k) = (melodi', Inr (ra_received (dev_reassemblies melodi' ! i), None))"
    for memory
    using st(2) [of memory] collecting_received(1) [OF mh st(1) S] more e by (simp add: melodi'_def Let_def)
  have "reassembly_ok melodi'"
    using reassembly_accept_ok [OF ok i message_headersD(1) [OF mh k(1)], of True] c k a [of True] by (simp add: collecting_def)
  then show "reassembling fs hdr (insert k S) i melodi'"
    using i S st(1,3) e by (simp add: reassembling_def melodi'_def)
qed

lemma reassembling_last:
  assumes mh: "message_headers fs hdr" and r: "reassembling fs hdr S i melodi" and k: "k < length fs" "k \<notin> S"
    and all: "insert k S = {..<length fs}"
  defines "entry \<equiv> dev_reassemblies melodi ! i"
  shows "\<exists>melodi'. reassembly_accept True melodi i (hdr k) (fs ! k) =
      (melodi', Inr (reassembly_expected (of_nat (length fs)),
         Some \<lparr>rmsg_source = ra_source entry, rmsg_source_service = d_source_service (hdr 0),
               rmsg_destination_service = d_destination_service (hdr 0),
               rmsg_metadata = ra_metadata entry, rmsg_payload = concat fs\<rparr>)) \<and>
      dev_reassemblies melodi' = (dev_reassemblies melodi)[i := zero_reassembly]"
proof -
  let ?e = "reassembly_insert entry (hdr k) (fs ! k)" and ?m = "reassembly_stored melodi i (hdr k) (fs ! k)"
  have c: "collecting fs hdr S entry" and i: "i < length (dev_reassemblies melodi)"
    using r by (simp_all add: reassembling_def entry_def reassembly_ok_def)
  note st = reassembling_stored [OF mh r k, folded entry_def]
  have ce: "collecting fs hdr {..<length fs} ?e" using st(1) all by simp
  note full = collecting_complete [OF mh ce]
  have fields: "ra_fragment_count ?e = of_nat (length fs)" "ra_logical_length ?e = of_nat (length (concat fs))"
    "ra_source_service ?e = d_source_service (hdr 0)" "ra_destination_service ?e = d_destination_service (hdr 0)"
    using ce k message_headersD(4) [OF mh k(1)]
    by (auto simp: collecting_def melodi_reassembly_consistent_def message_header_def)
  have "of_nat (unat (ra_received_length ?e)) = ra_received_length ?e" by simp
  then have "ra_received_length ?e = ra_logical_length ?e" using full(2) fields(2) by simp
  moreover have "ra_received ?e = reassembly_expected (ra_fragment_count ?e)"
    using collecting_received(1) [OF mh ce] by simp
  moreover have "dev_reassemblies (melodi_reassembly_clear ?m i) = (dev_reassemblies melodi)[i := zero_reassembly]"
    using i c by (simp add: melodi_reassembly_clear_def Let_def reassembly_stored_def entry_def collecting_def)
  moreover have "ra_source ?e = ra_source entry" "ra_metadata ?e = ra_metadata entry"
    by (simp_all add: reassembly_insert_def)
  ultimately show ?thesis using st(2) [of True] full(1) fields by (simp add: Let_def)
qed


subsection \<open>Runs of fragments\<close>

definition in_progress ::
  "bytes \<Rightarrow> u64 \<Rightarrow> u64 \<Rightarrow> melodi_rx_meta \<Rightarrow> bytes list \<Rightarrow> (nat \<Rightarrow> melodi_wire_data) \<Rightarrow> nat set \<Rightarrow> nat \<Rightarrow> melodi_device \<Rightarrow> bool" where
  "in_progress source session_epoch expires metadata fs hdr S i melodi \<longleftrightarrow>
     reassembling fs hdr S i melodi \<and>
     find_slot (reassembly_matches source (c_identity_generation (d_common (hdr 0))) session_epoch
       (c_message_id (d_common (hdr 0)))) (dev_reassemblies melodi) = Some i \<and>
     ra_expires (dev_reassemblies melodi ! i) = expires \<and> ra_metadata (dev_reassemblies melodi ! i) = metadata"

lemma reassembly_matches_alive:
  "reassembly_matches s g e m (reassembly_alive jiffies entry) \<longleftrightarrow>
     reassembly_matches s g e m entry \<and> \<not> time_after_eq jiffies (ra_expires entry)"
  by (auto simp: reassembly_alive_def reassembly_matches_def)

lemma reassembly_expire_bytes:
  assumes "reassembly_ok melodi"
  shows "unat (dev_reassembly_bytes (melodi_reassembly_expire jiffies melodi)) \<le> unat (dev_reassembly_bytes melodi)"
proof -
  have "sum_list (map reassembly_held (map (reassembly_alive jiffies) entries)) \<le> sum_list (map reassembly_held entries)" for entries
    by (induction entries) (auto simp: reassembly_alive_def)
  then show ?thesis
    using assms reassembly_expire_ok [OF assms, of jiffies] reassembly_expire_entries [OF assms, of jiffies]
    by (simp add: reassembly_ok_def del: map_map)
qed

lemma in_progress_expire:
  assumes p: "in_progress source session_epoch expires metadata fs hdr S i melodi"
    and t: "\<not> time_after_eq jiffies expires"
  shows "in_progress source session_epoch expires metadata fs hdr S i (melodi_reassembly_expire jiffies melodi)"
proof -
  have ok: "reassembly_ok melodi" using p by (simp add: in_progress_def reassembling_def)
  have i: "i < length (dev_reassemblies melodi)" using p by (simp add: in_progress_def find_slot_Some_iff)
  have e: "dev_reassemblies (melodi_reassembly_expire jiffies melodi) ! i = dev_reassemblies melodi ! i"
    using p t i by (simp add: reassembly_expire_entries [OF ok] reassembly_alive_def in_progress_def)
  have "reassembling fs hdr S i (melodi_reassembly_expire jiffies melodi)"
    using p e reassembly_expire_ok [OF ok] reassembly_expire_bytes [OF ok, of jiffies]
    by (simp add: in_progress_def reassembling_def)
  moreover have "find_slot (reassembly_matches source (c_identity_generation (d_common (hdr 0))) session_epoch
      (c_message_id (d_common (hdr 0)))) (dev_reassemblies (melodi_reassembly_expire jiffies melodi)) = Some i"
    using p t by (simp add: reassembly_expire_entries [OF ok] find_slot_Some_iff reassembly_matches_alive in_progress_def)
  ultimately show ?thesis using p e by (simp add: in_progress_def)
qed

lemma reassembly_add_continue:
  assumes mh: "message_headers fs hdr" and p: "in_progress source session_epoch expires metadata fs hdr S i melodi"
    and t: "\<not> time_after_eq jiffies expires" and k: "k < length fs"
  shows "melodi_reassembly_add msecs_to_jiffies memory jiffies melodi source (hdr k) session_epoch meta fragment =
    reassembly_accept memory (melodi_reassembly_expire jiffies melodi) i (hdr k) fragment"
proof -
  note q = in_progress_expire [OF p t]
  have "ra_active (dev_reassemblies (melodi_reassembly_expire jiffies melodi) ! i)"
    "melodi_reassembly_consistent (dev_reassemblies (melodi_reassembly_expire jiffies melodi) ! i) (hdr k)"
    using q k by (simp_all add: in_progress_def reassembling_def collecting_def)
  then show ?thesis
    using q message_headersD(4) [OF mh k]
    by (simp add: melodi_reassembly_add_def Let_def melodi_reassembly_find_def in_progress_def message_header_def)
qed

lemma in_progress_stored:
  assumes p: "in_progress source session_epoch expires metadata fs hdr S i melodi"
    and r: "reassembling fs hdr T i (reassembly_stored melodi i header fragment)"
  shows "in_progress source session_epoch expires metadata fs hdr T i (reassembly_stored melodi i header fragment)"
  using p r by (auto simp: in_progress_def reassembly_stored_def find_slot_Some_iff) (simp add: reassembly_insert_def)

lemma reassembly_add_first:
  assumes mh: "message_headers fs hdr" and ok: "reassembly_ok melodi" and k: "k < length fs"
    and none: "find_slot (reassembly_matches source (c_identity_generation (d_common (hdr 0))) session_epoch
      (c_message_id (d_common (hdr 0)))) (dev_reassemblies melodi) = None"
    and free: "list_ex (\<lambda>entry. \<not> ra_active entry) (dev_reassemblies melodi)"
    and room: "unat (dev_reassembly_bytes melodi) + length (concat fs) \<le> 32768"
  shows "\<exists>i melodi'. in_progress source session_epoch (jiffies + msecs_to_jiffies MELODI_REASSEMBLY_TIMEOUT_MS) metadata fs hdr {} i melodi' \<and>
    melodi_reassembly_add msecs_to_jiffies memory jiffies melodi source (hdr k) session_epoch metadata fragment =
      reassembly_accept memory melodi' i (hdr k) fragment"
proof -
  let ?m = "melodi_reassembly_expire jiffies melodi"
  let ?e = "reassembly_open (jiffies + msecs_to_jiffies MELODI_REASSEMBLY_TIMEOUT_MS) source (hdr k) session_epoch metadata"
  let ?match = "reassembly_matches source (c_identity_generation (d_common (hdr 0))) session_epoch (c_message_id (d_common (hdr 0)))"
  have m: "reassembly_ok ?m" by (rule reassembly_expire_ok [OF ok])
  have entries: "dev_reassemblies ?m = map (reassembly_alive jiffies) (dev_reassemblies melodi)" by (rule reassembly_expire_entries [OF ok])
  have nomatch: "find_slot ?match (dev_reassemblies ?m) = None"
    using none by (simp add: entries find_slot_None_iff reassembly_matches_alive)
  obtain entry where "entry \<in> set (dev_reassemblies melodi)" "\<not> ra_active entry" using free by (auto simp: list_ex_iff)
  then have "reassembly_alive jiffies entry \<in> set (dev_reassemblies ?m)" "\<not> ra_active (reassembly_alive jiffies entry)"
    by (simp_all add: entries reassembly_alive_def)
  then have "find_slot (\<lambda>entry. \<not> ra_active entry) (dev_reassemblies ?m) \<noteq> None"
    unfolding find_slot_None_iff by blast
  then obtain i where i: "find_slot (\<lambda>entry. \<not> ra_active entry) (dev_reassemblies ?m) = Some i" by (rule not_None_eq [THEN iffD1, THEN exE])
  have len: "i < length (dev_reassemblies ?m)" "i < 16" and inact: "\<not> ra_active (dev_reassemblies ?m ! i)"
    using i m by (simp_all add: find_slot_Some_iff reassembly_ok_def)
  let ?o = "?m\<lparr>dev_reassemblies := (dev_reassemblies ?m)[i := ?e]\<rparr>"
  note op = reassembly_open_ok [OF message_headersD(1) [OF mh k]] and mk = message_headersD(4) [OF mh k]
  have "reassembly_ok ?o"
    using op inact by (intro reassembly_ok_replace [OF m len(2)]) simp_all
  moreover have "collecting fs hdr {} ?e"
    using op message_headers_consistent [OF mh k] mh
    by (simp add: collecting_def) (simp add: reassembly_open_def zero_reassembly_def message_headers_def)
  ultimately have "reassembling fs hdr {} i ?o"
    using len room reassembly_expire_bytes [OF ok, of jiffies] by (simp add: reassembling_def awaiting_empty)
  moreover have "find_slot ?match (dev_reassemblies ?o) = Some i"
    using nomatch len mk by (simp add: find_slot_Some_iff find_slot_None_iff)
      (simp add: reassembly_matches_def reassembly_open_def message_header_def)
  ultimately have "in_progress source session_epoch (jiffies + msecs_to_jiffies MELODI_REASSEMBLY_TIMEOUT_MS) metadata fs hdr {} i ?o"
    using len by (simp add: in_progress_def) (simp add: reassembly_open_def)
  moreover have "melodi_reassembly_add msecs_to_jiffies memory jiffies melodi source (hdr k) session_epoch metadata fragment =
      reassembly_accept memory ?o i (hdr k) fragment"
    using nomatch i inact mk by (simp add: melodi_reassembly_add_def Let_def melodi_reassembly_find_def message_header_def)
  ultimately show ?thesis by blast
qed


text \<open>Deliveries of fragments, each with the time and the metadata of its frame.\<close>

fun reassembly_run ::
  "(nat \<Rightarrow> u64) \<Rightarrow> bytes \<Rightarrow> u64 \<Rightarrow> (nat \<Rightarrow> melodi_wire_data) \<Rightarrow> bytes list \<Rightarrow> melodi_device \<Rightarrow> (u64 \<times> melodi_rx_meta \<times> nat) list \<Rightarrow>
     melodi_device \<times> (u64 \<times> reassembly_message option) res list" where
  "reassembly_run msecs_to_jiffies source session_epoch hdr fs melodi [] = (melodi, [])"
| "reassembly_run msecs_to_jiffies source session_epoch hdr fs melodi ((jiffies, metadata, k) # ds) =
     (let (melodi, result) = melodi_reassembly_add msecs_to_jiffies True jiffies melodi source (hdr k) session_epoch metadata (fs ! k);
          (melodi, results) = reassembly_run msecs_to_jiffies source session_epoch hdr fs melodi ds
      in (melodi, result # results))"

definition fragment_pending :: "(u64 \<times> reassembly_message option) res \<Rightarrow> bool" where
  "fragment_pending result \<longleftrightarrow> (case result of Inr (_, None) \<Rightarrow> True | _ \<Rightarrow> False)"

definition reassembled ::
  "bytes \<Rightarrow> melodi_rx_meta \<Rightarrow> (nat \<Rightarrow> melodi_wire_data) \<Rightarrow> bytes list \<Rightarrow> (u64 \<times> reassembly_message option) res" where
  "reassembled source metadata hdr fs =
     Inr (reassembly_expected (of_nat (length fs)),
       Some \<lparr>rmsg_source = source, rmsg_source_service = d_source_service (hdr 0),
             rmsg_destination_service = d_destination_service (hdr 0),
             rmsg_metadata = metadata, rmsg_payload = concat fs\<rparr>)"

definition reassembles ::
  "(u64 \<times> reassembly_message option) res list \<Rightarrow> (u64 \<times> reassembly_message option) res \<Rightarrow> bool" where
  "reassembles results final \<longleftrightarrow> results \<noteq> [] \<and> last results = final \<and> list_all fragment_pending (butlast results)"

lemma reassembly_accept_run:
  assumes mh: "message_headers fs hdr" and q: "in_progress source session_epoch expires metadata fs hdr S i melodi"
    and k: "k < length fs" "k \<notin> S" and last: "ds = [] \<longleftrightarrow> insert k S = {..<length fs}"
    and IH: "\<And>melodi. ds \<noteq> [] \<Longrightarrow> in_progress source session_epoch expires metadata fs hdr (insert k S) i melodi \<Longrightarrow>
      reassembles (snd (reassembly_run msecs_to_jiffies source session_epoch hdr fs melodi ds)) (reassembled source metadata hdr fs)"
  defines "outcome \<equiv> reassembly_accept True melodi i (hdr k) (fs ! k)"
  shows "reassembles (snd outcome # snd (reassembly_run msecs_to_jiffies source session_epoch hdr fs (fst outcome) ds))
    (reassembled source metadata hdr fs)"
proof -
  have r: "reassembling fs hdr S i melodi" using q by (simp add: in_progress_def)
  show ?thesis
  proof (cases "ds = []")
    case True
    have "ra_source (dev_reassemblies melodi ! i) = source" "ra_metadata (dev_reassemblies melodi ! i) = metadata"
      using q by (simp_all add: in_progress_def find_slot_Some_iff reassembly_matches_def)
    then have "snd outcome = reassembled source metadata hdr fs"
      using reassembling_last [OF mh r k last [THEN iffD1, OF True]] unfolding outcome_def reassembled_def
      by (elim exE conjE) simp
    then show ?thesis using True by (simp add: reassembles_def)
  next
    case False
    then have "insert k S \<noteq> {..<length fs}" using last by blast
    note more = reassembling_more [OF mh r k this]
    show ?thesis
      using IH [OF False in_progress_stored [OF q more(2)]] more(1) [of True]
      by (simp add: outcome_def reassembles_def fragment_pending_def)
  qed
qed

lemma reassembly_run_continue:
  assumes mh: "message_headers fs hdr" and p: "in_progress source session_epoch expires metadata fs hdr S i melodi"
    and "distinct (map (\<lambda>d. snd (snd d)) ds)" "ds \<noteq> []" "S \<inter> (\<lambda>d. snd (snd d)) ` set ds = {}"
      "S \<union> (\<lambda>d. snd (snd d)) ` set ds = {..<length fs}"
    and "\<forall>d \<in> set ds. \<not> time_after_eq (fst d) expires"
  shows "reassembles (snd (reassembly_run msecs_to_jiffies source session_epoch hdr fs melodi ds)) (reassembled source metadata hdr fs)"
  using p assms(3-)
proof (induction ds arbitrary: S melodi)
  case (Cons d ds)
  obtain t meta k where d: "d = (t, meta, k)" by (cases d) auto
  have k: "k < length fs" "k \<notin> S" using Cons.prems(4,5) d by auto
  have t: "\<not> time_after_eq t expires" using Cons.prems(6) d by simp
  have last: "ds = [] \<longleftrightarrow> insert k S = {..<length fs}"
    using Cons.prems(2,4,5) d by (cases ds) auto
  have "reassembles (snd (reassembly_run msecs_to_jiffies source session_epoch hdr fs melodi ds)) (reassembled source metadata hdr fs)"
    if "ds \<noteq> []" "in_progress source session_epoch expires metadata fs hdr (insert k S) i melodi" for melodi
    using Cons.prems(2,4,5,6) d that by (intro Cons.IH [of "insert k S"]) auto
  note step = reassembly_accept_run [OF mh in_progress_expire [OF Cons.prems(1) t] k last this]
  show ?case
    using step by (simp add: d reassembly_add_continue [OF mh Cons.prems(1) t k(1)] split_beta)
qed simp

text \<open>
  C2. The fragments of a message are reassembled in whatever order they arrive: of a run of
  deliveries, one of every fragment, within the timeout, all but the last are accepted as pending,
  and the last gives the message, whose payload is the concatenation of the fragments and whose
  metadata are those of the fragment that came first. A free slot and the room for the bytes are
  enough, whatever the other slots hold.
\<close>

theorem reassembly_any_order:
  assumes "reassembly_ok melodi" "message_headers fs hdr"
    and "find_slot (reassembly_matches source (c_identity_generation (d_common (hdr 0))) session_epoch
      (c_message_id (d_common (hdr 0)))) (dev_reassemblies melodi) = None"
    and "list_ex (\<lambda>entry. \<not> ra_active entry) (dev_reassemblies melodi)"
    and "unat (dev_reassembly_bytes melodi) + length (concat fs) \<le> 32768"
    and "ds = (jiffies, metadata, k) # rest" "distinct (map (\<lambda>d. snd (snd d)) ds)" "(\<lambda>d. snd (snd d)) ` set ds = {..<length fs}"
    and "\<forall>d \<in> set rest. \<not> time_after_eq (fst d) (jiffies + msecs_to_jiffies MELODI_REASSEMBLY_TIMEOUT_MS)"
  shows "reassembles (snd (reassembly_run msecs_to_jiffies source session_epoch hdr fs melodi ds)) (reassembled source metadata hdr fs)"
proof -
  let ?E = "jiffies + msecs_to_jiffies MELODI_REASSEMBLY_TIMEOUT_MS"
  have k: "k < length fs" using assms(6,8) by auto
  obtain i melodi' where q: "in_progress source session_epoch ?E metadata fs hdr {} i melodi'"
    and add: "melodi_reassembly_add msecs_to_jiffies True jiffies melodi source (hdr k) session_epoch metadata (fs ! k) =
      reassembly_accept True melodi' i (hdr k) (fs ! k)"
    using reassembly_add_first [OF assms(2,1) k assms(3-5)] by blast
  have last: "rest = [] \<longleftrightarrow> insert k {} = {..<length fs}"
    using assms(6-8) by (cases rest) auto
  have "reassembles (snd (reassembly_run msecs_to_jiffies source session_epoch hdr fs m rest)) (reassembled source metadata hdr fs)"
    if "rest \<noteq> []" "in_progress source session_epoch ?E metadata fs hdr (insert k {}) i m" for m
    using assms(6-9) that by (intro reassembly_run_continue [OF assms(2), of _ _ ?E _ "insert k {}"]) auto
  from reassembly_accept_run [OF assms(2) q k _ last this] show ?thesis
    using assms(6) add by (simp add: split_beta)
qed


definition example_header :: "nat \<Rightarrow> nat \<Rightarrow> nat \<Rightarrow> nat \<Rightarrow> melodi_wire_data" where
  "example_header count total_length index octets =
     \<lparr>d_common = \<lparr>c_version = 1, c_frame_class = 3, c_flags = (if index + 1 = count then 0x12 else 2),
        c_header_length = 80, c_payload_length = of_nat octets, c_source_native_locator = 7,
        c_destination_native_locator = 9, c_identity_generation = 1, c_message_id = 5, c_counter = of_nat (index + 1)\<rparr>,
      d_destination_service = 40, d_source_service = 41, d_fragment_index = of_nat index,
      d_fragment_count = of_nat count, d_logical_length = of_nat total_length, d_delivery_mode = 0,
      d_priority = 0, d_ordering_marker = 0, d_tag = replicate 16 0\<rparr>"

lemma reassembly_ok_zero: "reassembly_ok zero_device"
  by (simp add: reassembly_ok_def zero_device_def list_all_iff sum_list_replicate)

theorem reassembly_any_order_witness:
  "reassembles
     (snd (reassembly_run of_nat (replicate 32 1) 6 (\<lambda>k. example_header 2 3 k (2 - k)) [[1, 2], [3]] zero_device
        [(100, zero_rx_meta, 1), (200, zero_rx_meta, 0)]))
     (reassembled (replicate 32 1) zero_rx_meta (\<lambda>k. example_header 2 3 k (2 - k)) [[1, 2], [3]])"
proof (rule reassembly_any_order [OF reassembly_ok_zero])
  show "message_headers [[1, 2], [3]] (\<lambda>k. example_header 2 3 k (2 - k))"
    by (simp add: message_headers_def message_header_def example_header_def upt_rec)
  show "find_slot (reassembly_matches (replicate 32 1) (c_identity_generation (d_common (example_header 2 3 0 (2 - 0)))) 6
      (c_message_id (d_common (example_header 2 3 0 (2 - 0))))) (dev_reassemblies zero_device) = None"
    by (simp add: find_slot_None_iff zero_device_def reassembly_matches_def)
  show "\<forall>d \<in> set [(200, zero_rx_meta, 0)]. \<not> time_after_eq (fst d) (100 + of_nat MELODI_REASSEMBLY_TIMEOUT_MS)"
    by (simp add: time_after_eq_def)
qed (auto simp: zero_device_def list_ex_iff)

text \<open>
  C3. The bytes held are accounted exactly: a device whose count is the sum over its active
  entries, within the limit, with the bitmap and the length of every entry those of the fragments
  it holds, keeps this when a fragment is added, whatever the result, and when entries expire or
  are cleared.
\<close>

theorem reassembly_accounting:
  assumes "reassembly_ok melodi" "fragment_fits header fragment" "i < MELODI_REASSEMBLY_LIMIT"
  shows "reassembly_ok (fst (melodi_reassembly_add msecs_to_jiffies memory jiffies melodi source header session_epoch metadata fragment)) \<and>
    reassembly_ok (melodi_reassembly_expire jiffies melodi) \<and> reassembly_ok (melodi_reassembly_clear melodi i)"
  using assms by (intro conjI reassembly_add_ok reassembly_expire_ok reassembly_clear_ok)

theorem reassembly_accounting_witness:
  "reassembly_ok (fst (melodi_reassembly_add of_nat True 100 zero_device (replicate 32 1) (example_header 2 3 0 2) 6 zero_rx_meta [1, 2])) \<and>
   reassembly_ok (melodi_reassembly_expire 100 zero_device) \<and> reassembly_ok (melodi_reassembly_clear zero_device 3)"
  by (rule reassembly_accounting [OF reassembly_ok_zero]) (simp_all add: fragment_fits_def example_header_def)

end
