(* ===== verification/Data.thy ===== *)
theory Data
  imports Policy Reassembly
begin

unbundle bit_operations_syntax

text \<open>
  The tables of messages of \<open>src/kernel/core/data.c\<close>: the flows of ordered messages and their
  buffer, the messages that wait for an acknowledgement, the messages that wait for the discovery
  of their destination, and what a change of the state of the device does to them. Every operation
  runs under \<open>melodi->lock\<close>; the clock is an argument, the delivery of messages and of errors to
  user space is a result. A batch is the list of the messages it holds.
\<close>

abbreviation (input) MELODI_ORDER_BYTE_LIMIT :: u32 where "MELODI_ORDER_BYTE_LIMIT \<equiv> 32768"
abbreviation (input) MELODI_DISCOVERY_PER_NODE_LIMIT :: nat where "MELODI_DISCOVERY_PER_NODE_LIMIT \<equiv> 4"
abbreviation (input) MELODI_DISCOVERY_BYTE_LIMIT :: u32 where "MELODI_DISCOVERY_BYTE_LIMIT \<equiv> 32768"
abbreviation (input) MELODI_DISCOVERY_TIMEOUT_MS :: u32 where "MELODI_DISCOVERY_TIMEOUT_MS \<equiv> 5000"

subsection \<open>Peers\<close>

definition melodi_peer_by_node :: "melodi_device \<Rightarrow> bytes \<Rightarrow> nat option" where
  "melodi_peer_by_node melodi node =
     find_slot (\<lambda>peer. pe_authenticated peer \<and> pe_node_id peer = node) (dev_peers melodi)"

definition melodi_peer_by_native_locator :: "melodi_device \<Rightarrow> u32 \<Rightarrow> nat option" where
  "melodi_peer_by_native_locator melodi native_locator =
     find_slot (\<lambda>peer. pe_authenticated peer \<and> \<not> pe_conflicted peer \<and> pe_native_locator peer = native_locator)
       (dev_peers melodi)"

subsection \<open>Ordered messages\<close>

definition melodi_order_message_clear :: "melodi_device \<Rightarrow> nat \<Rightarrow> melodi_device" where
  "melodi_order_message_clear melodi index =
     (let message = dev_order_messages melodi ! index
      in if \<not> om_active message then melodi
         else melodi\<lparr>dev_order_bytes :=
                       (if unat (dev_order_bytes melodi) \<ge> om_length message
                        then dev_order_bytes melodi - of_nat (om_length message) else 0),
                     dev_order_messages := (dev_order_messages melodi)[index := zero_order_message]\<rparr>)"

definition melodi_order_flow_clear :: "melodi_device \<Rightarrow> nat \<Rightarrow> melodi_device" where
  "melodi_order_flow_clear melodi flow_index =
     (let melodi = fold (\<lambda>index melodi.
            let message = dev_order_messages melodi ! index
            in if om_active message \<and> om_flow_index message = of_nat flow_index
               then melodi_order_message_clear melodi index else melodi) [0..<MELODI_ORDER_BUFFER_LIMIT] melodi
      in melodi\<lparr>dev_order_rx := (dev_order_rx melodi)[flow_index := zero_order_rx]\<rparr>)"

definition melodi_data_order_reset_locked :: "melodi_device \<Rightarrow> melodi_device" where
  "melodi_data_order_reset_locked melodi =
     (let melodi = fold (\<lambda>index melodi. melodi_order_message_clear melodi index) [0..<MELODI_ORDER_BUFFER_LIMIT] melodi
      in melodi\<lparr>dev_order_tx := replicate MELODI_ORDER_FLOW_LIMIT zero_order_tx,
           dev_order_rx := replicate MELODI_ORDER_FLOW_LIMIT zero_order_rx, dev_order_bytes := 0\<rparr>)"

definition melodi_data_peer_reset_locked :: "melodi_device \<Rightarrow> bytes \<Rightarrow> melodi_device" where
  "melodi_data_peer_reset_locked melodi node_id =
     (let melodi = fold (\<lambda>index melodi.
            let entry = dev_reassemblies melodi ! index
            in if ra_active entry \<and> ra_source entry = node_id then melodi_reassembly_clear melodi index else melodi)
            [0..<MELODI_REASSEMBLY_LIMIT] melodi;
          melodi = melodi\<lparr>dev_receipts := map (\<lambda>r. if rc_active r \<and> rc_source r = node_id then zero_receipt else r)
            (dev_receipts melodi)\<rparr>
      in fold (\<lambda>index melodi.
           let melodi = (if or_active (dev_order_rx melodi ! index) \<and> or_source (dev_order_rx melodi ! index) = node_id
                  then melodi_order_flow_clear melodi index else melodi)
           in if ot_active (dev_order_tx melodi ! index) \<and> ot_destination (dev_order_tx melodi ! index) = node_id
              then melodi\<lparr>dev_order_tx := (dev_order_tx melodi)[index := zero_order_tx]\<rparr> else melodi)
           [0..<MELODI_ORDER_FLOW_LIMIT] melodi)"

definition melodi_order_message_find :: "melodi_device \<Rightarrow> nat \<Rightarrow> u32 \<Rightarrow> nat option" where
  "melodi_order_message_find melodi flow_index marker =
     find_slot (\<lambda>m. om_active m \<and> om_flow_index m = of_nat flow_index \<and> om_marker m = marker) (dev_order_messages melodi)"

definition melodi_order_message_empty :: "melodi_device \<Rightarrow> nat option" where
  "melodi_order_message_empty melodi = find_slot (\<lambda>m. \<not> om_active m) (dev_order_messages melodi)"

text \<open>The two loops of \<open>melodi_order_detach_locked\<close>: all messages are there, and they move to the batch.\<close>

fun order_present :: "melodi_device \<Rightarrow> nat \<Rightarrow> u32 \<Rightarrow> nat \<Rightarrow> bool" where
  "order_present melodi flow_index cursor 0 = True"
| "order_present melodi flow_index cursor (Suc count) =
     (melodi_order_message_find melodi flow_index cursor \<noteq> None \<and>
      order_present melodi flow_index (melodi_order_next cursor) count)"

fun order_detach :: "melodi_device \<Rightarrow> nat \<Rightarrow> u32 \<Rightarrow> nat \<Rightarrow> melodi_order_message list \<Rightarrow> melodi_device \<times> melodi_order_message list" where
  "order_detach melodi flow_index cursor 0 batch = (melodi, batch)"
| "order_detach melodi flow_index cursor (Suc count) batch =
     (case melodi_order_message_find melodi flow_index cursor of
        None \<Rightarrow> (melodi, batch)
      | Some index \<Rightarrow>
          order_detach (melodi_order_message_clear melodi index) flow_index (melodi_order_next cursor) count
            (batch @ [dev_order_messages melodi ! index]))"

definition melodi_order_detach_locked ::
  "melodi_device \<Rightarrow> nat \<Rightarrow> u32 \<Rightarrow> u8 \<Rightarrow> melodi_order_message list \<Rightarrow> (melodi_device \<times> melodi_order_message list) \<times> unit res" where
  "melodi_order_detach_locked melodi flow_index marker count batch =
     (if unat count > 33 - length batch then ((melodi, batch), Inl EOVERFLOW)
      else if \<not> order_present melodi flow_index marker (unat count) then ((melodi, batch), Inl EIO)
      else (order_detach melodi flow_index marker (unat count) batch, Inr ()))"

definition order_tx_matches :: "bytes \<Rightarrow> u16 \<Rightarrow> u16 \<Rightarrow> melodi_order_tx_flow \<Rightarrow> bool" where
  "order_tx_matches destination source_service destination_service flow \<longleftrightarrow>
     ot_active flow \<and> ot_destination flow = destination \<and> ot_source_service flow = source_service \<and>
     ot_destination_service flow = destination_service"

definition melodi_order_tx_marker_locked ::
  "melodi_device \<Rightarrow> bytes \<Rightarrow> u16 \<Rightarrow> u16 \<Rightarrow> u32 \<Rightarrow> u64 \<Rightarrow> melodi_device \<times> u32 res" where
  "melodi_order_tx_marker_locked melodi destination source_service destination_service generation session_epoch =
     (let table = dev_order_tx melodi;
          fresh = zero_order_tx\<lparr>ot_destination := destination, ot_generation := generation,
            ot_session_epoch := session_epoch, ot_source_service := source_service,
            ot_destination_service := destination_service, ot_next_marker := 1, ot_active := True\<rparr>;
          take_marker = (\<lambda>index flow.
            (melodi\<lparr>dev_order_tx := table[index := flow\<lparr>ot_next_marker := melodi_order_next (ot_next_marker flow)\<rparr>]\<rparr>,
             Inr (ot_next_marker flow)))
      in case find_slot (order_tx_matches destination source_service destination_service) table of
           Some index \<Rightarrow>
             if ot_generation (table ! index) \<noteq> generation \<or> ot_session_epoch (table ! index) \<noteq> session_epoch
             then take_marker index fresh else take_marker index (table ! index)
         | None \<Rightarrow>
             (case find_slot (\<lambda>flow. \<not> ot_active flow) table of
                None \<Rightarrow> (melodi, Inl ENOSPC)
              | Some index \<Rightarrow> take_marker index fresh))"

definition order_rx_matches :: "bytes \<Rightarrow> u16 \<Rightarrow> u16 \<Rightarrow> u32 \<Rightarrow> u64 \<Rightarrow> melodi_order_rx_flow \<Rightarrow> bool" where
  "order_rx_matches source source_service destination_service generation session_epoch flow \<longleftrightarrow>
     or_active flow \<and> or_generation flow = generation \<and> or_session_epoch flow = session_epoch \<and>
     or_source_service flow = source_service \<and> or_destination_service flow = destination_service \<and>
     or_source flow = source"

definition melodi_order_rx_flow_locked ::
  "melodi_device \<Rightarrow> bytes \<Rightarrow> u16 \<Rightarrow> u16 \<Rightarrow> u32 \<Rightarrow> u64 \<Rightarrow> (nat \<times> bool) res" where
  "melodi_order_rx_flow_locked melodi source source_service destination_service generation session_epoch =
     (case find_slot (order_rx_matches source source_service destination_service generation session_epoch) (dev_order_rx melodi) of
        Some index \<Rightarrow> Inr (index, False)
      | None \<Rightarrow>
          (case find_slot (\<lambda>flow. \<not> or_active flow) (dev_order_rx melodi) of
             None \<Rightarrow> Inl ENOSPC
           | Some index \<Rightarrow> Inr (index, True)))"

definition melodi_order_admit_locked ::
  "u64 \<Rightarrow> melodi_device \<Rightarrow> bytes \<Rightarrow> melodi_wire_data \<Rightarrow> u64 \<Rightarrow> melodi_rx_meta \<Rightarrow> bytes \<Rightarrow> melodi_order_message list \<Rightarrow>
     (melodi_device \<times> melodi_order_message list) \<times> unit res" where
  "melodi_order_admit_locked now_ms melodi source header session_epoch metadata payload batch =
     (case melodi_order_rx_flow_locked melodi source (d_source_service header) (d_destination_service header)
             (c_identity_generation (d_common header)) session_epoch of
        Inl error \<Rightarrow> ((melodi, batch), Inl error)
      | Inr (flow_index, created) \<Rightarrow>
         (let state = (if created then melodi_order_reset else or_state (dev_order_rx melodi ! flow_index));
              (next_state, release, result) = melodi_order_admit state (d_ordering_marker header) now_ms
          in case result of
               Inl error \<Rightarrow> ((melodi, batch), Inl error)
             | Inr MELODI_ORDER_DUPLICATE \<Rightarrow> ((melodi, batch), Inr ())
             | Inr result \<Rightarrow>
                 if length payload > unat (MELODI_ORDER_BYTE_LIMIT - dev_order_bytes melodi)
                 then ((melodi, batch), Inl ENOSPC)
                 else (case melodi_order_message_empty melodi of
                    None \<Rightarrow> ((melodi, batch), Inl ENOSPC)
                  | Some slot \<Rightarrow>
                     (let flow = (if created
                            then zero_order_rx\<lparr>or_source := source, or_session_epoch := session_epoch,
                              or_generation := c_identity_generation (d_common header),
                              or_source_service := d_source_service header,
                              or_destination_service := d_destination_service header, or_active := True\<rparr>
                            else dev_order_rx melodi ! flow_index);
                          message = \<lparr>om_source = source, om_metadata = metadata, om_payload = payload,
                            om_length = length payload, om_marker = d_ordering_marker header,
                            om_source_service = d_source_service header,
                            om_destination_service = d_destination_service header,
                            om_flow_index = of_nat flow_index, om_active = True\<rparr>;
                          melodi = melodi\<lparr>
                            dev_order_rx := (dev_order_rx melodi)[flow_index := flow\<lparr>or_state := next_state\<rparr>],
                            dev_order_messages := (dev_order_messages melodi)[slot := message],
                            dev_order_bytes := dev_order_bytes melodi + of_nat (length payload)\<rparr>
                      in case (result, release) of
                           (MELODI_ORDER_RELEASED, Some (marker, count)) \<Rightarrow>
                             (case melodi_order_detach_locked melodi flow_index marker count batch of
                                ((melodi, batch), Inl error) \<Rightarrow> ((melodi_order_flow_clear melodi flow_index, batch), Inl error)
                              | (state, Inr _) \<Rightarrow> (state, Inr ()))
                         | _ \<Rightarrow> ((melodi, batch), Inr ())))))"

text \<open>The first flow that fails or releases ends the loop of \<open>melodi_order_poll_locked\<close>.\<close>

fun order_poll_loop ::
  "u64 \<Rightarrow> melodi_device \<Rightarrow> nat list \<Rightarrow> melodi_order_message list \<Rightarrow> (melodi_device \<times> melodi_order_message list) \<times> unit res" where
  "order_poll_loop now_ms melodi [] batch = ((melodi, batch), Inr ())"
| "order_poll_loop now_ms melodi (index # rest) batch =
     (let flow = dev_order_rx melodi ! index
      in if \<not> or_active flow then order_poll_loop now_ms melodi rest batch
         else
          (let (state, release, result) = melodi_order_poll (or_state flow) now_ms;
               melodi = melodi\<lparr>dev_order_rx := (dev_order_rx melodi)[index := flow\<lparr>or_state := state\<rparr>]\<rparr>
           in case (result, release) of
                (Inl error, _) \<Rightarrow> ((melodi_order_flow_clear melodi index, batch), Inl error)
              | (Inr MELODI_ORDER_RELEASED, Some (marker, count)) \<Rightarrow>
                  (case melodi_order_detach_locked melodi index marker count batch of
                     ((melodi, batch), Inl error) \<Rightarrow> ((melodi_order_flow_clear melodi index, batch), Inl error)
                   | (after, Inr _) \<Rightarrow> (after, Inr ()))
              | _ \<Rightarrow> order_poll_loop now_ms melodi rest batch))"

definition melodi_order_poll_locked ::
  "u64 \<Rightarrow> melodi_device \<Rightarrow> melodi_order_message list \<Rightarrow> (melodi_device \<times> melodi_order_message list) \<times> unit res" where
  "melodi_order_poll_locked now_ms melodi batch = order_poll_loop now_ms melodi [0..<MELODI_ORDER_FLOW_LIMIT] batch"

subsection \<open>Messages that wait for an acknowledgement\<close>

definition melodi_pending_clear :: "melodi_device \<Rightarrow> nat \<Rightarrow> melodi_device" where
  "melodi_pending_clear melodi index =
     (if \<not> pm_allocated (dev_pending melodi ! index) then melodi
      else melodi\<lparr>dev_pending := (dev_pending melodi)[index := zero_pending]\<rparr>)"

text \<open>A destination may be absent, an identifier of 0 stands for any.\<close>

definition melodi_data_cancel_pending_locked ::
  "melodi_device \<Rightarrow> bytes option \<Rightarrow> u64 \<Rightarrow> u64 \<Rightarrow> melodi_device \<times> bool" where
  "melodi_data_cancel_pending_locked melodi destination message_id reservation_id =
     (case find_slot (\<lambda>pending. pm_allocated pending \<and>
             (reservation_id \<noteq> 0 \<longrightarrow> pm_reservation_id pending = reservation_id) \<and>
             (message_id \<noteq> 0 \<longrightarrow> rel_message_id (pm_reliability pending) = message_id) \<and>
             (case destination of None \<Rightarrow> True | Some node \<Rightarrow> pm_destination pending = node)) (dev_pending melodi) of
        None \<Rightarrow> (melodi, False)
      | Some index \<Rightarrow> (melodi_pending_clear melodi index, True))"

definition melodi_reliability_pending :: "melodi_device \<Rightarrow> bool" where
  "melodi_reliability_pending melodi \<longleftrightarrow> find_slot pm_allocated (dev_pending melodi) \<noteq> None"

definition melodi_pending_valid_locked :: "u64 \<Rightarrow> melodi_device \<Rightarrow> melodi_pending_message \<Rightarrow> unit res" where
  "melodi_pending_valid_locked now_ms melodi pending =
     (if now_ms \<ge> pm_expires_ms pending then Inl ETIMEDOUT
      else if \<not> dev_transport_ready melodi \<or>
              dev_identity_generation melodi \<noteq> rel_generation (pm_reliability pending) \<or>
              dev_local_native_locator melodi \<noteq> pm_source_native_locator pending \<or>
              dev_local_link_locator melodi \<noteq> pm_source_link_locator pending
      then Inl ENETDOWN
      else case melodi_peer_by_node melodi (pm_destination pending) of
             None \<Rightarrow> Inl EHOSTUNREACH
           | Some index \<Rightarrow>
              (let peer = dev_peers melodi ! index
               in if \<not> pe_session_ready peer \<or> pe_conflicted peer then Inl EHOSTUNREACH
                  else if pe_native_locator peer \<noteq> pm_destination_native_locator pending \<or>
                          pe_link_locator peer \<noteq> pm_destination_link_locator pending \<or>
                          pe_generation peer \<noteq> pm_destination_generation pending \<or>
                          pe_session_epoch peer \<noteq> pm_session_epoch pending
                  then Inl EKEYREVOKED
                  else case melodi_policy_check_locked melodi (pm_destination pending) of
                         Inl error \<Rightarrow> Inl error
                       | Inr _ \<Rightarrow> melodi_policy_check_service_locked melodi (pm_destination_service pending) False))"

definition melodi_data_queue_valid_locked ::
  "melodi_device \<Rightarrow> bytes \<Rightarrow> u16 \<Rightarrow> bool \<Rightarrow> melodi_tx_meta \<Rightarrow> u32 \<Rightarrow> u64 \<Rightarrow> unit res" where
  "melodi_data_queue_valid_locked melodi destination destination_service broadcast metadata identity_generation session_epoch =
     (if \<not> dev_identity_ready melodi \<or> \<not> dev_transport_ready melodi \<or>
         dev_identity_generation melodi \<noteq> identity_generation \<or>
         dev_local_link_locator melodi \<noteq> tm_source_locator metadata
      then Inl EKEYREVOKED
      else case melodi_policy_check_message_locked melodi destination destination_service broadcast of
             Inl error \<Rightarrow> Inl error
           | Inr _ \<Rightarrow>
               if broadcast then Inr ()
               else (case melodi_peer_by_node melodi destination of
                  None \<Rightarrow> Inl EHOSTUNREACH
                | Some index \<Rightarrow>
                   (let peer = dev_peers melodi ! index
                    in if \<not> pe_session_ready peer \<or> pe_conflicted peer \<or>
                          pe_link_locator peer \<noteq> tm_destination_locator metadata
                       then Inl EHOSTUNREACH
                       else if pe_session_epoch peer = session_epoch then Inr () else Inl EKEYREVOKED)))"

subsection \<open>Messages that wait for discovery\<close>

definition melodi_discovery_target_find_locked :: "melodi_device \<Rightarrow> bytes \<Rightarrow> nat option" where
  "melodi_discovery_target_find_locked melodi destination =
     find_slot (\<lambda>target. dt_active target \<and> dt_destination target = destination) (dev_discovery_targets melodi)"

text \<open>The slot stored through \<open>empty\<close> when no target is found.\<close>

definition discovery_target_empty :: "melodi_device \<Rightarrow> nat option" where
  "discovery_target_empty melodi = find_slot (\<lambda>target. \<not> dt_active target) (dev_discovery_targets melodi)"

definition melodi_discovery_destination_pending_locked :: "melodi_device \<Rightarrow> bytes \<Rightarrow> bool" where
  "melodi_discovery_destination_pending_locked melodi destination \<longleftrightarrow>
     find_slot (\<lambda>pending. dp_active pending \<and> dp_destination pending = destination) (dev_discovery_pending melodi) \<noteq> None"

definition melodi_discovery_target_release_locked :: "melodi_device \<Rightarrow> bytes \<Rightarrow> melodi_device" where
  "melodi_discovery_target_release_locked melodi destination =
     (if melodi_discovery_destination_pending_locked melodi destination then melodi
      else case melodi_discovery_target_find_locked melodi destination of
             None \<Rightarrow> melodi
           | Some index \<Rightarrow>
               melodi\<lparr>dev_discovery_targets := (dev_discovery_targets melodi)[index := zero_discovery_target]\<rparr>)"

definition melodi_discovery_pending_clear_locked :: "melodi_device \<Rightarrow> nat \<Rightarrow> melodi_device" where
  "melodi_discovery_pending_clear_locked melodi index =
     (let pending = dev_discovery_pending melodi ! index
      in if \<not> dp_active pending then melodi
         else melodi_discovery_target_release_locked
           (melodi\<lparr>dev_discovery_bytes :=
                     (if dev_discovery_bytes melodi \<ge> dp_length pending
                      then dev_discovery_bytes melodi - dp_length pending else 0),
                   dev_discovery_count :=
                     (if dev_discovery_count melodi \<noteq> 0 then dev_discovery_count melodi - 1 else dev_discovery_count melodi),
                   dev_discovery_pending := (dev_discovery_pending melodi)[index := zero_discovery_pending]\<rparr>)
           (dp_destination pending))"

text \<open>The error that refuses a message before a slot is filled, in the order of the checks.\<close>

definition discovery_refusal :: "u64 \<Rightarrow> melodi_device \<Rightarrow> bytes \<Rightarrow> bytes \<Rightarrow> errno option" where
  "discovery_refusal now_ms melodi destination payload =
     (if \<not> dev_identity_ready melodi then Some ENOKEY
      else if \<not> dev_transport_ready melodi then Some ENETDOWN
      else if (case melodi_discovery_target_find_locked melodi destination of
                 None \<Rightarrow> False
               | Some index \<Rightarrow> now_ms \<ge> dt_expires_ms (dev_discovery_targets melodi ! index))
      then Some EHOSTUNREACH
      else if find_slot (\<lambda>pending. \<not> dp_active pending) (dev_discovery_pending melodi) = None \<or>
              unat (dev_discovery_count melodi) \<ge> MELODI_DISCOVERY_PENDING_LIMIT \<or>
              length (filter (\<lambda>pending. dp_active pending \<and> dp_destination pending = destination)
                (dev_discovery_pending melodi)) \<ge> MELODI_DISCOVERY_PER_NODE_LIMIT \<or>
              length payload > unat (MELODI_DISCOVERY_BYTE_LIMIT - dev_discovery_bytes melodi)
      then Some ENOBUFS
      else if melodi_discovery_target_find_locked melodi destination = None \<and> discovery_target_empty melodi = None
      then Some ENOSPC
      else None)"

text \<open>
  The locked part of \<open>melodi_discovery_pending_admit\<close>: the slot that was filled and whether a probe
  is due.
\<close>

definition discovery_admit ::
  "u64 \<Rightarrow> melodi_device \<Rightarrow> bytes \<Rightarrow> u16 \<Rightarrow> u16 \<Rightarrow> bytes \<Rightarrow> u32 \<Rightarrow> u64 \<Rightarrow> u32 \<Rightarrow> u32 \<Rightarrow> u64 \<Rightarrow> u8 \<Rightarrow> melodi_device \<times> (nat \<times> bool) res" where
  "discovery_admit now_ms melodi destination source_service destination_service payload flags cookie ttl_ms
       binding_portid binding_generation priority =
     (case (discovery_refusal now_ms melodi destination payload,
            find_slot (\<lambda>pending. \<not> dp_active pending) (dev_discovery_pending melodi)) of
        (Some error, _) \<Rightarrow> (melodi, Inl error)
      | (None, None) \<Rightarrow> (melodi, Inl ENOBUFS)
      | (None, Some slot) \<Rightarrow>
         (let found = melodi_discovery_target_find_locked melodi destination;
              index = (case found of Some index \<Rightarrow> index | None \<Rightarrow> the (discovery_target_empty melodi));
              target = (case found of
                  Some index \<Rightarrow> dev_discovery_targets melodi ! index
                | None \<Rightarrow> \<lparr>dt_destination = destination,
                    dt_expires_ms = now_ms + ucast (min ttl_ms MELODI_DISCOVERY_TIMEOUT_MS), dt_active = True\<rparr>);
              pending = (dev_discovery_pending melodi ! slot)
                \<lparr>dp_destination := destination, dp_payload := payload, dp_cookie := cookie,
                 dp_expires_ms := min (now_ms + ucast ttl_ms) (dt_expires_ms target),
                 dp_binding_generation := binding_generation, dp_binding_portid := binding_portid,
                 dp_flags := flags, dp_length := of_nat (length payload), dp_source_service := source_service,
                 dp_destination_service := destination_service, dp_priority := priority, dp_active := True\<rparr>
          in (melodi\<lparr>dev_discovery_targets := (dev_discovery_targets melodi)[index := target],
                dev_discovery_pending := (dev_discovery_pending melodi)[slot := pending],
                dev_discovery_bytes := dev_discovery_bytes melodi + of_nat (length payload),
                dev_discovery_count := dev_discovery_count melodi + 1\<rparr>,
              Inr (slot, found = None))))"

definition melodi_discovery_pending_admit ::
  "bool \<Rightarrow> unit res \<Rightarrow> u64 \<Rightarrow> melodi_device \<Rightarrow> bytes \<Rightarrow> u16 \<Rightarrow> u16 \<Rightarrow> bytes \<Rightarrow> u32 \<Rightarrow> u64 \<Rightarrow> u32 \<Rightarrow> u32 \<Rightarrow> u64 \<Rightarrow> u8 \<Rightarrow>
     melodi_device \<times> unit res" where
  "melodi_discovery_pending_admit memory probe_result now_ms melodi destination source_service destination_service payload
       flags cookie ttl_ms binding_portid binding_generation priority =
     (if flags AND MELODI_F_DONTWAIT \<noteq> 0 then (melodi, Inl EHOSTUNREACH)
      else if payload \<noteq> [] \<and> \<not> memory then (melodi, Inl ENOMEM)
      else case discovery_admit now_ms melodi destination source_service destination_service payload flags cookie ttl_ms
                  binding_portid binding_generation priority of
             (melodi, Inl error) \<Rightarrow> (melodi, Inl error)
           | (melodi, Inr (slot, probe)) \<Rightarrow>
               if probe
               then (case probe_result of
                  Inl error \<Rightarrow> (melodi_discovery_pending_clear_locked melodi slot, Inl error)
                | Inr _ \<Rightarrow> (melodi, Inr ()))
               else (melodi, Inr ()))"

definition melodi_discovery_retryable :: "errno \<Rightarrow> bool" where
  "melodi_discovery_retryable error \<longleftrightarrow>
     error = EHOSTUNREACH \<or> error = EAGAIN \<or> error = ENOBUFS \<or> error = ENOSPC \<or> error = ENOMEM"

text \<open>What \<open>melodi_netlink_delivery_error\<close> reports.\<close>

record delivery_error =
  de_binding_portid :: u32
  de_binding_generation :: u64
  de_source_service :: u16
  de_cookie :: u64
  de_error :: errno

definition discovery_error :: "melodi_discovery_pending \<Rightarrow> errno \<Rightarrow> delivery_error" where
  "discovery_error pending error =
     \<lparr>de_binding_portid = dp_binding_portid pending, de_binding_generation = dp_binding_generation pending,
      de_source_service = dp_source_service pending, de_cookie = dp_cookie pending, de_error = error\<rparr>"

definition pending_error :: "melodi_pending_message \<Rightarrow> errno \<Rightarrow> delivery_error" where
  "pending_error pending error =
     \<lparr>de_binding_portid = pm_binding_portid pending, de_binding_generation = pm_binding_generation pending,
      de_source_service = pm_source_service pending, de_cookie = pm_cookie pending, de_error = error\<rparr>"

text \<open>
  \<open>melodi_discovery_work\<close> runs in two locked sections around an attempt to send. The first gives up
  an expired message or selects one, with the time it has left; the second handles the result.
\<close>

datatype discovery_step = Discovery_Idle | Discovery_Terminal delivery_error | Discovery_Send nat u32

definition discovery_sendable :: "melodi_device \<Rightarrow> melodi_discovery_pending \<Rightarrow> bool" where
  "discovery_sendable melodi pending \<longleftrightarrow>
     (case melodi_peer_by_node melodi (dp_destination pending) of
        None \<Rightarrow> False
      | Some index \<Rightarrow> pe_session_ready (dev_peers melodi ! index) \<and> \<not> pe_conflicted (dev_peers melodi ! index))"

definition discovery_select :: "u64 \<Rightarrow> melodi_device \<Rightarrow> melodi_device \<times> discovery_step" where
  "discovery_select now_ms melodi =
     (case find_slot (\<lambda>pending. dp_active pending \<and> \<not> dp_in_flight pending \<and>
             (now_ms \<ge> dp_expires_ms pending \<or> discovery_sendable melodi pending)) (dev_discovery_pending melodi) of
        None \<Rightarrow> (melodi, Discovery_Idle)
      | Some index \<Rightarrow>
         (let pending = dev_discovery_pending melodi ! index
          in if now_ms \<ge> dp_expires_ms pending
             then (melodi_discovery_pending_clear_locked melodi index,
                   Discovery_Terminal (discovery_error pending EHOSTUNREACH))
             else (melodi\<lparr>dev_discovery_pending := (dev_discovery_pending melodi)[index := pending\<lparr>dp_in_flight := True\<rparr>]\<rparr>,
                   Discovery_Send index (ucast (min (dp_expires_ms pending - now_ms) 0xffffffff)))))"

definition discovery_finish :: "u64 \<Rightarrow> melodi_device \<Rightarrow> nat \<Rightarrow> unit res \<Rightarrow> melodi_device \<times> delivery_error option" where
  "discovery_finish now_ms melodi index result =
     (let pending = dev_discovery_pending melodi ! index
      in case result of
           Inr _ \<Rightarrow> (melodi_discovery_pending_clear_locked melodi index, None)
         | Inl error \<Rightarrow>
             if melodi_discovery_retryable error \<and> now_ms < dp_expires_ms pending
             then (melodi\<lparr>dev_discovery_pending := (dev_discovery_pending melodi)[index := pending\<lparr>dp_in_flight := False\<rparr>]\<rparr>, None)
             else (melodi_discovery_pending_clear_locked melodi index, Some (discovery_error pending error)))"

subsection \<open>Changes of the device state\<close>

text \<open>One round of \<open>melodi_data_state_changed\<close>: the first message that is no longer valid is dropped.\<close>

definition pending_invalid :: "u64 \<Rightarrow> melodi_device \<Rightarrow> melodi_pending_message \<Rightarrow> bool" where
  "pending_invalid now_ms melodi pending \<longleftrightarrow>
     pm_allocated pending \<and> melodi_pending_valid_locked now_ms melodi pending \<noteq> Inr ()"

definition discovery_invalid :: "melodi_device \<Rightarrow> melodi_discovery_pending \<Rightarrow> bool" where
  "discovery_invalid melodi pending \<longleftrightarrow>
     dp_active pending \<and> \<not> dp_in_flight pending \<and>
     melodi_policy_check_message_locked melodi (dp_destination pending) (dp_destination_service pending) False \<noteq> Inr ()"

definition error_of :: "unit res \<Rightarrow> errno" where
  "error_of result = (case result of Inl error \<Rightarrow> error | Inr _ \<Rightarrow> EINVAL)"

definition data_state_round :: "u64 \<Rightarrow> melodi_device \<Rightarrow> (melodi_device \<times> delivery_error) option" where
  "data_state_round now_ms melodi =
     (case find_slot (pending_invalid now_ms melodi) (dev_pending melodi) of
        Some index \<Rightarrow>
          (let pending = dev_pending melodi ! index
           in Some (melodi_pending_clear melodi index,
                    pending_error pending (error_of (melodi_pending_valid_locked now_ms melodi pending))))
      | None \<Rightarrow>
          (case find_slot (discovery_invalid melodi) (dev_discovery_pending melodi) of
             Some index \<Rightarrow>
               (let pending = dev_discovery_pending melodi ! index
                in Some (melodi_discovery_pending_clear_locked melodi index,
                         discovery_error pending (error_of (melodi_policy_check_message_locked melodi
                           (dp_destination pending) (dp_destination_service pending) False))))
           | None \<Rightarrow> None))"

text \<open>
  The rounds, with the time of each as a function of its number. Every round but the last frees a
  slot, which bounds them.
\<close>

definition data_load :: "melodi_device \<Rightarrow> nat" where
  "data_load melodi = length (filter pm_allocated (dev_pending melodi)) + length (filter dp_active (dev_discovery_pending melodi))"

lemma length_filter_clear:
  assumes "i < length xs" "P (xs ! i)" "\<not> P z"
  shows "length (filter P xs) = Suc (length (filter P (xs[i := z])))"
  using assms by (induction xs arbitrary: i) (auto split: nat.splits)

lemma discovery_release_keeps [simp]:
  "dev_pending (melodi_discovery_target_release_locked melodi destination) = dev_pending melodi"
  "dev_discovery_pending (melodi_discovery_target_release_locked melodi destination) = dev_discovery_pending melodi"
  "dev_discovery_bytes (melodi_discovery_target_release_locked melodi destination) = dev_discovery_bytes melodi"
  "dev_discovery_count (melodi_discovery_target_release_locked melodi destination) = dev_discovery_count melodi"
  by (simp_all add: melodi_discovery_target_release_locked_def split: option.splits)

lemma data_state_round_load:
  assumes "data_state_round now_ms melodi = Some (melodi', error)"
  shows "data_load melodi = Suc (data_load melodi')"
proof (cases "find_slot (pending_invalid now_ms melodi) (dev_pending melodi)")
  case (Some i)
  then have i: "i < length (dev_pending melodi)" "pm_allocated (dev_pending melodi ! i)"
    by (simp_all add: find_slot_Some_iff pending_invalid_def)
  then show ?thesis
    using assms Some length_filter_clear [of i "dev_pending melodi" pm_allocated zero_pending]
    by (auto simp: data_state_round_def Let_def melodi_pending_clear_def data_load_def zero_pending_def)
next
  case None
  then obtain i where f: "find_slot (discovery_invalid melodi) (dev_discovery_pending melodi) = Some i"
    using assms by (auto simp: data_state_round_def split: option.splits)
  then have i: "i < length (dev_discovery_pending melodi)" "dp_active (dev_discovery_pending melodi ! i)"
    by (simp_all add: find_slot_Some_iff discovery_invalid_def)
  have "melodi' = melodi_discovery_pending_clear_locked melodi i"
    using assms None f by (simp add: data_state_round_def Let_def)
  then show ?thesis
    using i length_filter_clear [of i "dev_discovery_pending melodi" dp_active zero_discovery_pending]
    by (simp add: melodi_discovery_pending_clear_locked_def Let_def data_load_def zero_discovery_pending_def)
qed

function melodi_data_state_changed :: "(nat \<Rightarrow> u64) \<Rightarrow> nat \<Rightarrow> melodi_device \<Rightarrow> melodi_device \<times> delivery_error list" where
  "melodi_data_state_changed now_ms number melodi =
     (case data_state_round (now_ms number) melodi of
        None \<Rightarrow> (melodi, [])
      | Some (melodi, error) \<Rightarrow>
          (let (melodi, errors) = melodi_data_state_changed now_ms (Suc number) melodi in (melodi, error # errors)))"
  by pat_completeness auto
termination
  by (relation "measure (\<lambda>(_, _, melodi). data_load melodi)") (auto dest: data_state_round_load)

declare melodi_data_state_changed.simps [simp del]

definition melodi_data_reassembly_reset_locked :: "melodi_device \<Rightarrow> melodi_device" where
  "melodi_data_reassembly_reset_locked melodi =
     (fold (\<lambda>index melodi. melodi_reassembly_clear melodi index) [0..<MELODI_REASSEMBLY_LIMIT] melodi)
       \<lparr>dev_receipts := replicate MELODI_RECEIPT_LIMIT zero_receipt, dev_reassembly_bytes := 0\<rparr>"

definition melodi_data_reset_locked :: "melodi_device \<Rightarrow> melodi_device" where
  "melodi_data_reset_locked melodi =
     (let melodi = melodi_data_reassembly_reset_locked melodi;
          melodi = melodi_data_order_reset_locked melodi;
          melodi = fold (\<lambda>index melodi. melodi_pending_clear melodi index) [0..<MELODI_PENDING_LIMIT] melodi;
          melodi = fold (\<lambda>index melodi. melodi_discovery_pending_clear_locked melodi index)
            [0..<MELODI_DISCOVERY_PENDING_LIMIT] melodi
      in melodi\<lparr>dev_discovery_targets := replicate MELODI_DISCOVERY_TARGET_LIMIT zero_discovery_target,
           dev_discovery_bytes := 0, dev_discovery_count := 0\<rparr>)"


subsection \<open>What a change of state leaves\<close>

lemma discovery_release_context [simp]:
  "dev_policy_peers (melodi_discovery_target_release_locked melodi destination) = dev_policy_peers melodi"
  "dev_policy_services (melodi_discovery_target_release_locked melodi destination) = dev_policy_services melodi"
  "dev_policy_mode (melodi_discovery_target_release_locked melodi destination) = dev_policy_mode melodi"
  "dev_peers (melodi_discovery_target_release_locked melodi destination) = dev_peers melodi"
  by (simp_all add: melodi_discovery_target_release_locked_def split: option.splits)

lemma data_state_round_context:
  assumes "data_state_round now_ms melodi = Some (melodi', error)"
  shows "dev_policy_peers melodi' = dev_policy_peers melodi" "dev_policy_services melodi' = dev_policy_services melodi"
    "dev_policy_mode melodi' = dev_policy_mode melodi" "dev_peers melodi' = dev_peers melodi"
  using assms by (auto simp: data_state_round_def melodi_pending_clear_def melodi_discovery_pending_clear_locked_def Let_def
      split: option.splits)

lemma data_state_round_None:
  "data_state_round now_ms melodi = None \<longleftrightarrow>
     (\<forall>p \<in> set (dev_pending melodi). \<not> pending_invalid now_ms melodi p) \<and>
     (\<forall>p \<in> set (dev_discovery_pending melodi). \<not> discovery_invalid melodi p)"
  by (simp add: data_state_round_def Let_def find_slot_None_iff [symmetric] split: option.splits)

lemma data_state_changed_final:
  assumes "melodi_data_state_changed now_ms number melodi = (melodi', errors)"
  shows "data_state_round (now_ms (number + length errors)) melodi' = None \<and>
    data_load melodi = data_load melodi' + length errors \<and>
    dev_policy_peers melodi' = dev_policy_peers melodi \<and> dev_policy_services melodi' = dev_policy_services melodi \<and>
    dev_policy_mode melodi' = dev_policy_mode melodi \<and> dev_peers melodi' = dev_peers melodi"
  using assms
proof (induction now_ms number melodi arbitrary: errors rule: melodi_data_state_changed.induct)
  case (1 now_ms number melodi)
  show ?case
  proof (cases "data_state_round (now_ms number) melodi")
    case None
    then show ?thesis using "1.prems" by (simp add: melodi_data_state_changed.simps)
  next
    case (Some r)
    obtain m e where r: "r = (m, e)" by (cases r)
    obtain errors' where rec: "melodi_data_state_changed now_ms (Suc number) m = (melodi', errors')" "errors = e # errors'"
      using "1.prems" Some r by (auto simp: melodi_data_state_changed.simps [of now_ms number melodi] split_beta prod_eq_iff)
    show ?thesis
      using "1.IH" [OF Some r [symmetric] rec(1)] data_state_round_context [OF Some [unfolded r]] data_state_round_load [OF Some [unfolded r]] rec(2)
      by simp
  qed
qed


definition blocked_device :: melodi_device where
  "blocked_device = zero_device
     \<lparr>dev_policy_peers := [\<lparr>pp_node_id = replicate 32 1, pp_state = MELODI_PEER_BLOCKED, pp_active = True\<rparr>],
      dev_discovery_pending := [zero_discovery_pending\<lparr>dp_destination := replicate 32 1, dp_active := True\<rparr>],
      dev_discovery_count := 1\<rparr>"


end
