(* ===== verification/Queue.thy ===== *)
theory Queue
  imports Data Airtime "HOL-Library.Product_Lexorder"
begin

text \<open>
  The transmit queue of \<open>src/kernel/core/queue.c\<close>: reservations, queued frames, the turns of peers
  and flows, the airtime budgets and the frames and bytes counted per network namespace. The record
  \<open>melodi_tx\<close> holds the fields of a device that \<open>melodi_queue_lock\<close> protects and the list of
  namespaces; a namespace is a number, a frame is the list of its octets. The clock, the state of
  the network interface, the success of allocations, the answers of the transport and the keyed
  hash are arguments; notices to user space are results; the arming of work items and the stopping
  and waking of the interface have no counterpart.
\<close>

abbreviation (input) MELODI_LINK_LOCATOR_BROADCAST :: u32 where "MELODI_LINK_LOCATOR_BROADCAST \<equiv> 0xffffffff"
abbreviation (input) MELODI_TX_QUEUE_LIMIT :: nat where "MELODI_TX_QUEUE_LIMIT \<equiv> 128"
abbreviation (input) MELODI_TX_DATA_LIMIT :: nat where "MELODI_TX_DATA_LIMIT \<equiv> 112"
abbreviation (input) MELODI_TX_BYTE_LIMIT :: u32 where "MELODI_TX_BYTE_LIMIT \<equiv> 262144"
abbreviation (input) MELODI_TX_PER_PEER_LIMIT :: nat where "MELODI_TX_PER_PEER_LIMIT \<equiv> 32"
abbreviation (input) MELODI_TX_PER_SERVICE_LIMIT :: nat where "MELODI_TX_PER_SERVICE_LIMIT \<equiv> 32"
abbreviation (input) MELODI_TX_PER_BINDING_LIMIT :: nat where "MELODI_TX_PER_BINDING_LIMIT \<equiv> 32"
abbreviation (input) MELODI_TX_FLOW_LIMIT :: nat where "MELODI_TX_FLOW_LIMIT \<equiv> 64"
abbreviation (input) MELODI_TX_CONTROL_TTL_MS :: u32 where "MELODI_TX_CONTROL_TTL_MS \<equiv> 5000"
abbreviation (input) MELODI_TX_CONTROL_BURST :: u8 where "MELODI_TX_CONTROL_BURST \<equiv> 8"
abbreviation (input) MELODI_TX_NAMESPACE_LIMIT :: nat where "MELODI_TX_NAMESPACE_LIMIT \<equiv> 256"
abbreviation (input) MELODI_TX_NAMESPACE_BYTE_LIMIT :: u32 where "MELODI_TX_NAMESPACE_BYTE_LIMIT \<equiv> 524288"
abbreviation (input) MELODI_TX_RESERVATION_LIMIT :: nat where "MELODI_TX_RESERVATION_LIMIT \<equiv> 128"
abbreviation (input) QUEUE_U64_MAX :: u64 where "QUEUE_U64_MAX \<equiv> 0xffffffffffffffff"

subsection \<open>State\<close>

record melodi_namespace_queue =
  nq_net :: nat
  nq_messages :: u32
  nq_bytes :: u32

record melodi_queue_request =
  rq_destination :: bytes
  rq_message_id :: u64
  rq_session_epoch :: u64
  rq_ttl_ms :: u32
  rq_binding_portid :: u32
  rq_identity_generation :: u32
  rq_source_locator :: u32
  rq_binding_generation :: u64
  rq_service :: u16
  rq_destination_service :: u16
  rq_priority :: u8
  rq_broadcast :: bool
  rq_reliable :: bool
  rq_control :: bool

definition zero_request :: melodi_queue_request where
  "zero_request = \<lparr>rq_destination = replicate MELODI_NODE_ID_SIZE 0, rq_message_id = 0, rq_session_epoch = 0,
     rq_ttl_ms = 0, rq_binding_portid = 0, rq_identity_generation = 0, rq_source_locator = 0,
     rq_binding_generation = 0, rq_service = 0, rq_destination_service = 0, rq_priority = 0,
     rq_broadcast = False, rq_reliable = False, rq_control = False\<rparr>"

record melodi_tx_reservation =
  rv_destination :: bytes
  rv_net :: nat
  rv_id :: u64
  rv_expires_ms :: u64
  rv_binding_generation :: u64
  rv_cookie :: u64
  rv_tag :: u64
  rv_session_epoch :: u64
  rv_locator :: u32
  rv_source_locator :: u32
  rv_binding_portid :: u32
  rv_identity_generation :: u32
  rv_bytes :: u32
  rv_logical_length :: u32
  rv_count :: u16
  rv_service :: u16
  rv_destination_service :: u16
  rv_priority :: u8
  rv_peer_index :: u8
  rv_flow_index :: u8
  rv_pending_reserved :: bool
  rv_broadcast :: bool
  rv_reliable :: bool
  rv_claimed :: bool
  rv_sealed :: bool
  rv_active :: bool

definition zero_reservation :: melodi_tx_reservation where
  "zero_reservation = \<lparr>rv_destination = replicate MELODI_NODE_ID_SIZE 0, rv_net = 0, rv_id = 0, rv_expires_ms = 0,
     rv_binding_generation = 0, rv_cookie = 0, rv_tag = 0, rv_session_epoch = 0, rv_locator = 0,
     rv_source_locator = 0, rv_binding_portid = 0, rv_identity_generation = 0, rv_bytes = 0,
     rv_logical_length = 0, rv_count = 0, rv_service = 0, rv_destination_service = 0,
     rv_priority = 0, rv_peer_index = 0, rv_flow_index = 0, rv_pending_reserved = False,
     rv_broadcast = False, rv_reliable = False, rv_claimed = False, rv_sealed = False,
     rv_active = False\<rparr>"

record melodi_tx_queue_entry =
  qe_destination :: bytes
  qe_frame :: bytes
  qe_net :: nat
  qe_metadata :: melodi_tx_meta
  qe_sequence :: u64
  qe_group_id :: u64
  qe_message_id :: u64
  qe_session_epoch :: u64
  qe_expires_ms :: u64
  qe_defer_until_ms :: u64
  qe_binding_generation :: u64
  qe_binding_portid :: u32
  qe_identity_generation :: u32
  qe_length :: u32
  qe_service :: u16
  qe_destination_service :: u16
  qe_priority :: u8
  qe_peer_index :: u8
  qe_flow_index :: u8
  qe_control :: bool
  qe_broadcast :: bool
  qe_reliable :: bool
  qe_cancelled :: bool
  qe_terminal_notified :: bool
  qe_in_flight :: bool
  qe_active :: bool

definition zero_queue_entry :: melodi_tx_queue_entry where
  "zero_queue_entry = \<lparr>qe_destination = replicate MELODI_NODE_ID_SIZE 0, qe_frame = [], qe_net = 0,
     qe_metadata = zero_tx_meta, qe_sequence = 0, qe_group_id = 0, qe_message_id = 0,
     qe_session_epoch = 0, qe_expires_ms = 0, qe_defer_until_ms = 0, qe_binding_generation = 0,
     qe_binding_portid = 0, qe_identity_generation = 0, qe_length = 0, qe_service = 0,
     qe_destination_service = 0, qe_priority = 0, qe_peer_index = 0, qe_flow_index = 0,
     qe_control = False, qe_broadcast = False, qe_reliable = False, qe_cancelled = False,
     qe_terminal_notified = False, qe_in_flight = False, qe_active = False\<rparr>"

record melodi_tx_peer_turn =
  pt_turn :: u64
  pt_locator :: u32
  pt_active :: bool

definition zero_peer_turn :: melodi_tx_peer_turn where
  "zero_peer_turn = \<lparr>pt_turn = 0, pt_locator = 0, pt_active = False\<rparr>"

record melodi_tx_flow_turn =
  ft_turn :: u64
  ft_binding_generation :: u64
  ft_locator :: u32
  ft_binding_portid :: u32
  ft_service :: u16
  ft_peer_index :: u8
  ft_active :: bool

definition zero_flow_turn :: melodi_tx_flow_turn where
  "zero_flow_turn = \<lparr>ft_turn = 0, ft_binding_generation = 0, ft_locator = 0, ft_binding_portid = 0, ft_service = 0,
     ft_peer_index = 0, ft_active = False\<rparr>"

record melodi_airtime_charge =
  ac_duration_us :: u64
  ac_budget_us :: u64
  ac_broadcast_budget_us :: u64

text \<open>The fields under the queue lock, with the counters of the device the queue maintains.\<close>

record melodi_tx =
  tx_namespaces :: "melodi_namespace_queue list"
  tx_queue :: "melodi_tx_queue_entry list"
  tx_reservations :: "melodi_tx_reservation list"
  tx_peers :: "melodi_tx_peer_turn list"
  tx_flows :: "melodi_tx_flow_turn list"
  tx_airtime :: melodi_airtime_window
  tx_broadcast_airtime :: melodi_airtime_window
  tx_airtime_after :: melodi_airtime_window
  tx_broadcast_after :: melodi_airtime_window
  tx_guard_until_ms :: u64
  tx_queue_sequence :: u64
  tx_group_sequence :: u64
  tx_reservation_sequence :: u64
  tx_scheduler_turn :: u64
  tx_airtime_budget_us :: u64
  tx_broadcast_budget_us :: u64
  tx_queue_bytes :: u32
  tx_reserved_bytes :: u32
  tx_queue_count :: u16
  tx_reserved_count :: u16
  tx_pending_reserved :: u16
  tx_priority_slot :: u8
  tx_control_burst :: u8
  tx_queue_stopping :: bool
  tx_stat_dropped :: u64
  tx_stat_packets :: u64
  tx_stat_bytes :: u64
  tx_queue_expired :: u64
  tx_duty_defers :: u64

text \<open>The zeroed state of a new device; the airtime windows are zero as well.\<close>

definition zero_tx :: melodi_tx where
  "zero_tx = \<lparr>tx_namespaces = [], tx_queue = replicate MELODI_TX_QUEUE_LIMIT zero_queue_entry,
     tx_reservations = replicate MELODI_TX_RESERVATION_LIMIT zero_reservation,
     tx_peers = replicate MELODI_TX_FLOW_LIMIT zero_peer_turn, tx_flows = replicate MELODI_TX_FLOW_LIMIT zero_flow_turn,
     tx_airtime = melodi_airtime_reset, tx_broadcast_airtime = melodi_airtime_reset, tx_airtime_after = melodi_airtime_reset,
     tx_broadcast_after = melodi_airtime_reset, tx_guard_until_ms = 0, tx_queue_sequence = 0, tx_group_sequence = 0,
     tx_reservation_sequence = 0, tx_scheduler_turn = 0, tx_airtime_budget_us = 0, tx_broadcast_budget_us = 0,
     tx_queue_bytes = 0, tx_reserved_bytes = 0, tx_queue_count = 0, tx_reserved_count = 0, tx_pending_reserved = 0,
     tx_priority_slot = 0, tx_control_burst = 0, tx_queue_stopping = False, tx_stat_dropped = 0, tx_stat_packets = 0,
     tx_stat_bytes = 0, tx_queue_expired = 0, tx_duty_defers = 0\<rparr>"

definition melodi_priority_cycle :: "u8 list" where
  "melodi_priority_cycle = [0, 0, 0, 0, 0, 0, 0, 0, 1, 1, 1, 1, 2, 2, 3]"

subsection \<open>Namespaces\<close>

definition melodi_namespace_queue_find :: "melodi_tx \<Rightarrow> nat \<Rightarrow> nat option" where
  "melodi_namespace_queue_find tx net = find_slot (\<lambda>queue. nq_net queue = net) (tx_namespaces tx)"

definition melodi_namespace_queue_get :: "bool \<Rightarrow> melodi_tx \<Rightarrow> nat \<Rightarrow> melodi_tx \<times> nat option" where
  "melodi_namespace_queue_get memory tx net =
     (case melodi_namespace_queue_find tx net of
        Some index \<Rightarrow> (tx, Some index)
      | None \<Rightarrow>
          if \<not> memory then (tx, None)
          else (tx\<lparr>tx_namespaces := tx_namespaces tx @ [\<lparr>nq_net = net, nq_messages = 0, nq_bytes = 0\<rparr>]\<rparr>,
                Some (length (tx_namespaces tx))))"

definition melodi_namespace_queue_put :: "melodi_tx \<Rightarrow> nat \<Rightarrow> melodi_tx" where
  "melodi_namespace_queue_put tx index =
     (if nq_messages (tx_namespaces tx ! index) \<noteq> 0 then tx
      else tx\<lparr>tx_namespaces := take index (tx_namespaces tx) @ drop (Suc index) (tx_namespaces tx)\<rparr>)"

text \<open>The update of the counters of a namespace, in place.\<close>

definition namespace_add :: "nat \<Rightarrow> u32 \<Rightarrow> u32 \<Rightarrow> melodi_tx \<Rightarrow> melodi_tx" where
  "namespace_add index messages bytes tx =
     (let queue = tx_namespaces tx ! index
      in tx\<lparr>tx_namespaces := (tx_namespaces tx)[index :=
           queue\<lparr>nq_messages := nq_messages queue + messages, nq_bytes := nq_bytes queue + bytes\<rparr>]\<rparr>)"

definition namespace_release :: "nat \<Rightarrow> u32 \<Rightarrow> u32 \<Rightarrow> melodi_tx \<Rightarrow> melodi_tx" where
  "namespace_release index messages bytes tx =
     (let queue = tx_namespaces tx ! index
      in tx\<lparr>tx_namespaces := (tx_namespaces tx)[index :=
           queue\<lparr>nq_messages := nq_messages queue - messages, nq_bytes := nq_bytes queue - bytes\<rparr>]\<rparr>)"

subsection \<open>Reservations and entries\<close>

definition melodi_queue_has_peer :: "melodi_tx \<Rightarrow> u8 \<Rightarrow> bool" where
  "melodi_queue_has_peer tx peer_index \<longleftrightarrow>
     list_ex (\<lambda>e. qe_active e \<and> \<not> qe_control e \<and> qe_peer_index e = peer_index) (tx_queue tx) \<or>
     list_ex (\<lambda>r. rv_active r \<and> rv_peer_index r = peer_index) (tx_reservations tx)"

definition melodi_queue_has_flow :: "melodi_tx \<Rightarrow> u8 \<Rightarrow> bool" where
  "melodi_queue_has_flow tx flow_index \<longleftrightarrow>
     list_ex (\<lambda>e. qe_active e \<and> \<not> qe_control e \<and> qe_flow_index e = flow_index) (tx_queue tx) \<or>
     list_ex (\<lambda>r. rv_active r \<and> rv_flow_index r = flow_index) (tx_reservations tx)"

text \<open>The turns of a flow and of a peer that nothing uses any more are cleared.\<close>

definition queue_release_turns :: "u8 \<Rightarrow> u8 \<Rightarrow> melodi_tx \<Rightarrow> melodi_tx" where
  "queue_release_turns flow_index peer_index tx =
     (let tx = (if \<not> melodi_queue_has_flow tx flow_index
                then tx\<lparr>tx_flows := (tx_flows tx)[unat flow_index := zero_flow_turn]\<rparr> else tx)
      in if \<not> melodi_queue_has_peer tx peer_index
         then tx\<lparr>tx_peers := (tx_peers tx)[unat peer_index := zero_peer_turn]\<rparr> else tx)"

definition melodi_reservation_find_locked :: "melodi_tx \<Rightarrow> u64 \<Rightarrow> nat option" where
  "melodi_reservation_find_locked tx rid = find_slot (\<lambda>r. rv_active r \<and> rv_id r = rid) (tx_reservations tx)"

definition melodi_reservation_remove_locked :: "melodi_tx \<Rightarrow> nat \<Rightarrow> melodi_tx" where
  "melodi_reservation_remove_locked tx index =
     (let reservation = tx_reservations tx ! index;
          namespace = melodi_namespace_queue_find tx (rv_net reservation);
          tx = (case namespace of None \<Rightarrow> tx
                | Some ns \<Rightarrow> namespace_release ns (ucast (rv_count reservation)) (rv_bytes reservation) tx);
          tx = tx\<lparr>tx_reserved_count := tx_reserved_count tx - rv_count reservation,
            tx_reserved_bytes := tx_reserved_bytes tx - rv_bytes reservation,
            tx_pending_reserved := (if rv_pending_reserved reservation then tx_pending_reserved tx - 1 else tx_pending_reserved tx),
            tx_reservations := (tx_reservations tx)[index := zero_reservation]\<rparr>;
          tx = queue_release_turns (rv_flow_index reservation) (rv_peer_index reservation) tx
      in case namespace of None \<Rightarrow> tx | Some ns \<Rightarrow> melodi_namespace_queue_put tx ns)"

definition melodi_queue_remove_locked :: "melodi_tx \<Rightarrow> nat \<Rightarrow> melodi_tx" where
  "melodi_queue_remove_locked tx index =
     (let entry = tx_queue tx ! index;
          namespace = melodi_namespace_queue_find tx (qe_net entry);
          tx = (case namespace of None \<Rightarrow> tx | Some ns \<Rightarrow> namespace_release ns 1 (qe_length entry) tx);
          tx = tx\<lparr>tx_queue_count := tx_queue_count tx - 1, tx_queue_bytes := tx_queue_bytes tx - qe_length entry,
            tx_queue := (tx_queue tx)[index := zero_queue_entry]\<rparr>;
          tx = (if \<not> qe_control entry then queue_release_turns (qe_flow_index entry) (qe_peer_index entry) tx else tx)
      in case namespace of None \<Rightarrow> tx | Some ns \<Rightarrow> melodi_namespace_queue_put tx ns)"

subsection \<open>Notices\<close>

type_synonym melodi_queue_notice = "delivery_error option"

definition melodi_queue_notice_entry :: "melodi_queue_notice \<Rightarrow> melodi_tx_queue_entry \<Rightarrow> errno \<Rightarrow> melodi_queue_notice" where
  "melodi_queue_notice_entry notice entry error =
     (if notice \<noteq> None \<or> qe_terminal_notified entry then notice
      else Some \<lparr>de_binding_portid = qe_binding_portid entry, de_binding_generation = qe_binding_generation entry,
        de_source_service = qe_service entry, de_cookie = tm_cookie (qe_metadata entry), de_error = error\<rparr>)"

definition melodi_queue_notice_reservation :: "melodi_tx_reservation \<Rightarrow> errno \<Rightarrow> melodi_queue_notice" where
  "melodi_queue_notice_reservation reservation error =
     Some \<lparr>de_binding_portid = rv_binding_portid reservation, de_binding_generation = rv_binding_generation reservation,
       de_source_service = rv_service reservation, de_cookie = rv_cookie reservation, de_error = error\<rparr>"

definition queue_drop :: "melodi_tx \<Rightarrow> melodi_tx" where
  "queue_drop tx = tx\<lparr>tx_stat_dropped := tx_stat_dropped tx + 1\<rparr>"

subsection \<open>Cancelling a group\<close>

definition queue_in_group :: "u64 \<Rightarrow> melodi_tx_queue_entry \<Rightarrow> bool" where
  "queue_in_group group_id entry \<longleftrightarrow> qe_active entry \<and> qe_group_id entry = group_id"

text \<open>The frames of the message of a reliable representative belong to it in every group.\<close>

definition queue_same_message :: "melodi_tx_queue_entry \<Rightarrow> melodi_tx_queue_entry \<Rightarrow> bool" where
  "queue_same_message representative entry \<longleftrightarrow>
     qe_reliable representative \<and> qe_message_id representative \<noteq> 0 \<and> qe_reliable entry \<and>
     qe_message_id entry = qe_message_id representative \<and>
     qe_binding_portid entry = qe_binding_portid representative \<and>
     qe_binding_generation entry = qe_binding_generation representative \<and>
     qe_service entry = qe_service representative \<and> qe_destination entry = qe_destination representative"

definition queue_cancel_entry ::
  "u64 \<Rightarrow> melodi_tx_queue_entry \<Rightarrow> nat option \<Rightarrow> nat \<Rightarrow> melodi_tx \<times> bool \<Rightarrow> melodi_tx \<times> bool" where
  "queue_cancel_entry group_id representative owned index state =
     (case state of (tx, changed) \<Rightarrow>
        let entry = tx_queue tx ! index
        in if \<not> qe_active entry \<or> (qe_group_id entry \<noteq> group_id \<and> \<not> queue_same_message representative entry)
           then (tx, changed)
           else if qe_in_flight entry \<and> owned \<noteq> Some index
           then (tx\<lparr>tx_queue := (tx_queue tx)[index := entry\<lparr>qe_cancelled := True, qe_terminal_notified := True\<rparr>]\<rparr>, True)
           else (queue_drop (melodi_queue_remove_locked tx index), True))"

definition melodi_queue_cancel_group_locked ::
  "melodi_device \<Rightarrow> melodi_tx \<Rightarrow> u64 \<Rightarrow> nat option \<Rightarrow> errno \<Rightarrow> melodi_queue_notice \<Rightarrow>
     (melodi_device \<times> melodi_tx) \<times> melodi_queue_notice \<times> bool" where
  "melodi_queue_cancel_group_locked melodi tx group_id owned error notice =
     (let notice = fold (\<lambda>entry notice. if queue_in_group group_id entry then melodi_queue_notice_entry notice entry error else notice)
            (tx_queue tx) notice
      in case find_slot (queue_in_group group_id) (tx_queue tx) of
           None \<Rightarrow> ((melodi, tx), notice, False)
         | Some first \<Rightarrow>
            (let representative = tx_queue tx ! first;
                 melodi = (if qe_reliable representative
                   then fst (melodi_data_cancel_pending_locked melodi (Some (qe_destination representative))
                               (qe_message_id representative) 0)
                   else melodi);
                 (tx, changed) = fold (queue_cancel_entry group_id representative owned) [0..<length (tx_queue tx)] (tx, False)
             in ((melodi, tx), notice, changed)))"

subsection \<open>Admission\<close>

definition melodi_queue_peer_locked :: "melodi_tx \<Rightarrow> u32 \<Rightarrow> (nat \<times> bool) res" where
  "melodi_queue_peer_locked tx locator =
     (case find_slot (\<lambda>p. pt_active p \<and> pt_locator p = locator) (tx_peers tx) of
        Some index \<Rightarrow> Inr (index, False)
      | None \<Rightarrow>
          (case find_slot (\<lambda>p. \<not> pt_active p) (tx_peers tx) of
             None \<Rightarrow> Inl ENOSPC
           | Some index \<Rightarrow> Inr (index, True)))"

definition queue_flow_matches :: "u32 \<Rightarrow> melodi_queue_request \<Rightarrow> melodi_tx_flow_turn \<Rightarrow> bool" where
  "queue_flow_matches locator request flow \<longleftrightarrow>
     ft_active flow \<and> ft_locator flow = locator \<and> ft_service flow = rq_service request \<and>
     ft_binding_portid flow = rq_binding_portid request \<and> ft_binding_generation flow = rq_binding_generation request"

definition melodi_queue_flow_locked :: "melodi_tx \<Rightarrow> u32 \<Rightarrow> melodi_queue_request \<Rightarrow> (nat \<times> bool) res" where
  "melodi_queue_flow_locked tx locator request =
     (case find_slot (queue_flow_matches locator request) (tx_flows tx) of
        Some index \<Rightarrow> Inr (index, False)
      | None \<Rightarrow>
          (case find_slot (\<lambda>f. \<not> ft_active f) (tx_flows tx) of
             None \<Rightarrow> Inl ENOSPC
           | Some index \<Rightarrow> Inr (index, True)))"

text \<open>Frames of data that the entries and the reservations selected by a predicate account for.\<close>

definition queue_frames ::
  "(melodi_tx_queue_entry \<Rightarrow> bool) \<Rightarrow> (melodi_tx_reservation \<Rightarrow> bool) \<Rightarrow> melodi_tx \<Rightarrow> nat" where
  "queue_frames P Q tx =
     sum_list (map (\<lambda>e. if qe_active e \<and> \<not> qe_control e \<and> P e then 1 else 0) (tx_queue tx)) +
     sum_list (map (\<lambda>r. if rv_active r \<and> Q r then unat (rv_count r) else 0) (tx_reservations tx))"

abbreviation queue_data_frames :: "melodi_tx \<Rightarrow> nat" where
  "queue_data_frames \<equiv> queue_frames (\<lambda>_. True) (\<lambda>_. True)"

abbreviation queue_peer_frames :: "u32 \<Rightarrow> melodi_tx \<Rightarrow> nat" where
  "queue_peer_frames locator \<equiv> queue_frames (\<lambda>e. tm_destination_locator (qe_metadata e) = locator) (\<lambda>r. rv_locator r = locator)"

abbreviation queue_service_frames :: "u16 \<Rightarrow> melodi_tx \<Rightarrow> nat" where
  "queue_service_frames service \<equiv> queue_frames (\<lambda>e. qe_service e = service) (\<lambda>r. rv_service r = service)"

abbreviation queue_binding_frames :: "u32 \<Rightarrow> u64 \<Rightarrow> melodi_tx \<Rightarrow> nat" where
  "queue_binding_frames portid generation \<equiv>
     queue_frames (\<lambda>e. qe_binding_portid e = portid \<and> qe_binding_generation e = generation)
       (\<lambda>r. rv_binding_portid r = portid \<and> rv_binding_generation r = generation)"

text \<open>
  The checks of \<open>melodi_queue_capacity_locked\<close> after the namespace is found; the counts per peer,
  service and binding only matter for data.
\<close>

definition queue_fits :: "melodi_tx \<Rightarrow> nat \<Rightarrow> u32 \<Rightarrow> melodi_queue_request \<Rightarrow> u16 \<Rightarrow> u32 \<Rightarrow> bool" where
  "queue_fits tx ns locator request count bytes \<longleftrightarrow>
     \<not> (unat count > MELODI_TX_QUEUE_LIMIT \<or> bytes > MELODI_TX_BYTE_LIMIT \<or>
        unat count > MELODI_TX_NAMESPACE_LIMIT \<or> bytes > MELODI_TX_NAMESPACE_BYTE_LIMIT) \<and>
     \<not> (\<not> rq_control request \<and>
        (unat count > MELODI_TX_DATA_LIMIT \<or> unat count > MELODI_TX_PER_PEER_LIMIT \<or>
         unat count > MELODI_TX_PER_SERVICE_LIMIT \<or> unat count > MELODI_TX_PER_BINDING_LIMIT)) \<and>
     \<not> (unat (tx_queue_count tx) + unat (tx_reserved_count tx) > MELODI_TX_QUEUE_LIMIT - unat count \<or>
        tx_queue_bytes tx + tx_reserved_bytes tx > MELODI_TX_BYTE_LIMIT - bytes \<or>
        unat (nq_messages (tx_namespaces tx ! ns)) > MELODI_TX_NAMESPACE_LIMIT - unat count \<or>
        nq_bytes (tx_namespaces tx ! ns) > MELODI_TX_NAMESPACE_BYTE_LIMIT - bytes) \<and>
     \<not> (\<not> rq_control request \<and>
        (queue_data_frames tx > MELODI_TX_DATA_LIMIT - unat count \<or>
         queue_peer_frames locator tx > MELODI_TX_PER_PEER_LIMIT - unat count \<or>
         queue_service_frames (rq_service request) tx > MELODI_TX_PER_SERVICE_LIMIT - unat count \<or>
         queue_binding_frames (rq_binding_portid request) (rq_binding_generation request) tx >
           MELODI_TX_PER_BINDING_LIMIT - unat count))"

definition melodi_queue_capacity_locked ::
  "bool \<Rightarrow> melodi_tx \<Rightarrow> nat \<Rightarrow> u32 \<Rightarrow> melodi_queue_request \<Rightarrow> u16 \<Rightarrow> u32 \<Rightarrow> melodi_tx \<times> nat option \<times> unit res" where
  "melodi_queue_capacity_locked memory tx net locator request count bytes =
     (case melodi_namespace_queue_get memory tx net of
        (tx, None) \<Rightarrow> (tx, None, Inl ENOMEM)
      | (tx, Some ns) \<Rightarrow>
          (tx, Some ns, if queue_fits tx ns locator request count bytes then Inr () else Inl ENOBUFS))"

definition queue_put_namespace :: "melodi_tx \<Rightarrow> nat option \<Rightarrow> melodi_tx" where
  "queue_put_namespace tx namespace = (case namespace of None \<Rightarrow> tx | Some ns \<Rightarrow> melodi_namespace_queue_put tx ns)"

text \<open>The turns of a new peer and of a new flow.\<close>

definition queue_open_turns ::
  "u32 \<Rightarrow> melodi_queue_request \<Rightarrow> nat \<times> bool \<Rightarrow> nat \<times> bool \<Rightarrow> melodi_tx \<Rightarrow> melodi_tx" where
  "queue_open_turns locator request peer flow tx =
     (let tx = (if snd peer
            then tx\<lparr>tx_peers := (tx_peers tx)[fst peer :=
                   (tx_peers tx ! fst peer)\<lparr>pt_locator := locator, pt_active := True\<rparr>]\<rparr>
            else tx)
      in if snd flow
         then tx\<lparr>tx_flows := (tx_flows tx)[fst flow :=
                (tx_flows tx ! fst flow)\<lparr>ft_locator := locator, ft_binding_portid := rq_binding_portid request,
                  ft_binding_generation := rq_binding_generation request, ft_service := rq_service request,
                  ft_peer_index := of_nat (fst peer), ft_active := True\<rparr>]\<rparr>
         else tx)"

text \<open>The clearing of turns on the error path of \<open>melodi_queue_reserve\<close>.\<close>

definition queue_undo_turns :: "nat \<times> bool \<Rightarrow> nat \<times> bool \<Rightarrow> melodi_tx \<Rightarrow> melodi_tx" where
  "queue_undo_turns peer flow tx =
     (let tx = (if snd flow \<and> \<not> melodi_queue_has_flow tx (of_nat (fst flow))
            then tx\<lparr>tx_flows := (tx_flows tx)[fst flow := zero_flow_turn]\<rparr> else tx)
      in if snd peer \<and> \<not> melodi_queue_has_peer tx (of_nat (fst peer))
         then tx\<lparr>tx_peers := (tx_peers tx)[fst peer := zero_peer_turn]\<rparr> else tx)"

definition reservation_of ::
  "u64 \<Rightarrow> nat \<Rightarrow> u32 \<Rightarrow> melodi_queue_request \<Rightarrow> u16 \<Rightarrow> u32 \<Rightarrow> u32 \<Rightarrow> u64 \<Rightarrow> bool \<Rightarrow> u64 \<Rightarrow> nat \<Rightarrow> nat \<Rightarrow>
     melodi_tx_reservation \<Rightarrow> melodi_tx_reservation" where
  "reservation_of now_ms net locator request count bytes logical_length cookie reliable rid peer_index flow_index reservation =
     reservation\<lparr>rv_net := net, rv_destination := rq_destination request, rv_id := rid,
       rv_expires_ms := now_ms + ucast (rq_ttl_ms request), rv_binding_generation := rq_binding_generation request,
       rv_cookie := cookie, rv_session_epoch := rq_session_epoch request, rv_locator := locator,
       rv_source_locator := rq_source_locator request, rv_binding_portid := rq_binding_portid request,
       rv_identity_generation := rq_identity_generation request, rv_bytes := bytes,
       rv_logical_length := logical_length, rv_count := count, rv_service := rq_service request,
       rv_destination_service := rq_destination_service request, rv_priority := rq_priority request,
       rv_peer_index := of_nat peer_index, rv_flow_index := of_nat flow_index, rv_pending_reserved := reliable,
       rv_broadcast := rq_broadcast request, rv_reliable := reliable, rv_active := True\<rparr>"


definition melodi_queue_reserve ::
  "bool \<Rightarrow> u64 \<Rightarrow> melodi_tx \<Rightarrow> nat \<Rightarrow> u32 \<Rightarrow> melodi_queue_request \<Rightarrow> u16 \<Rightarrow> u32 \<Rightarrow> u32 \<Rightarrow> u64 \<Rightarrow> bool \<Rightarrow> u16 \<Rightarrow>
     melodi_tx \<times> u64 res" where
  "melodi_queue_reserve memory now_ms tx net locator request count bytes logical_length cookie reliable active_pending =
     (if count = 0 \<or> bytes = 0 \<or> rq_control request \<or> rq_ttl_ms request = 0 \<or>
         rq_reliable request \<noteq> reliable \<or> rq_ttl_ms request > MELODI_TTL_DEFAULT_MS
      then (tx, Inl EINVAL)
      else if now_ms > QUEUE_U64_MAX - ucast (rq_ttl_ms request) then (tx, Inl EOVERFLOW)
      else if tx_queue_stopping tx then (tx, Inl ENETDOWN)
      else if reliable \<and> unat active_pending + unat (tx_pending_reserved tx) \<ge> MELODI_PENDING_LIMIT
      then (tx, Inl ENOSPC)
      else case find_slot (\<lambda>r. \<not> rv_active r) (tx_reservations tx) of
        None \<Rightarrow> (tx, Inl ENOBUFS)
      | Some slot \<Rightarrow>
         (case melodi_queue_capacity_locked memory tx net locator request count bytes of
            (tx, namespace, Inl error) \<Rightarrow> (queue_put_namespace tx namespace, Inl error)
          | (tx, namespace, Inr _) \<Rightarrow>
             (case melodi_queue_peer_locked tx locator of
                Inl error \<Rightarrow> (queue_put_namespace tx namespace, Inl error)
              | Inr peer \<Rightarrow>
                 (case melodi_queue_flow_locked tx locator request of
                    Inl error \<Rightarrow> (queue_put_namespace (queue_undo_turns peer (0, False) tx) namespace, Inl error)
                  | Inr flow \<Rightarrow>
                      if tx_reservation_sequence tx = QUEUE_U64_MAX
                      then (queue_put_namespace (queue_undo_turns peer flow tx) namespace, Inl EOVERFLOW)
                      else
                       (let tx = queue_open_turns locator request peer flow tx;
                            rid = tx_reservation_sequence tx + 1;
                            reservation = reservation_of now_ms net locator request count bytes logical_length cookie
                              reliable rid (fst peer) (fst flow) (tx_reservations tx ! slot);
                            tx = tx\<lparr>tx_reservation_sequence := rid,
                              tx_reservations := (tx_reservations tx)[slot := reservation],
                              tx_reserved_count := tx_reserved_count tx + count,
                              tx_reserved_bytes := tx_reserved_bytes tx + bytes,
                              tx_pending_reserved := (if reliable then tx_pending_reserved tx + 1 else tx_pending_reserved tx)\<rparr>;
                            tx = (case namespace of None \<Rightarrow> tx | Some ns \<Rightarrow> namespace_add ns (ucast count) bytes tx)
                        in (tx, Inr rid))))))"

subsection \<open>Operations on reservations\<close>

definition melodi_queue_reservation_cancel :: "melodi_tx \<Rightarrow> u64 \<Rightarrow> errno \<Rightarrow> bool \<Rightarrow> melodi_tx \<times> melodi_queue_notice" where
  "melodi_queue_reservation_cancel tx rid error notify =
     (case melodi_reservation_find_locked tx rid of
        None \<Rightarrow> (tx, None)
      | Some index \<Rightarrow>
          (melodi_reservation_remove_locked tx index,
           if notify then melodi_queue_notice_reservation (tx_reservations tx ! index) error else None))"

definition melodi_queue_reservation_pending :: "melodi_tx \<Rightarrow> u64 \<Rightarrow> melodi_tx \<times> unit res" where
  "melodi_queue_reservation_pending tx rid =
     (case melodi_reservation_find_locked tx rid of
        None \<Rightarrow> (tx, Inl ENOENT)
      | Some index \<Rightarrow>
         (let reservation = tx_reservations tx ! index
          in if \<not> rv_pending_reserved reservation then (tx, Inl ENOENT)
             else (tx\<lparr>tx_reservations := (tx_reservations tx)[index := reservation\<lparr>rv_pending_reserved := False\<rparr>],
                     tx_pending_reserved := tx_pending_reserved tx - 1\<rparr>, Inr ())))"

definition melodi_queue_reservation_seal :: "(bytes \<Rightarrow> u64) \<Rightarrow> melodi_tx \<Rightarrow> u64 \<Rightarrow> bytes \<Rightarrow> melodi_tx \<times> unit res" where
  "melodi_queue_reservation_seal hash tx rid data =
     (if data = [] then (tx, Inl EINVAL)
      else case melodi_reservation_find_locked tx rid of
             None \<Rightarrow> (tx, Inl ENOENT)
           | Some index \<Rightarrow>
              (let reservation = tx_reservations tx ! index
               in if rv_sealed reservation then (tx, Inl ENOENT)
                  else (tx\<lparr>tx_reservations := (tx_reservations tx)[index := reservation\<lparr>rv_tag := hash data, rv_sealed := True\<rparr>]\<rparr>,
                        Inr ())))"

definition melodi_queue_reservation_claim :: "(bytes \<Rightarrow> u64) \<Rightarrow> melodi_tx \<Rightarrow> u64 \<Rightarrow> bytes \<Rightarrow> melodi_tx \<times> unit res" where
  "melodi_queue_reservation_claim hash tx rid data =
     (if data = [] then (tx, Inl EINVAL)
      else case melodi_reservation_find_locked tx rid of
             None \<Rightarrow> (tx, Inl ENOENT)
           | Some index \<Rightarrow>
              (let reservation = tx_reservations tx ! index
               in if \<not> rv_sealed reservation \<or> rv_claimed reservation \<or> rv_tag reservation \<noteq> hash data then (tx, Inl ENOENT)
                  else (tx\<lparr>tx_reservations := (tx_reservations tx)[index := reservation\<lparr>rv_claimed := True\<rparr>]\<rparr>, Inr ())))"

definition melodi_queue_reservation_locator :: "melodi_tx \<Rightarrow> u64 \<Rightarrow> u32 res" where
  "melodi_queue_reservation_locator tx rid =
     (case melodi_reservation_find_locked tx rid of
        None \<Rightarrow> Inl ENOENT
      | Some index \<Rightarrow> Inr (rv_locator (tx_reservations tx ! index)))"

text \<open>The rounds of \<open>melodi_reservation_work\<close>, with the time of each as a function of its number.\<close>

definition reservation_expired :: "u64 \<Rightarrow> melodi_tx_reservation \<Rightarrow> bool" where
  "reservation_expired now_ms r \<longleftrightarrow> rv_active r \<and> rv_expires_ms r \<le> now_ms"

definition reservations_active :: "melodi_tx \<Rightarrow> nat" where
  "reservations_active tx = length (filter rv_active (tx_reservations tx))"

lemma queue_release_turns_keeps [simp]:
  "tx_reservations (queue_release_turns f p tx) = tx_reservations tx"
  "tx_queue (queue_release_turns f p tx) = tx_queue tx"
  "tx_namespaces (queue_release_turns f p tx) = tx_namespaces tx"
  by (simp_all add: queue_release_turns_def Let_def)

lemma namespace_keeps [simp]:
  "tx_reservations (melodi_namespace_queue_put tx ns) = tx_reservations tx"
  "tx_queue (melodi_namespace_queue_put tx ns) = tx_queue tx"
  "tx_reservations (namespace_release ns m b tx) = tx_reservations tx"
  "tx_queue (namespace_release ns m b tx) = tx_queue tx"
  "tx_reservations (namespace_add ns m b tx) = tx_reservations tx"
  "tx_queue (namespace_add ns m b tx) = tx_queue tx"
  by (simp_all add: melodi_namespace_queue_put_def namespace_release_def namespace_add_def Let_def)

lemma reservation_remove_tables [simp]:
  "tx_reservations (melodi_reservation_remove_locked tx index) = (tx_reservations tx)[index := zero_reservation]"
  "tx_queue (melodi_reservation_remove_locked tx index) = tx_queue tx"
  by (simp_all add: melodi_reservation_remove_locked_def Let_def split: option.split)

lemma queue_remove_tables [simp]:
  "tx_queue (melodi_queue_remove_locked tx index) = (tx_queue tx)[index := zero_queue_entry]"
  "tx_reservations (melodi_queue_remove_locked tx index) = tx_reservations tx"
  by (simp_all add: melodi_queue_remove_locked_def Let_def split: option.split)

lemma queue_drop_keeps [simp]:
  "tx_queue (queue_drop tx) = tx_queue tx" "tx_reservations (queue_drop tx) = tx_reservations tx"
  "tx_namespaces (queue_drop tx) = tx_namespaces tx"
  by (simp_all add: queue_drop_def)

lemma reservations_active_remove:
  assumes "index < length (tx_reservations tx)" "rv_active (tx_reservations tx ! index)"
    and "tx_reservations tx' = (tx_reservations tx)[index := zero_reservation]"
  shows "reservations_active tx = Suc (reservations_active tx')"
  using length_filter_clear [of index "tx_reservations tx" rv_active zero_reservation] assms
  by (simp add: reservations_active_def zero_reservation_def)

function melodi_reservation_work :: "(nat \<Rightarrow> u64) \<Rightarrow> nat \<Rightarrow> melodi_tx \<Rightarrow> melodi_tx \<times> delivery_error list" where
  "melodi_reservation_work now_ms number tx =
     (case find_slot (reservation_expired (now_ms number)) (tx_reservations tx) of
        None \<Rightarrow> (tx, [])
      | Some index \<Rightarrow>
         (let reservation = tx_reservations tx ! index;
              removed = queue_drop (melodi_reservation_remove_locked tx index);
              (tx, errors) = melodi_reservation_work now_ms (Suc number) (removed\<lparr>tx_queue_expired := tx_queue_expired removed + 1\<rparr>)
          in (tx, the (melodi_queue_notice_reservation reservation ETIMEDOUT) # errors)))"
  by pat_completeness auto
termination
proof (relation "measure (\<lambda>(_, _, tx). reservations_active tx)", goal_cases)
  case (2 now_ms number tx index reservation removed)
  then have "reservations_active tx = Suc (reservations_active (removed\<lparr>tx_queue_expired := tx_queue_expired removed + 1\<rparr>))"
    by (intro reservations_active_remove [of index]) (auto simp: find_slot_Some_iff reservation_expired_def)
  then show ?case by simp
qed simp

declare melodi_reservation_work.simps [simp del]


subsection \<open>Queueing of frames\<close>

text \<open>The total length of a batch, with the checks of the loop.\<close>

fun queue_batch_bytes :: "u32 \<Rightarrow> bytes list \<Rightarrow> u32 res" where
  "queue_batch_bytes bytes [] = Inr bytes"
| "queue_batch_bytes bytes (frame # frames) =
     (if frame = [] then Inl EINVAL
      else if bytes > MELODI_TX_BYTE_LIMIT - of_nat (length frame) then Inl EMSGSIZE
      else queue_batch_bytes (bytes + of_nat (length frame)) frames)"

definition queue_free_slots :: "nat \<Rightarrow> melodi_tx \<Rightarrow> nat list" where
  "queue_free_slots count tx = take count (filter (\<lambda>index. \<not> qe_active (tx_queue tx ! index)) [0..<MELODI_TX_QUEUE_LIMIT])"

definition queue_fill ::
  "nat \<Rightarrow> melodi_tx_meta \<Rightarrow> melodi_queue_request \<Rightarrow> u64 \<Rightarrow> u64 \<Rightarrow> u8 \<Rightarrow> u8 \<Rightarrow> bytes \<Rightarrow> u64 \<Rightarrow> melodi_tx_queue_entry \<Rightarrow> melodi_tx_queue_entry" where
  "queue_fill net meta request group_id expires_ms peer_index flow_index frame sequence entry =
     entry\<lparr>qe_frame := frame, qe_net := net, qe_metadata := meta, qe_sequence := sequence, qe_group_id := group_id,
       qe_destination := rq_destination request, qe_message_id := rq_message_id request,
       qe_session_epoch := rq_session_epoch request, qe_expires_ms := expires_ms,
       qe_binding_portid := rq_binding_portid request, qe_binding_generation := rq_binding_generation request,
       qe_identity_generation := rq_identity_generation request, qe_length := of_nat (length frame),
       qe_service := rq_service request, qe_destination_service := rq_destination_service request,
       qe_priority := rq_priority request, qe_peer_index := peer_index, qe_flow_index := flow_index,
       qe_broadcast := rq_broadcast request, qe_reliable := rq_reliable request, qe_active := True\<rparr>"

text \<open>
  One frame enters its slot. The namespace is charged by \<open>melodi_core_send_batch\<close>, which also stores
  whether the frame is control; a reservation has been charged before.
\<close>

definition queue_insert ::
  "nat option \<Rightarrow> (bytes \<Rightarrow> u64 \<Rightarrow> melodi_tx_queue_entry \<Rightarrow> melodi_tx_queue_entry) \<Rightarrow> nat \<times> bytes \<Rightarrow> melodi_tx \<Rightarrow> melodi_tx" where
  "queue_insert namespace fill slot_frame tx =
     (case slot_frame of (slot, frame) \<Rightarrow>
        let sequence = tx_queue_sequence tx + 1;
            tx = tx\<lparr>tx_queue_sequence := sequence,
              tx_queue := (tx_queue tx)[slot := fill frame sequence (tx_queue tx ! slot)],
              tx_queue_count := tx_queue_count tx + 1,
              tx_queue_bytes := tx_queue_bytes tx + of_nat (length frame)\<rparr>
        in case namespace of None \<Rightarrow> tx | Some ns \<Rightarrow> namespace_add ns 1 (of_nat (length frame)) tx)"

definition melodi_core_send_batch ::
  "bool \<Rightarrow> bool \<Rightarrow> u64 \<Rightarrow> nat \<Rightarrow> melodi_device \<Rightarrow> melodi_tx \<Rightarrow> bytes list \<Rightarrow> melodi_tx_meta \<Rightarrow> melodi_queue_request \<Rightarrow>
     melodi_tx \<times> unit res" where
  "melodi_core_send_batch memory running now_ms net melodi tx frames meta request =
     (if frames = [] \<or> length frames > MELODI_FRAGMENT_LIMIT \<or> rq_ttl_ms request = 0 \<or>
         rq_ttl_ms request > MELODI_TTL_DEFAULT_MS \<or> rq_priority request > MELODI_PRIORITY_MAX
      then (tx, Inl EINVAL)
      else if \<not> running then (tx, Inl ENETDOWN)
      else case queue_batch_bytes 0 frames of
        Inl error \<Rightarrow> (tx, Inl error)
      | Inr bytes \<Rightarrow>
         if now_ms > QUEUE_U64_MAX - ucast (rq_ttl_ms request) then (tx, Inl EOVERFLOW)
         else (case (if rq_control request then Inr ()
               else melodi_data_queue_valid_locked melodi (rq_destination request) (rq_destination_service request)
                      (rq_broadcast request) meta (rq_identity_generation request) (rq_session_epoch request)) of
           Inl error \<Rightarrow> (tx, Inl error)
         | Inr _ \<Rightarrow>
            if tx_queue_stopping tx then (tx, Inl ENETDOWN)
            else (case melodi_queue_capacity_locked memory tx net (tm_destination_locator meta) request
                         (of_nat (length frames)) bytes of
              (tx, namespace, Inl error) \<Rightarrow> (queue_put_namespace tx namespace, Inl error)
            | (tx, namespace, Inr _) \<Rightarrow>
               if tx_queue_sequence tx > QUEUE_U64_MAX - of_nat (length frames) \<or> tx_group_sequence tx = QUEUE_U64_MAX
               then (queue_put_namespace tx namespace, Inl EOVERFLOW)
               else if length (queue_free_slots (length frames) tx) \<noteq> length frames
               then (queue_put_namespace tx namespace, Inl ENOBUFS)
               else (case (if rq_control request then Inr ((0, False), (0, False))
                     else case melodi_queue_peer_locked tx (tm_destination_locator meta) of
                            Inl error \<Rightarrow> Inl error
                          | Inr peer \<Rightarrow>
                             (case melodi_queue_flow_locked tx (tm_destination_locator meta) request of
                                Inl error \<Rightarrow> Inl error
                              | Inr flow \<Rightarrow> Inr (peer, flow))) of
                  Inl error \<Rightarrow> (queue_put_namespace tx namespace, Inl error)
                | Inr (peer, flow) \<Rightarrow>
                   (let tx = queue_open_turns (tm_destination_locator meta) request peer flow tx;
                        group_id = tx_group_sequence tx + 1;
                        slots = queue_free_slots (length frames) tx;
                        fill = (\<lambda>frame sequence entry.
                          (queue_fill net meta request group_id (now_ms + ucast (rq_ttl_ms request))
                             (of_nat (fst peer)) (of_nat (fst flow)) frame sequence entry)\<lparr>qe_control := rq_control request\<rparr>)
                    in (fold (queue_insert namespace fill) (zip slots frames) (tx\<lparr>tx_group_sequence := group_id\<rparr>), Inr ()))))))"

text \<open>What a request must share with the reservation it uses.\<close>

definition reservation_agrees ::
  "melodi_tx_reservation \<Rightarrow> nat \<Rightarrow> u32 \<Rightarrow> melodi_tx_meta \<Rightarrow> melodi_queue_request \<Rightarrow> bool" where
  "reservation_agrees reservation count bytes meta request \<longleftrightarrow>
     unat (rv_count reservation) = count \<and> rv_bytes reservation = bytes \<and>
     rv_locator reservation = tm_destination_locator meta \<and>
     rv_binding_portid reservation = rq_binding_portid request \<and>
     rv_binding_generation reservation = rq_binding_generation request \<and>
     rv_service reservation = rq_service request \<and>
     rv_destination_service reservation = rq_destination_service request \<and>
     rv_broadcast reservation = rq_broadcast request \<and> rv_reliable reservation = rq_reliable request \<and>
     rv_identity_generation reservation = rq_identity_generation request \<and>
     rv_source_locator reservation = rq_source_locator request \<and>
     rv_session_epoch reservation = rq_session_epoch request \<and>
     rv_destination reservation = rq_destination request \<and> rv_priority reservation = rq_priority request \<and>
     \<not> rv_pending_reserved reservation \<and> rv_claimed reservation"

definition melodi_core_send_batch_reserved ::
  "bool \<Rightarrow> melodi_device \<Rightarrow> melodi_tx \<Rightarrow> bytes list \<Rightarrow> melodi_tx_meta \<Rightarrow> melodi_queue_request \<Rightarrow> u64 \<Rightarrow> melodi_tx \<times> unit res" where
  "melodi_core_send_batch_reserved running melodi tx frames meta request reservation_id =
     (if reservation_id = 0 \<or> frames = [] \<or> length frames > MELODI_FRAGMENT_LIMIT \<or> rq_control request
      then (tx, Inl EINVAL)
      else if \<not> running then (tx, Inl ENETDOWN)
      else case queue_batch_bytes 0 frames of
        Inl error \<Rightarrow> (tx, Inl error)
      | Inr bytes \<Rightarrow>
         (case melodi_data_queue_valid_locked melodi (rq_destination request) (rq_destination_service request)
                 (rq_broadcast request) meta (rq_identity_generation request) (rq_session_epoch request) of
            Inl error \<Rightarrow> (tx, Inl error)
          | Inr _ \<Rightarrow>
             (case melodi_reservation_find_locked tx reservation_id of
                None \<Rightarrow> (tx, Inl ENOENT)
              | Some index \<Rightarrow>
                 (let reservation = tx_reservations tx ! index
                  in if tx_queue_stopping tx then (tx, Inl ENETDOWN)
                     else if \<not> reservation_agrees reservation (length frames) bytes meta request then (tx, Inl ESTALE)
                     else if length (queue_free_slots (length frames) tx) \<noteq> length frames then (tx, Inl ENOBUFS)
                     else if tx_queue_sequence tx > QUEUE_U64_MAX - of_nat (length frames) \<or> tx_group_sequence tx = QUEUE_U64_MAX
                     then (tx, Inl EOVERFLOW)
                     else
                      (let slots = queue_free_slots (length frames) tx;
                           group_id = tx_group_sequence tx + 1;
                           tx = tx\<lparr>tx_group_sequence := group_id,
                             tx_reserved_count := tx_reserved_count tx - of_nat (length frames),
                             tx_reserved_bytes := tx_reserved_bytes tx - bytes,
                             tx_reservations := (tx_reservations tx)[index := zero_reservation]\<rparr>;
                           tx = fold (queue_insert None (queue_fill (rv_net reservation) meta request group_id
                                  (rv_expires_ms reservation) (rv_peer_index reservation) (rv_flow_index reservation)))
                                (zip slots frames) tx
                       in (tx\<lparr>tx_stat_packets := tx_stat_packets tx + 1,
                             tx_stat_bytes := tx_stat_bytes tx + ucast (rv_logical_length reservation)\<rparr>, Inr ()))))))"

definition melodi_core_send ::
  "bool \<Rightarrow> bool \<Rightarrow> u64 \<Rightarrow> nat \<Rightarrow> melodi_device \<Rightarrow> melodi_tx \<Rightarrow> bytes \<Rightarrow> melodi_tx_meta \<Rightarrow> melodi_tx \<times> unit res" where
  "melodi_core_send memory running now_ms net melodi tx frame meta =
     melodi_core_send_batch memory running now_ms net melodi tx [frame] meta
       (zero_request\<lparr>rq_ttl_ms := MELODI_TX_CONTROL_TTL_MS, rq_service := MELODI_SERVICE_CONTROL, rq_priority := 0,
          rq_control := True\<rparr>)"

subsection \<open>Selection\<close>

text \<open>
  A scan that keeps the index of the least key seen so far, starting from a bound, as the loops of
  the scheduler do. Keys are sequence numbers, or turns and then sequence numbers.
\<close>

definition scan_min :: "('a \<Rightarrow> bool) \<Rightarrow> ('a \<Rightarrow> 'k :: linorder) \<Rightarrow> 'k \<Rightarrow> 'a list \<Rightarrow> nat option" where
  "scan_min P key bound xs =
     snd (fold (\<lambda>index (least, selected).
       if P (xs ! index) \<and> key (xs ! index) < least then (key (xs ! index), Some index) else (least, selected))
       [0..<length xs] (bound, None))"

definition queue_ready :: "u64 \<Rightarrow> melodi_tx_queue_entry \<Rightarrow> bool" where
  "queue_ready now_ms entry \<longleftrightarrow> qe_active entry \<and> \<not> qe_in_flight entry \<and> now_ms \<ge> qe_defer_until_ms entry"

definition melodi_queue_oldest_control :: "melodi_tx \<Rightarrow> u64 \<Rightarrow> nat option" where
  "melodi_queue_oldest_control tx now_ms =
     scan_min (\<lambda>e. queue_ready now_ms e \<and> qe_control e) qe_sequence QUEUE_U64_MAX (tx_queue tx)"

definition queue_ready_data :: "u64 \<Rightarrow> u8 \<Rightarrow> melodi_tx_queue_entry \<Rightarrow> bool" where
  "queue_ready_data now_ms priority entry \<longleftrightarrow>
     queue_ready now_ms entry \<and> \<not> qe_control entry \<and> qe_priority entry = priority"

definition priority_slot :: "melodi_tx \<Rightarrow> nat \<Rightarrow> nat" where
  "priority_slot tx cycle = (unat (tx_priority_slot tx) + cycle) mod length melodi_priority_cycle"

definition melodi_queue_priority :: "melodi_tx \<Rightarrow> u64 \<Rightarrow> (melodi_tx \<times> u8) option" where
  "melodi_queue_priority tx now_ms =
     (case find (\<lambda>cycle. list_ex (queue_ready_data now_ms (melodi_priority_cycle ! priority_slot tx cycle)) (tx_queue tx))
             [0..<length melodi_priority_cycle] of
        None \<Rightarrow> None
      | Some cycle \<Rightarrow>
          Some (tx\<lparr>tx_priority_slot := of_nat ((priority_slot tx cycle + 1) mod length melodi_priority_cycle)\<rparr>,
                melodi_priority_cycle ! priority_slot tx cycle))"

definition queue_peer_key :: "melodi_tx \<Rightarrow> melodi_tx_queue_entry \<Rightarrow> u64 \<times> u64" where
  "queue_peer_key tx entry = (pt_turn (tx_peers tx ! unat (qe_peer_index entry)), qe_sequence entry)"

definition queue_flow_key :: "melodi_tx \<Rightarrow> melodi_tx_queue_entry \<Rightarrow> u64 \<times> u64" where
  "queue_flow_key tx entry = (ft_turn (tx_flows tx ! unat (qe_flow_index entry)), qe_sequence entry)"

text \<open>The three scans of \<open>melodi_queue_data\<close>: the peer, its flow, the oldest frame of the flow.\<close>

definition queue_choose :: "melodi_tx \<Rightarrow> u64 \<Rightarrow> u8 \<Rightarrow> nat option" where
  "queue_choose tx now_ms priority =
     (let ready = queue_ready_data now_ms priority
      in case scan_min ready (queue_peer_key tx) (QUEUE_U64_MAX, QUEUE_U64_MAX) (tx_queue tx) of
           None \<Rightarrow> None
         | Some p \<Rightarrow>
            (let peer_index = qe_peer_index (tx_queue tx ! p)
             in case scan_min (\<lambda>e. ready e \<and> qe_peer_index e = peer_index) (queue_flow_key tx)
                       (QUEUE_U64_MAX, QUEUE_U64_MAX) (tx_queue tx) of
                  None \<Rightarrow> None
                | Some f \<Rightarrow>
                    scan_min (\<lambda>e. ready e \<and> qe_peer_index e = peer_index \<and> qe_flow_index e = qe_flow_index (tx_queue tx ! f))
                      qe_sequence QUEUE_U64_MAX (tx_queue tx)))"

text \<open>A new turn for the peer and the flow of the frame; the turns restart when they run out.\<close>

definition queue_take_turn :: "u8 \<Rightarrow> u8 \<Rightarrow> melodi_tx \<Rightarrow> melodi_tx" where
  "queue_take_turn peer_index flow_index tx =
     (let tx = (if tx_scheduler_turn tx = QUEUE_U64_MAX
            then tx\<lparr>tx_peers := map (\<lambda>p. p\<lparr>pt_turn := 0\<rparr>) (tx_peers tx),
                   tx_flows := map (\<lambda>f. f\<lparr>ft_turn := 0\<rparr>) (tx_flows tx), tx_scheduler_turn := 0\<rparr>
            else tx);
          turn = tx_scheduler_turn tx + 1
      in tx\<lparr>tx_scheduler_turn := turn,
           tx_peers := (tx_peers tx)[unat peer_index := (tx_peers tx ! unat peer_index)\<lparr>pt_turn := turn\<rparr>],
           tx_flows := (tx_flows tx)[unat flow_index := (tx_flows tx ! unat flow_index)\<lparr>ft_turn := turn\<rparr>]\<rparr>)"

definition melodi_queue_data :: "melodi_tx \<Rightarrow> u64 \<Rightarrow> melodi_tx \<times> nat option" where
  "melodi_queue_data tx now_ms =
     (case melodi_queue_priority tx now_ms of
        None \<Rightarrow> (tx, None)
      | Some (tx, priority) \<Rightarrow>
         (case queue_choose tx now_ms priority of
            None \<Rightarrow> (tx, None)
          | Some index \<Rightarrow>
              (queue_take_turn (qe_peer_index (tx_queue tx ! index)) (qe_flow_index (tx_queue tx ! index)) tx, Some index)))"


subsection \<open>Expiry, delays and airtime\<close>

definition queue_expire_slot :: "u64 \<Rightarrow> nat \<Rightarrow> melodi_tx \<times> melodi_queue_notice \<Rightarrow> melodi_tx \<times> melodi_queue_notice" where
  "queue_expire_slot now_ms index state =
     (case state of (tx, notice) \<Rightarrow>
        let entry = tx_queue tx ! index
        in if qe_active entry \<and> \<not> qe_in_flight entry \<and> now_ms \<ge> qe_expires_ms entry
           then let removed = queue_drop (melodi_queue_remove_locked tx index)
                in (removed\<lparr>tx_queue_expired := tx_queue_expired removed + 1\<rparr>, melodi_queue_notice_entry notice entry ETIMEDOUT)
           else (tx, notice))"

definition melodi_queue_expire_locked :: "u64 \<Rightarrow> melodi_tx \<Rightarrow> melodi_queue_notice \<Rightarrow> melodi_tx \<times> melodi_queue_notice" where
  "melodi_queue_expire_locked now_ms tx notice = fold (queue_expire_slot now_ms) [0..<MELODI_TX_QUEUE_LIMIT] (tx, notice)"

text \<open>The loop of \<open>melodi_queue_next_delay_locked\<close>: \<open>None\<close> when it returns 1 at once, else the time to wake.\<close>

fun queue_wake :: "u64 \<Rightarrow> u64 \<Rightarrow> melodi_tx_queue_entry list \<Rightarrow> u64 option" where
  "queue_wake now_ms wake_ms [] = Some wake_ms"
| "queue_wake now_ms wake_ms (entry # entries) =
     (if \<not> qe_active entry \<or> qe_in_flight entry then queue_wake now_ms wake_ms entries
      else if qe_defer_until_ms entry > now_ms
      then queue_wake now_ms (min wake_ms (min (qe_expires_ms entry) (qe_defer_until_ms entry))) entries
      else None)"

definition melodi_queue_next_delay_locked :: "(u64 \<Rightarrow> u64) \<Rightarrow> melodi_tx \<Rightarrow> u64 \<Rightarrow> u64" where
  "melodi_queue_next_delay_locked msecs_to_jiffies tx now_ms =
     (case queue_wake now_ms QUEUE_U64_MAX (tx_queue tx) of
        None \<Rightarrow> 1
      | Some wake_ms \<Rightarrow>
          if wake_ms = QUEUE_U64_MAX then 0
          else if wake_ms \<le> now_ms then 1
          else msecs_to_jiffies (min (wake_ms - now_ms) 0xffffffff))"

text \<open>
  The windows after the charge, stored through \<open>after\<close> and \<open>broadcast_after\<close>, and the wait, which is
  0 where \<open>melodi_airtime_admit\<close> does not set it.
\<close>

definition wait_of :: "u64 option \<Rightarrow> u64" where
  "wait_of wait = (case wait of None \<Rightarrow> 0 | Some w \<Rightarrow> w)"

definition melodi_queue_airtime_locked ::
  "melodi_tx \<Rightarrow> melodi_airtime_charge \<Rightarrow> bool \<Rightarrow> u64 \<Rightarrow> melodi_tx \<times> u64 \<times> unit res" where
  "melodi_queue_airtime_locked tx charge broadcast now_ms =
     (if ac_duration_us charge = 0
      then (tx\<lparr>tx_airtime_after := tx_airtime tx, tx_broadcast_after := tx_broadcast_airtime tx\<rparr>, 0, Inr ())
      else
       (let tx = (if tx_airtime_budget_us tx \<noteq> ac_budget_us charge \<or> tx_broadcast_budget_us tx \<noteq> ac_broadcast_budget_us charge
              then tx\<lparr>tx_airtime := melodi_airtime_reset, tx_broadcast_airtime := melodi_airtime_reset,
                     tx_airtime_budget_us := ac_budget_us charge, tx_broadcast_budget_us := ac_broadcast_budget_us charge\<rparr>
              else tx);
            (after, wait, result) = melodi_airtime_admit (tx_airtime tx) now_ms (ac_budget_us charge) (ac_duration_us charge);
            (broadcast_after, broadcast_wait, broadcast_result) =
              (if broadcast
               then melodi_airtime_admit (tx_broadcast_airtime tx) now_ms (ac_broadcast_budget_us charge) (ac_duration_us charge)
               else (tx_broadcast_airtime tx, None, Inr ()));
            tx = tx\<lparr>tx_airtime_after := after, tx_broadcast_after := broadcast_after\<rparr>
        in if result \<noteq> Inr () \<and> result \<noteq> Inl EAGAIN then (tx, 0, result)
           else if broadcast_result \<noteq> Inr () \<and> broadcast_result \<noteq> Inl EAGAIN then (tx, 0, broadcast_result)
           else if result = Inl EAGAIN \<or> broadcast_result = Inl EAGAIN
           then (tx, max (wait_of wait) (wait_of broadcast_wait), Inl EAGAIN)
           else (tx, 0, Inr ())))"

definition melodi_queue_transient :: "errno \<Rightarrow> bool" where
  "melodi_queue_transient error \<longleftrightarrow> error = EAGAIN \<or> error = ENOBUFS \<or> error = ENOSPC"

subsection \<open>The transmit work\<close>

text \<open>
  \<open>melodi_queue_work\<close> holds the lock in four sections, around calls of the transport. The first
  drops what has expired and selects a frame, unless the link is busy or in its guard time.
\<close>

definition queue_select :: "u64 \<Rightarrow> melodi_tx \<Rightarrow> melodi_tx \<times> nat option" where
  "queue_select now_ms tx =
     (let control = melodi_queue_oldest_control tx now_ms
      in if control \<noteq> None \<and> tx_control_burst tx < MELODI_TX_CONTROL_BURST then (tx, control)
         else case melodi_queue_data tx now_ms of
                (tx, Some index) \<Rightarrow> (tx, Some index)
              | (tx, None) \<Rightarrow> (tx, control))"

definition queue_work_begin :: "bool \<Rightarrow> u64 \<Rightarrow> u64 \<Rightarrow> melodi_tx \<Rightarrow> (melodi_tx \<times> melodi_queue_notice) \<times> nat option" where
  "queue_work_begin link_busy guard_ms now_ms tx =
     (if tx_queue_stopping tx then ((tx, None), None)
      else
       (let (tx, expired) = melodi_queue_expire_locked now_ms tx None;
            tx = (if link_busy then tx\<lparr>tx_guard_until_ms := now_ms + guard_ms\<rparr> else tx)
        in if tx_queue_count tx \<noteq> 0 \<and> (link_busy \<or> now_ms < tx_guard_until_ms tx) then ((tx, expired), None)
           else case queue_select now_ms tx of
                  (tx, None) \<Rightarrow> ((tx, expired), None)
                | (tx, Some index) \<Rightarrow>
                    ((tx\<lparr>tx_queue := (tx_queue tx)[index := (tx_queue tx ! index)\<lparr>qe_in_flight := True\<rparr>]\<rparr>, expired), Some index)))"

text \<open>The second section checks a data frame again; an error cancels its group.\<close>

definition queue_work_check ::
  "melodi_device \<Rightarrow> melodi_tx \<Rightarrow> nat \<Rightarrow> (melodi_device \<times> melodi_tx) \<times> melodi_queue_notice \<times> bool" where
  "queue_work_check melodi tx index =
     (let entry = tx_queue tx ! index
      in if qe_control entry then ((melodi, tx), None, True)
         else case (if qe_cancelled entry then Inl EACCES
               else melodi_data_queue_valid_locked melodi (qe_destination entry) (qe_destination_service entry) (qe_broadcast entry)
                      (qe_metadata entry) (qe_identity_generation entry) (qe_session_epoch entry)) of
           Inr _ \<Rightarrow> ((melodi, tx), None, True)
         | Inl error \<Rightarrow>
            (let (state, notice, changed) = melodi_queue_cancel_group_locked melodi tx (qe_group_id entry) (Some index) error None
             in (state, notice, False)))"

text \<open>
  The third section charges the airtime: the frame is dropped with a notice, deferred, or admitted.
  The answer of the transport is \<open>airtime\<close>.
\<close>

datatype queue_budget = Budget_Dropped melodi_queue_notice | Budget_Deferred | Budget_Admitted bool

definition queue_work_budget :: "melodi_airtime_charge res \<Rightarrow> u64 \<Rightarrow> melodi_tx \<Rightarrow> nat \<Rightarrow> melodi_tx \<times> queue_budget" where
  "queue_work_budget airtime now_ms tx index =
     (let entry = tx_queue tx ! index;
          broadcast = (\<not> qe_control entry \<and> tm_destination_locator (qe_metadata entry) = MELODI_LINK_LOCATOR_BROADCAST);
          give_up = (\<lambda>tx error.
            let removed = queue_drop (melodi_queue_remove_locked tx index)
            in (if error = ETIMEDOUT then removed\<lparr>tx_queue_expired := tx_queue_expired removed + 1\<rparr> else removed,
                Budget_Dropped (melodi_queue_notice_entry None entry error)))
      in if tx_queue_stopping tx then (melodi_queue_remove_locked tx index, Budget_Dropped None)
         else if qe_cancelled entry then give_up tx EACCES
         else if now_ms \<ge> qe_expires_ms entry then give_up tx ETIMEDOUT
         else case airtime of
           Inl error \<Rightarrow> give_up tx error
         | Inr charge \<Rightarrow>
            (case melodi_queue_airtime_locked tx charge broadcast now_ms of
               (tx, wait_ms, Inl error) \<Rightarrow>
                 if error = EAGAIN
                 then (tx\<lparr>tx_duty_defers := tx_duty_defers tx + 1,
                         tx_queue := (tx_queue tx)[index := entry\<lparr>qe_in_flight := False,
                           qe_defer_until_ms := now_ms + min wait_ms (qe_expires_ms entry - now_ms)\<rparr>]\<rparr>, Budget_Deferred)
                 else give_up tx error
             | (tx, wait_ms, Inr _) \<Rightarrow> (tx, Budget_Admitted (ac_duration_us charge \<noteq> 0))))"

text \<open>The last section handles the result of the transmission.\<close>

definition queue_work_end :: "unit res \<Rightarrow> u64 \<Rightarrow> bool \<Rightarrow> melodi_tx \<Rightarrow> nat \<Rightarrow> melodi_tx \<times> melodi_queue_notice" where
  "queue_work_end sent now_ms airtime_admitted tx index =
     (let entry = tx_queue tx ! index
      in case sent of
           Inl error \<Rightarrow>
             if melodi_queue_transient error \<and> \<not> tx_queue_stopping tx \<and> now_ms < qe_expires_ms entry
             then (tx\<lparr>tx_queue := (tx_queue tx)[index := entry\<lparr>qe_in_flight := False,
                     qe_defer_until_ms := min (qe_expires_ms entry) (now_ms + 100)\<rparr>]\<rparr>, None)
             else (queue_drop (melodi_queue_remove_locked tx index), melodi_queue_notice_entry None entry error)
         | Inr _ \<Rightarrow>
            (let tx = melodi_queue_remove_locked tx index;
                 tx = (if airtime_admitted
                       then tx\<lparr>tx_airtime := tx_airtime_after tx, tx_broadcast_airtime := tx_broadcast_after tx\<rparr> else tx)
             in (tx\<lparr>tx_control_burst := (if qe_control entry \<and> tx_control_burst tx < 255 then tx_control_burst tx + 1 else 0)\<rparr>, None)))"

text \<open>
  The whole of the work, run without interruption: the four times it reads, the state of the link,
  and the transport's airtime and transmission as functions of the frame and its metadata.
\<close>

record queue_environment =
  qv_link_busy :: bool
  qv_guard_ms :: u64
  qv_begin_ms :: u64
  qv_budget_ms :: u64
  qv_end_ms :: u64
  qv_airtime :: "bytes \<Rightarrow> melodi_tx_meta \<Rightarrow> melodi_airtime_charge res"
  qv_xmit :: "bytes \<Rightarrow> melodi_tx_meta \<Rightarrow> unit res"

definition melodi_queue_work ::
  "queue_environment \<Rightarrow> melodi_device \<times> melodi_tx \<Rightarrow> (melodi_device \<times> melodi_tx) \<times> melodi_queue_notice list" where
  "melodi_queue_work env state =
     (case state of (melodi, tx) \<Rightarrow>
        case queue_work_begin (qv_link_busy env) (qv_guard_ms env) (qv_begin_ms env) tx of
          ((tx, expired), None) \<Rightarrow> ((melodi, tx), [expired])
        | ((tx, expired), Some index) \<Rightarrow>
           (let entry = tx_queue tx ! index
            in case queue_work_check melodi tx index of
                 (state, notice, False) \<Rightarrow> (state, [expired, notice])
               | ((melodi, tx), _, True) \<Rightarrow>
                  (case queue_work_budget (qv_airtime env (qe_frame entry) (qe_metadata entry)) (qv_budget_ms env) tx index of
                     (tx, Budget_Dropped notice) \<Rightarrow> ((melodi, tx), [expired, notice])
                   | (tx, Budget_Deferred) \<Rightarrow> ((melodi, tx), [expired])
                   | (tx, Budget_Admitted admitted) \<Rightarrow>
                      (let (tx, notice) = queue_work_end (qv_xmit env (qe_frame entry) (qe_metadata entry))
                             (qv_end_ms env) admitted tx index
                       in ((melodi, tx), [expired, notice])))))"


subsection \<open>Changes of the device state\<close>

definition reservation_check :: "melodi_device \<Rightarrow> melodi_tx_reservation \<Rightarrow> unit res" where
  "reservation_check melodi reservation =
     (if rv_identity_generation reservation \<noteq> 0
      then melodi_data_queue_valid_locked melodi (rv_destination reservation) (rv_destination_service reservation)
             (rv_broadcast reservation)
             (zero_tx_meta\<lparr>tm_source_locator := rv_source_locator reservation, tm_destination_locator := rv_locator reservation\<rparr>)
             (rv_identity_generation reservation) (rv_session_epoch reservation)
      else melodi_policy_check_message_locked melodi (rv_destination reservation) (rv_destination_service reservation)
             (rv_broadcast reservation))"

definition entry_check :: "melodi_device \<Rightarrow> melodi_tx_queue_entry \<Rightarrow> unit res" where
  "entry_check melodi entry =
     melodi_data_queue_valid_locked melodi (qe_destination entry) (qe_destination_service entry) (qe_broadcast entry)
       (qe_metadata entry) (qe_identity_generation entry) (qe_session_epoch entry)"

definition reservation_invalid :: "melodi_device \<Rightarrow> melodi_tx_reservation \<Rightarrow> bool" where
  "reservation_invalid melodi r \<longleftrightarrow> rv_active r \<and> reservation_check melodi r \<noteq> Inr ()"

definition entry_invalid :: "melodi_device \<Rightarrow> melodi_tx_queue_entry \<Rightarrow> bool" where
  "entry_invalid melodi e \<longleftrightarrow> qe_active e \<and> \<not> qe_control e \<and> \<not> qe_cancelled e \<and> entry_check melodi e \<noteq> Inr ()"

text \<open>One round: \<open>None\<close> when nothing changed.\<close>

definition queue_state_round ::
  "melodi_device \<times> melodi_tx \<Rightarrow> ((melodi_device \<times> melodi_tx) \<times> melodi_queue_notice) option" where
  "queue_state_round state =
     (case state of (melodi, tx) \<Rightarrow>
        case find_slot (reservation_invalid melodi) (tx_reservations tx) of
          Some index \<Rightarrow>
            (let reservation = tx_reservations tx ! index;
                 melodi' = (if rv_reliable reservation
                   then fst (melodi_data_cancel_pending_locked melodi (Some (rv_destination reservation)) 0 (rv_id reservation))
                   else melodi)
             in Some ((melodi', queue_drop (melodi_reservation_remove_locked tx index)),
                      melodi_queue_notice_reservation reservation (error_of (reservation_check melodi reservation))))
        | None \<Rightarrow>
            (case find_slot (entry_invalid melodi) (tx_queue tx) of
               None \<Rightarrow> None
             | Some index \<Rightarrow>
                (let entry = tx_queue tx ! index;
                     (state, notice, changed) = melodi_queue_cancel_group_locked melodi tx (qe_group_id entry) None
                       (error_of (entry_check melodi entry)) None
                 in if changed then Some (state, notice) else None)))"

definition entry_live :: "melodi_tx_queue_entry \<Rightarrow> bool" where
  "entry_live e \<longleftrightarrow> qe_active e \<and> \<not> qe_cancelled e"

definition queue_load :: "melodi_tx \<Rightarrow> nat" where
  "queue_load tx = reservations_active tx + length (filter entry_live (tx_queue tx))"

lemma length_filter_pointwise_less:
  assumes "length ys = length xs" "\<And>j. j < length xs \<Longrightarrow> P (ys ! j) \<Longrightarrow> P (xs ! j)"
    and "i < length xs" "P (xs ! i)" "\<not> P (ys ! i)"
  shows "length (filter P ys) < length (filter P xs)"
proof -
  have "{j. j < length ys \<and> P (ys ! j)} \<subset> {j. j < length xs \<and> P (xs ! j)}" using assms by auto
  then show ?thesis unfolding length_filter_conv_card by (rule psubset_card_mono [rotated]) simp
qed

lemma zero_queue_entry_inactive [simp]: "\<not> qe_active zero_queue_entry"
  by (simp add: zero_queue_entry_def)

text \<open>What cancelling leaves of a slot: the entry, the entry marked as cancelled, or nothing.\<close>

lemma queue_cancel_entry_slot:
  "\<exists>e. tx_queue (fst (queue_cancel_entry g rep owned i (tx, changed))) = (tx_queue tx)[i := e] \<and>
     (entry_live e \<longrightarrow> entry_live (tx_queue tx ! i) \<and> e = tx_queue tx ! i) \<and>
     (queue_in_group g (tx_queue tx ! i) \<longrightarrow> \<not> entry_live e)"
proof -
  let ?e = "tx_queue tx ! i"
  consider "\<not> qe_active ?e \<or> (qe_group_id ?e \<noteq> g \<and> \<not> queue_same_message rep ?e)"
    | "qe_active ?e" "qe_group_id ?e = g \<or> queue_same_message rep ?e" "qe_in_flight ?e \<and> owned \<noteq> Some i"
    | "qe_active ?e" "qe_group_id ?e = g \<or> queue_same_message rep ?e" "\<not> (qe_in_flight ?e \<and> owned \<noteq> Some i)"
    by blast
  then show ?thesis
  proof cases
    case 1
    then show ?thesis by (intro exI [of _ ?e]) (auto simp: queue_cancel_entry_def Let_def queue_in_group_def entry_live_def)
  next
    case 2
    then show ?thesis
      by (intro exI [of _ "?e\<lparr>qe_cancelled := True, qe_terminal_notified := True\<rparr>"]) (auto simp: queue_cancel_entry_def Let_def entry_live_def)
  next
    case 3
    then show ?thesis by (intro exI [of _ zero_queue_entry]) (auto simp: queue_cancel_entry_def Let_def entry_live_def)
  qed
qed

lemma queue_cancel_entry_reservations [simp]:
  "tx_reservations (fst (queue_cancel_entry g rep owned i state)) = tx_reservations (fst state)"
  by (cases state) (simp add: queue_cancel_entry_def Let_def)

text \<open>The relation between the tables before and after the entries of a list of slots are cancelled.\<close>

definition cancels :: "u64 \<Rightarrow> nat set \<Rightarrow> melodi_tx \<Rightarrow> melodi_tx \<Rightarrow> bool" where
  "cancels g I tx result \<longleftrightarrow>
     tx_reservations result = tx_reservations tx \<and> length (tx_queue result) = length (tx_queue tx) \<and>
     (\<forall>j. j \<notin> I \<longrightarrow> tx_queue result ! j = tx_queue tx ! j) \<and>
     (\<forall>j < length (tx_queue tx). j \<in> I \<longrightarrow> queue_in_group g (tx_queue tx ! j) \<longrightarrow> \<not> entry_live (tx_queue result ! j)) \<and>
     (\<forall>j < length (tx_queue tx). entry_live (tx_queue result ! j) \<longrightarrow> tx_queue result ! j = tx_queue tx ! j)"

lemma cancels_step: "cancels g {i} tx (fst (queue_cancel_entry g rep owned i (tx, changed)))"
proof -
  obtain e where e: "tx_queue (fst (queue_cancel_entry g rep owned i (tx, changed))) = (tx_queue tx)[i := e]"
      "entry_live e \<longrightarrow> entry_live (tx_queue tx ! i) \<and> e = tx_queue tx ! i" "queue_in_group g (tx_queue tx ! i) \<longrightarrow> \<not> entry_live e"
    using queue_cancel_entry_slot by meson
  then show ?thesis by (auto simp: cancels_def nth_list_update_if split: if_splits)
qed

lemma cancels_trans:
  assumes "cancels g I tx tx'" "cancels g J tx' tx''" "I \<inter> J = {}"
  shows "cancels g (I \<union> J) tx tx''"
  using assms unfolding cancels_def by (metis UnCI UnE disjoint_iff)

lemma cancels_fold:
  "distinct is \<Longrightarrow> cancels g (set is) tx (fst (fold (queue_cancel_entry g rep owned) is (tx, changed)))"
proof (induction "is" arbitrary: tx changed)
  case (Cons i "is")
  let ?s = "queue_cancel_entry g rep owned i (tx, changed)"
  have "cancels g ({i} \<union> set is) tx (fst (fold (queue_cancel_entry g rep owned) is (fst ?s, snd ?s)))"
    using Cons.prems Cons.IH [of "fst ?s" "snd ?s"] by (intro cancels_trans [OF cancels_step]) simp_all
  then show ?case by simp
qed (simp add: cancels_def)

lemma cancelsD:
  assumes "cancels g I tx result"
  shows "tx_reservations result = tx_reservations tx" "length (tx_queue result) = length (tx_queue tx)"
    "\<And>j. j < length (tx_queue tx) \<Longrightarrow> j \<in> I \<Longrightarrow> queue_in_group g (tx_queue tx ! j) \<Longrightarrow> \<not> entry_live (tx_queue result ! j)"
    "\<And>j. j < length (tx_queue tx) \<Longrightarrow> entry_live (tx_queue result ! j) \<Longrightarrow> tx_queue result ! j = tx_queue tx ! j"
  using assms unfolding cancels_def by blast+

lemma queue_cancel_group_cancels:
  assumes "melodi_queue_cancel_group_locked melodi tx g owned error notice = ((melodi', tx'), notice', changed)"
    and "find_slot (queue_in_group g) (tx_queue tx) = Some first"
  shows "cancels g {..<length (tx_queue tx)} tx tx'"
proof -
  let ?f = "fold (queue_cancel_entry g (tx_queue tx ! first) owned) [0..<length (tx_queue tx)] (tx, False)"
  have "tx' = fst ?f" using assms by (auto simp: melodi_queue_cancel_group_locked_def Let_def split: prod.splits)
  then show ?thesis
    using cancels_fold [of "[0..<length (tx_queue tx)]" g tx "tx_queue tx ! first" owned False] by (simp add: atLeast0LessThan)
qed

lemma queue_state_round_less:
  assumes "queue_state_round (melodi, tx) = Some ((melodi', tx'), notice)"
  shows "queue_load tx' < queue_load tx"
proof (cases "find_slot (reservation_invalid melodi) (tx_reservations tx)")
  case (Some i)
  then have tx': "tx' = queue_drop (melodi_reservation_remove_locked tx i)"
    using assms by (simp add: queue_state_round_def Let_def)
  have "reservations_active tx = Suc (reservations_active tx')"
    using Some tx' by (intro reservations_active_remove [of i]) (simp_all add: find_slot_Some_iff reservation_invalid_def)
  moreover have "tx_queue tx' = tx_queue tx" using tx' by simp
  ultimately show ?thesis by (simp add: queue_load_def)
next
  case None
  obtain i where i: "find_slot (entry_invalid melodi) (tx_queue tx) = Some i"
    using assms None by (auto simp: queue_state_round_def split: option.splits)
  let ?g = "qe_group_id (tx_queue tx ! i)"
  have live: "i < length (tx_queue tx)" "entry_live (tx_queue tx ! i)" "queue_in_group ?g (tx_queue tx ! i)"
    using i by (simp_all add: find_slot_Some_iff entry_invalid_def entry_live_def queue_in_group_def)
  then have "find_slot (queue_in_group ?g) (tx_queue tx) \<noteq> None" unfolding find_slot_None_iff using nth_mem by blast
  then obtain first where first: "find_slot (queue_in_group ?g) (tx_queue tx) = Some first" by blast
  have c: "cancels ?g {..<length (tx_queue tx)} tx tx'"
    using assms None i
    by (intro queue_cancel_group_cancels [OF _ first]) (auto simp: queue_state_round_def Let_def split: prod.splits if_splits)
  have "length (filter entry_live (tx_queue tx')) < length (filter entry_live (tx_queue tx))"
  proof (rule length_filter_pointwise_less [where i = i])
    show "i < length (tx_queue tx)" "entry_live (tx_queue tx ! i)" using live by simp_all
    show "length (tx_queue tx') = length (tx_queue tx)" by (rule cancelsD(2) [OF c])
    show "\<not> entry_live (tx_queue tx' ! i)" by (rule cancelsD(3) [OF c live(1) _ live(3)]) (use live(1) in simp)
    show "entry_live (tx_queue tx ! j)" if "j < length (tx_queue tx)" "entry_live (tx_queue tx' ! j)" for j
      using cancelsD(4) [OF c that] that(2) by simp
  qed
  moreover have "tx_reservations tx' = tx_reservations tx" by (rule cancelsD(1) [OF c])
  ultimately show ?thesis by (simp add: queue_load_def reservations_active_def)
qed

function melodi_queue_state_changed ::
  "melodi_device \<times> melodi_tx \<Rightarrow> (melodi_device \<times> melodi_tx) \<times> melodi_queue_notice list" where
  "melodi_queue_state_changed state =
     (case queue_state_round state of
        None \<Rightarrow> (state, [])
      | Some (state, notice) \<Rightarrow>
          (let (state, notices) = melodi_queue_state_changed state in (state, notice # notices)))"
  by pat_completeness auto
termination
  by (relation "measure (\<lambda>(_, tx). queue_load tx)") (auto dest: queue_state_round_less)

declare melodi_queue_state_changed.simps [simp del]

subsection \<open>Stopping and starting\<close>

text \<open>The loop of \<open>melodi_queue_drain\<close> that cancels the first active reservation until none is left.\<close>

lemma reservation_cancel_less:
  assumes "find_slot rv_active (tx_reservations tx) = Some i"
  shows "reservations_active (fst (melodi_queue_reservation_cancel tx (rv_id (tx_reservations tx ! i)) error notify)) < reservations_active tx"
proof -
  let ?rid = "rv_id (tx_reservations tx ! i)"
  have i: "i < length (tx_reservations tx)" "rv_active (tx_reservations tx ! i)" using assms by (simp_all add: find_slot_Some_iff)
  then have "find_slot (\<lambda>r. rv_active r \<and> rv_id r = ?rid) (tx_reservations tx) \<noteq> None"
    unfolding find_slot_None_iff using nth_mem by blast
  then obtain j where j: "melodi_reservation_find_locked tx ?rid = Some j" by (auto simp: melodi_reservation_find_locked_def)
  have "reservations_active tx = Suc (reservations_active (melodi_reservation_remove_locked tx j))"
    using j by (intro reservations_active_remove [of j]) (auto simp: melodi_reservation_find_locked_def find_slot_Some_iff)
  then show ?thesis using j by (simp add: melodi_queue_reservation_cancel_def)
qed

function queue_cancel_all :: "errno \<Rightarrow> melodi_tx \<Rightarrow> melodi_tx \<times> melodi_queue_notice list" where
  "queue_cancel_all error tx =
     (case find_slot rv_active (tx_reservations tx) of
        None \<Rightarrow> (tx, [])
      | Some index \<Rightarrow>
         (if rv_id (tx_reservations tx ! index) = 0 then (tx, [])
          else
           (let cancelled = melodi_queue_reservation_cancel tx (rv_id (tx_reservations tx ! index)) error True;
                (tx, notices) = queue_cancel_all error (fst cancelled)
            in (tx, snd cancelled # notices))))"
  by pat_completeness auto
termination
  by (relation "measure (\<lambda>(_, tx). reservations_active tx)") (auto intro: reservation_cancel_less)

declare queue_cancel_all.simps [simp del]

definition melodi_queue_drain :: "errno \<Rightarrow> melodi_tx \<Rightarrow> melodi_tx \<times> melodi_queue_notice list" where
  "melodi_queue_drain error tx =
     (let (tx, notices) = queue_cancel_all error (tx\<lparr>tx_queue_stopping := True\<rparr>);
          tx = fold (\<lambda>index tx. if qe_active (tx_queue tx ! index) then melodi_queue_remove_locked tx index else tx)
            [0..<length (tx_queue tx)] tx
      in (tx\<lparr>tx_peers := replicate MELODI_TX_FLOW_LIMIT zero_peer_turn,
            tx_flows := replicate MELODI_TX_FLOW_LIMIT zero_flow_turn, tx_queue_bytes := 0, tx_queue_count := 0,
            tx_guard_until_ms := 0, tx_control_burst := 0, tx_airtime_budget_us := 0, tx_broadcast_budget_us := 0,
            tx_airtime := melodi_airtime_reset, tx_broadcast_airtime := melodi_airtime_reset\<rparr>, notices))"

definition melodi_queue_init :: "melodi_tx \<Rightarrow> melodi_tx" where
  "melodi_queue_init tx = tx\<lparr>tx_queue_stopping := True\<rparr>"

definition melodi_queue_pause :: "melodi_tx \<Rightarrow> melodi_tx \<times> melodi_queue_notice list" where
  "melodi_queue_pause tx = melodi_queue_drain ENETDOWN tx"

definition melodi_queue_start :: "melodi_tx \<Rightarrow> melodi_tx" where
  "melodi_queue_start tx = tx\<lparr>tx_queue_stopping := False\<rparr>"

definition melodi_queue_fail :: "errno \<Rightarrow> melodi_tx \<Rightarrow> melodi_tx \<times> melodi_queue_notice list" where
  "melodi_queue_fail error tx = melodi_queue_drain error tx"

definition melodi_queue_stop :: "melodi_tx \<Rightarrow> melodi_tx \<times> melodi_queue_notice list" where
  "melodi_queue_stop tx = melodi_queue_fail ENODEV tx"

definition melodi_queue_message_queued :: "melodi_tx \<Rightarrow> bytes \<Rightarrow> u64 \<Rightarrow> u32 \<Rightarrow> u64 \<Rightarrow> u16 \<Rightarrow> bool" where
  "melodi_queue_message_queued tx destination message_id binding_portid binding_generation service \<longleftrightarrow>
     list_ex (\<lambda>e. qe_active e \<and> qe_reliable e \<and> qe_message_id e = message_id \<and> qe_binding_portid e = binding_portid \<and>
       qe_binding_generation e = binding_generation \<and> qe_service e = service \<and> qe_destination e = destination) (tx_queue tx)"

definition melodi_queue_stats :: "melodi_tx \<Rightarrow> u64 \<times> u64 \<times> u64 \<times> u64" where
  "melodi_queue_stats tx =
     (of_nat (unat (tx_queue_count tx) + unat (tx_reserved_count tx)), ucast (tx_queue_bytes tx + tx_reserved_bytes tx),
      total_us (tx_airtime tx), total_us (tx_broadcast_airtime tx))"

end
