(* ===== verification/Queue_Accounting.thy ===== *)
theory Queue_Accounting
  imports Queue
begin

text \<open>
  The counters of the transmit queue. The frames and bytes queued and reserved, the reserved pending
  messages and the counters of every namespace are the sums over the tables, and stay within the
  limits of the device, after every operation. A namespace is shared by devices: \<open>rest\<close> is what the
  other devices account for in it.
\<close>

subsection \<open>Namespaces as a function\<close>

definition namespace_view :: "melodi_tx \<Rightarrow> nat \<Rightarrow> nat \<times> nat" where
  "namespace_view tx net =
     (case melodi_namespace_queue_find tx net of
        None \<Rightarrow> (0, 0)
      | Some i \<Rightarrow> (unat (nq_messages (tx_namespaces tx ! i)), unat (nq_bytes (tx_namespaces tx ! i))))"

definition namespaces_distinct :: "melodi_tx \<Rightarrow> bool" where
  "namespaces_distinct tx \<longleftrightarrow> distinct (map nq_net (tx_namespaces tx))"

lemma namespace_find_iff:
  assumes "namespaces_distinct tx"
  shows "melodi_namespace_queue_find tx net = Some i \<longleftrightarrow> i < length (tx_namespaces tx) \<and> nq_net (tx_namespaces tx ! i) = net"
  using assms unfolding namespaces_distinct_def melodi_namespace_queue_find_def find_slot_Some_iff
  by (auto simp: distinct_conv_nth)

lemma namespace_find_None: "melodi_namespace_queue_find tx net = None \<longleftrightarrow> net \<notin> nq_net ` set (tx_namespaces tx)"
  by (auto simp: melodi_namespace_queue_find_def find_slot_None_iff)

text \<open>The view of a namespace is determined by the entry that has its number.\<close>

lemma namespace_view_at:
  assumes "namespaces_distinct tx" "i < length (tx_namespaces tx)"
  shows "namespace_view tx (nq_net (tx_namespaces tx ! i)) =
    (unat (nq_messages (tx_namespaces tx ! i)), unat (nq_bytes (tx_namespaces tx ! i)))"
  using namespace_find_iff [OF assms(1), THEN iffD2, OF conjI [OF assms(2) refl]] by (simp add: namespace_view_def)

lemma namespace_view_store:
  assumes d: "namespaces_distinct tx" and i: "i < length (tx_namespaces tx)" and q: "nq_net q = nq_net (tx_namespaces tx ! i)"
    and tx': "tx_namespaces tx' = (tx_namespaces tx)[i := q]"
  shows "namespaces_distinct tx'" "namespace_view tx' = (namespace_view tx)(nq_net q := (unat (nq_messages q), unat (nq_bytes q)))"
proof -
  have nets: "map nq_net (tx_namespaces tx') = map nq_net (tx_namespaces tx)"
    using i q tx' by (simp add: map_update list_update_same_conv)
  then show d': "namespaces_distinct tx'" using d by (simp add: namespaces_distinct_def)
  show "namespace_view tx' = (namespace_view tx)(nq_net q := (unat (nq_messages q), unat (nq_bytes q)))"
  proof
    fix net
    show "namespace_view tx' net = ((namespace_view tx)(nq_net q := (unat (nq_messages q), unat (nq_bytes q)))) net"
    proof (cases "melodi_namespace_queue_find tx net")
      case None
      have "set (map nq_net (tx_namespaces tx')) = set (map nq_net (tx_namespaces tx))" using nets by simp
      then have "melodi_namespace_queue_find tx' net = None" using None by (simp add: namespace_find_None)
      moreover have "net \<noteq> nq_net q" using None i q by (auto simp: namespace_find_None)
      ultimately show ?thesis using None by (simp add: namespace_view_def)
    next
      case (Some j)
      then have j: "j < length (tx_namespaces tx)" "nq_net (tx_namespaces tx ! j) = net" using namespace_find_iff [OF d] by auto
      have "nq_net (tx_namespaces tx' ! j) = net" using j q tx' i by (cases "j = i") auto
      then have "melodi_namespace_queue_find tx' net = Some j" using namespace_find_iff [OF d'] j tx' by simp
      moreover have "net = nq_net q \<longleftrightarrow> j = i" using namespace_find_iff [OF d, of net i] Some i q by auto
      ultimately show ?thesis using Some tx' i by (auto simp: namespace_view_def)
    qed
  qed
qed

lemma namespace_release_view:
  assumes "namespaces_distinct tx" "melodi_namespace_queue_find tx net = Some i"
    and "unat m \<le> fst (namespace_view tx net)" "unat b \<le> snd (namespace_view tx net)"
  shows "namespaces_distinct (namespace_release i m b tx)"
    "namespace_view (namespace_release i m b tx) =
      (namespace_view tx)(net := (fst (namespace_view tx net) - unat m, snd (namespace_view tx net) - unat b))"
proof -
  let ?q = "tx_namespaces tx ! i"
  have i: "i < length (tx_namespaces tx)" "nq_net ?q = net" using assms(1,2) by (simp_all add: namespace_find_iff)
  have v: "namespace_view tx net = (unat (nq_messages ?q), unat (nq_bytes ?q))" using assms(2) by (simp add: namespace_view_def)
  let ?r = "?q\<lparr>nq_messages := nq_messages ?q - m, nq_bytes := nq_bytes ?q - b\<rparr>"
  have st: "tx_namespaces (namespace_release i m b tx) = (tx_namespaces tx)[i := ?r]" by (simp add: namespace_release_def Let_def)
  have u: "unat (nq_messages ?q - m) = unat (nq_messages ?q) - unat m" "unat (nq_bytes ?q - b) = unat (nq_bytes ?q) - unat b"
    using assms(3,4) v by (simp_all add: unat_sub word_le_nat_alt)
  show "namespaces_distinct (namespace_release i m b tx)"
    by (rule namespace_view_store(1) [OF assms(1) i(1) _ st]) simp
  show "namespace_view (namespace_release i m b tx) =
      (namespace_view tx)(net := (fst (namespace_view tx net) - unat m, snd (namespace_view tx net) - unat b))"
    using namespace_view_store(2) [OF assms(1) i(1) _ st] u v i(2) by simp
qed

lemma namespace_add_view:
  assumes "namespaces_distinct tx" "melodi_namespace_queue_find tx net = Some i"
    and "fst (namespace_view tx net) + unat m < 2 ^ 32" "snd (namespace_view tx net) + unat b < 2 ^ 32"
  shows "namespaces_distinct (namespace_add i m b tx)"
    "namespace_view (namespace_add i m b tx) =
      (namespace_view tx)(net := (fst (namespace_view tx net) + unat m, snd (namespace_view tx net) + unat b))"
proof -
  let ?q = "tx_namespaces tx ! i"
  have i: "i < length (tx_namespaces tx)" "nq_net ?q = net" using assms(1,2) by (simp_all add: namespace_find_iff)
  have v: "namespace_view tx net = (unat (nq_messages ?q), unat (nq_bytes ?q))" using assms(2) by (simp add: namespace_view_def)
  let ?r = "?q\<lparr>nq_messages := nq_messages ?q + m, nq_bytes := nq_bytes ?q + b\<rparr>"
  have st: "tx_namespaces (namespace_add i m b tx) = (tx_namespaces tx)[i := ?r]" by (simp add: namespace_add_def Let_def)
  have u: "unat (nq_messages ?q + m) = unat (nq_messages ?q) + unat m" "unat (nq_bytes ?q + b) = unat (nq_bytes ?q) + unat b"
    using assms(3,4) v by (simp_all add: unat_add_lem [THEN iffD1])
  show "namespaces_distinct (namespace_add i m b tx)"
    by (rule namespace_view_store(1) [OF assms(1) i(1) _ st]) simp
  show "namespace_view (namespace_add i m b tx) =
      (namespace_view tx)(net := (fst (namespace_view tx net) + unat m, snd (namespace_view tx net) + unat b))"
    using namespace_view_store(2) [OF assms(1) i(1) _ st] u v i(2) by simp
qed


lemma namespace_view_absent: "net \<notin> nq_net ` set (tx_namespaces tx) \<Longrightarrow> namespace_view tx net = (0, 0)"
  unfolding namespace_view_def namespace_find_None [symmetric] by simp

lemma namespace_put_view:
  assumes "namespaces_distinct tx" "melodi_namespace_queue_find tx net = Some i"
    and "fst (namespace_view tx net) = 0 \<Longrightarrow> snd (namespace_view tx net) = 0"
  shows "namespaces_distinct (melodi_namespace_queue_put tx i)" "namespace_view (melodi_namespace_queue_put tx i) = namespace_view tx"
proof -
  let ?xs = "tx_namespaces tx" and ?tx' = "melodi_namespace_queue_put tx i"
  have i: "i < length ?xs" "nq_net (?xs ! i) = net" using assms(1,2) by (simp_all add: namespace_find_iff)
  have v: "namespace_view tx net = (unat (nq_messages (?xs ! i)), unat (nq_bytes (?xs ! i)))" using assms(2) by (simp add: namespace_view_def)
  have "namespaces_distinct ?tx' \<and> namespace_view ?tx' = namespace_view tx"
  proof (cases "nq_messages (?xs ! i) = 0")
    case True
    let ?ys = "take i ?xs @ drop (Suc i) ?xs"
    have tx': "tx_namespaces ?tx' = ?ys" using True by (simp add: melodi_namespace_queue_put_def)
    have xs: "?xs = take i ?xs @ ?xs ! i # drop (Suc i) ?xs" using i by (simp add: id_take_nth_drop)
    have "distinct (map nq_net (take i ?xs @ ?xs ! i # drop (Suc i) ?xs))"
      using assms(1) xs unfolding namespaces_distinct_def by metis
    then have d: "distinct (map nq_net ?ys)" and fresh: "net \<notin> nq_net ` set ?ys" using i by auto
    then have d': "namespaces_distinct ?tx'" using tx' by (simp add: namespaces_distinct_def)
    have "namespace_view ?tx' n = namespace_view tx n" for n
    proof (cases "n = net")
      case True
      then have "namespace_view ?tx' n = (0, 0)" using fresh tx' by (intro namespace_view_absent) simp
      moreover have "namespace_view tx n = (0, 0)"
        using \<open>nq_messages (?xs ! i) = 0\<close> v assms(3) True by (simp add: prod_eq_iff)
      ultimately show ?thesis by simp
    next
      case False
      have sub: "set ?xs = insert (?xs ! i) (set ?ys)" by (subst xs) auto
      show ?thesis
      proof (cases "n \<in> nq_net ` set ?ys")
        case True
        then obtain q where q: "q \<in> set ?ys" "nq_net q = n" by auto
        obtain j where j: "j < length (tx_namespaces ?tx')" "tx_namespaces ?tx' ! j = q" using q(1) tx' by (metis in_set_conv_nth)
        obtain k where k: "k < length ?xs" "?xs ! k = q" using q(1) sub by (metis in_set_conv_nth insertCI)
        show ?thesis using namespace_view_at [OF d' j(1)] namespace_view_at [OF assms(1) k(1)] j(2) k(2) q(2) by simp
      next
        case out: False
        then have "n \<notin> nq_net ` set ?xs" using False sub i by auto
        then show ?thesis using out tx' namespace_view_absent [of n tx] namespace_view_absent [of n ?tx'] by simp
      qed
    qed
    then show ?thesis using d' by (simp add: fun_eq_iff)
  qed (use assms(1) in \<open>simp add: melodi_namespace_queue_put_def\<close>)
  then show "namespaces_distinct ?tx'" "namespace_view ?tx' = namespace_view tx" by simp_all
qed

lemma namespace_get_view:
  assumes "namespaces_distinct tx" "melodi_namespace_queue_get memory tx net = (tx', Some i)"
  shows "namespaces_distinct tx'" "namespace_view tx' = namespace_view tx" "melodi_namespace_queue_find tx' net = Some i"
proof -
  let ?q = "\<lparr>nq_net = net, nq_messages = 0, nq_bytes = 0\<rparr>"
  have "namespaces_distinct tx' \<and> namespace_view tx' = namespace_view tx \<and> melodi_namespace_queue_find tx' net = Some i"
  proof (cases "melodi_namespace_queue_find tx net")
    case None
    then have tx': "tx_namespaces tx' = tx_namespaces tx @ [?q]" and i: "i = length (tx_namespaces tx)"
      using assms(2) by (auto simp: melodi_namespace_queue_get_def split: if_splits)
    have d': "namespaces_distinct tx'" using assms(1) None tx' by (simp add: namespaces_distinct_def namespace_find_None)
    have "namespace_view tx' n = namespace_view tx n" for n
    proof (cases "n = net")
      case True
      then show ?thesis using namespace_view_at [OF d', of i] None tx' i by (simp add: namespace_view_def)
    next
      case False
      show ?thesis
      proof (cases "melodi_namespace_queue_find tx n")
        case None
        then have "melodi_namespace_queue_find tx' n = None" using False tx' by (simp add: namespace_find_None)
        then show ?thesis using None by (simp add: namespace_view_def)
      next
        case (Some j)
        then have "j < length (tx_namespaces tx)" "nq_net (tx_namespaces tx ! j) = n" using namespace_find_iff [OF assms(1)] by auto
        then show ?thesis
          using namespace_view_at [OF d', of j] namespace_view_at [OF assms(1), of j] tx' by (simp add: nth_append)
      qed
    qed
    then show ?thesis using d' namespace_find_iff [OF d'] tx' i by (simp add: fun_eq_iff)
  qed (use assms in \<open>auto simp: melodi_namespace_queue_get_def\<close>)
  then show "namespaces_distinct tx'" "namespace_view tx' = namespace_view tx" "melodi_namespace_queue_find tx' net = Some i" by simp_all
qed

subsection \<open>Meters\<close>

text \<open>Every counter and every limit of the queue measures the active entries and reservations.\<close>

datatype meter =
    Frames_Queued | Bytes_Queued | Frames_Reserved | Bytes_Reserved | Pending_Reserved | Frames_Total | Bytes_Total
  | Namespace_Messages nat | Namespace_Bytes nat
  | Data_Frames | Peer_Frames u32 | Service_Frames u16 | Binding_Frames u32 u64

fun entry_amount :: "meter \<Rightarrow> melodi_tx_queue_entry \<Rightarrow> nat" where
  "entry_amount Frames_Queued e = 1"
| "entry_amount Bytes_Queued e = unat (qe_length e)"
| "entry_amount Frames_Total e = 1"
| "entry_amount Bytes_Total e = unat (qe_length e)"
| "entry_amount (Namespace_Messages net) e = (if qe_net e = net then 1 else 0)"
| "entry_amount (Namespace_Bytes net) e = (if qe_net e = net then unat (qe_length e) else 0)"
| "entry_amount Data_Frames e = (if qe_control e then 0 else 1)"
| "entry_amount (Peer_Frames locator) e =
     (if \<not> qe_control e \<and> tm_destination_locator (qe_metadata e) = locator then 1 else 0)"
| "entry_amount (Service_Frames service) e = (if \<not> qe_control e \<and> qe_service e = service then 1 else 0)"
| "entry_amount (Binding_Frames portid generation) e =
     (if \<not> qe_control e \<and> qe_binding_portid e = portid \<and> qe_binding_generation e = generation then 1 else 0)"
| "entry_amount _ e = 0"

fun reservation_amount :: "meter \<Rightarrow> melodi_tx_reservation \<Rightarrow> nat" where
  "reservation_amount Frames_Reserved r = unat (rv_count r)"
| "reservation_amount Bytes_Reserved r = unat (rv_bytes r)"
| "reservation_amount Frames_Total r = unat (rv_count r)"
| "reservation_amount Bytes_Total r = unat (rv_bytes r)"
| "reservation_amount Pending_Reserved r = (if rv_pending_reserved r then 1 else 0)"
| "reservation_amount (Namespace_Messages net) r = (if rv_net r = net then unat (rv_count r) else 0)"
| "reservation_amount (Namespace_Bytes net) r = (if rv_net r = net then unat (rv_bytes r) else 0)"
| "reservation_amount Data_Frames r = unat (rv_count r)"
| "reservation_amount (Peer_Frames locator) r = (if rv_locator r = locator then unat (rv_count r) else 0)"
| "reservation_amount (Service_Frames service) r = (if rv_service r = service then unat (rv_count r) else 0)"
| "reservation_amount (Binding_Frames portid generation) r =
     (if rv_binding_portid r = portid \<and> rv_binding_generation r = generation then unat (rv_count r) else 0)"
| "reservation_amount _ r = 0"

definition entry_meter :: "meter \<Rightarrow> melodi_tx_queue_entry \<Rightarrow> nat" where
  "entry_meter m e = (if qe_active e then entry_amount m e else 0)"

definition reservation_meter :: "meter \<Rightarrow> melodi_tx_reservation \<Rightarrow> nat" where
  "reservation_meter m r = (if rv_active r then reservation_amount m r else 0)"

definition metered :: "melodi_tx \<Rightarrow> meter \<Rightarrow> nat" where
  "metered tx m = sum_list (map (entry_meter m) (tx_queue tx)) + sum_list (map (reservation_meter m) (tx_reservations tx))"

lemma zero_reservation_inactive [simp]: "\<not> rv_active zero_reservation"
  by (simp add: zero_reservation_def)

lemma meter_zero [simp]: "entry_meter m zero_queue_entry = 0" "reservation_meter m zero_reservation = 0"
  by (simp_all add: entry_meter_def reservation_meter_def)

lemma metered_entry:
  assumes "i < length (tx_queue tx)" "tx_queue tx' = (tx_queue tx)[i := e]" "tx_reservations tx' = tx_reservations tx"
  shows "metered tx' m + entry_meter m (tx_queue tx ! i) = metered tx m + entry_meter m e"
  using sum_list_store [OF assms(1), of "entry_meter m" e] assms(2,3) by (simp add: metered_def)

lemma metered_reservation:
  assumes "i < length (tx_reservations tx)" "tx_queue tx' = tx_queue tx" "tx_reservations tx' = (tx_reservations tx)[i := r]"
  shows "metered tx' m + reservation_meter m (tx_reservations tx ! i) = metered tx m + reservation_meter m r"
  using sum_list_store [OF assms(1), of "reservation_meter m" r] assms(2,3) by (simp add: metered_def)

lemma metered_cong: "tx_queue tx' = tx_queue tx \<Longrightarrow> tx_reservations tx' = tx_reservations tx \<Longrightarrow> metered tx' = metered tx"
  by (simp add: metered_def fun_eq_iff)

lemma metered_ge:
  shows "i < length (tx_queue tx) \<Longrightarrow> entry_meter m (tx_queue tx ! i) \<le> metered tx m"
    and "j < length (tx_reservations tx) \<Longrightarrow> reservation_meter m (tx_reservations tx ! j) \<le> metered tx m"
  using sum_list_slot [of i "tx_queue tx" "entry_meter m"] sum_list_slot [of j "tx_reservations tx" "reservation_meter m"]
  by (simp_all add: metered_def)

lemma metered_frames:
  "metered tx Data_Frames = queue_data_frames tx" "metered tx (Peer_Frames locator) = queue_peer_frames locator tx"
  "metered tx (Service_Frames service) = queue_service_frames service tx"
  "metered tx (Binding_Frames portid generation) = queue_binding_frames portid generation tx"
  by (auto simp: metered_def queue_frames_def entry_meter_def [abs_def] reservation_meter_def [abs_def]
      intro!: arg_cong2 [where f = "(+)"] arg_cong [where f = sum_list])


lemma metered_total:
  "metered tx Frames_Total = metered tx Frames_Queued + metered tx Frames_Reserved"
  "metered tx Bytes_Total = metered tx Bytes_Queued + metered tx Bytes_Reserved"
proof -
  have e: "entry_meter Frames_Reserved = (\<lambda>_. 0)" "reservation_meter Frames_Queued = (\<lambda>_. 0)"
    "entry_meter Bytes_Reserved = (\<lambda>_. 0)" "reservation_meter Bytes_Queued = (\<lambda>_. 0)"
    "entry_meter Frames_Total = entry_meter Frames_Queued" "reservation_meter Frames_Total = reservation_meter Frames_Reserved"
    "entry_meter Bytes_Total = entry_meter Bytes_Queued" "reservation_meter Bytes_Total = reservation_meter Bytes_Reserved"
    by (simp_all add: entry_meter_def reservation_meter_def fun_eq_iff)
  show "metered tx Frames_Total = metered tx Frames_Queued + metered tx Frames_Reserved"
    "metered tx Bytes_Total = metered tx Bytes_Queued + metered tx Bytes_Reserved"
    by (simp_all add: metered_def e)
qed

fun counter :: "melodi_tx \<Rightarrow> meter \<Rightarrow> nat option" where
  "counter tx Frames_Queued = Some (unat (tx_queue_count tx))"
| "counter tx Bytes_Queued = Some (unat (tx_queue_bytes tx))"
| "counter tx Frames_Reserved = Some (unat (tx_reserved_count tx))"
| "counter tx Bytes_Reserved = Some (unat (tx_reserved_bytes tx))"
| "counter tx Pending_Reserved = Some (unat (tx_pending_reserved tx))"
| "counter tx (Namespace_Messages net) = Some (fst (namespace_view tx net))"
| "counter tx (Namespace_Bytes net) = Some (snd (namespace_view tx net))"
| "counter tx _ = None"

fun meter_limit :: "meter \<Rightarrow> nat option" where
  "meter_limit Frames_Total = Some MELODI_TX_QUEUE_LIMIT"
| "meter_limit Bytes_Total = Some 262144"
| "meter_limit (Namespace_Messages net) = Some MELODI_TX_NAMESPACE_LIMIT"
| "meter_limit (Namespace_Bytes net) = Some 524288"
| "meter_limit Data_Frames = Some MELODI_TX_DATA_LIMIT"
| "meter_limit (Peer_Frames locator) = Some MELODI_TX_PER_PEER_LIMIT"
| "meter_limit (Service_Frames service) = Some MELODI_TX_PER_SERVICE_LIMIT"
| "meter_limit (Binding_Frames portid generation) = Some MELODI_TX_PER_BINDING_LIMIT"
| "meter_limit _ = None"

text \<open>What other devices hold of a namespace.\<close>

fun shared :: "(nat \<Rightarrow> nat \<times> nat) \<Rightarrow> meter \<Rightarrow> nat" where
  "shared rest (Namespace_Messages net) = fst (rest net)"
| "shared rest (Namespace_Bytes net) = snd (rest net)"
| "shared rest _ = 0"

definition queue_exact :: "(nat \<Rightarrow> nat \<times> nat) \<Rightarrow> melodi_tx \<Rightarrow> bool" where
  "queue_exact rest tx \<longleftrightarrow> (\<forall>m c. counter tx m = Some c \<longrightarrow> c = shared rest m + metered tx m)"

definition queue_within :: "(nat \<Rightarrow> nat \<times> nat) \<Rightarrow> melodi_tx \<Rightarrow> bool" where
  "queue_within rest tx \<longleftrightarrow> (\<forall>m l. meter_limit m = Some l \<longrightarrow> shared rest m + metered tx m \<le> l)"

definition queue_tables :: "melodi_tx \<Rightarrow> bool" where
  "queue_tables tx \<longleftrightarrow>
     length (tx_queue tx) = MELODI_TX_QUEUE_LIMIT \<and> length (tx_reservations tx) = MELODI_TX_RESERVATION_LIMIT \<and>
     (\<forall>e \<in> set (tx_queue tx). qe_active e \<or> e = zero_queue_entry) \<and>
     (\<forall>r \<in> set (tx_reservations tx). if rv_active r then rv_count r \<noteq> 0 else r = zero_reservation)"

definition namespaces_busy :: "melodi_tx \<Rightarrow> bool" where
  "namespaces_busy tx \<longleftrightarrow> (\<forall>q \<in> set (tx_namespaces tx). nq_messages q \<noteq> 0)"

definition rest_ok :: "(nat \<Rightarrow> nat \<times> nat) \<Rightarrow> bool" where
  "rest_ok rest \<longleftrightarrow> (\<forall>net. fst (rest net) = 0 \<longrightarrow> snd (rest net) = 0)"

text \<open>The books are in order, and the namespaces of the list are in use.\<close>

definition queue_books :: "(nat \<Rightarrow> nat \<times> nat) \<Rightarrow> melodi_tx \<Rightarrow> bool" where
  "queue_books rest tx \<longleftrightarrow> rest_ok rest \<and> queue_tables tx \<and> namespaces_distinct tx \<and> queue_exact rest tx \<and> queue_within rest tx"

definition queue_ok :: "(nat \<Rightarrow> nat \<times> nat) \<Rightarrow> melodi_tx \<Rightarrow> bool" where
  "queue_ok rest tx \<longleftrightarrow> queue_books rest tx \<and> namespaces_busy tx"

lemma exact_step:
  assumes "queue_exact rest tx" "\<And>m. metered tx' m + old m = metered tx m + new m"
    and "\<And>m c'. counter tx' m = Some c' \<Longrightarrow> \<exists>c. counter tx m = Some c \<and> c' + old m = c + new m"
  shows "queue_exact rest tx'"
  unfolding queue_exact_def
proof (intro allI impI)
  fix m c'
  assume "counter tx' m = Some c'"
  then obtain c where c: "counter tx m = Some c" "c' + old m = c + new m" using assms(3) by blast
  then have "c = shared rest m + metered tx m" using assms(1) by (simp add: queue_exact_def)
  then show "c' = shared rest m + metered tx' m" using c(2) assms(2) [of m] by simp
qed

lemma within_less:
  assumes "queue_within rest tx" "\<And>m. meter_limit m \<noteq> None \<Longrightarrow> metered tx' m \<le> metered tx m"
  shows "queue_within rest tx'"
  unfolding queue_within_def
proof (intro allI impI)
  fix m l
  assume l: "meter_limit m = Some l"
  then have "metered tx' m \<le> metered tx m" using assms(2) by simp
  moreover have "shared rest m + metered tx m \<le> l" using assms(1) l by (simp add: queue_within_def)
  ultimately show "shared rest m + metered tx' m \<le> l" by simp
qed

lemma exactD:
  assumes "queue_exact rest tx"
  shows "unat (tx_queue_count tx) = metered tx Frames_Queued" "unat (tx_queue_bytes tx) = metered tx Bytes_Queued"
    "unat (tx_reserved_count tx) = metered tx Frames_Reserved" "unat (tx_reserved_bytes tx) = metered tx Bytes_Reserved"
    "unat (tx_pending_reserved tx) = metered tx Pending_Reserved"
    "fst (namespace_view tx net) = fst (rest net) + metered tx (Namespace_Messages net)"
    "snd (namespace_view tx net) = snd (rest net) + metered tx (Namespace_Bytes net)"
  using assms unfolding queue_exact_def
  by (metis counter.simps(1) shared.simps add_0, metis counter.simps(2) shared.simps add_0,
      metis counter.simps(3) shared.simps add_0, metis counter.simps(4) shared.simps add_0,
      metis counter.simps(5) shared.simps add_0, metis counter.simps(6) shared.simps(1), metis counter.simps(7) shared.simps(2))

lemma withinD:
  assumes "queue_within rest tx"
  shows "metered tx Frames_Total \<le> 128" "metered tx Bytes_Total \<le> 262144"
    "fst (rest net) + metered tx (Namespace_Messages net) \<le> 256" "snd (rest net) + metered tx (Namespace_Bytes net) \<le> 524288"
  using assms unfolding queue_within_def
  by (metis meter_limit.simps(1) shared.simps add_0, metis meter_limit.simps(2) shared.simps add_0,
      metis meter_limit.simps(3) shared.simps(1), metis meter_limit.simps(4) shared.simps(2))


subsection \<open>Removal\<close>

lemma find_slot_map: "find_slot P (map f xs) = find_slot (P \<circ> f) xs"
  by (simp add: find_slot_def takeWhile_map comp_def)

lemma namespace_find_cong:
  "map nq_net (tx_namespaces tx') = map nq_net (tx_namespaces tx) \<Longrightarrow> melodi_namespace_queue_find tx' = melodi_namespace_queue_find tx"
proof
  fix net
  assume eq: "map nq_net (tx_namespaces tx') = map nq_net (tx_namespaces tx)"
  have nets: "find_slot (\<lambda>q. nq_net q = net) xs = find_slot (\<lambda>n. n = net) (map nq_net xs)" for xs
    by (simp add: find_slot_map comp_def)
  show "melodi_namespace_queue_find tx' net = melodi_namespace_queue_find tx net"
    by (simp only: melodi_namespace_queue_find_def nets eq)
qed

lemma namespace_release_find [simp]: "melodi_namespace_queue_find (namespace_release i m b tx) = melodi_namespace_queue_find tx"
  by (rule namespace_find_cong) (auto simp: namespace_release_def Let_def map_update nth_list_update_if intro!: nth_equalityI)

lemma namespace_add_find [simp]: "melodi_namespace_queue_find (namespace_add i m b tx) = melodi_namespace_queue_find tx"
  by (rule namespace_find_cong) (auto simp: namespace_add_def Let_def map_update nth_list_update_if intro!: nth_equalityI)

lemma namespaces_only:
  "tx_namespaces tx' = tx_namespaces tx \<Longrightarrow> melodi_namespace_queue_find tx' = melodi_namespace_queue_find tx"
  "tx_namespaces tx' = tx_namespaces tx \<Longrightarrow> namespace_view tx' = namespace_view tx"
  "tx_namespaces tx' = tx_namespaces tx \<Longrightarrow> namespaces_distinct tx' = namespaces_distinct tx"
  "tx_namespaces tx' = tx_namespaces tx \<Longrightarrow> namespaces_busy tx' = namespaces_busy tx"
  by (simp_all add: melodi_namespace_queue_find_def namespace_view_def namespaces_distinct_def namespaces_busy_def fun_eq_iff split: option.split)

text \<open>The fields of counters, without the namespaces.\<close>

definition same_counters :: "melodi_tx \<Rightarrow> melodi_tx \<Rightarrow> bool" where
  "same_counters tx tx' \<longleftrightarrow>
     tx_queue_count tx' = tx_queue_count tx \<and> tx_queue_bytes tx' = tx_queue_bytes tx \<and>
     tx_reserved_count tx' = tx_reserved_count tx \<and> tx_reserved_bytes tx' = tx_reserved_bytes tx \<and>
     tx_pending_reserved tx' = tx_pending_reserved tx"

lemma same_counters_helpers:
  "same_counters tx (queue_release_turns f p tx)" "same_counters tx (melodi_namespace_queue_put tx i)"
  "same_counters tx (namespace_release i m b tx)" "same_counters tx (namespace_add i m b tx)" "same_counters tx (queue_drop tx)"
  by (simp_all add: same_counters_def queue_release_turns_def melodi_namespace_queue_put_def namespace_release_def
      namespace_add_def queue_drop_def Let_def)

lemma counter_cong:
  assumes "same_counters tx tx'" "namespace_view tx' = namespace_view tx"
  shows "counter tx' m = counter tx m"
  using assms by (cases m) (simp_all add: same_counters_def)

lemma books_cong:
  assumes "queue_books rest tx" "same_counters tx tx'" "namespace_view tx' = namespace_view tx" "namespaces_distinct tx'"
    and "tx_queue tx' = tx_queue tx" "tx_reservations tx' = tx_reservations tx"
  shows "queue_books rest tx'"
  using assms counter_cong [OF assms(2,3)] metered_cong [OF assms(5,6)]
  by (simp add: queue_books_def queue_exact_def queue_within_def queue_tables_def)

lemma queue_ok_cong:
  assumes "queue_ok rest tx" "same_counters tx tx'" "tx_namespaces tx' = tx_namespaces tx"
    and "tx_queue tx' = tx_queue tx" "tx_reservations tx' = tx_reservations tx"
  shows "queue_ok rest tx'"
  using assms books_cong [of rest tx tx'] namespaces_only [OF assms(3)] by (simp add: queue_ok_def queue_books_def)

text \<open>Putting a namespace back keeps the books, and leaves only namespaces in use.\<close>

lemma metered_messages_bytes:
  assumes t: "queue_tables tx" and z: "metered tx (Namespace_Messages net) = 0"
  shows "metered tx (Namespace_Bytes net) = 0"
proof -
  have e: "entry_meter (Namespace_Bytes net) e = 0" if "e \<in> set (tx_queue tx)" for e
  proof -
    have "entry_meter (Namespace_Messages net) e = 0" using z that by (simp add: metered_def)
    then show ?thesis by (simp add: entry_meter_def split: if_splits)
  qed
  have r: "reservation_meter (Namespace_Bytes net) r = 0" if "r \<in> set (tx_reservations tx)" for r
  proof -
    have "reservation_meter (Namespace_Messages net) r = 0" using z that by (simp add: metered_def)
    moreover have "rv_active r \<Longrightarrow> rv_count r \<noteq> 0" using t that by (auto simp: queue_tables_def split: if_splits)
    ultimately show ?thesis by (auto simp: reservation_meter_def unat_eq_zero split: if_splits)
  qed
  show ?thesis using e r by (simp add: metered_def)
qed

lemma view_zero:
  assumes "queue_books rest tx" "fst (namespace_view tx net) = 0"
  shows "snd (namespace_view tx net) = 0"
proof -
  have ex: "queue_exact rest tx" "rest_ok rest" "queue_tables tx" using assms(1) by (simp_all add: queue_books_def)
  have z: "fst (rest net) = 0" "metered tx (Namespace_Messages net) = 0" using assms(2) exactD(6) [OF ex(1), of net] by simp_all
  then show ?thesis using exactD(7) [OF ex(1), of net] metered_messages_bytes [OF ex(3)] ex(2) by (simp add: rest_ok_def)
qed

lemma put_ok:
  assumes b: "queue_books rest tx" and f: "melodi_namespace_queue_find tx net = Some i"
    and busy: "\<And>j. j < length (tx_namespaces tx) \<Longrightarrow> j \<noteq> i \<Longrightarrow> nq_messages (tx_namespaces tx ! j) \<noteq> 0"
  shows "queue_ok rest (melodi_namespace_queue_put tx i)"
proof -
  have d: "namespaces_distinct tx" using b by (simp add: queue_books_def)
  note v = namespace_put_view [OF d f view_zero [OF b]]
  have "queue_books rest (melodi_namespace_queue_put tx i)"
    by (rule books_cong [OF b same_counters_helpers(2) v(2,1)]) simp_all
  moreover have "namespaces_busy (melodi_namespace_queue_put tx i)"
  proof (cases "nq_messages (tx_namespaces tx ! i) = 0")
    case True
    have "nq_messages q \<noteq> 0" if "q \<in> set (take i (tx_namespaces tx))" for q
      using that busy by (auto simp: in_set_conv_nth)
    moreover have "nq_messages q \<noteq> 0" if "q \<in> set (drop (Suc i) (tx_namespaces tx))" for q
      using that busy by (auto simp: in_set_conv_nth)
    ultimately show ?thesis using True by (auto simp: namespaces_busy_def melodi_namespace_queue_put_def)
  next
    case False
    have "nq_messages q \<noteq> 0" if "q \<in> set (tx_namespaces tx)" for q
    proof -
      obtain j where "j < length (tx_namespaces tx)" "q = tx_namespaces tx ! j" using \<open>q \<in> _\<close> by (auto simp: in_set_conv_nth)
      then show ?thesis using busy False by (cases "j = i") simp_all
    qed
    then show ?thesis using False by (simp add: namespaces_busy_def melodi_namespace_queue_put_def)
  qed
  ultimately show ?thesis by (simp add: queue_ok_def)
qed


lemma unat_sub_add: "unat b \<le> unat a \<Longrightarrow> unat (a - b) + unat b = unat (a :: 'a :: len word)"
  by (simp add: unat_sub word_le_nat_alt)

lemma unat_pred_add: "1 \<le> unat a \<Longrightarrow> unat (a - 1) + 1 = unat (a :: 'a :: len word)"
  using unat_sub_add [of 1 a] by simp

lemma remove_books:
  assumes b: "queue_books rest tx" and t: "queue_tables tx'"
    and old: "\<And>m. metered tx' m + old m = metered tx m"
    and f: "melodi_namespace_queue_find tx net = Some ns" and n: "tx_namespaces tx' = tx_namespaces (namespace_release ns messages bytes tx)"
    and on: "\<And>n. old (Namespace_Messages n) = (if n = net then unat messages else 0)"
      "\<And>n. old (Namespace_Bytes n) = (if n = net then unat bytes else 0)"
    and c: "unat (tx_queue_count tx') + old Frames_Queued = unat (tx_queue_count tx)"
      "unat (tx_queue_bytes tx') + old Bytes_Queued = unat (tx_queue_bytes tx)"
      "unat (tx_reserved_count tx') + old Frames_Reserved = unat (tx_reserved_count tx)"
      "unat (tx_reserved_bytes tx') + old Bytes_Reserved = unat (tx_reserved_bytes tx)"
      "unat (tx_pending_reserved tx') + old Pending_Reserved = unat (tx_pending_reserved tx)"
  shows "queue_books rest tx'"
proof -
  have ex: "queue_exact rest tx" and d: "namespaces_distinct tx" and w: "queue_within rest tx" and rest: "rest_ok rest"
    using b by (simp_all add: queue_books_def)
  have le: "unat messages \<le> fst (namespace_view tx net)" "unat bytes \<le> snd (namespace_view tx net)"
    using exactD(6,7) [OF ex, of net] on [of net] old [of "Namespace_Messages net"] old [of "Namespace_Bytes net"] by simp_all
  note v = namespace_release_view [OF d f le]
  have view: "namespace_view tx' = (namespace_view tx)(net := (fst (namespace_view tx net) - unat messages, snd (namespace_view tx net) - unat bytes))"
    using v(2) namespaces_only(2) [OF n] by simp
  have "queue_exact rest tx'"
  proof (rule exact_step [OF ex, where old = old and new = "\<lambda>_. 0"])
    show "metered tx' m + old m = metered tx m + 0" for m using old by simp
    show "\<exists>c. counter tx m = Some c \<and> c' + old m = c + 0" if "counter tx' m = Some c'" for m c'
      using that c on le view by (cases m) auto
  qed
  moreover have "queue_within rest tx'"
    by (rule within_less [OF w]) (use old in \<open>metis le_add1\<close>)
  moreover have "namespaces_distinct tx'" using v(1) namespaces_only(3) [OF n] by simp
  ultimately show ?thesis using t rest by (simp add: queue_books_def)
qed

text \<open>The common end of both removals: the turns are released and the namespace is put back.\<close>

lemma remove_ok:
  assumes b: "queue_books rest tx'" and busy: "namespaces_busy tx" and d: "namespaces_distinct tx"
    and f: "melodi_namespace_queue_find tx net = Some ns" and n: "tx_namespaces tx' = tx_namespaces (namespace_release ns messages bytes tx)"
  shows "queue_ok rest (melodi_namespace_queue_put tx' ns)" "queue_ok rest (melodi_namespace_queue_put (queue_release_turns f p tx') ns)"
proof -
  let ?t = "queue_release_turns f p tx'"
  have ns: "tx_namespaces ?t = tx_namespaces tx'" by simp
  have "namespaces_distinct ?t" using b namespaces_only(3) [OF ns] by (simp add: queue_books_def)
  then have b': "queue_books rest ?t"
    by (rule books_cong [OF b same_counters_helpers(1) namespaces_only(2) [OF ns]]) simp_all
  have f': "melodi_namespace_queue_find tx' net = Some ns" "melodi_namespace_queue_find ?t net = Some ns"
    using f namespaces_only(1) [OF n] namespaces_only(1) [of ?t tx'] by simp_all
  have others: "nq_messages (tx_namespaces tx' ! j) \<noteq> 0" if "j < length (tx_namespaces tx')" "j \<noteq> ns" for j
    using that busy by (simp add: n namespace_release_def Let_def namespaces_busy_def)
  show "queue_ok rest (melodi_namespace_queue_put tx' ns)" by (rule put_ok [OF b f'(1) others])
  show "queue_ok rest (melodi_namespace_queue_put ?t ns)" by (rule put_ok [OF b' f'(2)]) (use others in simp_all)
qed

lemma namespace_of_entry:
  assumes "queue_books rest tx" "1 \<le> metered tx (Namespace_Messages net)"
  obtains ns where "melodi_namespace_queue_find tx net = Some ns"
proof -
  have "fst (namespace_view tx net) \<noteq> 0" using assms exactD(6) [of rest tx net] by (simp add: queue_books_def)
  then show ?thesis using that by (cases "melodi_namespace_queue_find tx net") (simp_all add: namespace_view_def)
qed

lemma tables_clear:
  "queue_tables tx \<Longrightarrow> tx_queue tx' = tx_queue tx \<Longrightarrow> tx_reservations tx' = (tx_reservations tx)[i := zero_reservation] \<Longrightarrow> queue_tables tx'"
  "queue_tables tx \<Longrightarrow> tx_queue tx' = (tx_queue tx)[i := zero_queue_entry] \<Longrightarrow> tx_reservations tx' = tx_reservations tx \<Longrightarrow> queue_tables tx'"
  using set_update_subset_insert [of "tx_reservations tx" i zero_reservation] set_update_subset_insert [of "tx_queue tx" i zero_queue_entry]
  by (auto simp: queue_tables_def)

lemma reservation_remove_ok:
  assumes ok: "queue_ok rest tx" and i: "i < length (tx_reservations tx)" and act: "rv_active (tx_reservations tx ! i)"
  shows "queue_ok rest (melodi_reservation_remove_locked tx i)"
proof -
  let ?r = "tx_reservations tx ! i"
  let ?old = "\<lambda>m. reservation_meter m ?r"
  have b: "queue_books rest tx" and busy: "namespaces_busy tx" using ok by (simp_all add: queue_ok_def)
  have ex: "queue_exact rest tx" and t: "queue_tables tx" and d: "namespaces_distinct tx" using b by (simp_all add: queue_books_def)
  have ge: "?old m \<le> metered tx m" for m by (rule metered_ge(2) [OF i])
  have "rv_count ?r \<noteq> 0" using t i act nth_mem [OF i] by (auto simp: queue_tables_def)
  then have "1 \<le> unat (rv_count ?r)" by (simp add: Suc_le_eq unat_gt_0)
  then have "1 \<le> metered tx (Namespace_Messages (rv_net ?r))"
    using ge [of "Namespace_Messages (rv_net ?r)"] act by (simp add: reservation_meter_def)
  then obtain ns where f: "melodi_namespace_queue_find tx (rv_net ?r) = Some ns" by (rule namespace_of_entry [OF b])
  let ?n = "namespace_release ns (ucast (rv_count ?r)) (rv_bytes ?r) tx"
  let ?tx = "?n\<lparr>tx_reserved_count := tx_reserved_count ?n - rv_count ?r, tx_reserved_bytes := tx_reserved_bytes ?n - rv_bytes ?r,
      tx_pending_reserved := (if rv_pending_reserved ?r then tx_pending_reserved ?n - 1 else tx_pending_reserved ?n),
      tx_reservations := (tx_reservations ?n)[i := zero_reservation]\<rparr>"
  have same: "tx_queue_count ?n = tx_queue_count tx" "tx_queue_bytes ?n = tx_queue_bytes tx" "tx_reserved_count ?n = tx_reserved_count tx"
    "tx_reserved_bytes ?n = tx_reserved_bytes tx" "tx_pending_reserved ?n = tx_pending_reserved tx"
    using same_counters_helpers(3) [of tx ns "ucast (rv_count ?r)" "rv_bytes ?r"] by (simp_all add: same_counters_def)
  have "queue_books rest ?tx"
  proof (rule remove_books [OF b _ _ f, where old = ?old and messages = "ucast (rv_count ?r)" and bytes = "rv_bytes ?r"])
    show "queue_tables ?tx" by (rule tables_clear(1) [OF t]) simp_all
    show "metered ?tx m + ?old m = metered tx m" for m
      using metered_reservation [OF i, of ?tx zero_reservation m] by simp
    show "unat (tx_reserved_count ?tx) + ?old Frames_Reserved = unat (tx_reserved_count tx)"
      "unat (tx_reserved_bytes ?tx) + ?old Bytes_Reserved = unat (tx_reserved_bytes tx)"
      using ge [of Frames_Reserved] ge [of Bytes_Reserved] exactD(3,4) [OF ex] act
      by (simp_all add: reservation_meter_def same unat_sub_add)
    show "unat (tx_pending_reserved ?tx) + ?old Pending_Reserved = unat (tx_pending_reserved tx)"
      using ge [of Pending_Reserved] exactD(5) [OF ex] act unat_pred_add [of "tx_pending_reserved tx"]
      by (cases "rv_pending_reserved ?r") (simp_all add: reservation_meter_def same)
  qed (use act in \<open>simp_all add: reservation_meter_def same unat_ucast_up\<close>)
  moreover have "tx_namespaces ?tx = tx_namespaces ?n" by simp
  ultimately have "queue_ok rest (melodi_namespace_queue_put (queue_release_turns (rv_flow_index ?r) (rv_peer_index ?r) ?tx) ns)"
    by (rule remove_ok(2) [OF _ busy d f])
  then show ?thesis by (simp only: melodi_reservation_remove_locked_def Let_def f option.case)
qed

lemma queue_remove_ok:
  assumes ok: "queue_ok rest tx" and i: "i < length (tx_queue tx)" and act: "qe_active (tx_queue tx ! i)"
  shows "queue_ok rest (melodi_queue_remove_locked tx i)"
proof -
  let ?e = "tx_queue tx ! i"
  let ?old = "\<lambda>m. entry_meter m ?e"
  have b: "queue_books rest tx" and busy: "namespaces_busy tx" using ok by (simp_all add: queue_ok_def)
  have ex: "queue_exact rest tx" and t: "queue_tables tx" and d: "namespaces_distinct tx" using b by (simp_all add: queue_books_def)
  have ge: "?old m \<le> metered tx m" for m by (rule metered_ge(1) [OF i])
  have "1 \<le> metered tx (Namespace_Messages (qe_net ?e))"
    using ge [of "Namespace_Messages (qe_net ?e)"] act by (simp add: entry_meter_def)
  then obtain ns where f: "melodi_namespace_queue_find tx (qe_net ?e) = Some ns" by (rule namespace_of_entry [OF b])
  let ?n = "namespace_release ns 1 (qe_length ?e) tx"
  let ?tx = "?n\<lparr>tx_queue_count := tx_queue_count ?n - 1, tx_queue_bytes := tx_queue_bytes ?n - qe_length ?e,
      tx_queue := (tx_queue ?n)[i := zero_queue_entry]\<rparr>"
  have same: "tx_queue_count ?n = tx_queue_count tx" "tx_queue_bytes ?n = tx_queue_bytes tx" "tx_reserved_count ?n = tx_reserved_count tx"
    "tx_reserved_bytes ?n = tx_reserved_bytes tx" "tx_pending_reserved ?n = tx_pending_reserved tx"
    using same_counters_helpers(3) [of tx ns 1 "qe_length ?e"] by (simp_all add: same_counters_def)
  have "queue_books rest ?tx"
  proof (rule remove_books [OF b _ _ f, where old = ?old and messages = 1 and bytes = "qe_length ?e"])
    show "queue_tables ?tx" by (rule tables_clear(2) [OF t]) simp_all
    show "metered ?tx m + ?old m = metered tx m" for m
      using metered_entry [OF i, of ?tx zero_queue_entry m] by simp
    show "unat (tx_queue_count ?tx) + ?old Frames_Queued = unat (tx_queue_count tx)"
      "unat (tx_queue_bytes ?tx) + ?old Bytes_Queued = unat (tx_queue_bytes tx)"
      using ge [of Frames_Queued] ge [of Bytes_Queued] exactD(1,2) [OF ex] act unat_pred_add [of "tx_queue_count tx"]
      by (simp_all add: entry_meter_def same unat_sub_add)
  qed (use act in \<open>simp_all add: entry_meter_def same\<close>)
  moreover have "tx_namespaces ?tx = tx_namespaces ?n" by simp
  ultimately have "queue_ok rest (melodi_namespace_queue_put ?tx ns)"
    "queue_ok rest (melodi_namespace_queue_put (queue_release_turns (qe_flow_index ?e) (qe_peer_index ?e) ?tx) ns)"
    by (rule remove_ok(1) [OF _ busy d f], rule remove_ok(2) [OF _ busy d f])
  then show ?thesis
    by (cases "qe_control ?e") (simp_all only: melodi_queue_remove_locked_def Let_def f option.case if_True if_False not_True_eq_False not_False_eq_True)
qed


subsection \<open>Changes of flags\<close>

lemma tables_store_entry:
  assumes "queue_tables tx" "tx_queue tx' = (tx_queue tx)[i := e]" "tx_reservations tx' = tx_reservations tx" "qe_active e"
  shows "queue_tables tx'"
  using assms set_update_subset_insert [of "tx_queue tx" i e] by (auto simp: queue_tables_def)

lemma tables_store_reservation:
  assumes "queue_tables tx" "tx_queue tx' = tx_queue tx" "tx_reservations tx' = (tx_reservations tx)[i := r]" "rv_active r" "rv_count r \<noteq> 0"
  shows "queue_tables tx'"
  using assms set_update_subset_insert [of "tx_reservations tx" i r] by (auto simp: queue_tables_def)

lemma queue_ok_meters:
  assumes "queue_ok rest tx" "queue_tables tx'" "metered tx' = metered tx" "same_counters tx tx'" "tx_namespaces tx' = tx_namespaces tx"
  shows "queue_ok rest tx'"
  using assms counter_cong [OF assms(4) namespaces_only(2) [OF assms(5)]] namespaces_only(3,4) [OF assms(5)]
  by (simp add: queue_ok_def queue_books_def queue_exact_def queue_within_def)

lemma store_entry_ok:
  assumes ok: "queue_ok rest tx" and i: "i < length (tx_queue tx)" and act: "qe_active (tx_queue tx ! i)" "qe_active e"
    and same: "\<And>m. entry_amount m e = entry_amount m (tx_queue tx ! i)"
    and tx': "tx_queue tx' = (tx_queue tx)[i := e]" "tx_reservations tx' = tx_reservations tx"
      "same_counters tx tx'" "tx_namespaces tx' = tx_namespaces tx"
  shows "queue_ok rest tx'"
proof (rule queue_ok_meters [OF ok _ _ tx'(3,4)])
  have "queue_tables tx" using ok by (simp add: queue_ok_def queue_books_def)
  then show "queue_tables tx'" by (rule tables_store_entry [OF _ tx'(1,2) act(2)])
  have "entry_meter m e = entry_meter m (tx_queue tx ! i)" for m
    unfolding entry_meter_def same using act by simp
  then have "metered tx' m = metered tx m" for m
    using metered_entry [OF i tx'(1,2), of m] by simp
  then show "metered tx' = metered tx" ..
qed

lemma store_reservation_ok:
  assumes ok: "queue_ok rest tx" and i: "i < length (tx_reservations tx)" and act: "rv_active (tx_reservations tx ! i)" "rv_active r"
    and same: "\<And>m. reservation_amount m r = reservation_amount m (tx_reservations tx ! i)"
    and tx': "tx_queue tx' = tx_queue tx" "tx_reservations tx' = (tx_reservations tx)[i := r]"
      "same_counters tx tx'" "tx_namespaces tx' = tx_namespaces tx"
  shows "queue_ok rest tx'"
proof (rule queue_ok_meters [OF ok _ _ tx'(3,4)])
  have "rv_count (tx_reservations tx ! i) \<noteq> 0"
    using ok act(1) nth_mem [OF i] by (auto simp: queue_ok_def queue_books_def queue_tables_def split: if_splits)
  then have "rv_count r \<noteq> 0" using same [of Frames_Reserved] by (metis reservation_amount.simps(1) unat_eq_zero)
  moreover have "queue_tables tx" using ok by (simp add: queue_ok_def queue_books_def)
  ultimately show "queue_tables tx'" by (intro tables_store_reservation [OF _ tx'(1,2) act(2)])
  have "reservation_meter m r = reservation_meter m (tx_reservations tx ! i)" for m
    unfolding reservation_meter_def same using act by simp
  then have "metered tx' m = metered tx m" for m
    using metered_reservation [OF i tx'(1,2), of m] by simp
  then show "metered tx' = metered tx" ..
qed

lemma entry_flags_amount [simp]:
  "entry_amount m (e\<lparr>qe_in_flight := b\<rparr>) = entry_amount m e"
  "entry_amount m (e\<lparr>qe_in_flight := b, qe_defer_until_ms := t\<rparr>) = entry_amount m e"
  "entry_amount m (e\<lparr>qe_defer_until_ms := t, qe_in_flight := b\<rparr>) = entry_amount m e"
  "entry_amount m (e\<lparr>qe_cancelled := b, qe_terminal_notified := c\<rparr>) = entry_amount m e"
  by (cases m; simp)+

lemma reservation_flags_amount [simp]:
  "reservation_amount m (r\<lparr>rv_tag := t, rv_sealed := b\<rparr>) = reservation_amount m r"
  "reservation_amount m (r\<lparr>rv_claimed := b\<rparr>) = reservation_amount m r"
  by (cases m; simp)+

lemma reservation_findD:
  assumes "melodi_reservation_find_locked tx rid = Some i"
  shows "i < length (tx_reservations tx)" "rv_active (tx_reservations tx ! i)" "rv_id (tx_reservations tx ! i) = rid"
  using assms by (auto simp: melodi_reservation_find_locked_def find_slot_Some_iff)

lemma reservation_update_ok:
  assumes ok: "queue_ok rest tx" and f: "melodi_reservation_find_locked tx rid = Some i" and r: "rv_active r"
    and same: "\<And>m. reservation_amount m r = reservation_amount m (tx_reservations tx ! i)"
  shows "queue_ok rest (tx\<lparr>tx_reservations := (tx_reservations tx)[i := r]\<rparr>)"
  by (rule store_reservation_ok [OF ok reservation_findD(1,2) [OF f] r same]) (simp_all add: same_counters_def)

lemma reservation_seal_ok:
  assumes "queue_ok rest tx"
  shows "queue_ok rest (fst (melodi_queue_reservation_seal hash tx rid data))"
proof (cases "melodi_reservation_find_locked tx rid")
  case (Some i)
  have "queue_ok rest (tx\<lparr>tx_reservations := (tx_reservations tx)[i := (tx_reservations tx ! i)\<lparr>rv_tag := hash data, rv_sealed := True\<rparr>]\<rparr>)"
    by (rule reservation_update_ok [OF assms Some]) (simp_all add: reservation_findD [OF Some])
  then show ?thesis using assms Some by (simp add: melodi_queue_reservation_seal_def Let_def)
qed (use assms in \<open>simp add: melodi_queue_reservation_seal_def\<close>)

lemma reservation_claim_ok:
  assumes "queue_ok rest tx"
  shows "queue_ok rest (fst (melodi_queue_reservation_claim hash tx rid data))"
proof (cases "melodi_reservation_find_locked tx rid")
  case (Some i)
  have "queue_ok rest (tx\<lparr>tx_reservations := (tx_reservations tx)[i := (tx_reservations tx ! i)\<lparr>rv_claimed := True\<rparr>]\<rparr>)"
    by (rule reservation_update_ok [OF assms Some]) (simp_all add: reservation_findD [OF Some])
  then show ?thesis using assms Some by (simp add: melodi_queue_reservation_claim_def Let_def)
qed (use assms in \<open>simp add: melodi_queue_reservation_claim_def\<close>)

lemma reservation_cancel_ok:
  assumes "queue_ok rest tx"
  shows "queue_ok rest (fst (melodi_queue_reservation_cancel tx rid error notify))"
proof (cases "melodi_reservation_find_locked tx rid")
  case (Some i)
  then show ?thesis
    using reservation_remove_ok [OF assms reservation_findD(1,2) [OF Some]] by (simp add: melodi_queue_reservation_cancel_def)
qed (use assms in \<open>simp add: melodi_queue_reservation_cancel_def\<close>)

lemma reservation_pending_ok:
  assumes ok: "queue_ok rest tx"
  shows "queue_ok rest (fst (melodi_queue_reservation_pending tx rid))"
proof (cases "melodi_reservation_find_locked tx rid")
  case (Some i)
  note i = reservation_findD [OF Some]
  let ?r = "tx_reservations tx ! i"
  let ?tx = "tx\<lparr>tx_reservations := (tx_reservations tx)[i := ?r\<lparr>rv_pending_reserved := False\<rparr>], tx_pending_reserved := tx_pending_reserved tx - 1\<rparr>"
  show ?thesis
  proof (cases "rv_pending_reserved ?r")
    case True
    have b: "queue_exact rest tx" "queue_tables tx" "queue_within rest tx" "rest_ok rest" "namespaces_distinct tx" "namespaces_busy tx"
      using ok by (simp_all add: queue_ok_def queue_books_def)
    let ?old = "\<lambda>m. if m = Pending_Reserved then 1 else 0"
    have am: "reservation_amount m (?r\<lparr>rv_pending_reserved := False\<rparr>) + ?old m = reservation_amount m ?r" for m
      using True by (cases m) simp_all
    have met: "metered ?tx m + ?old m = metered tx m" for m
      using metered_reservation [OF i(1), of ?tx "?r\<lparr>rv_pending_reserved := False\<rparr>" m] am [of m] i(2) by (simp add: reservation_meter_def)
    have one: "unat (tx_pending_reserved tx - 1) + 1 = unat (tx_pending_reserved tx)"
      using met [of Pending_Reserved] exactD(5) [OF b(1)] by (intro unat_pred_add) simp
    have ns: "tx_namespaces ?tx = tx_namespaces tx" by simp
    have "queue_exact rest ?tx"
    proof (rule exact_step [OF b(1), where old = ?old and new = "\<lambda>_. 0"])
      show "\<exists>c. counter tx m = Some c \<and> c' + ?old m = c + 0" if "counter ?tx m = Some c'" for m c'
        using that one namespaces_only(2) [OF ns] by (cases m) auto
    qed (use met in simp)
    moreover have "queue_within rest ?tx"
      by (rule within_less [OF b(3)]) (use met in \<open>metis le_add1\<close>)
    moreover have "rv_count ?r \<noteq> 0" using b(2) i nth_mem [OF i(1)] by (auto simp: queue_tables_def split: if_splits)
    then have "queue_tables ?tx" using i by (intro tables_store_reservation [OF b(2), where i = i and r = "?r\<lparr>rv_pending_reserved := False\<rparr>"]) simp_all
    ultimately have "queue_ok rest ?tx"
      using b namespaces_only(3,4) [OF ns] by (simp add: queue_ok_def queue_books_def)
    then show ?thesis using Some True by (simp add: melodi_queue_reservation_pending_def Let_def)
  qed (use ok Some in \<open>simp add: melodi_queue_reservation_pending_def Let_def\<close>)
qed (use ok in \<open>simp add: melodi_queue_reservation_pending_def\<close>)


subsection \<open>Admission\<close>

text \<open>What a request adds to the meters: frames and bytes of one namespace, and data of one flow.\<close>

definition request_meters ::
  "nat \<Rightarrow> u32 \<Rightarrow> melodi_queue_request \<Rightarrow> nat \<Rightarrow> nat \<Rightarrow> (meter \<Rightarrow> nat) \<Rightarrow> bool" where
  "request_meters net locator request count bytes new \<longleftrightarrow>
     new Frames_Total = count \<and> new Bytes_Total = bytes \<and>
     (\<forall>n. new (Namespace_Messages n) = (if n = net then count else 0)) \<and>
     (\<forall>n. new (Namespace_Bytes n) = (if n = net then bytes else 0)) \<and>
     new Data_Frames = (if rq_control request then 0 else count) \<and>
     (\<forall>l. new (Peer_Frames l) = (if \<not> rq_control request \<and> l = locator then count else 0)) \<and>
     (\<forall>s. new (Service_Frames s) = (if \<not> rq_control request \<and> s = rq_service request then count else 0)) \<and>
     (\<forall>p g. new (Binding_Frames p g) =
        (if \<not> rq_control request \<and> p = rq_binding_portid request \<and> g = rq_binding_generation request then count else 0))"

lemma fitsD:
  assumes "queue_fits tx ns locator request count bytes"
  shows "unat count \<le> 128" "unat bytes \<le> 262144" "unat (tx_queue_count tx) + unat (tx_reserved_count tx) + unat count \<le> 128"
    "tx_queue_bytes tx + tx_reserved_bytes tx \<le> MELODI_TX_BYTE_LIMIT - bytes"
    "unat (nq_messages (tx_namespaces tx ! ns)) + unat count \<le> 256"
    "nq_bytes (tx_namespaces tx ! ns) \<le> MELODI_TX_NAMESPACE_BYTE_LIMIT - bytes"
    "\<not> rq_control request \<Longrightarrow> queue_data_frames tx + unat count \<le> 112"
    "\<not> rq_control request \<Longrightarrow> queue_peer_frames locator tx + unat count \<le> 32"
    "\<not> rq_control request \<Longrightarrow> queue_service_frames (rq_service request) tx + unat count \<le> 32"
    "\<not> rq_control request \<Longrightarrow> queue_binding_frames (rq_binding_portid request) (rq_binding_generation request) tx + unat count \<le> 32"
  using assms unfolding queue_fits_def de_Morgan_disj de_Morgan_conj not_less by (auto simp: word_le_nat_alt)

lemma fits_limits:
  assumes b: "queue_books rest tx" and f: "melodi_namespace_queue_find tx net = Some ns"
    and fits: "queue_fits tx ns locator request count bytes" and new: "request_meters net locator request (unat count) (unat bytes) new"
    and l: "meter_limit m = Some l"
  shows "shared rest m + metered tx m + new m \<le> l"
proof -
  have ex: "queue_exact rest tx" and w: "queue_within rest tx" using b by (simp_all add: queue_books_def)
  have keep: "shared rest m + metered tx m \<le> l" using w l by (simp add: queue_within_def)
  note total = metered_total [of tx] withinD(1,2) [OF w]
  have view: "namespace_view tx net = (unat (nq_messages (tx_namespaces tx ! ns)), unat (nq_bytes (tx_namespaces tx ! ns)))"
    using f by (simp add: namespace_view_def)
  note fit = fitsD [OF fits] and small = fitsD(1,2) [OF fits]
  show ?thesis
  proof (cases m)
    case Frames_Total
    then show ?thesis using l fit(3) new total exactD(1,3) [OF ex] by (simp add: request_meters_def)
  next
    case Bytes_Total
    have "unat (tx_queue_bytes tx) + unat (tx_reserved_bytes tx) \<le> 262144" using total exactD(2,4) [OF ex] by simp
    then have sum: "unat (tx_queue_bytes tx + tx_reserved_bytes tx) = unat (tx_queue_bytes tx) + unat (tx_reserved_bytes tx)"
      by (intro unat_add_lem [THEN iffD1]) simp
    have "unat (tx_queue_bytes tx) + unat (tx_reserved_bytes tx) \<le> 262144 - unat bytes"
      using fit(4) sum small by (simp add: word_le_nat_alt unat_sub)
    then show ?thesis using Bytes_Total l new small total exactD(2,4) [OF ex] by (simp add: request_meters_def)
  next
    case (Namespace_Messages n)
    then show ?thesis
      using keep l fit(5) new view exactD(6) [OF ex, of net] by (cases "n = net") (simp_all add: request_meters_def)
  next
    case (Namespace_Bytes n)
    have "unat (nq_bytes (tx_namespaces tx ! ns)) \<le> 524288 - unat bytes" using fit(6) small by (simp add: word_le_nat_alt unat_sub)
    then show ?thesis
      using Namespace_Bytes keep l new small view exactD(7) [OF ex, of net] by (cases "n = net") (simp_all add: request_meters_def)
  next
    case Data_Frames
    then show ?thesis using keep l fit(7) new metered_frames(1) [of tx] by (cases "rq_control request") (simp_all add: request_meters_def)
  next
    case (Peer_Frames x)
    then show ?thesis using keep l fit(8) new metered_frames(2) [of tx x]
      by (cases "\<not> rq_control request \<and> x = locator") (auto simp: request_meters_def)
  next
    case (Service_Frames x)
    then show ?thesis using keep l fit(9) new metered_frames(3) [of tx x]
      by (cases "\<not> rq_control request \<and> x = rq_service request") (auto simp: request_meters_def)
  next
    case (Binding_Frames p g)
    then show ?thesis using keep l fit(10) new metered_frames(4) [of tx p g]
      by (cases "\<not> rq_control request \<and> p = rq_binding_portid request \<and> g = rq_binding_generation request")
        (auto simp: request_meters_def)
  qed (use l in simp_all)
qed

lemma add_books:
  assumes b: "queue_books rest tx" and t: "queue_tables tx'"
    and met: "\<And>m. metered tx' m = metered tx m + new m"
    and f: "melodi_namespace_queue_find tx net = Some ns" and n: "tx_namespaces tx' = tx_namespaces (namespace_add ns messages bytes tx)"
    and on: "\<And>n. new (Namespace_Messages n) = (if n = net then unat messages else 0)"
      "\<And>n. new (Namespace_Bytes n) = (if n = net then unat bytes else 0)"
    and c: "unat (tx_queue_count tx') = unat (tx_queue_count tx) + new Frames_Queued"
      "unat (tx_queue_bytes tx') = unat (tx_queue_bytes tx) + new Bytes_Queued"
      "unat (tx_reserved_count tx') = unat (tx_reserved_count tx) + new Frames_Reserved"
      "unat (tx_reserved_bytes tx') = unat (tx_reserved_bytes tx) + new Bytes_Reserved"
      "unat (tx_pending_reserved tx') = unat (tx_pending_reserved tx) + new Pending_Reserved"
    and lim: "\<And>m l. meter_limit m = Some l \<Longrightarrow> shared rest m + metered tx m + new m \<le> l"
  shows "queue_books rest tx'"
proof -
  have ex: "queue_exact rest tx" and d: "namespaces_distinct tx" and rest: "rest_ok rest" using b by (simp_all add: queue_books_def)
  have le: "fst (namespace_view tx net) + unat messages < 2 ^ 32" "snd (namespace_view tx net) + unat bytes < 2 ^ 32"
    using exactD(6,7) [OF ex, of net] lim [of "Namespace_Messages net"] lim [of "Namespace_Bytes net"] on [of net] by simp_all
  note v = namespace_add_view [OF d f le]
  have view: "namespace_view tx' = (namespace_view tx)(net := (fst (namespace_view tx net) + unat messages, snd (namespace_view tx net) + unat bytes))"
    using v(2) namespaces_only(2) [OF n] by simp
  have "queue_exact rest tx'"
  proof (rule exact_step [OF ex, where old = "\<lambda>_. 0" and new = new])
    show "metered tx' m + 0 = metered tx m + new m" for m using met by simp
    show "\<exists>c. counter tx m = Some c \<and> c' + 0 = c + new m" if "counter tx' m = Some c'" for m c'
      using that c on view by (cases m) auto
  qed
  moreover have "queue_within rest tx'" unfolding queue_within_def met using lim by (simp add: add.assoc)
  moreover have "namespaces_distinct tx'" using v(1) namespaces_only(3) [OF n] by simp
  ultimately show ?thesis using t rest by (simp add: queue_books_def)
qed

lemma add_ok:
  assumes b: "queue_books rest tx'" and d: "namespaces_distinct tx" and f: "melodi_namespace_queue_find tx net = Some ns"
    and n: "tx_namespaces tx' = tx_namespaces (namespace_add ns messages bytes tx)"
    and others: "\<And>j. j < length (tx_namespaces tx) \<Longrightarrow> j \<noteq> ns \<Longrightarrow> nq_messages (tx_namespaces tx ! j) \<noteq> 0"
    and pos: "1 \<le> metered tx' (Namespace_Messages net)"
  shows "queue_ok rest tx'"
proof -
  have ns: "ns < length (tx_namespaces tx)" using namespace_find_iff [OF d] f by simp
  have f': "melodi_namespace_queue_find tx' net = Some ns" using f namespaces_only(1) [OF n] by simp
  have "1 \<le> fst (namespace_view tx' net)" using pos exactD(6) [of rest tx' net] b by (simp add: queue_books_def)
  then have "nq_messages (tx_namespaces tx' ! ns) \<noteq> 0" using f' by (auto simp: namespace_view_def)
  moreover have "nq_messages (tx_namespaces tx' ! j) \<noteq> 0" if "j < length (tx_namespaces tx')" "j \<noteq> ns" for j
    using that others by (simp add: n namespace_add_def Let_def)
  ultimately have "nq_messages (tx_namespaces tx' ! j) \<noteq> 0" if "j < length (tx_namespaces tx')" for j
    using that by (cases "j = ns") simp_all
  then have "namespaces_busy tx'" unfolding namespaces_busy_def by (metis in_set_conv_nth)
  then show ?thesis using b by (simp add: queue_ok_def)
qed

text \<open>The namespace found for an admission: the books still hold, and only it may be unused.\<close>

lemma capacity_books:
  assumes ok: "queue_ok rest tx" and cap: "melodi_queue_capacity_locked memory tx net locator request count bytes = (tx', Some ns, result)"
  shows "queue_books rest tx'" "melodi_namespace_queue_find tx' net = Some ns" "tx_queue tx' = tx_queue tx" "tx_reservations tx' = tx_reservations tx"
    "\<And>j. j < length (tx_namespaces tx') \<Longrightarrow> j \<noteq> ns \<Longrightarrow> nq_messages (tx_namespaces tx' ! j) \<noteq> 0"
    "result = Inr () \<Longrightarrow> queue_fits tx' ns locator request count bytes" "tx_reservation_sequence tx' = tx_reservation_sequence tx"
proof -
  have get: "melodi_namespace_queue_get memory tx net = (tx', Some ns)"
    and res: "result = Inr () \<Longrightarrow> queue_fits tx' ns locator request count bytes"
    using cap by (auto simp: melodi_queue_capacity_locked_def split: prod.splits option.splits if_splits)
  have b: "queue_books rest tx" "namespaces_busy tx" using ok by (simp_all add: queue_ok_def)
  have d: "namespaces_distinct tx" using b(1) by (simp add: queue_books_def)
  note v = namespace_get_view [OF d get]
  have same: "tx_queue tx' = tx_queue tx" "tx_reservations tx' = tx_reservations tx" "same_counters tx tx'"
      "tx_reservation_sequence tx' = tx_reservation_sequence tx"
    using get by (auto simp: melodi_namespace_queue_get_def same_counters_def split: option.splits if_splits)
  show "queue_books rest tx'" by (rule books_cong [OF b(1) same(3) v(2,1) same(1,2)])
  show "melodi_namespace_queue_find tx' net = Some ns" by (rule v(3))
  show "tx_queue tx' = tx_queue tx" "tx_reservations tx' = tx_reservations tx" "tx_reservation_sequence tx' = tx_reservation_sequence tx"
    using same by simp_all
  show "nq_messages (tx_namespaces tx' ! j) \<noteq> 0" if "j < length (tx_namespaces tx')" "j \<noteq> ns" for j
    using get that b(2)
    by (auto simp: melodi_namespace_queue_get_def namespaces_busy_def nth_append split: option.splits if_splits)
  show "result = Inr () \<Longrightarrow> queue_fits tx' ns locator request count bytes" by (rule res)
qed

lemma capacity_namespace:
  assumes "melodi_queue_capacity_locked memory tx net locator request count bytes = (tx', namespace, result)"
  shows "namespace = None \<Longrightarrow> tx' = tx \<and> result = Inl ENOMEM" "result = Inr () \<Longrightarrow> namespace \<noteq> None"
proof -
  show "namespace = None \<Longrightarrow> tx' = tx \<and> result = Inl ENOMEM"
    using assms by (auto simp: melodi_queue_capacity_locked_def melodi_namespace_queue_get_def split: prod.splits option.splits if_splits)
  then show "result = Inr () \<Longrightarrow> namespace \<noteq> None" by auto
qed

lemma capacity_put_ok:
  assumes ok: "queue_ok rest tx" and cap: "melodi_queue_capacity_locked memory tx net locator request count bytes = (tx', namespace, result)"
    and tx'': "same_counters tx' tx''" "tx_namespaces tx'' = tx_namespaces tx'" "tx_queue tx'' = tx_queue tx'" "tx_reservations tx'' = tx_reservations tx'"
  shows "queue_ok rest (queue_put_namespace tx'' namespace)"
proof (cases namespace)
  case None
  then have "tx' = tx" using capacity_namespace(1) [OF cap] by simp
  then show ?thesis using None ok queue_ok_cong [OF ok, of tx''] tx'' by (simp add: queue_put_namespace_def)
next
  case (Some ns)
  note c = capacity_books [OF ok cap [unfolded Some]]
  have "namespaces_distinct tx''" using c(1) namespaces_only(3) [OF tx''(2)] by (simp add: queue_books_def)
  then have "queue_books rest tx''" by (rule books_cong [OF c(1) tx''(1) namespaces_only(2) [OF tx''(2)] _ tx''(3,4)])
  moreover have "melodi_namespace_queue_find tx'' net = Some ns" using c(2) namespaces_only(1) [OF tx''(2)] by simp
  ultimately have "queue_ok rest (melodi_namespace_queue_put tx'' ns)"
    by (rule put_ok) (use c(5) tx''(2) in simp)
  then show ?thesis using Some by (simp add: queue_put_namespace_def)
qed


lemma turns_keep [simp]:
  "tx_namespaces (queue_open_turns locator request peer flow tx) = tx_namespaces tx"
  "tx_queue (queue_open_turns locator request peer flow tx) = tx_queue tx"
  "tx_reservations (queue_open_turns locator request peer flow tx) = tx_reservations tx"
  "tx_reservation_sequence (queue_open_turns locator request peer flow tx) = tx_reservation_sequence tx"
  "tx_queue_sequence (queue_open_turns locator request peer flow tx) = tx_queue_sequence tx"
  "tx_group_sequence (queue_open_turns locator request peer flow tx) = tx_group_sequence tx"
  "tx_queue_count (queue_open_turns locator request peer flow tx) = tx_queue_count tx"
  "tx_queue_bytes (queue_open_turns locator request peer flow tx) = tx_queue_bytes tx"
  "tx_reserved_count (queue_open_turns locator request peer flow tx) = tx_reserved_count tx"
  "tx_reserved_bytes (queue_open_turns locator request peer flow tx) = tx_reserved_bytes tx"
  "tx_pending_reserved (queue_open_turns locator request peer flow tx) = tx_pending_reserved tx"
  by (simp_all add: queue_open_turns_def Let_def)

lemma undo_turns_keep:
  "tx_namespaces (queue_undo_turns peer flow tx) = tx_namespaces tx" "tx_queue (queue_undo_turns peer flow tx) = tx_queue tx"
  "tx_reservations (queue_undo_turns peer flow tx) = tx_reservations tx" "same_counters tx (queue_undo_turns peer flow tx)"
  by (simp_all add: queue_undo_turns_def Let_def same_counters_def)

lemma unat_add_small: "unat a + unat b < 2 ^ LENGTH('a) \<Longrightarrow> unat (a + b :: 'a :: len word) = unat a + unat b"
  by (simp add: unat_add_lem [THEN iffD1])

lemma namespace_add_fields [simp]:
  "tx_queue_count (namespace_add i m b tx) = tx_queue_count tx" "tx_queue_bytes (namespace_add i m b tx) = tx_queue_bytes tx"
  "tx_reserved_count (namespace_add i m b tx) = tx_reserved_count tx" "tx_reserved_bytes (namespace_add i m b tx) = tx_reserved_bytes tx"
  "tx_pending_reserved (namespace_add i m b tx) = tx_pending_reserved tx" "tx_queue_sequence (namespace_add i m b tx) = tx_queue_sequence tx"
  by (simp_all add: namespace_add_def Let_def)

text \<open>A reservation enters a free slot of the table.\<close>

lemma reserve_store_ok:
  assumes b: "queue_books rest tx" and f: "melodi_namespace_queue_find tx net = Some ns"
    and others: "\<And>j. j < length (tx_namespaces tx) \<Longrightarrow> j \<noteq> ns \<Longrightarrow> nq_messages (tx_namespaces tx ! j) \<noteq> 0"
    and fits: "queue_fits tx ns locator request count bytes" and data: "\<not> rq_control request" and count: "count \<noteq> 0"
    and slot: "slot < length (tx_reservations tx)" "\<not> rv_active (tx_reservations tx ! slot)"
    and r: "rv_active r" "rv_count r = count" "rv_bytes r = bytes" "rv_net r = net" "rv_locator r = locator"
      "rv_service r = rq_service request" "rv_binding_portid r = rq_binding_portid request"
      "rv_binding_generation r = rq_binding_generation request"
    and pend: "rv_pending_reserved r \<Longrightarrow> unat (tx_pending_reserved tx) < 32"
    and tx': "tx_queue tx' = tx_queue tx" "tx_reservations tx' = (tx_reservations tx)[slot := r]"
      "tx_namespaces tx' = tx_namespaces (namespace_add ns (ucast count) bytes tx)"
      "tx_queue_count tx' = tx_queue_count tx" "tx_queue_bytes tx' = tx_queue_bytes tx"
      "tx_reserved_count tx' = tx_reserved_count tx + count" "tx_reserved_bytes tx' = tx_reserved_bytes tx + bytes"
      "tx_pending_reserved tx' = (if rv_pending_reserved r then tx_pending_reserved tx + 1 else tx_pending_reserved tx)"
  shows "queue_ok rest tx'"
proof -
  let ?new = "\<lambda>m. reservation_meter m r"
  have t: "queue_tables tx" and w: "queue_within rest tx" and ex: "queue_exact rest tx" and d: "namespaces_distinct tx"
    using b by (simp_all add: queue_books_def)
  have new: "request_meters net locator request (unat count) (unat bytes) ?new"
    using r data by (simp add: request_meters_def reservation_meter_def eq_commute)
  have met: "metered tx' m = metered tx m + ?new m" for m
    using metered_reservation [OF slot(1) tx'(1,2), of m] slot(2) by (simp add: reservation_meter_def)
  have lim: "shared rest m + metered tx m + ?new m \<le> l" if "meter_limit m = Some l" for m l
    by (rule fits_limits [OF b f fits new that])
  have tot: "metered tx Frames_Reserved + unat count \<le> 128" "metered tx Bytes_Reserved + unat bytes \<le> 262144"
    using lim [of Frames_Total] lim [of Bytes_Total] metered_total [of tx] r by (simp_all add: reservation_meter_def)
  have "queue_books rest tx'"
  proof (rule add_books [OF b _ met f tx'(3) _ _ _ _ _ _ _ lim])
    show "queue_tables tx'" by (rule tables_store_reservation [OF t tx'(1,2) r(1)]) (simp add: r count)
    show "unat (tx_reserved_count tx') = unat (tx_reserved_count tx) + ?new Frames_Reserved"
      using tot(1) exactD(3) [OF ex] r by (simp add: tx' reservation_meter_def unat_add_small)
    show "unat (tx_reserved_bytes tx') = unat (tx_reserved_bytes tx) + ?new Bytes_Reserved"
      using tot(2) exactD(4) [OF ex] r by (simp add: tx' reservation_meter_def unat_add_small)
    show "unat (tx_pending_reserved tx') = unat (tx_pending_reserved tx) + ?new Pending_Reserved"
      using pend r unat_add_small [of "tx_pending_reserved tx" 1] by (auto simp: tx' reservation_meter_def)
  qed (use r in \<open>simp_all add: tx' reservation_meter_def unat_ucast_up\<close>)
  moreover have "1 \<le> ?new (Namespace_Messages net)" using r count by (simp add: reservation_meter_def Suc_le_eq unat_gt_0)
  then have "1 \<le> metered tx' (Namespace_Messages net)" by (simp add: met)
  ultimately show ?thesis by (intro add_ok [OF _ d f tx'(3) others])
qed


text \<open>The whole of \<open>melodi_queue_reserve\<close>: every refusal gives a namespace it opened back, the success keeps the books.\<close>

lemma reserve_success_ok:
  assumes ok: "queue_ok rest tx" and slot: "find_slot (\<lambda>r. \<not> rv_active r) (tx_reservations tx) = Some slot"
    and cap: "melodi_queue_capacity_locked memory tx net locator request count bytes = (tx1, Some ns, Inr ())"
    and args: "count \<noteq> 0" "\<not> rq_control request" and pend: "reliable \<Longrightarrow> unat (tx_pending_reserved tx1) < 32"
    and r: "r = reservation_of now_ms net locator request count bytes logical_length cookie reliable rid p f (tx_reservations tx1 ! slot)"
  shows "queue_ok rest (namespace_add ns (ucast count) bytes ((queue_open_turns locator request peer flow tx1)
    \<lparr>tx_reservation_sequence := rid, tx_reservations := (tx_reservations tx1)[slot := r],
      tx_reserved_count := tx_reserved_count tx1 + count, tx_reserved_bytes := tx_reserved_bytes tx1 + bytes,
      tx_pending_reserved := (if reliable then tx_pending_reserved tx1 + 1 else tx_pending_reserved tx1)\<rparr>))"
proof -
  note c = capacity_books [OF ok cap]
  have s: "slot < length (tx_reservations tx1)" "\<not> rv_active (tx_reservations tx1 ! slot)"
    using find_slot_lessD [OF slot] c(4) by simp_all
  show ?thesis
    by (rule reserve_store_ok [OF c(1,2,5) c(6) [OF refl] args(2,1) s, where r = r])
      (use pend in \<open>simp_all add: r reservation_of_def namespace_add_def Let_def\<close>)
qed

lemma reserve_ok:
  assumes ok: "queue_ok rest tx"
  shows "queue_ok rest (fst (melodi_queue_reserve memory now_ms tx net locator request count bytes logical_length cookie reliable active_pending))"
proof (cases "count = 0 \<or> bytes = 0 \<or> rq_control request \<or> rq_ttl_ms request = 0 \<or> rq_reliable request \<noteq> reliable \<or>
    rq_ttl_ms request > MELODI_TTL_DEFAULT_MS \<or> now_ms > QUEUE_U64_MAX - ucast (rq_ttl_ms request) \<or> tx_queue_stopping tx \<or>
    (reliable \<and> unat active_pending + unat (tx_pending_reserved tx) \<ge> MELODI_PENDING_LIMIT) \<or>
    find_slot (\<lambda>r. \<not> rv_active r) (tx_reservations tx) = None")
  case True
  then have "fst (melodi_queue_reserve memory now_ms tx net locator request count bytes logical_length cookie reliable active_pending) = tx"
    unfolding melodi_queue_reserve_def by (auto simp del: not_less)
  then show ?thesis using ok by simp
next
  case False
  then obtain slot where slot: "find_slot (\<lambda>r. \<not> rv_active r) (tx_reservations tx) = Some slot"
    and args: "count \<noteq> 0" "\<not> rq_control request" and g: "bytes \<noteq> 0" "rq_ttl_ms request \<noteq> 0" "rq_reliable request = reliable"
      "\<not> rq_ttl_ms request > MELODI_TTL_DEFAULT_MS" "\<not> now_ms > QUEUE_U64_MAX - ucast (rq_ttl_ms request)" "\<not> tx_queue_stopping tx"
      "\<not> (reliable \<and> unat active_pending + unat (tx_pending_reserved tx) \<ge> MELODI_PENDING_LIMIT)"
    by auto
  obtain tx1 namespace result where cap: "melodi_queue_capacity_locked memory tx net locator request count bytes = (tx1, namespace, result)"
    by (metis prod_cases3)
  have put: "queue_ok rest (queue_put_namespace tx1 namespace)" "\<And>p f. queue_ok rest (queue_put_namespace (queue_undo_turns p f tx1) namespace)"
    by (rule capacity_put_ok [OF ok cap]; simp add: same_counters_def undo_turns_keep undo_turns_keep(4) [unfolded same_counters_def])+
  have p: "tx_pending_reserved tx1 = tx_pending_reserved tx"
    using cap by (auto simp: melodi_queue_capacity_locked_def melodi_namespace_queue_get_def split: prod.splits option.splits if_splits)
  show ?thesis
  proof (cases result)
    case (Inl error)
    then show ?thesis unfolding melodi_queue_reserve_def using args g slot cap put(1) by (simp del: not_less de_Morgan_conj)
  next
    case (Inr u)
    then obtain ns where ns: "namespace = Some ns" using capacity_namespace(2) [OF cap] by auto
    have cap': "melodi_queue_capacity_locked memory tx net locator request count bytes = (tx1, Some ns, Inr ())"
      using cap ns Inr by simp
    have pend: "unat (tx_pending_reserved tx1) < 32" if reliable using that g(7) p by simp
    have new: "queue_ok rest (namespace_add ns (ucast count) bytes ((queue_open_turns locator request peer flow tx1)
      \<lparr>tx_reservation_sequence := rid, tx_reservations := (tx_reservations tx1)[slot := reservation_of now_ms net locator request count
         bytes logical_length cookie reliable rid i j (tx_reservations tx1 ! slot)],
        tx_reserved_count := tx_reserved_count tx1 + count, tx_reserved_bytes := tx_reserved_bytes tx1 + bytes,
        tx_pending_reserved := (if reliable then tx_pending_reserved tx1 + 1 else tx_pending_reserved tx1)\<rparr>))" for peer flow rid i j
      by (rule reserve_success_ok [OF ok slot cap' args pend refl])
    show ?thesis
      unfolding melodi_queue_reserve_def Let_def turns_keep
      using args g slot cap' put new ns
      by (cases reliable; simp del: not_less de_Morgan_conj split: sum.split)
  qed
qed

end
