(* ===== verification/Queue_Steps.thy ===== *)
theory Queue_Steps
  imports Queue_Accounting
begin

text \<open>
  The accounting of the transmit queue through the operations that move several entries: the sending
  of batches, with and without a reservation, the cancelling of groups, the sections of the transmit
  work, changes of the device state and the draining of the queue. The last part puts all of them
  into one transition system, in which the transmit work is interrupted between its sections.
\<close>

subsection \<open>Sending of batches\<close>

text \<open>The length of a batch is the sum of the lengths of its frames, unless that sum wraps around.\<close>

lemma batch_bytes_sum:
  "queue_batch_bytes bytes frames = Inr total_bytes \<Longrightarrow> unat bytes + sum_list (map length frames) < 2 ^ 32 \<Longrightarrow>
     unat total_bytes = unat bytes + sum_list (map length frames)"
proof (induction bytes frames rule: queue_batch_bytes.induct)
  case (2 bytes frame frames)
  have len: "unat (of_nat (length frame) :: u32) = length frame" using "2.prems"(2) by (simp add: unat_of_nat)
  have "unat (bytes + of_nat (length frame)) = unat bytes + length frame"
    using "2.prems"(2) len unat_add_small [of bytes "of_nat (length frame)"] by simp
  then show ?case using 2 by (simp split: if_splits)
qed simp

lemma of_nat_sum_list: "of_nat (sum_list xs) = sum_list (map of_nat xs)"
  by (induction xs) simp_all

lemma namespace_add_again:
  "tx_namespaces (namespace_add ns m b (namespace_add ns m' b' tx)) = tx_namespaces (namespace_add ns (m' + m) (b' + b) tx)"
  by (cases "ns < length (tx_namespaces tx)") (simp_all add: namespace_add_def Let_def add.assoc list_update_beyond)

lemma namespace_add_zero: "tx_namespaces (namespace_add ns 0 0 tx) = tx_namespaces tx"
  by (simp add: namespace_add_def Let_def)

lemma namespace_add_cong:
  "tx_namespaces tx' = tx_namespaces tx \<Longrightarrow> tx_namespaces (namespace_add ns m b tx') = tx_namespaces (namespace_add ns m b tx)"
  by (simp add: namespace_add_def Let_def)

text \<open>What the loop of insertions does: every free slot takes its frame, and the counters are raised by number and length.\<close>

definition charged :: "nat option \<Rightarrow> nat \<Rightarrow> nat \<Rightarrow> melodi_tx \<Rightarrow> melodi_namespace_queue list" where
  "charged namespace messages bytes tx =
     (case namespace of None \<Rightarrow> tx_namespaces tx | Some ns \<Rightarrow> tx_namespaces (namespace_add ns (of_nat messages) (of_nat bytes) tx))"

definition free_slot :: "melodi_tx \<Rightarrow> nat \<Rightarrow> bool" where
  "free_slot tx slot \<longleftrightarrow> slot < length (tx_queue tx) \<and> tx_queue tx ! slot = zero_queue_entry"

lemma queue_insert_step:
  assumes "free_slot tx slot" "queue_tables tx"
    and fill: "\<And>sequence. qe_active (fill frame sequence zero_queue_entry)"
      "\<And>m sequence. entry_amount m (fill frame sequence zero_queue_entry) = amount m frame"
  shows "metered (queue_insert namespace fill (slot, frame) tx) m = metered tx m + amount m frame"
    and "queue_tables (queue_insert namespace fill (slot, frame) tx)"
    and "\<And>j. j \<noteq> slot \<Longrightarrow> free_slot tx j \<Longrightarrow> free_slot (queue_insert namespace fill (slot, frame) tx) j"
    and "tx_namespaces (queue_insert namespace fill (slot, frame) tx) = charged namespace 1 (length frame) tx"
proof -
  let ?tx = "queue_insert namespace fill (slot, frame) tx"
  let ?e = "fill frame (tx_queue_sequence tx + 1) zero_queue_entry"
  have q: "tx_queue ?tx = (tx_queue tx)[slot := ?e]" "tx_reservations ?tx = tx_reservations tx"
    using assms(1) by (simp_all add: queue_insert_def Let_def free_slot_def namespace_add_def split: option.split)
  have slot: "slot < length (tx_queue tx)" "tx_queue tx ! slot = zero_queue_entry" using assms(1) by (simp_all add: free_slot_def)
  show "metered ?tx m = metered tx m + amount m frame"
    using metered_entry [OF slot(1) q, of m] slot(2) fill by (simp add: entry_meter_def)
  show "queue_tables ?tx" by (rule tables_store_entry [OF assms(2) q fill(1)])
  show "free_slot ?tx j" if "j \<noteq> slot" "free_slot tx j" for j using that q(1) by (simp add: free_slot_def)
  show "tx_namespaces ?tx = charged namespace 1 (length frame) tx"
    by (simp add: queue_insert_def Let_def charged_def namespace_add_def split: option.split)
qed

lemma queue_insert_counters [simp]:
  "tx_reservations (queue_insert namespace fill sf tx) = tx_reservations tx"
  "tx_reserved_count (queue_insert namespace fill sf tx) = tx_reserved_count tx"
  "tx_reserved_bytes (queue_insert namespace fill sf tx) = tx_reserved_bytes tx"
  "tx_pending_reserved (queue_insert namespace fill sf tx) = tx_pending_reserved tx"
  "tx_queue_count (queue_insert namespace fill sf tx) = tx_queue_count tx + 1"
  "tx_queue_bytes (queue_insert namespace fill sf tx) = tx_queue_bytes tx + of_nat (length (snd sf))"
  "length (tx_queue (queue_insert namespace fill sf tx)) = length (tx_queue tx)"
  by (cases sf; simp add: queue_insert_def Let_def namespace_add_def split: option.split)+

lemma queue_insert_fold_counters [simp]:
  "tx_reservations (fold (queue_insert namespace fill) sfs tx) = tx_reservations tx"
  "tx_reserved_count (fold (queue_insert namespace fill) sfs tx) = tx_reserved_count tx"
  "tx_reserved_bytes (fold (queue_insert namespace fill) sfs tx) = tx_reserved_bytes tx"
  "tx_pending_reserved (fold (queue_insert namespace fill) sfs tx) = tx_pending_reserved tx"
  "tx_queue_count (fold (queue_insert namespace fill) sfs tx) = tx_queue_count tx + of_nat (length sfs)"
  "tx_queue_bytes (fold (queue_insert namespace fill) sfs tx) = tx_queue_bytes tx + of_nat (sum_list (map (length \<circ> snd) sfs))"
  by (induction sfs arbitrary: tx) (simp_all add: algebra_simps)

lemma queue_insert_fold:
  assumes fill: "\<And>frame sequence. qe_active (fill frame sequence zero_queue_entry)"
      "\<And>m frame sequence. entry_amount m (fill frame sequence zero_queue_entry) = amount m frame"
  shows "queue_tables tx \<Longrightarrow> distinct (map fst sfs) \<Longrightarrow> list_all (\<lambda>sf. free_slot tx (fst sf)) sfs \<Longrightarrow>
     queue_tables (fold (queue_insert namespace fill) sfs tx) \<and>
     metered (fold (queue_insert namespace fill) sfs tx) m = metered tx m + sum_list (map (amount m \<circ> snd) sfs) \<and>
     tx_namespaces (fold (queue_insert namespace fill) sfs tx) = charged namespace (length sfs) (sum_list (map (length \<circ> snd) sfs)) tx"
proof (induction sfs arbitrary: tx)
  case Nil
  then show ?case by (simp add: charged_def namespace_add_zero split: option.split)
next
  case (Cons sf sfs)
  obtain slot frame where sf: "sf = (slot, frame)" by (cases sf)
  have free: "free_slot tx slot" using Cons.prems sf by simp
  note s = queue_insert_step [where fill = fill and amount = amount and frame = frame and namespace = namespace, OF free Cons.prems(1) fill]
  let ?tx = "queue_insert namespace fill (slot, frame) tx"
  have "list_all (\<lambda>sf. free_slot ?tx (fst sf)) sfs"
    using Cons.prems(2,3) s(3) sf by (force simp: list_all_iff)
  moreover have "distinct (map fst sfs)" using Cons.prems(2) by simp
  ultimately have IH: "queue_tables (fold (queue_insert namespace fill) sfs ?tx) \<and>
     metered (fold (queue_insert namespace fill) sfs ?tx) m = metered ?tx m + sum_list (map (amount m \<circ> snd) sfs) \<and>
     tx_namespaces (fold (queue_insert namespace fill) sfs ?tx) = charged namespace (length sfs) (sum_list (map (length \<circ> snd) sfs)) ?tx"
    by (intro Cons.IH [OF s(2)])
  have "charged namespace (length sfs) (sum_list (map (length \<circ> snd) sfs)) ?tx =
      charged namespace (length (sf # sfs)) (sum_list (map (length \<circ> snd) (sf # sfs))) tx"
  proof (cases namespace)
    case (Some ns)
    have "tx_namespaces ?tx = tx_namespaces (namespace_add ns 1 (of_nat (length frame)) tx)"
      using s(4) Some by (simp add: charged_def)
    from namespace_add_cong [OF this] show ?thesis by (simp add: charged_def Some namespace_add_again sf)
  qed (use s(4) in \<open>simp add: charged_def\<close>)
  then show ?case using IH s(1) [of m] sf by (simp add: o_def)
qed


text \<open>The free slots of the table are distinct and zeroed.\<close>

lemma queue_free_slots_free:
  assumes "queue_tables tx" "slot \<in> set (queue_free_slots count tx)"
  shows "free_slot tx slot"
proof -
  have "slot < length (tx_queue tx)" "\<not> qe_active (tx_queue tx ! slot)"
    using assms by (auto simp: queue_free_slots_def queue_tables_def dest!: in_set_takeD)
  then show ?thesis using assms(1) nth_mem [of slot "tx_queue tx"] by (auto simp: free_slot_def queue_tables_def)
qed

lemma queue_free_slots_distinct: "distinct (queue_free_slots count tx)"
  by (simp add: queue_free_slots_def)

lemma sum_amounts:
  assumes "sum_list (map length frames) < 2 ^ 32"
  shows "sum_list (map (\<lambda>frame. unat (of_nat (length frame) :: u32)) frames) = sum_list (map length frames)"
proof -
  have "length frame < 2 ^ 32" if "frame \<in> set frames" for frame
    using member_le_sum_list [of "length frame" "map length frames"] that assms by simp
  then show ?thesis by (intro arg_cong [where f = sum_list] map_cong) (simp_all add: unat_of_nat)
qed

text \<open>The entry of a frame, up to its sequence number, and what it adds to the meters.\<close>

definition frame_amount :: "nat \<Rightarrow> melodi_tx_meta \<Rightarrow> melodi_queue_request \<Rightarrow> bool \<Rightarrow> meter \<Rightarrow> bytes \<Rightarrow> nat" where
  "frame_amount net meta request control m frame =
     entry_amount m ((queue_fill net meta request 0 0 0 0 frame 0 zero_queue_entry)\<lparr>qe_control := control\<rparr>)"

lemma fill_amount:
  "qe_active ((queue_fill net meta request g x p f frame sequence zero_queue_entry)\<lparr>qe_control := control\<rparr>)"
  "entry_amount m ((queue_fill net meta request g x p f frame sequence zero_queue_entry)\<lparr>qe_control := control\<rparr>) =
     frame_amount net meta request control m frame"
  by (simp_all add: queue_fill_def frame_amount_def) (cases m; simp)

lemma fill_amount_data:
  "qe_active (queue_fill net meta request g x p f frame sequence zero_queue_entry)"
  "entry_amount m (queue_fill net meta request g x p f frame sequence zero_queue_entry) = frame_amount net meta request False m frame"
  by (simp_all add: queue_fill_def frame_amount_def) (cases m; simp add: zero_queue_entry_def)

lemma batch_meters:
  assumes "sum_list (map length frames) < 2 ^ 32"
  shows "request_meters net (tm_destination_locator meta) request (length frames) (sum_list (map length frames))
    (\<lambda>m. sum_list (map (frame_amount net meta request (rq_control request) m) frames))"
  using sum_amounts [OF assms]
  by (auto simp: request_meters_def frame_amount_def [abs_def] queue_fill_def sum_list_triv sum_list_0 o_def)


text \<open>A batch enters: the books stay in order.\<close>

lemma insert_batch_ok:
  assumes b: "queue_books rest tx" and f: "melodi_namespace_queue_find tx net = Some ns"
    and others: "\<And>j. j < length (tx_namespaces tx) \<Longrightarrow> j \<noteq> ns \<Longrightarrow> nq_messages (tx_namespaces tx ! j) \<noteq> 0"
    and fits: "queue_fits tx ns (tm_destination_locator meta) request count bytes"
    and count: "unat count = length frames" "frames \<noteq> []"
    and bytes: "unat bytes = sum_list (map length frames)"
    and slots: "length slots = length frames" "distinct slots" "list_all (free_slot tx) slots"
    and tx0: "tx_queue tx0 = tx_queue tx" "tx_reservations tx0 = tx_reservations tx" "tx_namespaces tx0 = tx_namespaces tx" "same_counters tx tx0"
    and fill: "fill = (\<lambda>frame sequence entry. (queue_fill net meta request g x p i frame sequence entry)\<lparr>qe_control := rq_control request\<rparr>)"
  shows "queue_ok rest (fold (queue_insert (Some ns) fill) (zip slots frames) tx0)" (is "queue_ok rest ?tx")
proof -
  let ?new = "\<lambda>m. sum_list (map (frame_amount net meta request (rq_control request) m) frames)"
  have t: "queue_tables tx" and d: "namespaces_distinct tx" and ex: "queue_exact rest tx" using b by (simp_all add: queue_books_def)
  have small: "sum_list (map length frames) < 2 ^ 32" using bytes fitsD(2) [OF fits] by simp
  have new: "request_meters net (tm_destination_locator meta) request (unat count) (unat bytes) ?new"
    using batch_meters [OF small] count(1) bytes by simp
  have lim: "shared rest m + metered tx m + ?new m \<le> l" if "meter_limit m = Some l" for m l
    by (rule fits_limits [OF b f fits new that])
  have z: "map fst (zip slots frames) = slots" "map snd (zip slots frames) = frames" "length (zip slots frames) = length frames"
    using slots(1) by simp_all
  have zs: "map (h \<circ> snd) (zip slots frames) = map h frames" for h :: "bytes \<Rightarrow> nat"
    using z(2) by (metis map_map)
  have t0: "queue_tables tx0" using t tx0 by (simp add: queue_tables_def)
  have m0: "metered tx0 = metered tx" by (rule metered_cong [OF tx0(1,2)])
  have free: "list_all (\<lambda>sf. free_slot tx0 (fst sf)) (zip slots frames)"
    using slots(3) tx0(1) by (auto simp: list_all_iff free_slot_def dest!: set_zip_leftD)
  have fold: "queue_tables ?tx" "\<And>m. metered ?tx m = metered tx0 m + ?new m"
      "tx_namespaces ?tx = charged (Some ns) (length frames) (sum_list (map length frames)) tx0"
    using queue_insert_fold [where fill = fill and amount = "frame_amount net meta request (rq_control request)" and namespace = "Some ns",
        OF _ _ t0 _ free] slots(2) zs z unfolding fill by (simp_all add: fill_amount)
  have ns: "tx_namespaces ?tx = tx_namespaces (namespace_add ns (ucast count) bytes tx)"
  proof -
    have "of_nat (length frames) = (ucast count :: u32)" "of_nat (sum_list (map length frames)) = bytes"
      by (simp_all flip: count(1) bytes add: unat_ucast_up word_unat_eq_iff unat_of_nat)
    then show ?thesis using fold(3) namespace_add_cong [OF tx0(3)] by (simp add: charged_def)
  qed
  have tot: "metered tx Frames_Queued + length frames \<le> 128" "metered tx Bytes_Queued + sum_list (map length frames) \<le> 262144"
    using lim [of Frames_Total] lim [of Bytes_Total] metered_total [of tx] new count(1) bytes by (simp_all add: request_meters_def)
  have zl: "sum_list (map (length \<circ> snd) (zip slots frames)) = sum_list (map length frames)" by (simp only: zs)
  have "queue_books rest ?tx"
  proof (rule add_books [OF b fold(1) fold(2) [unfolded m0] f ns _ _ _ _ _ _ _ lim])
    show "unat (tx_queue_count ?tx) = unat (tx_queue_count tx) + ?new Frames_Queued"
      using tot(1) exactD(1) [OF ex] tx0(4) slots(1)
      by (simp add: same_counters_def frame_amount_def [abs_def] sum_list_triv unat_add_small unat_of_nat)
    show "unat (tx_queue_bytes ?tx) = unat (tx_queue_bytes tx) + ?new Bytes_Queued"
      using tot(2) exactD(2) [OF ex] tx0(4) sum_amounts [OF small] zl
      by (simp add: same_counters_def frame_amount_def [abs_def] queue_fill_def unat_add_small unat_of_nat del: map_map)
  qed (use new tx0(4) count bytes in \<open>simp_all add: request_meters_def same_counters_def frame_amount_def [abs_def] unat_ucast_up\<close>)
  moreover have "1 \<le> metered ?tx (Namespace_Messages net)" using fold(2) new count by (simp add: request_meters_def Suc_le_eq)
  ultimately show ?thesis by (intro add_ok [OF _ d f ns others])
qed


text \<open>The hypothesis of the sending lemmas: the lengths of a batch do not wrap around in 32 bits.\<close>

definition batch_fits :: "bytes list \<Rightarrow> bool" where
  "batch_fits frames \<longleftrightarrow> sum_list (map length frames) < 2 ^ 32"

lemma send_batch_store_ok:
  assumes ok: "queue_ok rest tx" and cap: "melodi_queue_capacity_locked memory tx net (tm_destination_locator meta) request (of_nat (length frames)) bytes = (tx1, Some ns, Inr ())"
    and len: "frames \<noteq> []" "length frames \<le> MELODI_FRAGMENT_LIMIT" and bytes: "queue_batch_bytes 0 frames = Inr bytes" "batch_fits frames"
    and slots: "length (queue_free_slots (length frames) tx1) = length frames"
  shows "queue_ok rest (fold (queue_insert (Some ns) (\<lambda>frame sequence entry.
      (queue_fill net meta request g x p i frame sequence entry)\<lparr>qe_control := rq_control request\<rparr>))
      (zip (queue_free_slots (length frames) tx1) frames) ((queue_open_turns (tm_destination_locator meta) request peer flow tx1)\<lparr>tx_group_sequence := g\<rparr>))"
proof -
  note c = capacity_books [OF ok cap]
  have t: "queue_tables tx1" using c(1) by (simp add: queue_books_def)
  have "unat bytes = sum_list (map length frames)" using batch_bytes_sum [OF bytes(1)] bytes(2) by (simp add: batch_fits_def)
  moreover have "unat (of_nat (length frames) :: u16) = length frames" using len(2) by (simp add: unat_of_nat)
  moreover have "list_all (free_slot tx1) (queue_free_slots (length frames) tx1)"
    using queue_free_slots_free [OF t] by (simp add: list_all_iff)
  ultimately show ?thesis
    using slots len(1) by (intro insert_batch_ok [OF c(1,2,5) c(6) [OF refl]]) (simp_all add: queue_free_slots_distinct same_counters_def)
qed

lemma free_slots_turns [simp]:
  "queue_free_slots n (queue_open_turns locator request peer flow tx) = queue_free_slots n tx"
  by (simp add: queue_free_slots_def)

text \<open>The three ways \<open>melodi_core_send_batch\<close> leaves the queue: as it was, with the namespace put back, or with the batch.\<close>

lemma send_batch_cases:
  assumes tx': "tx' = fst (melodi_core_send_batch memory running now_ms net melodi tx frames meta request)"
    and c: "capacity = melodi_queue_capacity_locked memory tx net (tm_destination_locator meta) request (of_nat (length frames))"
  obtains (Same) "tx' = tx"
  | (Put) bytes tx1 namespace result where "capacity bytes = (tx1, namespace, result)" "tx' = queue_put_namespace tx1 namespace"
  | (Batch) bytes tx1 namespace peer flow g x p i where "capacity bytes = (tx1, namespace, Inr ())" "frames \<noteq> []"
      "length frames \<le> MELODI_FRAGMENT_LIMIT" "queue_batch_bytes 0 frames = Inr bytes"
      "length (queue_free_slots (length frames) tx1) = length frames"
      "tx' = fold (queue_insert namespace (\<lambda>frame sequence entry.
          (queue_fill net meta request g x p i frame sequence entry)\<lparr>qe_control := rq_control request\<rparr>))
        (zip (queue_free_slots (length frames) tx1) frames)
        ((queue_open_turns (tm_destination_locator meta) request peer flow tx1)\<lparr>tx_group_sequence := g\<rparr>)"
proof -
  let ?check = "if rq_control request then Inr () else melodi_data_queue_valid_locked melodi (rq_destination request) (rq_destination_service request)
     (rq_broadcast request) meta (rq_identity_generation request) (rq_session_epoch request)"
  let ?guard = "frames = [] \<or> length frames > MELODI_FRAGMENT_LIMIT \<or> rq_ttl_ms request = 0 \<or>
         rq_ttl_ms request > MELODI_TTL_DEFAULT_MS \<or> rq_priority request > MELODI_PRIORITY_MAX"
  note unfold = melodi_core_send_batch_def Let_def turns_keep free_slots_turns
  show thesis
  proof (cases "?guard \<or> \<not> running \<or> (\<exists>error. queue_batch_bytes 0 frames = Inl error) \<or>
      now_ms > QUEUE_U64_MAX - ucast (rq_ttl_ms request) \<or> (\<exists>error. ?check = Inl error) \<or> tx_queue_stopping tx")
    case True
    have "tx' = tx"
    proof (cases "?guard \<or> \<not> running")
      case True
      then show ?thesis unfolding tx' melodi_core_send_batch_def by (cases ?guard) simp_all
    next
      case False
      then show ?thesis
        using True unfolding tx' melodi_core_send_batch_def
        by (cases "queue_batch_bytes 0 frames"; cases ?check; cases "tx_queue_stopping tx") (simp_all del: not_less)
    qed
    then show thesis by (rule Same)
  next
    case False
    then obtain bytes where late: "\<not> ?guard" "running" "queue_batch_bytes 0 frames = Inr bytes" "\<not> now_ms > QUEUE_U64_MAX - ucast (rq_ttl_ms request)"
        "?check = Inr ()" "\<not> tx_queue_stopping tx"
      by (cases "queue_batch_bytes 0 frames"; cases ?check) auto
    obtain tx1 namespace result where cap: "capacity bytes = (tx1, namespace, result)" by (metis prod_cases3)
    let ?turns = "if rq_control request then Inr ((0, False), (0, False))
       else case melodi_queue_peer_locked tx1 (tm_destination_locator meta) of Inl error \<Rightarrow> Inl error
         | Inr peer \<Rightarrow> (case melodi_queue_flow_locked tx1 (tm_destination_locator meta) request of Inl error \<Rightarrow> Inl error | Inr flow \<Rightarrow> Inr (peer, flow))"
    let ?over = "tx_queue_sequence tx1 > QUEUE_U64_MAX - of_nat (length frames) \<or> tx_group_sequence tx1 = QUEUE_U64_MAX"
    note step = tx' [unfolded unfold] and facts = late cap [unfolded c]
    show thesis
    proof (cases "(\<exists>error. result = Inl error) \<or> ?over \<or> length (queue_free_slots (length frames) tx1) \<noteq> length frames \<or> (\<exists>error. ?turns = Inl error)")
      case True
      then have "tx' = queue_put_namespace tx1 namespace"
        unfolding step using facts
        by (cases "rq_control request"; cases result; cases ?turns; cases ?over; cases "length (queue_free_slots (length frames) tx1) = length frames")
          (simp_all del: not_less fold_simps)
      then show thesis by (rule Put [OF cap])
    next
      case False
      then obtain peer flow where turns: "result = Inr ()" "?turns = Inr (peer, flow)" "\<not> ?over" "length (queue_free_slots (length frames) tx1) = length frames"
        by (cases result; cases ?turns) auto
      have "tx' = fold (queue_insert namespace (\<lambda>frame sequence entry.
           (queue_fill net meta request (tx_group_sequence tx1 + 1) (now_ms + ucast (rq_ttl_ms request)) (of_nat (fst peer)) (of_nat (fst flow))
              frame sequence entry)\<lparr>qe_control := rq_control request\<rparr>))
          (zip (queue_free_slots (length frames) tx1) frames)
          ((queue_open_turns (tm_destination_locator meta) request peer flow tx1)\<lparr>tx_group_sequence := tx_group_sequence tx1 + 1\<rparr>)"
        unfolding step using facts turns by (cases "rq_control request") (auto simp del: not_less fold_simps split: sum.splits)
      then show thesis using cap turns late by (intro Batch [of bytes tx1 namespace]) simp_all
    qed
  qed
qed

lemma send_batch_ok:
  assumes ok: "queue_ok rest tx" and fits: "batch_fits frames"
  shows "queue_ok rest (fst (melodi_core_send_batch memory running now_ms net melodi tx frames meta request))"
proof (rule send_batch_cases [OF refl refl, where memory = memory and running = running and now_ms = now_ms and net = net and melodi = melodi and tx = tx and frames = frames and meta = meta and request = request], goal_cases)
  case 1
  then show ?case using ok by simp
next
  case (2 bytes tx1 namespace result)
  show ?case unfolding 2(2) by (rule capacity_put_ok [OF ok 2(1)]) (simp_all add: same_counters_def)
next
  case (3 bytes tx1 namespace peer flow g x p i)
  obtain ns where ns: "namespace = Some ns" using capacity_namespace(2) [OF 3(1) refl] by auto
  show ?case unfolding 3(6) ns by (rule send_batch_store_ok [OF ok 3(1) [unfolded ns] 3(2,3,4) fits 3(5)])
qed

text \<open>
  A batch takes the place of its reservation: what was reserved is now queued, and everything the
  limits and the namespaces count stays as it was.
\<close>

lemma reservation_request_meters:
  assumes "rv_active r" "\<not> rq_control request" "reservation_agrees r count bytes meta request"
  shows "request_meters (rv_net r) (tm_destination_locator meta) request count (unat bytes) (\<lambda>m. reservation_meter m r)"
  using assms by (auto simp: request_meters_def reservation_meter_def reservation_agrees_def)

lemma request_meters_unique:
  assumes "request_meters net locator request count bytes old" "request_meters net locator request count bytes new"
    and "meter_limit m \<noteq> None"
  shows "old m = new m"
  using assms by (cases m) (simp_all add: request_meters_def)

lemma move_ok:
  assumes ok: "queue_ok rest tx" and t: "queue_tables tx'" and met: "\<And>m. metered tx' m + old m = metered tx m + new m"
    and same: "\<And>m. meter_limit m \<noteq> None \<Longrightarrow> old m = new m" "old Pending_Reserved = new Pending_Reserved"
    and n: "tx_namespaces tx' = tx_namespaces tx" "tx_pending_reserved tx' = tx_pending_reserved tx"
    and c: "unat (tx_queue_count tx') + old Frames_Queued = unat (tx_queue_count tx) + new Frames_Queued"
      "unat (tx_queue_bytes tx') + old Bytes_Queued = unat (tx_queue_bytes tx) + new Bytes_Queued"
      "unat (tx_reserved_count tx') + old Frames_Reserved = unat (tx_reserved_count tx) + new Frames_Reserved"
      "unat (tx_reserved_bytes tx') + old Bytes_Reserved = unat (tx_reserved_bytes tx) + new Bytes_Reserved"
  shows "queue_ok rest tx'"
proof -
  have b: "queue_books rest tx" using ok by (simp add: queue_ok_def)
  have view: "namespace_view tx' = namespace_view tx" by (rule namespaces_only(2) [OF n(1)])
  have "queue_exact rest tx'"
  proof (rule exact_step [OF _ met])
    show "\<exists>c. counter tx m = Some c \<and> c' + old m = c + new m" if "counter tx' m = Some c'" for m c'
      using that c same(1) [of m] same(2) view n(2) by (cases m) auto
  qed (use b in \<open>simp add: queue_books_def\<close>)
  moreover have "queue_within rest tx" using b by (simp add: queue_books_def)
  then have "queue_within rest tx'" by (rule within_less) (use met same(1) in \<open>metis add_right_cancel order_refl\<close>)
  ultimately show ?thesis
    using ok t namespaces_only(3,4) [OF n(1)] by (simp add: queue_ok_def queue_books_def)
qed

lemma send_reserved_store_ok:
  assumes ok: "queue_ok rest tx" and i: "i < length (tx_reservations tx)" "r = tx_reservations tx ! i" "rv_active r"
    and agrees: "reservation_agrees r (length frames) bytes meta request" and data: "\<not> rq_control request"
    and len: "length frames \<le> MELODI_FRAGMENT_LIMIT" and bytes: "queue_batch_bytes 0 frames = Inr bytes" "batch_fits frames"
    and slots: "length (queue_free_slots (length frames) tx) = length frames"
    and tx0: "tx_queue tx0 = tx_queue tx" "tx_reservations tx0 = (tx_reservations tx)[i := zero_reservation]" "tx_namespaces tx0 = tx_namespaces tx"
      "tx_queue_count tx0 = tx_queue_count tx" "tx_queue_bytes tx0 = tx_queue_bytes tx" "tx_pending_reserved tx0 = tx_pending_reserved tx"
      "tx_reserved_count tx0 = tx_reserved_count tx - of_nat (length frames)" "tx_reserved_bytes tx0 = tx_reserved_bytes tx - bytes"
  shows "queue_ok rest (fold (queue_insert None (queue_fill (rv_net r) meta request g x p f)) (zip (queue_free_slots (length frames) tx) frames) tx0)"
    (is "queue_ok rest ?tx")
proof -
  let ?slots = "queue_free_slots (length frames) tx"
  let ?old = "\<lambda>m. reservation_meter m r"
  let ?new = "\<lambda>m. sum_list (map (frame_amount (rv_net r) meta request False m) frames)"
  have b: "queue_books rest tx" using ok by (simp add: queue_ok_def)
  have t: "queue_tables tx" and ex: "queue_exact rest tx" and w: "queue_within rest tx" using b by (simp_all add: queue_books_def)
  have sum: "sum_list (map length frames) < 2 ^ 32" and bys: "unat bytes = sum_list (map length frames)"
    using batch_bytes_sum [OF bytes(1)] bytes(2) by (simp_all add: batch_fits_def)
  have cnt: "unat (rv_count r) = length frames" "rv_bytes r = bytes" "\<not> rv_pending_reserved r" using agrees by (simp_all add: reservation_agrees_def)
  have old: "request_meters (rv_net r) (tm_destination_locator meta) request (length frames) (unat bytes) ?old"
    by (rule reservation_request_meters [OF i(3) data agrees])
  have new: "request_meters (rv_net r) (tm_destination_locator meta) request (length frames) (unat bytes) ?new"
    using batch_meters [OF sum, of "rv_net r" meta request] data by (simp add: bys)
  have z: "map fst (zip ?slots frames) = ?slots" "map snd (zip ?slots frames) = frames" using slots by simp_all
  have zs: "map (h \<circ> snd) (zip ?slots frames) = map h frames" for h :: "bytes \<Rightarrow> nat" using z(2) by (metis map_map)
  have t0: "queue_tables tx0" by (rule tables_clear(1) [OF t tx0(1,2)])
  have m0: "metered tx0 m + ?old m = metered tx m" for m
    using metered_reservation [OF i(1) tx0(1,2), of m] i(2) by simp
  have free: "list_all (\<lambda>sf. free_slot tx0 (fst sf)) (zip ?slots frames)"
    using queue_free_slots_free [OF t] tx0(1) by (auto simp: list_all_iff free_slot_def dest!: set_zip_leftD)
  have fold: "queue_tables ?tx" "metered ?tx m = metered tx0 m + ?new m" "tx_namespaces ?tx = tx_namespaces tx0" for m
    using queue_insert_fold [where fill = "queue_fill (rv_net r) meta request g x p f" and m = m and
        amount = "frame_amount (rv_net r) meta request False" and namespace = None, OF _ _ t0 _ free]
      queue_free_slots_distinct zs z by (simp_all add: fill_amount_data charged_def)
  have ge: "?old m \<le> metered tx m" for m using metered_ge(2) [OF i(1)] i(2) by simp
  have tot: "metered tx Frames_Queued + length frames \<le> 128" "metered tx Bytes_Queued + sum_list (map length frames) \<le> 262144"
    using withinD(1,2) [OF w] metered_total [of tx] ge [of Frames_Reserved] ge [of Bytes_Reserved] i(3) cnt bys
    by (simp_all add: reservation_meter_def)
  show ?thesis
  proof (rule move_ok [OF ok fold(1), where old = ?old and new = ?new])
    show "metered ?tx m + ?old m = metered tx m + ?new m" for m using m0 [of m] fold(2) [of m] by simp
    show "?old m = ?new m" if "meter_limit m \<noteq> None" for m using request_meters_unique [OF old new that] .
    show "?old Pending_Reserved = ?new Pending_Reserved" using cnt by (simp add: reservation_meter_def frame_amount_def [abs_def])
    show "unat (tx_queue_count ?tx) + ?old Frames_Queued = unat (tx_queue_count tx) + ?new Frames_Queued"
      using tot(1) exactD(1) [OF ex] tx0(4) slots
      by (simp add: reservation_meter_def frame_amount_def [abs_def] sum_list_triv unat_add_small unat_of_nat)
    show "unat (tx_queue_bytes ?tx) + ?old Bytes_Queued = unat (tx_queue_bytes tx) + ?new Bytes_Queued"
      using tot(2) exactD(2) [OF ex] tx0(5) sum_amounts [OF sum] zs [of length]
      by (simp add: reservation_meter_def frame_amount_def [abs_def] queue_fill_def unat_add_small unat_of_nat del: map_map)
    have n: "of_nat (length frames) = rv_count r" by (simp flip: cnt(1))
    show "unat (tx_reserved_count ?tx) + ?old Frames_Reserved = unat (tx_reserved_count tx) + ?new Frames_Reserved"
      using ge [of Frames_Reserved] exactD(3) [OF ex] i(3)
      by (simp add: tx0 n reservation_meter_def frame_amount_def [abs_def] unat_sub_add)
    show "unat (tx_reserved_bytes ?tx) + ?old Bytes_Reserved = unat (tx_reserved_bytes tx) + ?new Bytes_Reserved"
      using ge [of Bytes_Reserved] exactD(4) [OF ex] i(3) cnt(2)
      by (simp add: tx0 reservation_meter_def frame_amount_def [abs_def] unat_sub_add)
  qed (simp_all add: fold(3) tx0)
qed

text \<open>\<open>melodi_core_send_batch_reserved\<close> leaves the queue as it was, or puts the batch in the place of the reservation.\<close>

lemma send_reserved_cases:
  assumes tx': "tx' = fst (melodi_core_send_batch_reserved running melodi tx frames meta request reservation_id)"
  obtains (Same) "tx' = tx"
  | (Batch) i bytes g x p f sp sb where "melodi_reservation_find_locked tx reservation_id = Some i"
      "reservation_agrees (tx_reservations tx ! i) (length frames) bytes meta request" "\<not> rq_control request"
      "length frames \<le> MELODI_FRAGMENT_LIMIT" "queue_batch_bytes 0 frames = Inr bytes"
      "length (queue_free_slots (length frames) tx) = length frames"
      "tx' = (fold (queue_insert None (queue_fill (rv_net (tx_reservations tx ! i)) meta request g x p f))
        (zip (queue_free_slots (length frames) tx) frames) (tx\<lparr>tx_group_sequence := g, tx_reserved_count := tx_reserved_count tx - of_nat (length frames),
          tx_reserved_bytes := tx_reserved_bytes tx - bytes, tx_reservations := (tx_reservations tx)[i := zero_reservation]\<rparr>))
        \<lparr>tx_stat_packets := sp, tx_stat_bytes := sb\<rparr>"
proof -
  let ?check = "melodi_data_queue_valid_locked melodi (rq_destination request) (rq_destination_service request)
     (rq_broadcast request) meta (rq_identity_generation request) (rq_session_epoch request)"
  let ?guard = "reservation_id = 0 \<or> frames = [] \<or> length frames > MELODI_FRAGMENT_LIMIT \<or> rq_control request"
  let ?over = "tx_queue_sequence tx > QUEUE_U64_MAX - of_nat (length frames) \<or> tx_group_sequence tx = QUEUE_U64_MAX"
  let ?free = "length (queue_free_slots (length frames) tx) = length frames"
  note step = tx' [unfolded melodi_core_send_batch_reserved_def Let_def]
  show thesis
  proof (cases "?guard \<or> \<not> running \<or> (\<exists>error. queue_batch_bytes 0 frames = Inl error) \<or> (\<exists>error. ?check = Inl error) \<or>
      melodi_reservation_find_locked tx reservation_id = None \<or> tx_queue_stopping tx")
    case True
    have "tx' = tx"
    proof (cases "?guard \<or> \<not> running")
      case True
      then show ?thesis unfolding step by (cases ?guard) simp_all
    next
      case False
      then show ?thesis
        using True unfolding step
        by (cases "queue_batch_bytes 0 frames"; cases ?check; cases "melodi_reservation_find_locked tx reservation_id"; cases "tx_queue_stopping tx")
          (simp_all del: not_less)
    qed
    then show thesis by (rule Same)
  next
    case False
    then obtain bytes i where late: "\<not> ?guard" "running" "queue_batch_bytes 0 frames = Inr bytes" "?check = Inr ()"
        "melodi_reservation_find_locked tx reservation_id = Some i" "\<not> tx_queue_stopping tx"
      by (cases "queue_batch_bytes 0 frames"; cases ?check) auto
    let ?agrees = "reservation_agrees (tx_reservations tx ! i) (length frames) bytes meta request"
    show thesis
    proof (cases "?agrees \<and> ?free \<and> \<not> ?over")
      case True
      have g: "\<not> rq_control request" "length frames \<le> MELODI_FRAGMENT_LIMIT" using late(1) by auto
      show thesis
        by (rule Batch [OF late(5) True [THEN conjunct1] g late(3) True [THEN conjunct2, THEN conjunct1]])
          (unfold step, use late True in \<open>simp del: not_less fold_simps\<close>)
    next
      case False
      then have "tx' = tx" unfolding step using late by (cases ?agrees; cases ?free) (simp_all del: not_less fold_simps)
      then show thesis by (rule Same)
    qed
  qed
qed

lemma queue_ok_stats: "queue_ok rest t \<Longrightarrow> queue_ok rest (t\<lparr>tx_stat_packets := a, tx_stat_bytes := b\<rparr>)"
  by (rule queue_ok_cong) (simp_all add: same_counters_def)

lemma send_batch_reserved_ok:
  assumes ok: "queue_ok rest tx" and fits: "batch_fits frames"
  shows "queue_ok rest (fst (melodi_core_send_batch_reserved running melodi tx frames meta request reservation_id))"
proof (rule send_reserved_cases [OF refl, where running = running and melodi = melodi and tx = tx and frames = frames and meta = meta and request = request and reservation_id = reservation_id], goal_cases)
  case 1
  then show ?case using ok by simp
next
  case (2 i bytes g x p f sp sb)
  show ?case unfolding 2(7)
    by (rule queue_ok_stats, rule send_reserved_store_ok [OF ok reservation_findD(1) [OF 2(1)] refl reservation_findD(2) [OF 2(1)] 2(2,3,4,5) fits 2(6)])
      simp_all
qed

lemma core_send_ok:
  assumes "queue_ok rest tx" "batch_fits [frame]"
  shows "queue_ok rest (fst (melodi_core_send memory running now_ms net melodi tx frame meta))"
  using send_batch_ok [OF assms] by (simp add: melodi_core_send_def)


subsection \<open>Entries in flight\<close>

text \<open>
  An entry in flight belongs to the transmit work, which uses it and its frame outside the lock.
  The other operations may mark it as cancelled and leave the rest alone, and none puts an entry in
  flight.
\<close>

definition flight :: "melodi_tx_queue_entry \<Rightarrow> bool" where
  "flight e \<longleftrightarrow> qe_active e \<and> qe_in_flight e"

definition marked :: "melodi_tx_queue_entry \<Rightarrow> melodi_tx_queue_entry \<Rightarrow> bool" where
  "marked e e' \<longleftrightarrow> (\<exists>c t. e' = e\<lparr>qe_cancelled := c, qe_terminal_notified := t\<rparr>)"

definition flight_kept :: "melodi_tx \<Rightarrow> melodi_tx \<Rightarrow> bool" where
  "flight_kept tx tx' \<longleftrightarrow> length (tx_queue tx') = length (tx_queue tx) \<and>
     (\<forall>j < length (tx_queue tx). (flight (tx_queue tx ! j) \<longrightarrow> marked (tx_queue tx ! j) (tx_queue tx' ! j)) \<and>
        (flight (tx_queue tx' ! j) \<longrightarrow> flight (tx_queue tx ! j)))"

lemma marked_refl [simp]: "marked e e"
  unfolding marked_def by (intro exI [of _ "qe_cancelled e"] exI [of _ "qe_terminal_notified e"]) simp

lemma marked_trans: "marked e e' \<Longrightarrow> marked e' e'' \<Longrightarrow> marked e e''"
  by (auto simp: marked_def simp del: melodi_tx_queue_entry.update_convs) blast

lemma marked_fields:
  assumes "marked e e'"
  shows "qe_active e' = qe_active e" "qe_in_flight e' = qe_in_flight e" "qe_frame e' = qe_frame e" "qe_metadata e' = qe_metadata e"
    "qe_control e' = qe_control e" "qe_length e' = qe_length e"
  using assms unfolding marked_def by auto

lemma marked_flight: "marked e e' \<Longrightarrow> flight e' = flight e"
  by (simp add: flight_def marked_fields)

lemma flight_kept_refl: "tx_queue tx' = tx_queue tx \<Longrightarrow> flight_kept tx tx'"
  by (simp add: flight_kept_def)

lemma flight_keptD:
  assumes "flight_kept tx tx'"
  shows "length (tx_queue tx') = length (tx_queue tx)"
    "\<And>j. j < length (tx_queue tx) \<Longrightarrow> flight (tx_queue tx ! j) \<Longrightarrow> marked (tx_queue tx ! j) (tx_queue tx' ! j)"
    "\<And>j. j < length (tx_queue tx) \<Longrightarrow> flight (tx_queue tx' ! j) \<Longrightarrow> flight (tx_queue tx ! j)"
  using assms by (simp_all add: flight_kept_def)

lemma flight_kept_trans:
  assumes a: "flight_kept tx tx'" and b: "flight_kept tx' tx''"
  shows "flight_kept tx tx''"
  unfolding flight_kept_def
proof (intro conjI allI impI)
  show "length (tx_queue tx'') = length (tx_queue tx)" using flight_keptD(1) [OF a] flight_keptD(1) [OF b] by simp
  fix j
  assume j: "j < length (tx_queue tx)"
  then have j': "j < length (tx_queue tx')" using flight_keptD(1) [OF a] by simp
  show "marked (tx_queue tx ! j) (tx_queue tx'' ! j)" if f: "flight (tx_queue tx ! j)"
  proof -
    have m: "marked (tx_queue tx ! j) (tx_queue tx' ! j)" by (rule flight_keptD(2) [OF a j f])
    then have "flight (tx_queue tx' ! j)" using f marked_flight by blast
    then show ?thesis by (rule marked_trans [OF m flight_keptD(2) [OF b j']])
  qed
  show "flight (tx_queue tx ! j)" if "flight (tx_queue tx'' ! j)"
    by (rule flight_keptD(3) [OF a j flight_keptD(3) [OF b j' that]])
qed

lemma flight_kept_store:
  assumes "tx_queue tx' = (tx_queue tx)[i := e]" "flight (tx_queue tx ! i) \<Longrightarrow> marked (tx_queue tx ! i) e"
    and "flight e \<Longrightarrow> flight (tx_queue tx ! i)"
  shows "flight_kept tx tx'"
  using assms by (auto simp: flight_kept_def nth_list_update_if split: if_splits)

lemma flight_kept_remove:
  assumes "tx_queue tx' = (tx_queue tx)[i := zero_queue_entry]" "\<not> flight (tx_queue tx ! i)"
  shows "flight_kept tx tx'"
  by (rule flight_kept_store [OF assms(1)]) (use assms(2) in \<open>simp_all add: flight_def\<close>)

lemma flight_kept_fold:
  assumes "\<And>x tx. flight_kept tx (f x tx)"
  shows "flight_kept tx (fold f xs tx)"
proof (induction xs arbitrary: tx)
  case (Cons x xs)
  then show ?case using flight_kept_trans [OF assms [of tx x]] by simp
qed (simp add: flight_kept_refl)


text \<open>The operations on reservations do not touch the queue.\<close>

lemma reservation_operations_queue [simp]:
  "tx_queue (fst (melodi_queue_reserve memory now_ms tx net locator request count bytes logical_length cookie reliable active_pending)) = tx_queue tx"
  "tx_queue (fst (melodi_queue_reservation_cancel tx rid error notify)) = tx_queue tx"
  "tx_queue (fst (melodi_queue_reservation_pending tx rid)) = tx_queue tx"
  "tx_queue (fst (melodi_queue_reservation_seal siphash tx rid data)) = tx_queue tx"
  "tx_queue (fst (melodi_queue_reservation_claim siphash tx rid data)) = tx_queue tx"
proof -
  have cap: "tx_queue (fst (melodi_queue_capacity_locked memory tx net locator request count bytes)) = tx_queue tx"
    by (auto simp: melodi_queue_capacity_locked_def melodi_namespace_queue_get_def split: prod.splits option.splits if_splits)
  have put: "tx_queue (queue_put_namespace t namespace) = tx_queue t" for t namespace
    by (simp add: queue_put_namespace_def split: option.split)
  show "tx_queue (fst (melodi_queue_reserve memory now_ms tx net locator request count bytes logical_length cookie reliable active_pending)) = tx_queue tx"
    using cap unfolding melodi_queue_reserve_def Let_def
    by (auto simp: put undo_turns_keep split: sum.splits option.splits prod.splits)
qed (simp_all add: melodi_queue_reservation_cancel_def melodi_queue_reservation_pending_def melodi_queue_reservation_seal_def
    melodi_queue_reservation_claim_def Let_def split: option.split)

text \<open>A batch fills free slots.\<close>

lemma flight_kept_insert:
  assumes fill: "\<And>frame sequence. qe_active (fill frame sequence zero_queue_entry)"
      "\<And>frame sequence. \<not> qe_in_flight (fill frame sequence zero_queue_entry)"
  shows "queue_tables tx \<Longrightarrow> distinct (map fst sfs) \<Longrightarrow> list_all (\<lambda>sf. free_slot tx (fst sf)) sfs \<Longrightarrow>
    flight_kept tx (fold (queue_insert namespace fill) sfs tx)"
proof (induction sfs arbitrary: tx)
  case (Cons sf sfs)
  obtain slot frame where sf: "sf = (slot, frame)" by (cases sf)
  let ?tx = "queue_insert namespace fill (slot, frame) tx"
  let ?e = "fill frame (tx_queue_sequence tx + 1) zero_queue_entry"
  have free: "free_slot tx slot" using Cons.prems sf by simp
  then have q: "tx_queue ?tx = (tx_queue tx)[slot := ?e]"  "tx_reservations ?tx = tx_reservations tx" and z: "tx_queue tx ! slot = zero_queue_entry"
    by (simp_all add: queue_insert_def Let_def free_slot_def namespace_add_def split: option.split)
  have "free_slot ?tx (fst x)" if "x \<in> set sfs" for x
  proof -
    have "fst x \<noteq> slot" "free_slot tx (fst x)" using Cons.prems(2,3) that sf by (force simp: list_all_iff)+
    then show ?thesis using q(1) by (simp add: free_slot_def)
  qed
  then have "flight_kept ?tx (fold (queue_insert namespace fill) sfs ?tx)"
    using Cons.prems(2) by (intro Cons.IH tables_store_entry [OF Cons.prems(1) q fill(1)]) (simp_all add: list_all_iff)
  moreover have "flight_kept tx ?tx" by (rule flight_kept_store [OF q(1)]) (use fill(2) z in \<open>simp_all add: flight_def\<close>)
  ultimately show ?case using flight_kept_trans sf by fastforce
qed (simp add: flight_kept_refl)

lemma flight_kept_batch:
  assumes t: "queue_tables tx" and tx0: "tx_queue tx0 = tx_queue tx" "queue_tables tx0"
    and fill: "\<And>frame sequence. qe_active (fill frame sequence zero_queue_entry)" "\<And>frame sequence. \<not> qe_in_flight (fill frame sequence zero_queue_entry)"
  shows "flight_kept tx (fold (queue_insert namespace fill) (zip (queue_free_slots n tx) frames) tx0)"
proof -
  let ?sfs = "zip (queue_free_slots n tx) frames"
  have "distinct (map fst ?sfs)" by (simp add: map_fst_zip_take queue_free_slots_distinct)
  moreover have "list_all (\<lambda>sf. free_slot tx0 (fst sf)) ?sfs"
    using queue_free_slots_free [OF t] tx0(1) by (auto simp: list_all_iff free_slot_def dest!: set_zip_leftD)
  ultimately have "flight_kept tx0 (fold (queue_insert namespace fill) ?sfs tx0)" by (rule flight_kept_insert [where fill = fill, OF fill tx0(2)])
  then show ?thesis using tx0(1) by (simp add: flight_kept_def)
qed

lemma send_batch_flight:
  assumes ok: "queue_ok rest tx"
  shows "flight_kept tx (fst (melodi_core_send_batch memory running now_ms net melodi tx frames meta request))"
proof -
  let ?cap = "\<lambda>bytes. melodi_queue_capacity_locked memory tx net (tm_destination_locator meta) request (of_nat (length frames)) bytes"
  have q: "tx_queue tx1 = tx_queue tx" "tx_reservations tx1 = tx_reservations tx" if "?cap bytes = (tx1, namespace, result)" for bytes tx1 namespace result
    using that by (auto simp: melodi_queue_capacity_locked_def melodi_namespace_queue_get_def split: prod.splits option.splits if_splits)
  have t: "queue_tables tx" using ok by (simp add: queue_ok_def queue_books_def)
  show ?thesis
  proof (rule send_batch_cases [OF refl refl, where memory = memory and running = running and now_ms = now_ms and net = net and melodi = melodi and tx = tx and frames = frames and meta = meta and request = request], goal_cases)
    case 1
    then show ?case by (simp add: flight_kept_refl)
  next
    case (2 bytes tx1 namespace result)
    show ?case unfolding 2(2) using q(1) [OF 2(1)] by (intro flight_kept_refl) (simp add: queue_put_namespace_def split: option.split)
  next
    case (3 bytes tx1 namespace peer flow g x p i)
    have free: "queue_free_slots (length frames) tx1 = queue_free_slots (length frames) tx" using q(1) [OF 3(1)] by (simp add: queue_free_slots_def)
    show ?case unfolding 3(6) free using q [OF 3(1)] t
      by (intro flight_kept_batch) (simp_all add: queue_fill_def zero_queue_entry_def queue_tables_def)
  qed
qed

lemma send_batch_reserved_flight:
  assumes ok: "queue_ok rest tx"
  shows "flight_kept tx (fst (melodi_core_send_batch_reserved running melodi tx frames meta request reservation_id))"
proof (rule send_reserved_cases [OF refl, where running = running and melodi = melodi and tx = tx and frames = frames and meta = meta and request = request and reservation_id = reservation_id], goal_cases)
  case 1
  then show ?case by (simp add: flight_kept_refl)
next
  case (2 i bytes g x p f sp sb)
  have t: "queue_tables tx" using ok by (simp add: queue_ok_def queue_books_def)
  let ?tx0 = "tx\<lparr>tx_group_sequence := g, tx_reserved_count := tx_reserved_count tx - of_nat (length frames),
    tx_reserved_bytes := tx_reserved_bytes tx - bytes, tx_reservations := (tx_reservations tx)[i := zero_reservation]\<rparr>"
  have "queue_tables ?tx0" by (rule tables_clear(1) [OF t]) simp_all
  then have "flight_kept tx (fold (queue_insert None (queue_fill (rv_net (tx_reservations tx ! i)) meta request g x p f))
      (zip (queue_free_slots (length frames) tx) frames) ?tx0)"
    by (intro flight_kept_batch [OF t]) (simp_all add: queue_fill_def zero_queue_entry_def)
  then show ?case unfolding 2(7) by (simp add: flight_kept_def)
qed


subsection \<open>Cancelling and expiry\<close>

lemma queue_ok_length: "queue_ok rest tx \<Longrightarrow> length (tx_queue tx) = MELODI_TX_QUEUE_LIMIT"
  by (simp add: queue_ok_def queue_books_def queue_tables_def)

lemma queue_drop_ok: "queue_ok rest tx \<Longrightarrow> queue_ok rest (queue_drop tx)"
  by (rule queue_ok_cong) (simp_all add: same_counters_helpers)

lemma queue_expired_ok: "queue_ok rest tx \<Longrightarrow> queue_ok rest (tx\<lparr>tx_queue_expired := x\<rparr>)"
  by (rule queue_ok_cong) (simp_all add: same_counters_def)

lemma queue_cancel_entry_ok:
  assumes ok: "queue_ok rest (fst state)" and i: "i < MELODI_TX_QUEUE_LIMIT"
  shows "queue_ok rest (fst (queue_cancel_entry g rep owned i state))"
proof -
  obtain tx changed where s: "state = (tx, changed)" by (cases state)
  let ?e = "tx_queue tx ! i"
  have i': "i < length (tx_queue tx)" using queue_ok_length [OF ok] i s by simp
  have mark: "queue_ok rest (tx\<lparr>tx_queue := (tx_queue tx)[i := ?e\<lparr>qe_cancelled := True, qe_terminal_notified := True\<rparr>]\<rparr>)" if "qe_active ?e"
    by (rule store_entry_ok [OF ok [unfolded s fst_conv] i' that]) (use that in \<open>simp_all add: same_counters_def\<close>)
  have drop: "queue_ok rest (queue_drop (melodi_queue_remove_locked tx i))" if "qe_active ?e"
    using ok s that by (intro queue_drop_ok queue_remove_ok i') simp_all
  show ?thesis using ok mark drop by (simp add: s queue_cancel_entry_def Let_def)
qed

lemma cancel_group_ok:
  assumes ok: "queue_ok rest tx"
  shows "queue_ok rest (snd (fst (melodi_queue_cancel_group_locked melodi tx g owned error notice)))"
proof -
  have "queue_ok rest (fst (fold (queue_cancel_entry g rep owned) [0..<length (tx_queue tx)] (tx, False)))" for rep
    by (rule fold_invariant [where P = "\<lambda>s. queue_ok rest (fst s)" and Q = "\<lambda>i. i < MELODI_TX_QUEUE_LIMIT"])
      (use ok queue_ok_length [OF ok] in \<open>simp_all add: queue_cancel_entry_ok\<close>)
  then show ?thesis using ok by (auto simp: melodi_queue_cancel_group_locked_def Let_def split: option.split prod.split)
      (metis fst_conv)
qed

lemma queue_expire_ok:
  assumes ok: "queue_ok rest tx"
  shows "queue_ok rest (fst (melodi_queue_expire_locked now_ms tx notice))"
proof -
  have step: "queue_ok rest (fst (queue_expire_slot now_ms i s))" if ok: "queue_ok rest (fst s)" and i: "i < MELODI_TX_QUEUE_LIMIT" for i s
    using queue_expired_ok [OF queue_drop_ok [OF queue_remove_ok [OF ok]], of i] i queue_ok_length [OF ok] ok
    by (cases s) (simp add: queue_expire_slot_def Let_def)
  show ?thesis
    unfolding melodi_queue_expire_locked_def
    by (rule fold_invariant [where P = "\<lambda>s. queue_ok rest (fst s)" and Q = "\<lambda>i. i < MELODI_TX_QUEUE_LIMIT"])
      (use ok in \<open>simp_all add: step\<close>)
qed

lemma reservation_work_ok: "queue_ok rest tx \<Longrightarrow> queue_ok rest (fst (melodi_reservation_work now_ms number tx))"
proof (induction now_ms number tx rule: melodi_reservation_work.induct)
  case (1 now_ms number tx)
  show ?case
  proof (cases "find_slot (reservation_expired (now_ms number)) (tx_reservations tx)")
    case None
    then show ?thesis using 1 by (simp add: melodi_reservation_work.simps)
  next
    case (Some i)
    then have "queue_ok rest (melodi_reservation_remove_locked tx i)"
      using 1(2) by (intro reservation_remove_ok) (auto simp: find_slot_Some_iff reservation_expired_def)
    from 1(1) [OF Some refl refl queue_expired_ok [OF queue_drop_ok [OF this]]]
    show ?thesis unfolding melodi_reservation_work.simps [of now_ms number tx] by (auto simp: Some Let_def split: prod.splits)
  qed
qed

lemma queue_state_round_ok:
  assumes ok: "queue_ok rest tx" and round: "queue_state_round (melodi, tx) = Some ((melodi', tx'), notice)"
  shows "queue_ok rest tx'"
proof (cases "find_slot (reservation_invalid melodi) (tx_reservations tx)")
  case (Some i)
  then have "tx' = queue_drop (melodi_reservation_remove_locked tx i)" using round by (simp add: queue_state_round_def Let_def)
  moreover have "queue_ok rest (melodi_reservation_remove_locked tx i)"
    using Some ok by (intro reservation_remove_ok) (auto simp: find_slot_Some_iff reservation_invalid_def)
  ultimately show ?thesis by (simp add: queue_drop_ok)
next
  case None
  then obtain g error where "tx' = snd (fst (melodi_queue_cancel_group_locked melodi tx g None error None))"
    using round by (auto simp: queue_state_round_def Let_def split: option.splits prod.splits if_splits) (metis fst_conv snd_conv)
  then show ?thesis using cancel_group_ok [OF ok] by simp
qed

text \<open>Cancelling a group that the transmit work does not own keeps the entries in flight.\<close>

lemma queue_cancel_entry_flight: "flight_kept (fst state) (fst (queue_cancel_entry g rep None i state))"
proof -
  obtain tx changed where s: "state = (tx, changed)" by (cases state)
  let ?e = "tx_queue tx ! i"
  have mark: "flight_kept tx (tx\<lparr>tx_queue := (tx_queue tx)[i := ?e\<lparr>qe_cancelled := True, qe_terminal_notified := True\<rparr>]\<rparr>)"
    by (rule flight_kept_store [where i = i and e = "?e\<lparr>qe_cancelled := True, qe_terminal_notified := True\<rparr>"]) (auto simp: flight_def marked_def)
  have drop: "flight_kept tx (queue_drop (melodi_queue_remove_locked tx i))" if "qe_active ?e" "\<not> qe_in_flight ?e"
    by (rule flight_kept_remove [of _ _ i]) (use that in \<open>simp_all add: flight_def\<close>)
  have same: "flight_kept tx tx" by (simp add: flight_kept_refl)
  show ?thesis using mark drop same by (simp add: s queue_cancel_entry_def Let_def)
qed

lemma cancel_group_flight: "flight_kept tx (snd (fst (melodi_queue_cancel_group_locked melodi tx g None error notice)))"
proof -
  have "flight_kept tx (fst (fold (queue_cancel_entry g rep None) [0..<length (tx_queue tx)] (tx, False)))" for rep
    by (rule fold_invariant [where P = "\<lambda>s. flight_kept tx (fst s)" and Q = "\<lambda>_. True"])
      (auto intro: flight_kept_trans queue_cancel_entry_flight flight_kept_refl)
  then show ?thesis by (auto simp: melodi_queue_cancel_group_locked_def Let_def flight_kept_refl split: option.split prod.split)
      (metis fst_conv)
qed

lemma queue_state_round_flight:
  assumes round: "queue_state_round (melodi, tx) = Some ((melodi', tx'), notice)"
  shows "flight_kept tx tx'"
proof (cases "find_slot (reservation_invalid melodi) (tx_reservations tx)")
  case (Some i)
  then have "tx' = queue_drop (melodi_reservation_remove_locked tx i)" using round by (simp add: queue_state_round_def Let_def)
  then show ?thesis by (simp add: flight_kept_refl)
next
  case None
  then obtain g error where "tx' = snd (fst (melodi_queue_cancel_group_locked melodi tx g None error None))"
    using round by (auto simp: queue_state_round_def Let_def split: option.splits prod.splits if_splits) (metis fst_conv snd_conv)
  then show ?thesis using cancel_group_flight by simp
qed

lemma reservation_work_queue [simp]: "tx_queue (fst (melodi_reservation_work now_ms number tx)) = tx_queue tx"
proof (induction now_ms number tx rule: melodi_reservation_work.induct)
  case (1 now_ms number tx)
  show ?case
  proof (cases "find_slot (reservation_expired (now_ms number)) (tx_reservations tx)")
    case None
    then show ?thesis by (simp add: melodi_reservation_work.simps)
  next
    case (Some i)
    from 1 [OF Some refl refl] show ?thesis
      unfolding melodi_reservation_work.simps [of now_ms number tx] by (auto simp: Some Let_def split: prod.splits)
  qed
qed

lemma queue_expire_flight: "flight_kept tx (fst (melodi_queue_expire_locked now_ms tx notice))"
proof -
  have step: "flight_kept (fst s) (fst (queue_expire_slot now_ms i s))" for i s
    using flight_kept_remove [of "queue_drop (melodi_queue_remove_locked (fst s) i)" "fst s" i]
    by (cases s) (auto simp: queue_expire_slot_def Let_def flight_def flight_kept_def)
  show ?thesis
    unfolding melodi_queue_expire_locked_def
    by (rule fold_invariant [where P = "\<lambda>s. flight_kept tx (fst s)" and Q = "\<lambda>_. True"])
      (auto intro: flight_kept_trans step flight_kept_refl)
qed

end
