(* ===== verification/Queue_Scheduler.thy ===== *)
theory Queue_Scheduler
  imports Queue
begin

text \<open>
  The order in which the transmit work serves the queue: control frames first, in bursts; then the
  priorities by a weighted cycle, the peers and their flows by turns, and the frames of a flow in the
  order they were queued.
\<close>

subsection \<open>Scans for the least key\<close>

definition scan_prefix :: "('a \<Rightarrow> bool) \<Rightarrow> ('a \<Rightarrow> 'k :: linorder) \<Rightarrow> 'k \<Rightarrow> 'a list \<Rightarrow> nat \<Rightarrow> 'k \<times> nat option" where
  "scan_prefix P key bound xs n =
     fold (\<lambda>index (least, selected).
       if P (xs ! index) \<and> key (xs ! index) < least then (key (xs ! index), Some index) else (least, selected))
       [0..<n] (bound, None)"

lemma scan_prefix_Suc:
  "scan_prefix P key bound xs (Suc n) =
     (case scan_prefix P key bound xs n of (least, selected) \<Rightarrow>
        if P (xs ! n) \<and> key (xs ! n) < least then (key (xs ! n), Some n) else (least, selected))"
  by (simp add: scan_prefix_def split: prod.split)

lemma scan_prefix_least:
  assumes "scan_prefix P key bound xs n = (least, selected)"
  shows "\<forall>j<n. P (xs ! j) \<longrightarrow> least \<le> key (xs ! j)"
    and "case selected of None \<Rightarrow> least = bound | Some i \<Rightarrow> i < n \<and> P (xs ! i) \<and> least = key (xs ! i) \<and> least < bound"
  using assms
proof (induction n arbitrary: least selected)
  case 0
  { case 1 then show ?case by simp }
  { case 2 then show ?case by (auto simp: scan_prefix_def) }
next
  case (Suc n)
  obtain l s where p: "scan_prefix P key bound xs n = (l, s)" by (cases "scan_prefix P key bound xs n")
  note IH = Suc.IH [OF p]
  have le: "l \<le> bound" using IH(2) by (cases s) auto
  { case 1
    then show ?case using IH(1) p by (auto simp: scan_prefix_Suc less_Suc_eq split: if_splits) }
  { case 2
    then show ?case using IH(2) p le by (cases s) (auto simp: scan_prefix_Suc less_Suc_eq split: if_splits option.splits) }
qed

lemma scan_min_prefix: "scan_min P key bound xs = snd (scan_prefix P key bound xs (length xs))"
  by (simp add: scan_min_def scan_prefix_def)

lemma scan_minD:
  assumes "scan_min P key bound xs = Some i"
  shows "i < length xs" "P (xs ! i)" "key (xs ! i) < bound" "\<And>j. j < length xs \<Longrightarrow> P (xs ! j) \<Longrightarrow> key (xs ! i) \<le> key (xs ! j)"
  using scan_prefix_least [of P key bound xs "length xs"] assms
  by (cases "scan_prefix P key bound xs (length xs)"; auto simp: scan_min_prefix)+

lemma scan_min_None:
  assumes "scan_min P key bound xs = None" "j < length xs" "P (xs ! j)"
  shows "bound \<le> key (xs ! j)"
  using scan_prefix_least [of P key bound xs "length xs"] assms
  by (cases "scan_prefix P key bound xs (length xs)") (auto simp: scan_min_prefix)


subsection \<open>Peers and flows\<close>

abbreviation peer_turn :: "melodi_tx \<Rightarrow> melodi_tx_queue_entry \<Rightarrow> u64" where
  "peer_turn tx e \<equiv> pt_turn (tx_peers tx ! unat (qe_peer_index e))"

abbreviation flow_turn :: "melodi_tx \<Rightarrow> melodi_tx_queue_entry \<Rightarrow> u64" where
  "flow_turn tx e \<equiv> ft_turn (tx_flows tx ! unat (qe_flow_index e))"

text \<open>
  The frame to serve among those that are ready: no peer has an older turn, no flow of its peer has
  an older turn, and no frame of its flow was queued before it.
\<close>

definition served_next :: "melodi_tx \<Rightarrow> (melodi_tx_queue_entry \<Rightarrow> bool) \<Rightarrow> melodi_tx_queue_entry \<Rightarrow> bool" where
  "served_next tx ready e \<longleftrightarrow>
     list_all (\<lambda>e'. ready e' \<longrightarrow> peer_turn tx e \<le> peer_turn tx e' \<and>
       (qe_peer_index e' = qe_peer_index e \<longrightarrow> flow_turn tx e \<le> flow_turn tx e' \<and>
         (qe_flow_index e' = qe_flow_index e \<longrightarrow> qe_sequence e \<le> qe_sequence e'))) (tx_queue tx)"

lemma fst_key_le: "queue_peer_key tx e \<le> queue_peer_key tx e' \<Longrightarrow> peer_turn tx e \<le> peer_turn tx e'"
  "queue_flow_key tx e \<le> queue_flow_key tx e' \<Longrightarrow> flow_turn tx e \<le> flow_turn tx e'"
  by (auto simp: queue_peer_key_def queue_flow_key_def less_eq_prod_def)

lemma queue_chooseD:
  assumes "queue_choose tx now_ms priority = Some i"
  shows "i < length (tx_queue tx)" "queue_ready_data now_ms priority (tx_queue tx ! i)"
    "served_next tx (queue_ready_data now_ms priority) (tx_queue tx ! i)"
proof -
  let ?ready = "queue_ready_data now_ms priority" and ?q = "tx_queue tx"
  obtain p f where p: "scan_min ?ready (queue_peer_key tx) (QUEUE_U64_MAX, QUEUE_U64_MAX) ?q = Some p"
    and f: "scan_min (\<lambda>e. ?ready e \<and> qe_peer_index e = qe_peer_index (?q ! p)) (queue_flow_key tx) (QUEUE_U64_MAX, QUEUE_U64_MAX) ?q = Some f"
    and i: "scan_min (\<lambda>e. ?ready e \<and> qe_peer_index e = qe_peer_index (?q ! p) \<and> qe_flow_index e = qe_flow_index (?q ! f)) qe_sequence QUEUE_U64_MAX ?q = Some i"
    using assms by (auto simp: queue_choose_def Let_def split: option.splits)
  note P = scan_minD [OF p] and F = scan_minD [OF f] and I = scan_minD [OF i]
  show "i < length ?q" "?ready (?q ! i)" using I(1,2) by simp_all
  have "peer_turn tx (?q ! i) \<le> peer_turn tx (?q ! j)" if "j < length ?q" "?ready (?q ! j)" for j
    using fst_key_le(1) [OF P(4) [OF that]] I(2) by simp
  moreover have "flow_turn tx (?q ! i) \<le> flow_turn tx (?q ! j)"
    if "j < length ?q" "?ready (?q ! j)" "qe_peer_index (?q ! j) = qe_peer_index (?q ! i)" for j
    using fst_key_le(2) [OF F(4) [of j]] that I(2) by simp
  ultimately show "served_next tx ?ready (?q ! i)"
    using I(2,4) by (auto simp: served_next_def list_all_length)
qed

text \<open>A turn is newer than every other, also when the turns restart.\<close>

definition turns_ok :: "melodi_tx \<Rightarrow> bool" where
  "turns_ok tx \<longleftrightarrow> list_all (\<lambda>p. pt_turn p \<le> tx_scheduler_turn tx) (tx_peers tx) \<and> list_all (\<lambda>f. ft_turn f \<le> tx_scheduler_turn tx) (tx_flows tx)"

lemma take_turn_fields [simp]:
  "tx_queue (queue_take_turn p f tx) = tx_queue tx" "tx_reservations (queue_take_turn p f tx) = tx_reservations tx"
  "tx_namespaces (queue_take_turn p f tx) = tx_namespaces tx" "length (tx_peers (queue_take_turn p f tx)) = length (tx_peers tx)"
  "length (tx_flows (queue_take_turn p f tx)) = length (tx_flows tx)"
  by (simp_all add: queue_take_turn_def Let_def)

lemma turn_less: "x \<noteq> QUEUE_U64_MAX \<Longrightarrow> x < x + 1"
proof -
  assume "x \<noteq> QUEUE_U64_MAX"
  then have "unat x + 1 < 2 ^ 64" using unsigned_less [where ?'a = nat, of x] word_unat_eq_iff [of x QUEUE_U64_MAX] by simp
  then show "x < x + 1" using unat_add_lem [of x 1] by (simp add: word_less_nat_alt)
qed

lemma take_turn_newest:
  assumes "turns_ok tx"
  shows "turns_ok (queue_take_turn p f tx)"
    "unat p < length (tx_peers tx) \<Longrightarrow> k < length (tx_peers tx) \<Longrightarrow> k \<noteq> unat p \<Longrightarrow>
       pt_turn (tx_peers (queue_take_turn p f tx) ! k) < pt_turn (tx_peers (queue_take_turn p f tx) ! unat p)"
    "unat f < length (tx_flows tx) \<Longrightarrow> l < length (tx_flows tx) \<Longrightarrow> l \<noteq> unat f \<Longrightarrow>
       ft_turn (tx_flows (queue_take_turn p f tx) ! l) < ft_turn (tx_flows (queue_take_turn p f tx) ! unat f)"
proof -
  define t where "t = (if tx_scheduler_turn tx = QUEUE_U64_MAX
     then tx\<lparr>tx_peers := map (\<lambda>p. p\<lparr>pt_turn := 0\<rparr>) (tx_peers tx), tx_flows := map (\<lambda>f. f\<lparr>ft_turn := 0\<rparr>) (tx_flows tx), tx_scheduler_turn := 0\<rparr> else tx)"
  have eq: "queue_take_turn p f tx = t\<lparr>tx_scheduler_turn := tx_scheduler_turn t + 1,
      tx_peers := (tx_peers t)[unat p := (tx_peers t ! unat p)\<lparr>pt_turn := tx_scheduler_turn t + 1\<rparr>],
      tx_flows := (tx_flows t)[unat f := (tx_flows t ! unat f)\<lparr>ft_turn := tx_scheduler_turn t + 1\<rparr>]\<rparr>"
    by (simp add: queue_take_turn_def t_def Let_def)
  have ok: "turns_ok t" using assms by (auto simp: turns_ok_def t_def list_all_iff)
  have len: "length (tx_peers t) = length (tx_peers tx)" "length (tx_flows t) = length (tx_flows tx)" by (simp_all add: t_def)
  have "tx_scheduler_turn t \<noteq> QUEUE_U64_MAX" by (simp add: t_def)
  then have less: "tx_scheduler_turn t < tx_scheduler_turn t + 1" by (rule turn_less)
  then have up: "x < tx_scheduler_turn t + 1" "x \<le> tx_scheduler_turn t + 1" if "x \<le> tx_scheduler_turn t" for x
    using that by simp_all
  have old: "pt_turn (tx_peers t ! k) \<le> tx_scheduler_turn t" if "k < length (tx_peers t)" for k
    using ok that by (simp add: turns_ok_def list_all_length)
  have oldf: "ft_turn (tx_flows t ! l) \<le> tx_scheduler_turn t" if "l < length (tx_flows t)" for l
    using ok that by (simp add: turns_ok_def list_all_length)
  show "turns_ok (queue_take_turn p f tx)"
    unfolding eq turns_ok_def using old oldf up
    by (auto simp: list_all_length nth_list_update_if)
  show "pt_turn (tx_peers (queue_take_turn p f tx) ! k) < pt_turn (tx_peers (queue_take_turn p f tx) ! unat p)"
    if "unat p < length (tx_peers tx)" "k < length (tx_peers tx)" "k \<noteq> unat p"
    using that old up(1) len by (simp add: eq)
  show "ft_turn (tx_flows (queue_take_turn p f tx) ! l) < ft_turn (tx_flows (queue_take_turn p f tx) ! unat f)"
    if "unat f < length (tx_flows tx)" "l < length (tx_flows tx)" "l \<noteq> unat f"
    using that oldf up(1) len by (simp add: eq)
qed


subsection \<open>Selection\<close>

lemma priority_cycle_length [simp]: "length melodi_priority_cycle = 15"
  by (simp add: melodi_priority_cycle_def)

text \<open>The priority served is the first of the cycle, from the current slot on, with a frame that is ready.\<close>

lemma find_upt: "find P [0..<n] = Some k \<longleftrightarrow> k < n \<and> P k \<and> (\<forall>j<k. \<not> P j)"
  by (auto simp: find_Some_iff)

lemma queue_priorityD:
  assumes "melodi_queue_priority tx now_ms = Some (tx', priority)"
  obtains cycle where "cycle < 15" "priority = melodi_priority_cycle ! priority_slot tx cycle" "list_ex (queue_ready_data now_ms priority) (tx_queue tx)"
    "\<forall>earlier<cycle. \<not> list_ex (queue_ready_data now_ms (melodi_priority_cycle ! priority_slot tx earlier)) (tx_queue tx)"
    "tx' = tx\<lparr>tx_priority_slot := of_nat ((priority_slot tx cycle + 1) mod 15)\<rparr>"
  using assms by (auto simp: melodi_queue_priority_def find_upt split: option.splits)

lemma served_next_slot [simp]: "served_next (tx\<lparr>tx_priority_slot := s\<rparr>) = served_next tx"
  by (simp add: served_next_def fun_eq_iff)

lemma queue_choose_slot [simp]: "queue_choose (tx\<lparr>tx_priority_slot := s\<rparr>) = queue_choose tx"
proof -
  have same: "queue_peer_key (tx\<lparr>tx_priority_slot := s\<rparr>) = queue_peer_key tx" "queue_flow_key (tx\<lparr>tx_priority_slot := s\<rparr>) = queue_flow_key tx"
    "tx_queue (tx\<lparr>tx_priority_slot := s\<rparr>) = tx_queue tx"
    by (simp_all add: queue_peer_key_def queue_flow_key_def fun_eq_iff)
  show ?thesis by (intro ext) (unfold queue_choose_def same, rule refl)
qed

lemma queue_dataD:
  assumes "melodi_queue_data tx now_ms = (tx', Some i)"
  obtains priority s where "melodi_queue_priority tx now_ms = Some (tx\<lparr>tx_priority_slot := s\<rparr>, priority)"
    "i < length (tx_queue tx)" "queue_ready_data now_ms priority (tx_queue tx ! i)"
    "served_next tx (queue_ready_data now_ms priority) (tx_queue tx ! i)"
    "tx' = queue_take_turn (qe_peer_index (tx_queue tx ! i)) (qe_flow_index (tx_queue tx ! i)) (tx\<lparr>tx_priority_slot := s\<rparr>)"
proof -
  obtain tx1 priority where p: "melodi_queue_priority tx now_ms = Some (tx1, priority)" and c: "queue_choose tx1 now_ms priority = Some i"
    and tx': "tx' = queue_take_turn (qe_peer_index (tx_queue tx1 ! i)) (qe_flow_index (tx_queue tx1 ! i)) tx1"
    using assms by (auto simp: melodi_queue_data_def split: option.splits)
  obtain s where s: "tx1 = tx\<lparr>tx_priority_slot := s\<rparr>" using queue_priorityD [OF p] by metis
  show thesis by (rule that [OF p [unfolded s]]) (use queue_chooseD [OF c] s tx' in simp_all)
qed

lemma queue_data_None:
  assumes "melodi_queue_data tx now_ms = (tx', None)"
  shows "tx_queue tx' = tx_queue tx" "tx_namespaces tx' = tx_namespaces tx" "tx_reservations tx' = tx_reservations tx"
  using assms by (auto simp: melodi_queue_data_def melodi_queue_priority_def split: option.splits prod.splits)

lemma u64_le_max: "x \<le> QUEUE_U64_MAX"
  using unsigned_less [where ?'a = nat, of x] by (simp add: word_le_nat_alt)

lemma sequence_bound: "(QUEUE_U64_MAX, QUEUE_U64_MAX) \<le> (a, b :: u64) \<Longrightarrow> b = QUEUE_U64_MAX" for a :: u64
  using u64_le_max [of a] u64_le_max [of b] by (auto simp: less_eq_prod_def)

text \<open>As long as sequence numbers last, a data frame that is ready is served.\<close>

lemma queue_choose_Some:
  assumes "j < length (tx_queue tx)" "queue_ready_data now_ms priority (tx_queue tx ! j)"
    and lasts: "\<And>e. e \<in> set (tx_queue tx) \<Longrightarrow> qe_active e \<Longrightarrow> qe_sequence e \<noteq> QUEUE_U64_MAX"
  shows "queue_choose tx now_ms priority \<noteq> None"
proof -
  let ?ready = "queue_ready_data now_ms priority" and ?q = "tx_queue tx"
  have seq: "qe_sequence (?q ! k) \<noteq> QUEUE_U64_MAX" if "k < length ?q" "?ready (?q ! k)" for k
    using lasts [OF nth_mem [OF that(1)]] that(2) by (simp add: queue_ready_data_def queue_ready_def)
  have "scan_min ?ready (queue_peer_key tx) (QUEUE_U64_MAX, QUEUE_U64_MAX) ?q \<noteq> None"
  proof
    assume "scan_min ?ready (queue_peer_key tx) (QUEUE_U64_MAX, QUEUE_U64_MAX) ?q = None"
    from scan_min_None [OF this assms(1,2)] show False using seq [OF assms(1,2)] sequence_bound unfolding queue_peer_key_def by blast
  qed
  then obtain p where p: "scan_min ?ready (queue_peer_key tx) (QUEUE_U64_MAX, QUEUE_U64_MAX) ?q = Some p" by auto
  note P = scan_minD(1,2) [OF p]
  let ?peer = "\<lambda>e. ?ready e \<and> qe_peer_index e = qe_peer_index (?q ! p)"
  have "scan_min ?peer (queue_flow_key tx) (QUEUE_U64_MAX, QUEUE_U64_MAX) ?q \<noteq> None"
  proof
    assume "scan_min ?peer (queue_flow_key tx) (QUEUE_U64_MAX, QUEUE_U64_MAX) ?q = None"
    from scan_min_None [OF this P(1)] show False using P(2) seq [OF P] sequence_bound unfolding queue_flow_key_def by blast
  qed
  then obtain f where f: "scan_min ?peer (queue_flow_key tx) (QUEUE_U64_MAX, QUEUE_U64_MAX) ?q = Some f" by auto
  note F = scan_minD(1,2) [OF f]
  let ?flow = "\<lambda>e. ?ready e \<and> qe_peer_index e = qe_peer_index (?q ! p) \<and> qe_flow_index e = qe_flow_index (?q ! f)"
  have "scan_min ?flow qe_sequence QUEUE_U64_MAX ?q \<noteq> None"
  proof
    assume "scan_min ?flow qe_sequence QUEUE_U64_MAX ?q = None"
    from scan_min_None [OF this F(1)] show False using F(2) seq [OF F(1)] u64_le_max [of "qe_sequence (?q ! f)"] by auto
  qed
  then show ?thesis using p f by (simp add: queue_choose_def Let_def)
qed


definition queue_indices :: "melodi_tx \<Rightarrow> bool" where
  "queue_indices tx \<longleftrightarrow> list_all (\<lambda>e. qe_active e \<longrightarrow> qe_sequence e \<noteq> QUEUE_U64_MAX \<and>
     (\<not> qe_control e \<longrightarrow> qe_priority e \<le> MELODI_PRIORITY_MAX \<and>
       unat (qe_peer_index e) < length (tx_peers tx) \<and> unat (qe_flow_index e) < length (tx_flows tx))) (tx_queue tx)"

definition newest_turn :: "melodi_tx \<Rightarrow> melodi_tx_queue_entry \<Rightarrow> bool" where
  "newest_turn tx e \<longleftrightarrow>
     list_all (\<lambda>k. k \<noteq> unat (qe_peer_index e) \<longrightarrow> pt_turn (tx_peers tx ! k) < peer_turn tx e) [0..<length (tx_peers tx)] \<and>
     list_all (\<lambda>k. k \<noteq> unat (qe_flow_index e) \<longrightarrow> ft_turn (tx_flows tx ! k) < flow_turn tx e) [0..<length (tx_flows tx)]"

lemma cycle_distance: "(n + (k + 15 - n mod 15) mod 15) mod 15 = k" if "k < 15" for n k :: nat
proof -
  have shift: "a * 15 + r + (k + 15 - r) = k + 15 * (a + 1)" if "r < 15" for a r :: nat using that by simp
  have "n + (k + 15 - n mod 15) = k + 15 * (n div 15 + 1)" using shift [of "n mod 15" "n div 15"] by simp
  then have "(n + (k + 15 - n mod 15)) mod 15 = k" using that by (simp only: mod_mult_self2 mod_less)
  then show ?thesis by (simp only: mod_add_right_eq)
qed

lemma priority_in_cycle:
  assumes "priority \<le> MELODI_PRIORITY_MAX"
  obtains cycle where "cycle < 15" "melodi_priority_cycle ! priority_slot tx cycle = priority"
proof -
  have "priority \<in> {0, 1, 2, 3}" using assms by (auto simp: word_le_nat_alt word_unat_eq_iff)
  then have "priority \<in> set melodi_priority_cycle" by (auto simp: melodi_priority_cycle_def)
  then obtain k where k: "k < 15" "melodi_priority_cycle ! k = priority" by (auto simp: in_set_conv_nth)
  let ?c = "(k + 15 - unat (tx_priority_slot tx) mod 15) mod 15"
  have "priority_slot tx ?c = k" unfolding priority_slot_def priority_cycle_length by (rule cycle_distance [OF k(1)])
  then show thesis using that [of ?c] k(2) by simp
qed

lemma queue_data_conserving:
  assumes "queue_indices tx" "melodi_queue_data tx now_ms = (tx', None)" "e \<in> set (tx_queue tx)"
  shows "\<not> (queue_ready now_ms e \<and> \<not> qe_control e)"
proof
  assume e: "queue_ready now_ms e \<and> \<not> qe_control e"
  have act: "qe_active e" using e by (simp add: queue_ready_def)
  have ind: "qe_priority e \<le> MELODI_PRIORITY_MAX" "\<And>e. e \<in> set (tx_queue tx) \<Longrightarrow> qe_active e \<Longrightarrow> qe_sequence e \<noteq> QUEUE_U64_MAX"
    using assms(1,3) e act by (auto simp: queue_indices_def list_all_iff)
  obtain cycle where c: "cycle < 15" "melodi_priority_cycle ! priority_slot tx cycle = qe_priority e" by (rule priority_in_cycle [OF ind(1)])
  have "list_ex (queue_ready_data now_ms (qe_priority e)) (tx_queue tx)" using e assms(3) by (auto simp: list_ex_iff queue_ready_data_def)
  then have "melodi_queue_priority tx now_ms \<noteq> None"
    using c by (auto simp: melodi_queue_priority_def find_None_iff split: option.splits)
  then obtain tx1 priority where p: "melodi_queue_priority tx now_ms = Some (tx1, priority)" by auto
  obtain s where s: "list_ex (queue_ready_data now_ms priority) (tx_queue tx)" "tx1 = tx\<lparr>tx_priority_slot := s\<rparr>" using queue_priorityD [OF p] by metis
  obtain j where j: "j < length (tx_queue tx)" "queue_ready_data now_ms priority (tx_queue tx ! j)" using s(1) by (auto simp: list_ex_length)
  have "queue_choose tx now_ms priority \<noteq> None" by (rule queue_choose_Some [OF j ind(2)])
  then show False using assms(2) p s(2) by (auto simp: melodi_queue_data_def split: option.splits)
qed


lemma queue_select_control:
  assumes "melodi_queue_oldest_control tx now_ms = Some i"
  shows "i < length (tx_queue tx)" "queue_ready now_ms (tx_queue tx ! i)" "qe_control (tx_queue tx ! i)"
    "list_all (\<lambda>e'. queue_ready now_ms e' \<and> qe_control e' \<longrightarrow> qe_sequence (tx_queue tx ! i) \<le> qe_sequence e') (tx_queue tx)"
  using scan_minD [OF assms [unfolded melodi_queue_oldest_control_def]] by (simp_all add: list_all_length)

lemma queue_select_no_control:
  assumes "queue_indices tx" "melodi_queue_oldest_control tx now_ms = None"
  shows "\<not> list_ex (\<lambda>e. queue_ready now_ms e \<and> qe_control e) (tx_queue tx)"
proof
  assume "list_ex (\<lambda>e. queue_ready now_ms e \<and> qe_control e) (tx_queue tx)"
  then obtain j where j: "j < length (tx_queue tx)" "queue_ready now_ms (tx_queue tx ! j) \<and> qe_control (tx_queue tx ! j)"
    by (auto simp: list_ex_length)
  have "QUEUE_U64_MAX \<le> qe_sequence (tx_queue tx ! j)"
    using scan_min_None [OF assms(2) [unfolded melodi_queue_oldest_control_def] j] .
  then have "qe_sequence (tx_queue tx ! j) = QUEUE_U64_MAX" using u64_le_max [of "qe_sequence (tx_queue tx ! j)"] by simp
  then show False using assms(1) j by (auto simp: queue_indices_def list_all_length queue_ready_def)
qed

lemma queue_data_serves:
  assumes ok: "turns_ok tx" "queue_indices tx" and d: "melodi_queue_data tx now_ms = (tx', Some i)"
  shows "i < length (tx_queue tx)" "queue_ready now_ms (tx_queue tx ! i)" "\<not> qe_control (tx_queue tx ! i)" "tx_queue tx' = tx_queue tx"
    "served_next tx (queue_ready_data now_ms (qe_priority (tx_queue tx ! i))) (tx_queue tx ! i)" "turns_ok tx'" "newest_turn tx' (tx_queue tx ! i)"
proof -
  let ?e = "tx_queue tx ! i"
  obtain priority s where p: "i < length (tx_queue tx)" "queue_ready_data now_ms priority ?e" "served_next tx (queue_ready_data now_ms priority) ?e"
    "tx' = queue_take_turn (qe_peer_index ?e) (qe_flow_index ?e) (tx\<lparr>tx_priority_slot := s\<rparr>)"
    by (rule queue_dataD [OF d])
  show i: "i < length (tx_queue tx)" and r: "queue_ready now_ms ?e" "\<not> qe_control ?e" and "tx_queue tx' = tx_queue tx"
    "served_next tx (queue_ready_data now_ms (qe_priority ?e)) ?e"
    using p by (simp_all add: queue_ready_data_def)
  have t: "turns_ok (tx\<lparr>tx_priority_slot := s\<rparr>)" using ok(1) by (simp add: turns_ok_def)
  have ind: "unat (qe_peer_index ?e) < length (tx_peers tx)" "unat (qe_flow_index ?e) < length (tx_flows tx)"
    using ok(2) i r by (auto simp: queue_indices_def list_all_length queue_ready_def)
  show "turns_ok tx'" unfolding p(4) by (rule take_turn_newest(1) [OF t])
  show "newest_turn tx' ?e"
    using take_turn_newest(2,3) [OF t, where p = "qe_peer_index ?e" and f = "qe_flow_index ?e"] ind by (simp add: newest_turn_def p(4) list_all_iff)
qed

text \<open>
  C7. The selection of the transmit work: a control frame that is ready is taken before data, the
  oldest first, until eight in a row have been sent; then data goes first. Of the data frames of the
  priority served, the one taken belongs to the peer served least recently, to the flow of that peer
  served least recently, and is the oldest frame of that flow; its peer and flow then have the newest
  turn. Nothing is selected only when nothing is ready.
\<close>

theorem queue_select_order:
  assumes "turns_ok tx" "queue_indices tx" "queue_select now_ms tx = (tx', selected)"
  shows "tx_queue tx' = tx_queue tx \<and>
    (case selected of
       None \<Rightarrow> list_all (\<lambda>e. \<not> queue_ready now_ms e) (tx_queue tx)
     | Some i \<Rightarrow> i < length (tx_queue tx) \<and> queue_ready now_ms (tx_queue tx ! i) \<and> turns_ok tx' \<and>
         (if qe_control (tx_queue tx ! i)
          then list_all (\<lambda>e. queue_ready now_ms e \<and> qe_control e \<longrightarrow> qe_sequence (tx_queue tx ! i) \<le> qe_sequence e) (tx_queue tx) \<and>
            (tx_control_burst tx < MELODI_TX_CONTROL_BURST \<or> list_all (\<lambda>e. \<not> (queue_ready now_ms e \<and> \<not> qe_control e)) (tx_queue tx))
          else (\<not> tx_control_burst tx < MELODI_TX_CONTROL_BURST \<or> \<not> list_ex (\<lambda>e. queue_ready now_ms e \<and> qe_control e) (tx_queue tx)) \<and>
            served_next tx (queue_ready_data now_ms (qe_priority (tx_queue tx ! i))) (tx_queue tx ! i) \<and> newest_turn tx' (tx_queue tx ! i)))"
proof (cases "melodi_queue_oldest_control tx now_ms \<noteq> None \<and> tx_control_burst tx < MELODI_TX_CONTROL_BURST")
  case True
  then obtain i where i: "melodi_queue_oldest_control tx now_ms = Some i" by auto
  have "tx' = tx" "selected = Some i" using assms(3) True i by (auto simp: queue_select_def Let_def)
  then show ?thesis using queue_select_control [OF i] assms(1) True by simp
next
  case False
  obtain tx1 data where d: "melodi_queue_data tx now_ms = (tx1, data)" by (cases "melodi_queue_data tx now_ms")
  show ?thesis
  proof (cases data)
    case (Some i)
    have "tx' = tx1" "selected = Some i" using assms(3) False d Some by (auto simp: queue_select_def Let_def)
    then show ?thesis
      using queue_data_serves [OF assms(1,2) d [unfolded Some]] False queue_select_no_control [OF assms(2), of now_ms] by auto
  next
    case None
    have tx': "tx' = tx1" "selected = melodi_queue_oldest_control tx now_ms" using assms(3) False d None by (auto simp: queue_select_def Let_def)
    have no: "list_all (\<lambda>e. \<not> (queue_ready now_ms e \<and> \<not> qe_control e)) (tx_queue tx)"
      using queue_data_conserving [OF assms(2) d [unfolded None]] by (simp add: list_all_iff)
    have t: "tx_queue tx1 = tx_queue tx" "turns_ok tx1" using d None assms(1) by (auto simp: melodi_queue_data_def melodi_queue_priority_def turns_ok_def split: option.splits prod.splits)
    show ?thesis
    proof (cases selected)
      case None
      then have "\<not> list_ex (\<lambda>e. queue_ready now_ms e \<and> qe_control e) (tx_queue tx)" using queue_select_no_control [OF assms(2)] tx'(2) by simp
      then show ?thesis using None no t tx' by (auto simp: list_all_iff list_ex_iff)
    next
      case (Some i)
      then show ?thesis using queue_select_control [of tx now_ms i] tx' no t by simp
    qed
  qed
qed


subsection \<open>The cycle of priorities\<close>

lemma priority_slot_next:
  assumes "tx_priority_slot tx' = of_nat ((priority_slot tx cycle + 1) mod 15)" "cycle < d"
  shows "priority_slot tx' (d - Suc cycle) = priority_slot tx d"
proof -
  let ?n = "unat (tx_priority_slot tx)"
  have "unat (tx_priority_slot tx') = (priority_slot tx cycle + 1) mod 15"
    unfolding assms(1) by (simp add: unat_of_nat)
  then have "priority_slot tx' (d - Suc cycle) = (((?n + cycle) mod 15 + 1) mod 15 + (d - Suc cycle)) mod 15"
    by (simp add: priority_slot_def)
  also have "\<dots> = (?n + cycle + 1 + (d - Suc cycle)) mod 15" by (simp only: mod_add_left_eq)
  also have "?n + cycle + 1 + (d - Suc cycle) = ?n + d" using assms(2) by simp
  finally show ?thesis by (simp add: priority_slot_def)
qed

lemma priority_within:
  assumes picks: "\<And>k. k < n \<Longrightarrow> melodi_queue_priority (tx k) (now k) = Some (after k, served k)"
    and slots: "\<And>k. Suc k < n \<Longrightarrow> tx_priority_slot (tx (Suc k)) = tx_priority_slot (after k)"
    and ready: "\<And>k. k < n \<Longrightarrow> list_ex (queue_ready_data (now k) priority) (tx_queue (tx k))"
  shows "k + d < n \<Longrightarrow> melodi_priority_cycle ! priority_slot (tx k) d = priority \<Longrightarrow> \<exists>j \<le> k + d. served j = priority"
proof (induction d arbitrary: k rule: less_induct)
  case (less d)
  have k: "k < n" using less.prems by simp
  obtain cycle where c: "served k = melodi_priority_cycle ! priority_slot (tx k) cycle"
      "\<forall>earlier<cycle. \<not> list_ex (queue_ready_data (now k) (melodi_priority_cycle ! priority_slot (tx k) earlier)) (tx_queue (tx k))"
      "after k = (tx k)\<lparr>tx_priority_slot := of_nat ((priority_slot (tx k) cycle + 1) mod 15)\<rparr>"
    by (rule queue_priorityD [OF picks [OF k]])
  have "\<not> d < cycle" using c(2) ready [OF k] less.prems(2) by auto
  then consider "cycle = d" | "cycle < d" by linarith
  then show ?case
  proof cases
    case 1
    then show ?thesis using c(1) less.prems(2) by (intro exI [of _ k]) simp
  next
    case 2
    have "tx_priority_slot (tx (Suc k)) = of_nat ((priority_slot (tx k) cycle + 1) mod 15)"
      using slots [of k] less.prems(1) 2 c(3) by simp
    from priority_slot_next [OF this 2] have "melodi_priority_cycle ! priority_slot (tx (Suc k)) (d - Suc cycle) = priority"
      using less.prems(2) by simp
    moreover have le: "Suc k + (d - Suc cycle) < n" "d - Suc cycle < d" using less.prems(1) 2 by linarith+
    ultimately obtain j where j: "j \<le> Suc k + (d - Suc cycle)" "served j = priority"
      using less.IH [OF le(2) le(1)] by blast
    have "Suc k + (d - Suc cycle) \<le> k + d" using 2 by simp
    then show ?thesis using j le_trans by blast
  qed
qed

text \<open>
  C8. No priority starves: if a frame of a valid priority is ready at each of fifteen
  selections of data in a row, one of them serves that priority, whatever else is queued.
\<close>

theorem priority_no_starvation:
  assumes "priority \<le> MELODI_PRIORITY_MAX"
    and "\<And>k. k < 15 \<Longrightarrow> melodi_queue_priority (tx k) (now k) = Some (after k, served k)"
    and "\<And>k. Suc k < 15 \<Longrightarrow> tx_priority_slot (tx (Suc k)) = tx_priority_slot (after k)"
    and "\<And>k. k < 15 \<Longrightarrow> list_ex (queue_ready_data (now k) priority) (tx_queue (tx k))"
  shows "\<exists>k<15. served k = priority"
proof -
  obtain d where d: "d < 15" "melodi_priority_cycle ! priority_slot (tx 0) d = priority" by (rule priority_in_cycle [OF assms(1)])
  then obtain j where "j \<le> d" "served j = priority" using priority_within [where n = 15 and tx = tx and now = now and after = after and served = served and priority = priority and k = 0 and d = d, OF assms(2,3,4)] by auto
  then show ?thesis using d(1) by (intro exI [of _ j]) simp
qed


definition waiting_data :: "u8 \<Rightarrow> u64 \<Rightarrow> melodi_tx_queue_entry" where
  "waiting_data priority sequence = zero_queue_entry\<lparr>qe_priority := priority, qe_sequence := sequence, qe_active := True\<rparr>"

definition waiting_cycle :: "nat \<Rightarrow> melodi_tx" where
  "waiting_cycle k = zero_tx\<lparr>tx_queue := [waiting_data 0 1, waiting_data 1 2, waiting_data 2 3, waiting_data 3 4], tx_priority_slot := of_nat k\<rparr>"

lemma waiting_cycle_priority:
  assumes "k < 15"
  shows "melodi_queue_priority (waiting_cycle k) 0 = Some (waiting_cycle ((k + 1) mod 15), melodi_priority_cycle ! k)"
proof -
  have slot: "priority_slot (waiting_cycle k) 0 = k" using assms by (simp add: priority_slot_def waiting_cycle_def unat_of_nat)
  have "set melodi_priority_cycle \<subseteq> {0, 1, 2, 3}" by (simp add: melodi_priority_cycle_def)
  then have "melodi_priority_cycle ! k \<in> {0, 1, 2, 3}" using nth_mem [of k melodi_priority_cycle] assms unfolding priority_cycle_length by blast
  then have "list_ex (queue_ready_data 0 (melodi_priority_cycle ! k)) (tx_queue (waiting_cycle k))"
    by (auto simp: waiting_cycle_def waiting_data_def zero_queue_entry_def queue_ready_data_def queue_ready_def)
  then have "find (\<lambda>cycle. list_ex (queue_ready_data 0 (melodi_priority_cycle ! priority_slot (waiting_cycle k) cycle)) (tx_queue (waiting_cycle k)))
      [0..<length melodi_priority_cycle] = Some 0"
    by (simp add: find_upt slot)
  then show ?thesis by (simp add: melodi_queue_priority_def slot) (simp add: waiting_cycle_def)
qed

theorem priority_no_starvation_witness:
  "\<exists>k<15. map_option snd (melodi_queue_priority (waiting_cycle k) 0) = Some 3"
proof -
  have "\<exists>k<15. melodi_priority_cycle ! k = (3 :: u8)"
    by (rule priority_no_starvation [where priority = 3 and tx = waiting_cycle and now = "\<lambda>_. 0" and after = "\<lambda>k. waiting_cycle ((k + 1) mod 15)"
          and served = "\<lambda>k. melodi_priority_cycle ! k"])
      (simp_all add: waiting_cycle_priority,
       simp_all add: waiting_cycle_def waiting_data_def zero_queue_entry_def queue_ready_data_def queue_ready_def)
  then show ?thesis using waiting_cycle_priority by auto
qed

theorem queue_select_order_witness:
  "snd (queue_select 5 (zero_tx\<lparr>tx_queue := [waiting_data 2 7, waiting_data 2 3]\<rparr>)) = Some 1 \<and>
   served_next (zero_tx\<lparr>tx_queue := [waiting_data 2 7, waiting_data 2 3]\<rparr>) (queue_ready_data 5 2) (waiting_data 2 3)"
proof -
  let ?tx = "zero_tx\<lparr>tx_queue := [waiting_data 2 7, waiting_data 2 3]\<rparr>"
  have sel: "snd (queue_select 5 ?tx) = Some 1" by code_simp
  have ok: "turns_ok ?tx" "queue_indices ?tx" by code_simp+
  show ?thesis
    using queue_select_order [OF ok, of 5 "fst (queue_select 5 ?tx)" "Some 1"] sel
    by (cases "queue_select 5 ?tx") (simp add: waiting_data_def zero_queue_entry_def)
qed

end
