(* ===== verification/Queue_System.thy ===== *)
theory Queue_System
  imports Queue_Steps Queue_Scheduler
begin

text \<open>
  The transmit queues of a machine as a transition system. The sections of the transmit work are
  separate steps, between which the other operations on the queue run; the devices take turns in any
  order and share the accounting of the namespaces.
\<close>

subsection \<open>The sections of the transmit work\<close>

lemma queue_ok_same:
  "queue_ok rest tx \<Longrightarrow> same_counters tx tx' \<Longrightarrow> tx_namespaces tx' = tx_namespaces tx \<Longrightarrow> tx_queue tx' = tx_queue tx \<Longrightarrow>
     tx_reservations tx' = tx_reservations tx \<Longrightarrow> queue_ok rest tx'"
  by (rule queue_ok_cong)

lemma take_turn_counters: "same_counters tx (queue_take_turn p f tx)"
  by (simp add: same_counters_def queue_take_turn_def Let_def)

text \<open>What selection keeps, and that the entry selected is active and not in flight.\<close>

lemma queue_data_keeps:
  "tx_queue (fst (melodi_queue_data tx now_ms)) = tx_queue tx" "tx_reservations (fst (melodi_queue_data tx now_ms)) = tx_reservations tx"
  "tx_namespaces (fst (melodi_queue_data tx now_ms)) = tx_namespaces tx" "same_counters tx (fst (melodi_queue_data tx now_ms))"
  using take_turn_counters
  by (auto simp: melodi_queue_data_def melodi_queue_priority_def same_counters_def split: option.split prod.split)

lemma queue_select_keeps:
  assumes "queue_select now_ms tx = (tx', selected)"
  shows "tx_queue tx' = tx_queue tx" "tx_reservations tx' = tx_reservations tx" "tx_namespaces tx' = tx_namespaces tx" "same_counters tx tx'"
    "selected = Some i \<Longrightarrow> i < length (tx_queue tx) \<and> qe_active (tx_queue tx ! i) \<and> \<not> qe_in_flight (tx_queue tx ! i)"
proof -
  obtain tx1 data where d: "melodi_queue_data tx now_ms = (tx1, data)" by (cases "melodi_queue_data tx now_ms")
  have c: "same_counters tx tx" by (simp add: same_counters_def)
  consider "tx' = tx" "selected = melodi_queue_oldest_control tx now_ms" | "tx' = tx1" "selected = data" "data \<noteq> None"
    | "tx' = tx1" "selected = melodi_queue_oldest_control tx now_ms"
    using assms d by (cases data) (auto simp: queue_select_def Let_def split: if_splits)
  note cases = this
  show "tx_queue tx' = tx_queue tx" "tx_reservations tx' = tx_reservations tx" "tx_namespaces tx' = tx_namespaces tx" "same_counters tx tx'"
    using cases queue_data_keeps [of tx now_ms] d c by (cases; simp)+
  assume i: "selected = Some i"
  from cases show "i < length (tx_queue tx) \<and> qe_active (tx_queue tx ! i) \<and> \<not> qe_in_flight (tx_queue tx ! i)"
  proof cases
    case 2
    then have "melodi_queue_data tx now_ms = (tx1, Some i)" using d i by simp
    then show ?thesis by (rule queue_dataD) (simp add: queue_ready_data_def queue_ready_def)
  qed (use i queue_select_control [of tx now_ms i] in \<open>simp_all add: queue_ready_def\<close>)
qed


definition flight_none :: "melodi_tx \<Rightarrow> bool" where
  "flight_none tx \<longleftrightarrow> (\<forall>j < length (tx_queue tx). \<not> flight (tx_queue tx ! j))"

definition flight_only :: "nat \<Rightarrow> melodi_tx \<Rightarrow> bool" where
  "flight_only i tx \<longleftrightarrow> i < length (tx_queue tx) \<and> flight (tx_queue tx ! i) \<and> (\<forall>j < length (tx_queue tx). j \<noteq> i \<longrightarrow> \<not> flight (tx_queue tx ! j))"

lemma flight_none_kept: "flight_none tx \<Longrightarrow> flight_kept tx tx' \<Longrightarrow> flight_none tx'"
  unfolding flight_none_def flight_kept_def by auto

lemma flight_only_kept: "flight_only i tx \<Longrightarrow> flight_kept tx tx' \<Longrightarrow> flight_only i tx'"
  unfolding flight_only_def flight_kept_def using marked_flight by auto

lemma flight_only_release:
  assumes "flight_only i tx" "length (tx_queue tx') = length (tx_queue tx)" "\<not> flight (tx_queue tx' ! i)"
    and "\<And>j. j < length (tx_queue tx) \<Longrightarrow> j \<noteq> i \<Longrightarrow> flight (tx_queue tx' ! j) \<Longrightarrow> flight (tx_queue tx ! j)"
  shows "flight_none tx'"
  using assms unfolding flight_none_def flight_only_def by metis

lemma flight_only_store:
  assumes "flight_only i tx" "tx_queue tx' = (tx_queue tx)[i := e]" "\<not> flight e"
  shows "flight_none tx'"
  using assms by (intro flight_only_release [OF assms(1)]) (simp_all add: flight_only_def)

lemma flight_cong: "tx_queue tx' = tx_queue tx \<Longrightarrow> flight_none tx' = flight_none tx" "tx_queue tx' = tx_queue tx \<Longrightarrow> flight_only i tx' = flight_only i tx"
  by (simp_all add: flight_none_def flight_only_def)

lemma not_flight_zero [simp]: "\<not> flight zero_queue_entry"
  by (simp add: flight_def)

lemma work_begin_cases:
  assumes "queue_work_begin link_busy guard_ms now_ms tx = ((tx', expired), selected)"
  obtains (Stop) "tx' = tx" "selected = None"
  | (Select) tx1 tx2 guard where "tx1 = fst (melodi_queue_expire_locked now_ms tx None)" "tx2 = tx1\<lparr>tx_guard_until_ms := guard\<rparr>"
      "tx' = tx2 \<and> selected = None \<or> queue_select now_ms tx2 = (tx', None) \<and> selected = None \<or>
       (\<exists>tx3 i. queue_select now_ms tx2 = (tx3, Some i) \<and> selected = Some i \<and>
          tx' = tx3\<lparr>tx_queue := (tx_queue tx3)[i := (tx_queue tx3 ! i)\<lparr>qe_in_flight := True\<rparr>]\<rparr>)"
proof (cases "tx_queue_stopping tx")
  case True
  then show thesis using assms by (intro Stop) (simp_all add: queue_work_begin_def)
next
  case False
  obtain tx1 ex where e: "melodi_queue_expire_locked now_ms tx None = (tx1, ex)" by (cases "melodi_queue_expire_locked now_ms tx None")
  define tx2 where "tx2 = (if link_busy then tx1\<lparr>tx_guard_until_ms := now_ms + guard_ms\<rparr> else tx1)"
  have eq: "((tx', expired), selected) = (if tx_queue_count tx2 \<noteq> 0 \<and> (link_busy \<or> now_ms < tx_guard_until_ms tx2) then ((tx2, ex), None)
      else case queue_select now_ms tx2 of (tx, None) \<Rightarrow> ((tx, ex), None)
        | (tx, Some index) \<Rightarrow> ((tx\<lparr>tx_queue := (tx_queue tx)[index := (tx_queue tx ! index)\<lparr>qe_in_flight := True\<rparr>]\<rparr>, ex), Some index))"
    unfolding assms [symmetric] queue_work_begin_def Let_def e prod.case tx2_def [symmetric] by (simp only: False if_False)
  have "tx2 = tx1\<lparr>tx_guard_until_ms := tx_guard_until_ms tx2\<rparr>" by (simp add: tx2_def)
  moreover have "tx' = tx2 \<and> selected = None \<or> queue_select now_ms tx2 = (tx', None) \<and> selected = None \<or>
       (\<exists>tx3 i. queue_select now_ms tx2 = (tx3, Some i) \<and> selected = Some i \<and>
          tx' = tx3\<lparr>tx_queue := (tx_queue tx3)[i := (tx_queue tx3 ! i)\<lparr>qe_in_flight := True\<rparr>]\<rparr>)"
    using eq by (auto split: if_splits prod.splits option.splits)
  ultimately show thesis using e by (intro Select [of tx1 tx2]) simp_all
qed

lemma work_begin_sound:
  assumes ok: "queue_ok rest tx" and idle: "flight_none tx" and step: "queue_work_begin link_busy guard_ms now_ms tx = ((tx', expired), selected)"
  shows "queue_ok rest tx'" "case selected of None \<Rightarrow> flight_none tx' | Some i \<Rightarrow> flight_only i tx'"
proof -
  have "queue_ok rest tx' \<and> (case selected of None \<Rightarrow> flight_none tx' | Some i \<Rightarrow> flight_only i tx')"
    using step
  proof (cases rule: work_begin_cases)
    case Stop
    then show ?thesis using ok idle by simp
  next
    case (Select tx1 tx2 guard)
    have ok2: "queue_ok rest tx2"
      using queue_expire_ok [OF ok, of now_ms None] Select(1,2) by (auto intro: queue_ok_cong simp: same_counters_def)
    have idle2: "flight_none tx2"
      using flight_none_kept [OF idle queue_expire_flight [of tx now_ms None]] Select(1,2) by (simp add: flight_none_def)
    from Select(3) show ?thesis
    proof (elim disjE conjE exE)
      assume "tx' = tx2" "selected = None"
      then show ?thesis using ok2 idle2 by simp
    next
      assume s: "queue_select now_ms tx2 = (tx', None)" "selected = None"
      note k = queue_select_keeps [OF s(1)]
      show ?thesis using queue_ok_cong [OF ok2 k(4,3,1,2)] idle2 flight_cong(1) [OF k(1)] s(2) by simp
    next
      fix tx3 i
      assume s: "queue_select now_ms tx2 = (tx3, Some i)" "selected = Some i"
        and tx': "tx' = tx3\<lparr>tx_queue := (tx_queue tx3)[i := (tx_queue tx3 ! i)\<lparr>qe_in_flight := True\<rparr>]\<rparr>"
      note k = queue_select_keeps [OF s(1)]
      have ok3: "queue_ok rest tx3" by (rule queue_ok_cong [OF ok2 k(4,3,1,2)])
      have i: "i < length (tx_queue tx3)" "qe_active (tx_queue tx3 ! i)" using k(5) [OF refl] k(1) by simp_all
      have "queue_ok rest tx'" unfolding tx' by (rule store_entry_ok [OF ok3 i]) (use i in \<open>simp_all add: same_counters_def\<close>)
      moreover have "flight_only i tx'" using idle2 i k(1) by (auto simp: flight_only_def flight_none_def tx' flight_def nth_list_update)
      ultimately show ?thesis using s(2) by simp
    qed
  qed
  then show "queue_ok rest tx'" "case selected of None \<Rightarrow> flight_none tx' | Some i \<Rightarrow> flight_only i tx'" by simp_all
qed


text \<open>The check cancels the group of the entry, and with it the entry itself.\<close>

lemma cancel_owned_fold:
  assumes "i < length (tx_queue (fst s))" "queue_in_group g (tx_queue (fst s) ! i)" "i \<in> set is" "distinct is"
  shows "\<not> flight (tx_queue (fst (fold (queue_cancel_entry g rep (Some i)) is s)) ! i)"
proof -
  have other: "tx_queue (fst (queue_cancel_entry g rep (Some i) k s)) ! i = tx_queue (fst s) ! i" if "k \<noteq> i" for k s
    using that by (cases s) (simp add: queue_cancel_entry_def Let_def)
  have others: "tx_queue (fst (fold (queue_cancel_entry g rep (Some i)) ks s)) ! i = tx_queue (fst s) ! i" if "i \<notin> set ks" for ks s
    using that by (induction ks arbitrary: s) (simp_all add: other)
  have len: "length (tx_queue (fst (fold (queue_cancel_entry g rep (Some i)) ks s))) = length (tx_queue (fst s))" for ks s
  proof (induction ks arbitrary: s)
    case (Cons k ks)
    have "length (tx_queue (fst (queue_cancel_entry g rep (Some i) k s))) = length (tx_queue (fst s))"
      by (cases s) (simp add: queue_cancel_entry_def Let_def)
    then show ?case using Cons by simp
  qed simp
  obtain before later where split: "is = before @ i # later" "i \<notin> set before" "i \<notin> set later"
    using assms(3,4) by (metis Un_iff distinct.simps(2) distinct_append insert_iff list.set(2) split_list_first)
  let ?s = "fold (queue_cancel_entry g rep (Some i)) before s"
  have "queue_in_group g (tx_queue (fst ?s) ! i)" "i < length (tx_queue (fst ?s))" using others [OF split(2)] len assms(1,2) by simp_all
  then have "tx_queue (fst (queue_cancel_entry g rep (Some i) i ?s)) ! i = zero_queue_entry"
    by (cases ?s) (simp add: queue_cancel_entry_def Let_def queue_in_group_def)
  then show ?thesis using others [OF split(3)] by (simp add: split(1))
qed

lemma cancel_entry_no_new:
  "flight (tx_queue (fst (queue_cancel_entry g rep owned k s)) ! j) \<Longrightarrow> flight (tx_queue (fst s) ! j)"
  by (cases s; cases "k < length (tx_queue (fst s))"; cases "j = k")
    (auto simp: queue_cancel_entry_def Let_def flight_def list_update_beyond split: if_splits)

lemma cancel_owned_sound:
  assumes own: "flight_only i tx" and g: "g = qe_group_id (tx_queue tx ! i)"
  shows "flight_none (snd (fst (melodi_queue_cancel_group_locked melodi tx g (Some i) error notice)))"
proof -
  have i: "i < length (tx_queue tx)" "queue_in_group g (tx_queue tx ! i)" using own g by (simp_all add: flight_only_def flight_def queue_in_group_def)
  have "find_slot (queue_in_group g) (tx_queue tx) \<noteq> None" unfolding find_slot_None_iff using i nth_mem by blast
  then obtain first where f: "find_slot (queue_in_group g) (tx_queue tx) = Some first" by blast
  let ?fold = "fold (queue_cancel_entry g (tx_queue tx ! first) (Some i)) [0..<length (tx_queue tx)] (tx, False)"
  have new: "flight (tx_queue (fst (fold (queue_cancel_entry g rep (Some i)) ks s)) ! j) \<Longrightarrow> flight (tx_queue (fst s) ! j)" for rep ks s j
  proof (induction ks arbitrary: s)
    case (Cons k ks)
    then show ?case using cancel_entry_no_new [of g rep "Some i" k s j] by simp
  qed simp
  have "length (tx_queue (fst ?fold)) = length (tx_queue tx)"
    using cancelsD(2) [OF cancels_fold [of "[0..<length (tx_queue tx)]"]] by simp
  moreover have "\<not> flight (tx_queue (fst ?fold) ! i)" by (rule cancel_owned_fold) (use i in simp_all)
  ultimately have "flight_none (fst ?fold)"
    by (rule flight_only_release [OF own]) (use new [of "tx_queue tx ! first" _ "(tx, False)"] in simp)
  moreover have "snd (fst (melodi_queue_cancel_group_locked melodi tx g (Some i) error notice)) = fst ?fold"
    by (simp add: melodi_queue_cancel_group_locked_def f Let_def split: prod.split)
  ultimately show ?thesis by simp
qed

lemma work_check_sound:
  assumes ok: "queue_ok rest tx" and own: "flight_only i tx" and step: "queue_work_check melodi tx i = ((melodi', tx'), notice, pass)"
  shows "queue_ok rest tx'" "if pass then melodi' = melodi \<and> tx' = tx else flight_none tx'"
proof -
  have "(pass \<and> melodi' = melodi \<and> tx' = tx) \<or>
      (\<not> pass \<and> (\<exists>error. tx' = snd (fst (melodi_queue_cancel_group_locked melodi tx (qe_group_id (tx_queue tx ! i)) (Some i) error None))))"
    using step unfolding queue_work_check_def Let_def
    by (auto split: if_splits sum.splits prod.splits) (metis fst_conv snd_conv)+
  then show "queue_ok rest tx'" "if pass then melodi' = melodi \<and> tx' = tx else flight_none tx'"
    using ok cancel_group_ok [OF ok] cancel_owned_sound [OF own refl] by auto
qed


lemma airtime_keeps:
  assumes "melodi_queue_airtime_locked tx charge broadcast now_ms = (tx', wait_ms, result)"
  shows "tx_queue tx' = tx_queue tx" "tx_reservations tx' = tx_reservations tx" "tx_namespaces tx' = tx_namespaces tx" "same_counters tx tx'"
  using assms unfolding melodi_queue_airtime_locked_def same_counters_def
  by (auto simp: Let_def split: if_splits prod.splits)

lemma remove_sound:
  assumes "queue_ok rest tx" "flight_only i tx"
  shows "queue_ok rest (melodi_queue_remove_locked tx i)" "flight_none (melodi_queue_remove_locked tx i)"
  using assms queue_remove_ok [OF assms(1), of i] flight_only_store [OF assms(2), of "melodi_queue_remove_locked tx i" zero_queue_entry]
  by (simp_all add: flight_only_def flight_def)

lemma defer_sound:
  assumes ok: "queue_ok rest tx" and own: "flight_only i tx"
    and tx': "tx_queue tx' = (tx_queue tx)[i := (tx_queue tx ! i)\<lparr>qe_in_flight := False, qe_defer_until_ms := t\<rparr>]"
      "tx_reservations tx' = tx_reservations tx" "same_counters tx tx'" "tx_namespaces tx' = tx_namespaces tx"
  shows "queue_ok rest tx'" "flight_none tx'"
proof -
  have i: "i < length (tx_queue tx)" "qe_active (tx_queue tx ! i)" using own by (simp_all add: flight_only_def flight_def)
  show "queue_ok rest tx'" by (rule store_entry_ok [OF ok i _ _ tx']) (use i in simp_all)
  show "flight_none tx'" by (rule flight_only_store [OF own tx'(1)]) (simp add: flight_def)
qed

definition outcome_ok :: "queue_budget \<Rightarrow> nat \<Rightarrow> melodi_tx \<Rightarrow> melodi_tx \<Rightarrow> bool" where
  "outcome_ok outcome i tx tx' \<longleftrightarrow> (case outcome of Budget_Admitted _ \<Rightarrow> tx_queue tx' = tx_queue tx | _ \<Rightarrow> flight_none tx')"

lemma work_budget_sound:
  assumes ok: "queue_ok rest tx" and own: "flight_only i tx" and step: "queue_work_budget airtime now_ms tx i = (tx', outcome)"
  shows "queue_ok rest tx' \<and> outcome_ok outcome i tx tx'"
proof -
  let ?e = "tx_queue tx ! i"
  have give_up: "queue_ok rest ((queue_drop (melodi_queue_remove_locked t i))\<lparr>tx_queue_expired := x\<rparr>)" "queue_ok rest (queue_drop (melodi_queue_remove_locked t i))"
    "flight_none ((queue_drop (melodi_queue_remove_locked t i))\<lparr>tx_queue_expired := x\<rparr>)" "flight_none (queue_drop (melodi_queue_remove_locked t i))"
    if "queue_ok rest t" "flight_only i t" for t x
    using remove_sound [OF that] by (simp_all add: queue_drop_ok queue_expired_ok flight_none_def)
  note drop = give_up [OF ok own] remove_sound [OF ok own]
  let ?broadcast = "\<not> qe_control ?e \<and> tm_destination_locator (qe_metadata ?e) = MELODI_LINK_LOCATOR_BROADCAST"
  show ?thesis
  proof (cases "tx_queue_stopping tx \<or> qe_cancelled ?e \<or> now_ms \<ge> qe_expires_ms ?e \<or> (\<exists>error. airtime = Inl error)")
    case True
    then show ?thesis
      using step drop unfolding queue_work_budget_def Let_def outcome_ok_def
      by (cases airtime; cases "tx_queue_stopping tx"; cases "qe_cancelled ?e"; cases "now_ms \<ge> qe_expires_ms ?e") (auto simp del: not_less)
  next
    case False
    then obtain charge where charge: "airtime = Inr charge" by (cases airtime) auto
    obtain tx1 wait_ms result where a: "melodi_queue_airtime_locked tx charge ?broadcast now_ms = (tx1, wait_ms, result)" by (metis prod_cases3)
    note k = airtime_keeps [OF a]
    have ok1: "queue_ok rest tx1" by (rule queue_ok_cong [OF ok k(4,3,1,2)])
    have own1: "flight_only i tx1" using own flight_cong(2) [OF k(1)] by simp
    show ?thesis
    proof (cases result)
      case (Inr u)
      then have "tx' = tx1" "\<exists>b. outcome = Budget_Admitted b"
        using step False charge a unfolding queue_work_budget_def Let_def by (auto simp del: not_less)
      then show ?thesis using ok1 k(1) by (auto simp: outcome_ok_def)
    next
      case (Inl error)
      show ?thesis
      proof (cases "error = EAGAIN")
        case True
        let ?t = "now_ms + min wait_ms (qe_expires_ms ?e - now_ms)"
        have tx': "tx' = tx1\<lparr>tx_duty_defers := tx_duty_defers tx1 + 1,
            tx_queue := (tx_queue tx1)[i := (tx_queue tx1 ! i)\<lparr>qe_in_flight := False, qe_defer_until_ms := ?t\<rparr>]\<rparr>" "outcome = Budget_Deferred"
          using step False charge a Inl True k(1) unfolding queue_work_budget_def Let_def by (auto simp del: not_less)
        have "queue_ok rest tx'" "flight_none tx'"
          by (rule defer_sound [OF ok1 own1, where t = ?t]; simp add: tx'(1) same_counters_def)+
        then show ?thesis by (simp add: outcome_ok_def tx'(2))
      next
        case other: False
        have "tx' = (if error = ETIMEDOUT then (queue_drop (melodi_queue_remove_locked tx1 i))
              \<lparr>tx_queue_expired := tx_queue_expired (queue_drop (melodi_queue_remove_locked tx1 i)) + 1\<rparr> else queue_drop (melodi_queue_remove_locked tx1 i))"
          "\<exists>notice. outcome = Budget_Dropped notice"
          using step False charge a Inl other unfolding queue_work_budget_def Let_def by (auto simp del: not_less)
        then show ?thesis using give_up [OF ok1 own1] by (auto simp: outcome_ok_def)
      qed
    qed
  qed
qed

lemma work_end_sound:
  assumes ok: "queue_ok rest tx" and own: "flight_only i tx" and step: "queue_work_end sent now_ms admitted tx i = (tx', notice)"
  shows "queue_ok rest tx' \<and> flight_none tx'"
proof (cases sent)
  case (Inl error)
  show ?thesis
  proof (cases "melodi_queue_transient error \<and> \<not> tx_queue_stopping tx \<and> now_ms < qe_expires_ms (tx_queue tx ! i)")
    case True
    let ?t = "min (qe_expires_ms (tx_queue tx ! i)) (now_ms + 100)"
    have tx': "tx' = tx\<lparr>tx_queue := (tx_queue tx)[i := (tx_queue tx ! i)\<lparr>qe_in_flight := False, qe_defer_until_ms := ?t\<rparr>]\<rparr>"
      using step Inl True by (simp add: queue_work_end_def Let_def)
    have "queue_ok rest tx'" "flight_none tx'"
      by (rule defer_sound [OF ok own, where t = ?t]; simp add: tx' same_counters_def)+
    then show ?thesis by simp
  next
    case False
    then have "tx' = queue_drop (melodi_queue_remove_locked tx i)" using step Inl by (auto simp: queue_work_end_def Let_def)
    then show ?thesis using remove_sound [OF ok own] by (simp add: queue_drop_ok flight_none_def)
  qed
next
  case (Inr u)
  let ?r = "melodi_queue_remove_locked tx i"
  have "tx_queue tx' = tx_queue ?r" "tx_reservations tx' = tx_reservations ?r" "tx_namespaces tx' = tx_namespaces ?r" "same_counters ?r tx'"
    using step Inr by (auto simp: queue_work_end_def Let_def same_counters_def)
  then show ?thesis using remove_sound [OF ok own] queue_ok_cong [of rest ?r tx'] flight_cong(1) [of tx' ?r] by simp
qed


subsection \<open>Draining\<close>

lemma cancel_all_sound: "queue_ok rest tx \<Longrightarrow> queue_ok rest (fst (queue_cancel_all error tx)) \<and> tx_queue (fst (queue_cancel_all error tx)) = tx_queue tx"
proof (induction error tx rule: queue_cancel_all.induct)
  case (1 error tx)
  show ?case
  proof (cases "find_slot rv_active (tx_reservations tx)")
    case None
    then show ?thesis using 1 by (simp add: queue_cancel_all.simps)
  next
    case (Some i)
    let ?rid = "rv_id (tx_reservations tx ! i)"
    let ?c = "melodi_queue_reservation_cancel tx ?rid error True"
    show ?thesis
    proof (cases "?rid = 0")
      case True
      then show ?thesis using 1(2) Some by (simp add: queue_cancel_all.simps)
    next
      case False
      have "queue_ok rest (fst (queue_cancel_all error (fst ?c))) \<and> tx_queue (fst (queue_cancel_all error (fst ?c))) = tx_queue (fst ?c)"
        by (rule 1(1) [OF Some False refl reservation_cancel_ok [OF 1(2)]])
      then show ?thesis unfolding queue_cancel_all.simps [of error tx] by (auto simp: Some False Let_def split: prod.splits)
    qed
  qed
qed

abbreviation (input) drain_slot :: "nat \<Rightarrow> melodi_tx \<Rightarrow> melodi_tx" where
  "drain_slot index tx \<equiv> if qe_active (tx_queue tx ! index) then melodi_queue_remove_locked tx index else tx"

lemma drain_slots:
  assumes "queue_ok rest tx" "n \<le> length (tx_queue tx)"
  shows "queue_ok rest (fold drain_slot [0..<n] tx) \<and> length (tx_queue (fold drain_slot [0..<n] tx)) = length (tx_queue tx) \<and>
    (\<forall>j<n. \<not> qe_active (tx_queue (fold drain_slot [0..<n] tx) ! j))"
  using assms(2)
proof (induction n)
  case 0
  then show ?case using assms(1) by simp
next
  case (Suc n)
  let ?t = "fold drain_slot [0..<n] tx"
  have IH: "queue_ok rest ?t" "length (tx_queue ?t) = length (tx_queue tx)" "\<forall>j<n. \<not> qe_active (tx_queue ?t ! j)" using Suc by simp_all
  have "queue_ok rest (melodi_queue_remove_locked ?t n)" if "qe_active (tx_queue ?t ! n)"
    by (rule queue_remove_ok [OF IH(1) _ that]) (use Suc.prems IH(2) in simp)
  then show ?case using IH Suc.prems by (auto simp: less_Suc_eq nth_list_update)
qed

lemma drained_counters:
  assumes "queue_ok rest tx" "\<forall>j < length (tx_queue tx). \<not> qe_active (tx_queue tx ! j)"
  shows "tx_queue_count tx = 0" "tx_queue_bytes tx = 0"
proof -
  have ex: "queue_exact rest tx" using assms(1) by (simp add: queue_ok_def queue_books_def)
  have z: "entry_meter m e = 0" if "e \<in> set (tx_queue tx)" for m e using that assms(2) by (auto simp: in_set_conv_nth entry_meter_def)
  have r: "reservation_meter Frames_Queued r = 0" "reservation_meter Bytes_Queued r = 0" for r by (simp_all add: reservation_meter_def)
  have "metered tx Frames_Queued = 0" "metered tx Bytes_Queued = 0"
    unfolding metered_def by (simp_all add: r z)
  then show "tx_queue_count tx = 0" "tx_queue_bytes tx = 0" using exactD(1,2) [OF ex] by (simp_all add: unat_eq_zero)
qed

lemma drain_sound:
  assumes ok: "queue_ok rest tx"
  shows "queue_ok rest (fst (melodi_queue_drain error tx))" "flight_none (fst (melodi_queue_drain error tx))"
    "list_all (\<lambda>e. \<not> qe_active e) (tx_queue (fst (melodi_queue_drain error tx)))"
proof -
  let ?stop = "tx\<lparr>tx_queue_stopping := True\<rparr>"
  let ?c = "fst (queue_cancel_all error ?stop)"
  let ?t = "fold drain_slot [0..<length (tx_queue ?c)] ?c"
  let ?d = "fst (melodi_queue_drain error tx)"
  have "queue_ok rest ?stop" by (rule queue_ok_cong [OF ok]) (simp_all add: same_counters_def)
  then have c: "queue_ok rest ?c" using cancel_all_sound by blast
  note t = drain_slots [OF c order_refl]
  have z: "tx_queue_count ?t = 0" "tx_queue_bytes ?t = 0" by (rule drained_counters [of rest]; use t in simp)+
  have d: "tx_queue ?d = tx_queue ?t" "tx_reservations ?d = tx_reservations ?t" "tx_namespaces ?d = tx_namespaces ?t" "same_counters ?t ?d"
    using z by (simp_all add: melodi_queue_drain_def Let_def same_counters_def split: prod.split)
  show "queue_ok rest ?d" using t by (intro queue_ok_cong [OF _ d(4,3,1,2)]) simp
  show "flight_none ?d" "list_all (\<lambda>e. \<not> qe_active e) (tx_queue ?d)" using t d(1) by (simp_all add: flight_none_def flight_def list_all_length)
qed


subsection \<open>One device\<close>

text \<open>
  Where the transmit work stands: idle, or holding the entry at a slot before its check, before its
  charge of airtime, or in the hands of the transport. The entry is kept as it was selected.
\<close>

datatype queue_phase =
    Idle
  | Checking nat melodi_tx_queue_entry
  | Budgeting nat melodi_tx_queue_entry
  | Sending nat melodi_tx_queue_entry bool

type_synonym queue_state = "melodi_device \<times> melodi_tx \<times> queue_phase"

inductive queue_step :: "queue_state \<Rightarrow> queue_state \<Rightarrow> bool" where
  Reserve: "queue_step (melodi, tx, phase) (melodi, fst (melodi_queue_reserve memory now_ms tx net locator request count bytes
     logical_length cookie reliable active_pending), phase)"
| Reservation_Cancel: "queue_step (melodi, tx, phase) (melodi, fst (melodi_queue_reservation_cancel tx rid error notify), phase)"
| Reservation_Pending: "queue_step (melodi, tx, phase) (melodi, fst (melodi_queue_reservation_pending tx rid), phase)"
| Reservation_Seal: "queue_step (melodi, tx, phase) (melodi, fst (melodi_queue_reservation_seal siphash tx rid data), phase)"
| Reservation_Claim: "queue_step (melodi, tx, phase) (melodi, fst (melodi_queue_reservation_claim siphash tx rid data), phase)"
| Reservation_Work: "queue_step (melodi, tx, phase) (melodi, fst (melodi_reservation_work clock number tx), phase)"
| Send_Batch: "batch_fits frames \<Longrightarrow>
    queue_step (melodi, tx, phase) (melodi, fst (melodi_core_send_batch memory running now_ms net melodi tx frames meta request), phase)"
| Send_Batch_Reserved: "batch_fits frames \<Longrightarrow>
    queue_step (melodi, tx, phase) (melodi, fst (melodi_core_send_batch_reserved running melodi tx frames meta request rid), phase)"
| State_Changed: "queue_state_round (melodi, tx) = Some ((melodi', tx'), notice) \<Longrightarrow> queue_step (melodi, tx, phase) (melodi', tx', phase)"
| Device_Changed: "queue_step (melodi, tx, phase) (melodi', tx, phase)"
| Start: "queue_step (melodi, tx, phase) (melodi, melodi_queue_start tx, phase)"
| Stop: "queue_step (melodi, tx, phase) (melodi, tx\<lparr>tx_queue_stopping := True\<rparr>, phase)"
| Drain: "queue_step (melodi, tx, Idle) (melodi, fst (melodi_queue_drain error tx), Idle)"
| Nothing_Selected: "queue_work_begin link_busy guard_ms now_ms tx = ((tx', expired), None) \<Longrightarrow> queue_step (melodi, tx, Idle) (melodi, tx', Idle)"
| Selected: "queue_work_begin link_busy guard_ms now_ms tx = ((tx', expired), Some i) \<Longrightarrow>
    queue_step (melodi, tx, Idle) (melodi, tx', Checking i (tx_queue tx' ! i))"
| Check_Failed: "queue_work_check melodi tx i = ((melodi', tx'), notice, False) \<Longrightarrow> queue_step (melodi, tx, Checking i e) (melodi', tx', Idle)"
| Check_Passed: "queue_work_check melodi tx i = ((melodi', tx'), notice, True) \<Longrightarrow>
    queue_step (melodi, tx, Checking i e) (melodi', tx', Budgeting i e)"
| Dropped: "queue_work_budget airtime now_ms tx i = (tx', Budget_Dropped notice) \<Longrightarrow> queue_step (melodi, tx, Budgeting i e) (melodi, tx', Idle)"
| Deferred: "queue_work_budget airtime now_ms tx i = (tx', Budget_Deferred) \<Longrightarrow> queue_step (melodi, tx, Budgeting i e) (melodi, tx', Idle)"
| Admitted: "queue_work_budget airtime now_ms tx i = (tx', Budget_Admitted charged_airtime) \<Longrightarrow>
    queue_step (melodi, tx, Budgeting i e) (melodi, tx', Sending i e charged_airtime)"
| Sent: "queue_work_end sent now_ms charged_airtime tx i = (tx', notice) \<Longrightarrow>
    queue_step (melodi, tx, Sending i e charged_airtime) (melodi, tx', Idle)"

inductive_cases queue_stepE: "queue_step (melodi, tx, phase) s"

text \<open>An entry held by the work is in flight, alone, and what it was when selected up to the marks of a cancellation.\<close>

definition held :: "nat \<Rightarrow> melodi_tx_queue_entry \<Rightarrow> melodi_tx \<Rightarrow> bool" where
  "held i e tx \<longleftrightarrow> flight_only i tx \<and> marked e (tx_queue tx ! i)"

fun phase_sound :: "queue_phase \<Rightarrow> melodi_tx \<Rightarrow> bool" where
  "phase_sound Idle tx = flight_none tx"
| "phase_sound (Checking i e) tx = held i e tx"
| "phase_sound (Budgeting i e) tx = held i e tx"
| "phase_sound (Sending i e _) tx = held i e tx"

lemma held_kept:
  assumes "held i e tx" "flight_kept tx tx'"
  shows "held i e tx'"
proof -
  have own: "flight_only i tx" and m: "marked e (tx_queue tx ! i)" using assms(1) by (simp_all add: held_def)
  have "marked (tx_queue tx ! i) (tx_queue tx' ! i)" using own by (intro flight_keptD(2) [OF assms(2)]) (simp_all add: flight_only_def)
  then show ?thesis using flight_only_kept [OF own assms(2)] marked_trans [OF m] by (simp add: held_def)
qed

lemma phase_sound_kept: "phase_sound phase tx \<Longrightarrow> flight_kept tx tx' \<Longrightarrow> phase_sound phase tx'"
  by (cases phase) (auto intro: held_kept flight_none_kept)

definition queue_inv :: "(nat \<Rightarrow> nat \<times> nat) \<Rightarrow> queue_state \<Rightarrow> bool" where
  "queue_inv rest s \<longleftrightarrow> (case s of (melodi, tx, phase) \<Rightarrow> queue_ok rest tx \<and> phase_sound phase tx)"

lemma queue_inv_kept: "queue_inv rest (melodi, tx, phase) \<Longrightarrow> queue_ok rest tx' \<Longrightarrow> flight_kept tx tx' \<Longrightarrow> queue_inv rest (melodi', tx', phase)"
  using phase_sound_kept by (auto simp: queue_inv_def)

lemma queue_inv_same:
  "queue_inv rest (melodi, tx, phase) \<Longrightarrow> (queue_ok rest tx \<Longrightarrow> queue_ok rest tx') \<Longrightarrow> tx_queue tx' = tx_queue tx \<Longrightarrow> queue_inv rest (melodi', tx', phase)"
  by (rule queue_inv_kept) (auto simp: queue_inv_def intro: flight_kept_refl)

lemma queue_step_inv:
  assumes "queue_step s s'" "queue_inv rest s"
  shows "queue_inv rest s'"
  using assms
proof (induction rule: queue_step.induct)
  case (Send_Batch frames melodi tx)
  then have ok: "queue_ok rest tx" by (simp add: queue_inv_def)
  show ?case by (rule queue_inv_kept [OF Send_Batch(2) send_batch_ok [OF ok Send_Batch(1)] send_batch_flight [OF ok]])
next
  case (Send_Batch_Reserved frames melodi tx)
  then have ok: "queue_ok rest tx" by (simp add: queue_inv_def)
  show ?case by (rule queue_inv_kept [OF Send_Batch_Reserved(2) send_batch_reserved_ok [OF ok Send_Batch_Reserved(1)] send_batch_reserved_flight [OF ok]])
next
  case (State_Changed melodi tx)
  then have ok: "queue_ok rest tx" by (simp add: queue_inv_def)
  show ?case by (rule queue_inv_kept [OF State_Changed(2) queue_state_round_ok [OF ok State_Changed(1)] queue_state_round_flight [OF State_Changed(1)]])
next
  case (Nothing_Selected link_busy guard_ms now_ms tx tx' expired melodi)
  then show ?case using work_begin_sound [of rest tx link_busy guard_ms now_ms tx' expired None] by (simp add: queue_inv_def)
next
  case (Selected link_busy guard_ms now_ms tx tx' expired i melodi)
  then show ?case using work_begin_sound [of rest tx link_busy guard_ms now_ms tx' expired "Some i"] by (simp add: queue_inv_def held_def)
next
  case (Check_Failed melodi tx i melodi' tx' notice e)
  then show ?case using work_check_sound [of rest tx i melodi melodi' tx' notice False] by (simp add: queue_inv_def held_def)
next
  case (Check_Passed melodi tx i melodi' tx' notice e)
  then show ?case using work_check_sound [of rest tx i melodi melodi' tx' notice True] by (simp add: queue_inv_def held_def)
next
  case (Dropped airtime now_ms tx i tx' notice melodi e)
  then show ?case using work_budget_sound [of rest tx i airtime now_ms tx' "Budget_Dropped notice"] by (simp add: queue_inv_def held_def outcome_ok_def)
next
  case (Deferred airtime now_ms tx i tx' melodi e)
  then show ?case using work_budget_sound [of rest tx i airtime now_ms tx' Budget_Deferred] by (simp add: queue_inv_def held_def outcome_ok_def)
next
  case (Admitted airtime now_ms tx i tx' b melodi e)
  then show ?case using work_budget_sound [of rest tx i airtime now_ms tx' "Budget_Admitted b"] flight_cong(2) [of tx' tx i]
    by (simp add: queue_inv_def held_def outcome_ok_def)
next
  case (Sent sent now_ms b tx i tx' notice melodi e)
  then show ?case using work_end_sound [of rest tx i sent now_ms b tx' notice] by (simp add: queue_inv_def held_def)
next
  case (Start melodi tx phase)
  from Start show ?case
    by (rule queue_inv_same) (auto simp: melodi_queue_start_def same_counters_def intro: queue_ok_cong)
next
  case (Stop melodi tx phase)
  from Stop show ?case by (rule queue_inv_same) (auto simp: same_counters_def intro: queue_ok_cong)
next
  case (Device_Changed melodi tx phase melodi')
  then show ?case by (simp add: queue_inv_def)
next
  case (Drain melodi tx error)
  then show ?case using drain_sound [of rest tx error] by (simp add: queue_inv_def)
qed (erule queue_inv_same, (erule reserve_ok reservation_cancel_ok reservation_pending_ok reservation_seal_ok reservation_claim_ok reservation_work_ok), simp)+


subsection \<open>All devices\<close>

text \<open>
  The list of namespaces is one for all devices. A step of the system is a step of one device on the
  shared list, or the creation of a device.
\<close>

type_synonym queue_system = "melodi_namespace_queue list \<times> queue_state list"

abbreviation queue_of :: "queue_state \<Rightarrow> melodi_tx" where
  "queue_of s \<equiv> fst (snd s)"

definition on_namespaces :: "melodi_namespace_queue list \<Rightarrow> queue_state \<Rightarrow> queue_state" where
  "on_namespaces namespaces s = (case s of (melodi, tx, phase) \<Rightarrow> (melodi, tx\<lparr>tx_namespaces := namespaces\<rparr>, phase))"

inductive system_step :: "queue_system \<Rightarrow> queue_system \<Rightarrow> bool" where
  Device_Step: "d < length devices \<Longrightarrow> queue_step (on_namespaces namespaces (devices ! d)) s' \<Longrightarrow>
    system_step (namespaces, devices) (tx_namespaces (queue_of s'), devices[d := s'])"
| New_Device: "system_step (namespaces, devices) (namespaces, devices @ [(melodi, melodi_queue_init zero_tx, Idle)])"

text \<open>What all devices hold of a namespace, and what the others than one hold.\<close>

definition held_by :: "queue_state list \<Rightarrow> nat \<Rightarrow> nat \<times> nat" where
  "held_by devices net =
     (sum_list (map (\<lambda>s. metered (queue_of s) (Namespace_Messages net)) devices),
      sum_list (map (\<lambda>s. metered (queue_of s) (Namespace_Bytes net)) devices))"

definition held_by_others :: "queue_state list \<Rightarrow> nat \<Rightarrow> nat \<Rightarrow> nat \<times> nat" where
  "held_by_others devices d = held_by (take d devices @ drop (Suc d) devices)"

lemma held_by_append: "held_by (xs @ ys) net = (fst (held_by xs net) + fst (held_by ys net), snd (held_by xs net) + snd (held_by ys net))"
  by (simp add: held_by_def)

lemma held_by_at:
  assumes "d < length devices"
  shows "held_by (devices[d := s]) net =
    (fst (held_by_others devices d net) + metered (queue_of s) (Namespace_Messages net),
     snd (held_by_others devices d net) + metered (queue_of s) (Namespace_Bytes net))"
  using assms by (simp add: upd_conv_take_nth_drop held_by_others_def held_by_append) (simp add: held_by_def)

text \<open>The part of the accounting that concerns one device alone, and the part about the shared list.\<close>

fun local_meter :: "meter \<Rightarrow> bool" where
  "local_meter (Namespace_Messages net) = False"
| "local_meter (Namespace_Bytes net) = False"
| "local_meter _ = True"

definition local_ok :: "melodi_tx \<Rightarrow> bool" where
  "local_ok tx \<longleftrightarrow> queue_tables tx \<and> (\<forall>m. local_meter m \<longrightarrow>
     (\<forall>c. counter tx m = Some c \<longrightarrow> c = metered tx m) \<and> (\<forall>l. meter_limit m = Some l \<longrightarrow> metered tx m \<le> l))"

definition shared_ok :: "(nat \<Rightarrow> nat \<times> nat) \<Rightarrow> melodi_tx \<Rightarrow> bool" where
  "shared_ok held_total tx \<longleftrightarrow> namespaces_distinct tx \<and> namespaces_busy tx \<and>
     (\<forall>net. namespace_view tx net = held_total net \<and> fst (held_total net) \<le> MELODI_TX_NAMESPACE_LIMIT \<and> snd (held_total net) \<le> 524288)"

lemma shared_local: "local_meter m \<Longrightarrow> shared rest m = 0"
  by (cases m) simp_all

lemma queue_ok_parts:
  "queue_ok rest tx \<longleftrightarrow> rest_ok rest \<and> local_ok tx \<and>
     shared_ok (\<lambda>net. (fst (rest net) + metered tx (Namespace_Messages net), snd (rest net) + metered tx (Namespace_Bytes net))) tx"
  (is "?ok \<longleftrightarrow> rest_ok rest \<and> local_ok tx \<and> ?shared")
proof
  assume ok: ?ok
  then have e: "queue_exact rest tx" and w: "queue_within rest tx" by (simp_all add: queue_ok_def queue_books_def)
  have "local_ok tx"
    unfolding local_ok_def
  proof (intro conjI allI impI)
    show "queue_tables tx" using ok by (simp add: queue_ok_def queue_books_def)
    show "c = metered tx m" if "local_meter m" "counter tx m = Some c" for m c
    proof -
      have "c = shared rest m + metered tx m" using e that(2) by (simp add: queue_exact_def)
      then show ?thesis by (simp add: shared_local [OF that(1)])
    qed
    show "metered tx m \<le> l" if "local_meter m" "meter_limit m = Some l" for m l
    proof -
      have "shared rest m + metered tx m \<le> l" using w that(2) by (simp add: queue_within_def)
      then show ?thesis by simp
    qed
  qed
  moreover have ?shared
    using ok exactD(6,7) [OF e] withinD(3,4) [OF w] by (simp add: shared_ok_def queue_ok_def queue_books_def prod_eq_iff)
  ultimately show "rest_ok rest \<and> local_ok tx \<and> ?shared" using ok by (simp add: queue_ok_def queue_books_def)
next
  assume r: "rest_ok rest \<and> local_ok tx \<and> ?shared"
  then have lo: "local_ok tx" and sh: ?shared by blast+
  have "queue_exact rest tx"
    unfolding queue_exact_def
  proof (intro allI impI)
    fix m c
    assume c: "counter tx m = Some c"
    show "c = shared rest m + metered tx m"
    proof (cases "local_meter m")
      case True
      then have "c = metered tx m" using lo c unfolding local_ok_def by blast
      then show ?thesis by (simp add: shared_local [OF True])
    next
      case False
      then show ?thesis using sh c by (cases m) (auto simp: shared_ok_def)
    qed
  qed
  moreover have "queue_within rest tx"
    unfolding queue_within_def
  proof (intro allI impI)
    fix m l
    assume l: "meter_limit m = Some l"
    show "shared rest m + metered tx m \<le> l"
    proof (cases "local_meter m")
      case True
      then have "metered tx m \<le> l" using lo l unfolding local_ok_def by blast
      then show ?thesis by (simp add: shared_local [OF True])
    next
      case False
      then show ?thesis using sh l by (cases m) (auto simp: shared_ok_def)
    qed
  qed
  ultimately show ?ok using r by (simp add: queue_ok_def queue_books_def local_ok_def shared_ok_def)
qed


lemma held_by_rest_ok:
  assumes "list_all (\<lambda>s. queue_tables (queue_of s)) devices"
  shows "rest_ok (held_by devices)"
  using assms metered_messages_bytes by (auto simp: rest_ok_def held_by_def list_all_iff)

lemma on_namespaces_parts:
  "local_ok (tx\<lparr>tx_namespaces := namespaces\<rparr>) \<longleftrightarrow> local_ok tx" "phase_sound phase (tx\<lparr>tx_namespaces := namespaces\<rparr>) \<longleftrightarrow> phase_sound phase tx"
  "metered (tx\<lparr>tx_namespaces := namespaces\<rparr>) = metered tx"
proof -
  show m: "metered (tx\<lparr>tx_namespaces := namespaces\<rparr>) = metered tx" by (rule metered_cong) simp_all
  have c: "counter (tx\<lparr>tx_namespaces := namespaces\<rparr>) m = counter tx m" if "local_meter m" for m using that by (cases m) simp_all
  have t: "queue_tables (tx\<lparr>tx_namespaces := namespaces\<rparr>) = queue_tables tx" by (simp add: queue_tables_def)
  show "local_ok (tx\<lparr>tx_namespaces := namespaces\<rparr>) \<longleftrightarrow> local_ok tx" unfolding local_ok_def m t using c by simp
  show "phase_sound phase (tx\<lparr>tx_namespaces := namespaces\<rparr>) \<longleftrightarrow> phase_sound phase tx"
    by (cases phase) (simp_all add: held_def flight_none_def flight_only_def)
qed

lemma shared_ok_cong:
  assumes "tx_namespaces tx' = tx_namespaces tx"
  shows "shared_ok held_total tx' = shared_ok held_total tx"
  unfolding shared_ok_def using namespaces_only(2,3,4) [OF assms] by simp

definition system_inv :: "queue_system \<Rightarrow> bool" where
  "system_inv system \<longleftrightarrow> (case system of (namespaces, devices) \<Rightarrow>
     shared_ok (held_by devices) (zero_tx\<lparr>tx_namespaces := namespaces\<rparr>) \<and>
     list_all (\<lambda>s. local_ok (queue_of s) \<and> phase_sound (snd (snd s)) (queue_of s)) devices)"

lemma system_inv_device:
  assumes inv: "system_inv (namespaces, devices)" and d: "d < length devices"
  shows "queue_inv (held_by_others devices d) (on_namespaces namespaces (devices ! d))"
proof -
  obtain melodi tx phase where s: "devices ! d = (melodi, tx, phase)" by (metis prod_cases3)
  let ?tx = "tx\<lparr>tx_namespaces := namespaces\<rparr>"
  have all: "list_all (\<lambda>s. local_ok (queue_of s) \<and> phase_sound (snd (snd s)) (queue_of s)) devices" using inv by (simp add: system_inv_def)
  then have "local_ok (queue_of (devices ! d)) \<and> phase_sound (snd (snd (devices ! d))) (queue_of (devices ! d))" using d by (simp add: list_all_length)
  then have here: "local_ok ?tx" "phase_sound phase ?tx" unfolding s by (simp_all add: on_namespaces_parts)
  have "list_all (\<lambda>s. queue_tables (queue_of s)) (take d devices @ drop (Suc d) devices)"
    using all by (auto simp: list_all_iff local_ok_def dest: in_set_takeD in_set_dropD)
  then have rest: "rest_ok (held_by_others devices d)" unfolding held_by_others_def by (rule held_by_rest_ok)
  have "held_by devices = (\<lambda>net. (fst (held_by_others devices d net) + metered ?tx (Namespace_Messages net),
      snd (held_by_others devices d net) + metered ?tx (Namespace_Bytes net)))"
    using held_by_at [OF d, of "devices ! d"] unfolding list_update_id by (simp add: s on_namespaces_parts fun_eq_iff)
  moreover have "shared_ok (held_by devices) ?tx" using inv shared_ok_cong [of ?tx "zero_tx\<lparr>tx_namespaces := namespaces\<rparr>"] by (simp add: system_inv_def)
  ultimately show ?thesis using rest here by (simp add: s on_namespaces_def queue_inv_def queue_ok_parts)
qed

lemma system_step_inv: "system_step system system' \<Longrightarrow> system_inv system \<Longrightarrow> system_inv system'"
proof (induction rule: system_step.induct)
  case (Device_Step d devices namespaces s')
  obtain melodi tx phase where s': "s' = (melodi, tx, phase)" by (metis prod_cases3)
  have "queue_inv (held_by_others devices d) s'"
    by (rule queue_step_inv [OF Device_Step(2) system_inv_device [OF Device_Step(3,1)]])
  then have ok: "queue_ok (held_by_others devices d) tx" "phase_sound phase tx" by (simp_all add: s' queue_inv_def)
  have h: "held_by (devices[d := s']) = (\<lambda>net. (fst (held_by_others devices d net) + metered tx (Namespace_Messages net),
      snd (held_by_others devices d net) + metered tx (Namespace_Bytes net)))"
    using held_by_at [OF Device_Step(1), of s'] by (simp add: s' fun_eq_iff)
  have "shared_ok (held_by (devices[d := s'])) (zero_tx\<lparr>tx_namespaces := tx_namespaces tx\<rparr>)"
    using ok(1) shared_ok_cong [of "zero_tx\<lparr>tx_namespaces := tx_namespaces tx\<rparr>" tx] unfolding queue_ok_parts h by simp
  moreover have "local_ok tx" using ok(1) unfolding queue_ok_parts by simp
  then have "list_all (\<lambda>s. local_ok (queue_of s) \<and> phase_sound (snd (snd s)) (queue_of s)) (devices[d := s'])"
    using Device_Step(3) ok(2) by (intro list_all_store) (simp_all add: system_inv_def s')
  ultimately show ?case by (simp add: system_inv_def s')
next
  case (New_Device namespaces devices melodi)
  let ?new = "melodi_queue_init zero_tx"
  have z: "metered ?new m = 0" for m
    by (simp add: metered_def zero_tx_def melodi_queue_init_def sum_list_replicate)
  have c: "counter ?new m = Some c \<Longrightarrow> local_meter m \<Longrightarrow> c = 0" for m c
    by (cases m) (simp_all add: zero_tx_def melodi_queue_init_def)
  have "queue_tables ?new" by (simp add: queue_tables_def zero_tx_def melodi_queue_init_def)
  then have "local_ok ?new" using z c by (auto simp: local_ok_def)
  moreover have "flight_none ?new" by (simp add: flight_none_def zero_tx_def melodi_queue_init_def)
  moreover have "held_by (devices @ [(melodi, ?new, Idle)]) = held_by devices"
    by (simp add: fun_eq_iff held_by_append prod_eq_iff) (simp add: held_by_def z)
  ultimately show ?case using New_Device by (simp add: system_inv_def)
qed

lemma system_reachable_inv:
  assumes "system_step\<^sup>*\<^sup>* ([], []) system"
  shows "system_inv system"
  using assms
proof (induction rule: rtranclp_induct)
  case base
  show ?case by (simp add: system_inv_def shared_ok_def held_by_def namespaces_distinct_def namespaces_busy_def namespace_view_def
      melodi_namespace_queue_find_def find_slot_def)
qed (rule system_step_inv)


subsection \<open>What holds in every reachable state\<close>

lemma metered_counts:
  "metered tx Frames_Queued = length (filter qe_active (tx_queue tx))"
  "metered tx Bytes_Queued = sum_list (map (\<lambda>e. unat (qe_length e)) (filter qe_active (tx_queue tx)))"
  "metered tx Frames_Reserved = sum_list (map (\<lambda>r. unat (rv_count r)) (filter rv_active (tx_reservations tx)))"
  "metered tx Bytes_Reserved = sum_list (map (\<lambda>r. unat (rv_bytes r)) (filter rv_active (tx_reservations tx)))"
  "metered tx Pending_Reserved = length (filter (\<lambda>r. rv_active r \<and> rv_pending_reserved r) (tx_reservations tx))"
proof -
  have len: "length (filter P xs) = sum_list (map (\<lambda>x. if P x then 1 else 0) xs)" for P and xs :: "'b list"
    by (induction xs) simp_all
  have sum: "sum_list (map f (filter P xs)) = sum_list (map (\<lambda>x. if P x then f x else 0) xs)" for P and f :: "'b \<Rightarrow> nat" and xs
    by (induction xs) simp_all
  have flip: "(if P \<and> Q then 1 else 0) = (if P then if Q then 1 else 0 else (0 :: nat))" for P Q by simp
  show "metered tx Frames_Queued = length (filter qe_active (tx_queue tx))"
    "metered tx Bytes_Queued = sum_list (map (\<lambda>e. unat (qe_length e)) (filter qe_active (tx_queue tx)))"
    "metered tx Frames_Reserved = sum_list (map (\<lambda>r. unat (rv_count r)) (filter rv_active (tx_reservations tx)))"
    "metered tx Bytes_Reserved = sum_list (map (\<lambda>r. unat (rv_bytes r)) (filter rv_active (tx_reservations tx)))"
    "metered tx Pending_Reserved = length (filter (\<lambda>r. rv_active r \<and> rv_pending_reserved r) (tx_reservations tx))"
    unfolding metered_def len sum flip
    by (simp_all add: entry_meter_def [abs_def] reservation_meter_def [abs_def] sum_list_0 cong: if_cong)
qed

lemma local_okD:
  assumes "local_ok tx"
  shows "unat (tx_queue_count tx) = metered tx Frames_Queued" "unat (tx_queue_bytes tx) = metered tx Bytes_Queued"
    "unat (tx_reserved_count tx) = metered tx Frames_Reserved" "unat (tx_reserved_bytes tx) = metered tx Bytes_Reserved"
    "unat (tx_pending_reserved tx) = metered tx Pending_Reserved" "metered tx Frames_Total \<le> 128" "metered tx Bytes_Total \<le> 262144"
    "queue_data_frames tx \<le> MELODI_TX_DATA_LIMIT" "queue_peer_frames locator tx \<le> MELODI_TX_PER_PEER_LIMIT"
    "queue_service_frames service tx \<le> MELODI_TX_PER_SERVICE_LIMIT" "queue_binding_frames portid generation tx \<le> MELODI_TX_PER_BINDING_LIMIT"
proof -
  have c: "\<And>m c. local_meter m \<Longrightarrow> counter tx m = Some c \<Longrightarrow> c = metered tx m"
    and l: "\<And>m l. local_meter m \<Longrightarrow> meter_limit m = Some l \<Longrightarrow> metered tx m \<le> l" using assms by (simp_all add: local_ok_def)
  show "unat (tx_queue_count tx) = metered tx Frames_Queued" "unat (tx_queue_bytes tx) = metered tx Bytes_Queued"
    "unat (tx_reserved_count tx) = metered tx Frames_Reserved" "unat (tx_reserved_bytes tx) = metered tx Bytes_Reserved"
    "unat (tx_pending_reserved tx) = metered tx Pending_Reserved" by (rule c; simp)+
  show "metered tx Frames_Total \<le> 128" "metered tx Bytes_Total \<le> 262144" by (rule l; simp)+
  show "queue_data_frames tx \<le> MELODI_TX_DATA_LIMIT" using l [of Data_Frames] by (simp add: metered_frames)
  show "queue_peer_frames locator tx \<le> MELODI_TX_PER_PEER_LIMIT" using l [of "Peer_Frames locator"] by (simp add: metered_frames)
  show "queue_service_frames service tx \<le> MELODI_TX_PER_SERVICE_LIMIT" using l [of "Service_Frames service"] by (simp add: metered_frames)
  show "queue_binding_frames portid generation tx \<le> MELODI_TX_PER_BINDING_LIMIT"
    using l [of "Binding_Frames portid generation"] by (simp add: metered_frames)
qed

lemma reachable_device:
  assumes "system_step\<^sup>*\<^sup>* ([], []) (namespaces, devices)" "d < length devices" "devices ! d = (melodi, tx, phase)"
  shows "local_ok tx" "phase_sound phase tx"
proof -
  have "local_ok (queue_of (devices ! d)) \<and> phase_sound (snd (snd (devices ! d))) (queue_of (devices ! d))"
    using system_reachable_inv [OF assms(1)] assms(2) by (simp add: system_inv_def list_all_length)
  then show "local_ok tx" "phase_sound phase tx" unfolding assms(3) by simp_all
qed


lemma filter_single:
  assumes "i < length xs" "P (xs ! i)" "\<And>j. j < length xs \<Longrightarrow> j \<noteq> i \<Longrightarrow> \<not> P (xs ! j)"
  shows "filter P xs = [xs ! i]"
proof -
  have "filter P (take i xs) = []" using assms(1,3) by (auto simp: filter_empty_conv in_set_conv_nth)
  moreover have "filter P (drop (Suc i) xs) = []" using assms(1,3) by (auto simp: filter_empty_conv in_set_conv_nth)
  ultimately show ?thesis using assms(2) by (subst id_take_nth_drop [OF assms(1)]) simp
qed

text \<open>The slot and the entry the transmit work holds.\<close>

fun phase_entry :: "queue_phase \<Rightarrow> (nat \<times> melodi_tx_queue_entry) option" where
  "phase_entry Idle = None"
| "phase_entry (Checking i e) = Some (i, e)"
| "phase_entry (Budgeting i e) = Some (i, e)"
| "phase_entry (Sending i e _) = Some (i, e)"



subsection \<open>A run\<close>

text \<open>A device is created and started, a control frame is queued, and the transmit work selects it.\<close>

definition started_queue :: melodi_tx where
  "started_queue = melodi_queue_start (melodi_queue_init zero_tx)"

definition control_request :: melodi_queue_request where
  "control_request = zero_request\<lparr>rq_ttl_ms := 5000, rq_control := True\<rparr>"

definition queued_queue :: melodi_tx where
  "queued_queue = fst (melodi_core_send_batch True True 10 7 zero_device started_queue [[1, 2, 3]] zero_tx_meta control_request)"

definition queued_entry :: melodi_tx_queue_entry where
  "queued_entry = (queue_fill 7 zero_tx_meta control_request 1 5010 0 0 [1, 2, 3] 1 zero_queue_entry)\<lparr>qe_control := True\<rparr>"

definition run_fields :: "melodi_tx \<Rightarrow> melodi_tx_queue_entry list \<times> melodi_namespace_queue list \<times> bool \<times> u8 \<times> u64 \<times> u16" where
  "run_fields tx = (tx_queue tx, tx_namespaces tx, tx_queue_stopping tx, tx_control_burst tx, tx_guard_until_ms tx, tx_queue_count tx)"

lemma queued_queue_run_fields:
  "run_fields queued_queue = (queued_entry # replicate 127 zero_queue_entry, [\<lparr>nq_net = 7, nq_messages = 1, nq_bytes = 3\<rparr>], False, 0, 0, 1)"
  by code_simp

lemmas queued_queue_fields = queued_queue_run_fields [unfolded run_fields_def]

lemma reachable_started: "system_step\<^sup>*\<^sup>* ([], []) ([], [(zero_device, started_queue, Idle)])"
proof -
  have "system_step ([], []) ([], [] @ [(zero_device, melodi_queue_init zero_tx, Idle)])" by (rule system_step.New_Device)
  moreover have "system_step ([], [(zero_device, melodi_queue_init zero_tx, Idle)])
      (tx_namespaces (queue_of (zero_device, started_queue, Idle)), [(zero_device, melodi_queue_init zero_tx, Idle)][0 := (zero_device, started_queue, Idle)])"
    by (rule system_step.Device_Step)
      (simp_all add: on_namespaces_def started_queue_def melodi_queue_init_def zero_tx_def queue_step.Start)
  ultimately show ?thesis
    by (simp add: started_queue_def melodi_queue_start_def melodi_queue_init_def zero_tx_def)
qed

lemma reachable_queued: "system_step\<^sup>*\<^sup>* ([], []) (tx_namespaces queued_queue, [(zero_device, queued_queue, Idle)])"
proof -
  have "on_namespaces [] ([(zero_device, started_queue, Idle)] ! 0) = (zero_device, started_queue, Idle)"
    by (simp add: on_namespaces_def started_queue_def melodi_queue_start_def melodi_queue_init_def zero_tx_def)
  moreover have "queue_step (zero_device, started_queue, Idle) (zero_device, queued_queue, Idle)"
    unfolding queued_queue_def by (rule queue_step.Send_Batch) (simp add: batch_fits_def)
  ultimately have "system_step ([], [(zero_device, started_queue, Idle)])
      (tx_namespaces (queue_of (zero_device, queued_queue, Idle)), [(zero_device, started_queue, Idle)][0 := (zero_device, queued_queue, Idle)])"
    by (intro system_step.Device_Step) simp_all
  then show ?thesis using reachable_started by (simp add: rtranclp.rtrancl_into_rtrancl)
qed

lemma expire_nothing:
  assumes "\<And>e. e \<in> set (tx_queue tx) \<Longrightarrow> \<not> (qe_active e \<and> now_ms \<ge> qe_expires_ms e)" "length (tx_queue tx) = MELODI_TX_QUEUE_LIMIT"
  shows "melodi_queue_expire_locked now_ms tx notice = (tx, notice)"
proof -
  have "queue_expire_slot now_ms i (tx, notice) = (tx, notice)" if "i < 128" for i
    using assms(1) [OF nth_mem [of i "tx_queue tx"]] assms(2) that by (auto simp: queue_expire_slot_def Let_def)
  then have "fold (queue_expire_slot now_ms) is (tx, notice) = (tx, notice)" if "set is \<subseteq> {..<128}" for "is"
    using that by (induction "is") simp_all
  then show ?thesis unfolding melodi_queue_expire_locked_def by (simp add: subset_iff)
qed

lemma reachable_selected:
  obtains tx' i where "system_step\<^sup>*\<^sup>* ([], []) (tx_namespaces tx', [(zero_device, tx', Checking i (tx_queue tx' ! i))])"
proof -
  let ?q = queued_queue
  have q: "tx_queue ?q = queued_entry # replicate 127 zero_queue_entry" "\<not> tx_queue_stopping ?q" "tx_control_burst ?q = 0" "tx_guard_until_ms ?q = 0"
    using queued_queue_fields by simp_all
  have e: "qe_active queued_entry" "queue_ready 11 queued_entry" "qe_control queued_entry" "qe_expires_ms queued_entry = 5010" "qe_sequence queued_entry = 1"
    by (simp_all add: queued_entry_def queue_fill_def queue_ready_def zero_queue_entry_def)
  have "melodi_queue_expire_locked 11 ?q None = (?q, None)" by (rule expire_nothing) (use q(1) e in auto)
  moreover have "melodi_queue_oldest_control ?q 11 \<noteq> None"
  proof
    assume "melodi_queue_oldest_control ?q 11 = None"
    then have "QUEUE_U64_MAX \<le> qe_sequence (tx_queue ?q ! 0)"
      unfolding melodi_queue_oldest_control_def by (rule scan_min_None) (use q(1) e in simp_all)
    then show False using q(1) e(5) by (simp add: word_le_nat_alt)
  qed
  then obtain i where "melodi_queue_oldest_control ?q 11 = Some i" by auto
  ultimately obtain tx' where b: "queue_work_begin False 0 11 ?q = ((tx', None), Some i)"
    using q by (auto simp: queue_work_begin_def queue_select_def)
  have "on_namespaces (tx_namespaces ?q) ([(zero_device, ?q, Idle)] ! 0) = (zero_device, ?q, Idle)" by (simp add: on_namespaces_def)
  then have "system_step (tx_namespaces ?q, [(zero_device, ?q, Idle)])
      (tx_namespaces (queue_of (zero_device, tx', Checking i (tx_queue tx' ! i))), [(zero_device, ?q, Idle)][0 := (zero_device, tx', Checking i (tx_queue tx' ! i))])"
    using queue_step.Selected [OF b] by (intro system_step.Device_Step) simp_all
  then show thesis by (intro that [of tx' i] rtranclp.rtrancl_into_rtrancl [OF reachable_queued]) simp
qed



end
