(* ===== verification/Blake2s_Eval.thy ===== *)
theory Blake2s_Eval
  imports Locators
begin

unbundle bit_operations_syntax

text \<open>
  BLAKE2s over natural numbers, in a form the simplifier evaluates: sums and rotations on numerals,
  the state an explicit list of sixteen of them. It gives the locators of two sample nodes.
\<close>

definition add_nat :: "nat \<Rightarrow> nat \<Rightarrow> nat" where
  "add_nat a b = (let s = a + b in if s < 4294967296 then s else s - 4294967296)"

definition rotate_nat :: "nat \<Rightarrow> nat \<Rightarrow> nat" where
  "rotate_nat n v = drop_bit n v + push_bit (32 - n) (take_bit n v)"

lemma unat_add_nat: "unat (a + b :: u32) = add_nat (unat a) (unat b)"
  using unsigned_less [where ?'a = nat, of a] unsigned_less [where ?'a = nat, of b]
  by (simp add: add_nat_def Let_def unat_word_ariths mod_if)

lemma unat_rotate_nat:
  assumes "n \<le> 32"
  shows "unat (melodi_rotate_right v n) = rotate_nat n (unat v)"
proof -
  have less: "take_bit n (unat v) < 2 ^ n" by simp
  have v: "take_bit 32 (unat v) = unat v" using unsigned_less [where ?'a = nat, of v] by (simp add: take_bit_nat_eq_self)
  have "take_bit 32 (push_bit (32 - n) (unat v)) = push_bit (32 - n) (take_bit n (unat v))"
    using assms by (simp add: push_bit_take_bit)
  then have "unat (melodi_rotate_right v n) = drop_bit n (unat v) OR push_bit (32 - n) (take_bit n (unat v))"
    by (simp add: melodi_rotate_right_def unsigned_or_eq unsigned_drop_bit_eq unsigned_push_bit_eq v)
  also have "\<dots> = drop_bit n (unat v) + push_bit (32 - n) (take_bit n (unat v))"
  proof (rule disjunctive_add [symmetric])
    fix k
    have "bit (unat v) j \<Longrightarrow> j < 32" for j
      by (metis bit_take_bit_iff v)
    then show "\<not> bit (drop_bit n (unat v)) k \<or> \<not> bit (push_bit (32 - n) (take_bit n (unat v))) k"
      by (fastforce simp: bit_simps)
  qed
  finally show ?thesis by (simp add: rotate_nat_def)
qed

definition quarter_nat :: "nat \<Rightarrow> nat \<Rightarrow> nat \<Rightarrow> nat \<Rightarrow> nat \<Rightarrow> nat \<Rightarrow> (nat \<Rightarrow> nat \<Rightarrow> nat \<Rightarrow> nat \<Rightarrow> 'r) \<Rightarrow> 'r" where
  "quarter_nat a b c d x y k =
     (let a = add_nat (add_nat a b) x; d = rotate_nat 16 (d XOR a); c = add_nat c d; b = rotate_nat 12 (b XOR c);
          a = add_nat (add_nat a b) y; d = rotate_nat 8 (d XOR a); c = add_nat c d; b = rotate_nat 7 (b XOR c)
      in k a b c d)"

lemma quarter_nat_cong:
  "a = a' \<Longrightarrow> b = b' \<Longrightarrow> c = c' \<Longrightarrow> d = d' \<Longrightarrow> x = x' \<Longrightarrow> y = y' \<Longrightarrow>
     quarter_nat a b c d x y k = quarter_nat a' b' c' d' x' y' k"
  by simp

definition mix_nat :: "nat list \<Rightarrow> nat \<Rightarrow> nat \<Rightarrow> nat \<Rightarrow> nat \<Rightarrow> nat \<Rightarrow> nat \<Rightarrow> nat list" where
  "mix_nat s a b c d x y =
     quarter_nat (s ! a) (s ! b) (s ! c) (s ! d) x y (\<lambda>va vb vc vd. s[a := va, d := vd, c := vc, b := vb])"

lemma list_update_twice:
  assumes "distinct [a, b, c, d]" "a < length s" "b < length s" "c < length s" "d < length s"
  shows "s[a := a1, d := d1, c := c1, b := b1, a := a2, d := d2, c := c2, b := b2] = s[a := a2, d := d2, c := c2, b := b2]"
  using assms by (intro nth_equalityI) (simp_all add: nth_list_update)

lemma mix_nat:
  assumes "distinct [a, b, c, d]" "a < length s" "b < length s" "c < length s" "d < length s"
  shows "map unat (melodi_blake2s_mix s a b c d x y) = mix_nat (map unat s) a b c d (unat x) (unat y)"
  using assms
  by (simp add: melodi_blake2s_mix_def mix_nat_def quarter_nat_def Let_def list_update_twice map_update unat_add_nat
      unat_rotate_nat unsigned_xor_eq)

lemma mix_nat_columns:
  "mix_nat [v0, v1, v2, v3, v4, v5, v6, v7, v8, v9, v10, v11, v12, v13, v14, v15] 0 4 8 12 x y =
     quarter_nat v0 v4 v8 v12 x y (\<lambda>v0 v4 v8 v12. [v0, v1, v2, v3, v4, v5, v6, v7, v8, v9, v10, v11, v12, v13, v14, v15])"
  "mix_nat [v0, v1, v2, v3, v4, v5, v6, v7, v8, v9, v10, v11, v12, v13, v14, v15] (Suc 0) 5 9 13 x y =
     quarter_nat v1 v5 v9 v13 x y (\<lambda>v1 v5 v9 v13. [v0, v1, v2, v3, v4, v5, v6, v7, v8, v9, v10, v11, v12, v13, v14, v15])"
  "mix_nat [v0, v1, v2, v3, v4, v5, v6, v7, v8, v9, v10, v11, v12, v13, v14, v15] 2 6 10 14 x y =
     quarter_nat v2 v6 v10 v14 x y (\<lambda>v2 v6 v10 v14. [v0, v1, v2, v3, v4, v5, v6, v7, v8, v9, v10, v11, v12, v13, v14, v15])"
  "mix_nat [v0, v1, v2, v3, v4, v5, v6, v7, v8, v9, v10, v11, v12, v13, v14, v15] 3 7 11 15 x y =
     quarter_nat v3 v7 v11 v15 x y (\<lambda>v3 v7 v11 v15. [v0, v1, v2, v3, v4, v5, v6, v7, v8, v9, v10, v11, v12, v13, v14, v15])"
  "mix_nat [v0, v1, v2, v3, v4, v5, v6, v7, v8, v9, v10, v11, v12, v13, v14, v15] 0 5 10 15 x y =
     quarter_nat v0 v5 v10 v15 x y (\<lambda>v0 v5 v10 v15. [v0, v1, v2, v3, v4, v5, v6, v7, v8, v9, v10, v11, v12, v13, v14, v15])"
  "mix_nat [v0, v1, v2, v3, v4, v5, v6, v7, v8, v9, v10, v11, v12, v13, v14, v15] (Suc 0) 6 11 12 x y =
     quarter_nat v1 v6 v11 v12 x y (\<lambda>v1 v6 v11 v12. [v0, v1, v2, v3, v4, v5, v6, v7, v8, v9, v10, v11, v12, v13, v14, v15])"
  "mix_nat [v0, v1, v2, v3, v4, v5, v6, v7, v8, v9, v10, v11, v12, v13, v14, v15] 2 7 8 13 x y =
     quarter_nat v2 v7 v8 v13 x y (\<lambda>v2 v7 v8 v13. [v0, v1, v2, v3, v4, v5, v6, v7, v8, v9, v10, v11, v12, v13, v14, v15])"
  "mix_nat [v0, v1, v2, v3, v4, v5, v6, v7, v8, v9, v10, v11, v12, v13, v14, v15] 3 4 9 14 x y =
     quarter_nat v3 v4 v9 v14 x y (\<lambda>v3 v4 v9 v14. [v0, v1, v2, v3, v4, v5, v6, v7, v8, v9, v10, v11, v12, v13, v14, v15])"
  by (simp_all add: mix_nat_def)

definition round_nat :: "nat list \<Rightarrow> nat list \<Rightarrow> nat list \<Rightarrow> nat list" where
  "round_nat message order state =
     (let state = mix_nat state 0 4 8 12 (message ! (order ! 0)) (message ! (order ! 1));
          state = mix_nat state 1 5 9 13 (message ! (order ! 2)) (message ! (order ! 3));
          state = mix_nat state 2 6 10 14 (message ! (order ! 4)) (message ! (order ! 5));
          state = mix_nat state 3 7 11 15 (message ! (order ! 6)) (message ! (order ! 7));
          state = mix_nat state 0 5 10 15 (message ! (order ! 8)) (message ! (order ! 9));
          state = mix_nat state 1 6 11 12 (message ! (order ! 10)) (message ! (order ! 11));
          state = mix_nat state 2 7 8 13 (message ! (order ! 12)) (message ! (order ! 13));
          state = mix_nat state 3 4 9 14 (message ! (order ! 14)) (message ! (order ! 15))
      in state)"

lemma length_mix [simp]: "length (melodi_blake2s_mix s a b c d x y) = length s"
  by (simp add: melodi_blake2s_mix_def Let_def)

lemma round_nat:
  assumes "length s = 16" "length message = 16" "\<forall>i<16. melodi_blake2s_sigma ! r ! i < 16"
  shows "map unat (melodi_blake2s_round message r s) = round_nat (map unat message) (melodi_blake2s_sigma ! r) (map unat s)"
  using assms by (simp add: melodi_blake2s_round_def round_nat_def Let_def mix_nat)

lemma sigma_bound: "r < 10 \<Longrightarrow> i < 16 \<Longrightarrow> melodi_blake2s_sigma ! r ! i < 16"
proof -
  have "\<forall>order\<in>set melodi_blake2s_sigma. \<forall>k\<in>set order. k < 16" "\<forall>order\<in>set melodi_blake2s_sigma. length order = 16"
    "length melodi_blake2s_sigma = 10"
    by (simp_all add: melodi_blake2s_sigma_def)
  then show "r < 10 \<Longrightarrow> i < 16 \<Longrightarrow> melodi_blake2s_sigma ! r ! i < 16" by (metis nth_mem)
qed

lemma length_round [simp]: "length (melodi_blake2s_round message r s) = length s"
  by (simp add: melodi_blake2s_round_def Let_def)

lemma length_rounds: "length (fold (melodi_blake2s_round message) rs s) = length s"
  by (induction rs arbitrary: s) simp_all

lemma rounds_nat:
  assumes "length s = 16" "length message = 16" "\<forall>r\<in>set rs. r < 10"
  shows "map unat (fold (melodi_blake2s_round message) rs s) =
    fold (round_nat (map unat message)) (map ((!) melodi_blake2s_sigma) rs) (map unat s)"
  using assms
proof (induction rs arbitrary: s)
  case (Cons r rs)
  then show ?case using round_nat [of s message r] sigma_bound [of r] by simp
qed simp


text \<open>One compression: from the sixteen words of the block and the sixteen words of the initial state.\<close>

definition compress_nat :: "nat list \<Rightarrow> nat list \<Rightarrow> nat list \<Rightarrow> nat list" where
  "compress_nat message h start =
     (let state = fold (round_nat message) melodi_blake2s_sigma start
      in map (\<lambda>i. h ! i XOR (state ! i XOR state ! (i + 8))) [0, 1, 2, 3, 4, 5, 6, 7])"

definition start_state :: "u32 list \<Rightarrow> nat \<Rightarrow> bool \<Rightarrow> u32 list" where
  "start_state h t final =
     (let state = h @ melodi_blake2s_iv;
          state = state[12 := state ! 12 XOR of_nat t];
          state = state[13 := state ! 13 XOR of_nat (t div 4294967296)]
      in if final then state[14 := NOT (state ! 14)] else state)"

definition block_words :: "bytes \<Rightarrow> u32 list" where
  "block_words block = map (\<lambda>i. melodi_load32 (drop (i * 4) block)) [0, 1, 2, 3, 4, 5, 6, 7, 8, 9, 10, 11, 12, 13, 14, 15]"

lemma upt_16: "[0..<16] = [0, 1, 2, 3, 4, 5, 6, 7, 8, 9, 10, 11, 12, 13, 14, 15 :: nat]"
  by (simp add: upt_rec)

lemma upt_8: "[0..<8] = [0, 1, 2, 3, 4, 5, 6, 7 :: nat]"
  by (simp add: upt_rec)

lemma upt_10: "[0..<10] = [0, 1, 2, 3, 4, 5, 6, 7, 8, 9 :: nat]"
  by (simp add: upt_rec)

lemma map_nth_length: "length xs = n \<Longrightarrow> map ((!) xs) [0..<n] = xs"
  using map_nth [of xs] by simp

lemma melodi_blake2s_iv_length: "length melodi_blake2s_iv = 8"
  by (simp add: melodi_blake2s_iv_def)

lemma compress_nat:
  assumes "length h = 8"
  shows "map unat (blake2s_F h block t final) =
    compress_nat (map unat (block_words block)) (map unat h) (map unat (start_state h t final))"
proof -
  have h: "map ((!) h) [0..<8] = h" "map ((!) melodi_blake2s_iv) [0..<8] = melodi_blake2s_iv"
    using assms by (simp_all add: map_nth_length melodi_blake2s_iv_length)
  let ?s = "start_state h t final"
  have len: "length ?s = 16" "length (block_words block) = 16"
    using assms by (simp_all add: start_state_def block_words_def melodi_blake2s_iv_def Let_def)
  let ?e = "fold (melodi_blake2s_round (block_words block)) [0..<10] ?s"
  have e: "length ?e = 16"
    using len(1) by (simp add: length_rounds)
  have F: "blake2s_F h block t final = map (\<lambda>i. h ! i XOR (?e ! i XOR ?e ! (i + 8))) [0..<8]"
    using h by (simp add: blake2s_F_def melodi_blake2s_compress_def Let_def start_state_def block_words_def upt_16 cong: if_cong)
  have sigma: "map ((!) melodi_blake2s_sigma) [0..<10] = melodi_blake2s_sigma"
    by (rule map_nth_length) (simp add: melodi_blake2s_sigma_def)
  have n: "map unat ?e = fold (round_nat (map unat (block_words block))) melodi_blake2s_sigma (map unat ?s)"
    using rounds_nat [OF len, of "[0..<10]"] unfolding sigma by simp
  show ?thesis
    unfolding F compress_nat_def Let_def n [symmetric] using e assms by (simp add: upt_8 unsigned_xor_eq)
qed

lemmas evaluate_hash = compress_nat_def round_nat_def mix_nat_columns quarter_nat_def add_nat_def rotate_nat_def
  Let_def melodi_blake2s_sigma_def

subsection \<open>Two nodes\<close>

text \<open>Two identities that differ in their last octet; the first block of their hash is the same.\<close>

definition other_node :: melodi_node_id where
  "other_node = 1 # replicate 31 2 @ [3]"

definition sample_message :: bytes where
  "sample_message = melodi_locator_label @ replicate 32 0 @ sample_node 2 @ round_bytes 0"

definition other_message :: bytes where
  "other_message = melodi_locator_label @ replicate 32 0 @ other_node @ round_bytes 0"

definition moved_message :: bytes where
  "moved_message = melodi_locator_label @ replicate 32 0 @ other_node @ round_bytes 1"

definition first_block :: bytes where
  "first_block = [109, 101, 108, 111, 100, 105, 45, 110, 97, 116, 105, 118, 101, 45, 108, 111, 99, 97, 116, 111, 114, 45, 
      118, 49, 0, 0, 0, 0, 0, 0, 0, 0, 0, 0, 0, 0, 0, 0, 0, 0, 0, 0, 0, 0, 0, 0, 0, 0, 0, 0, 0, 0, 0, 0, 
      0, 0, 1, 2, 2, 2, 2, 2, 2, 2]"

definition initial_hash :: "u32 list" where
  "initial_hash = [1795745351, 3144134277, 1013904242, 2773480762, 1359893119, 2600822924, 528734635, 1541459225]"

lemma initial_hash: "melodi_blake2s_iv[0 := melodi_blake2s_iv ! 0 XOR 0x01010020] = initial_hash"
  by code_simp

definition first_hash :: "u32 list" where
  "first_hash = [1549545831, 4102471676, 3173073559, 976066945, 1876106240, 880283598, 2427714506, 3280582942]"

lemma first_words: "block_words first_block = [1869374829, 1848469860, 1986622561, 1869360485, 1869898083, 829828466, 0, 0, 0, 0, 0, 0, 0, 0, 33686017, 
      33686018]"
  by (simp add: block_words_def first_block_def melodi_load32_def)

lemma first_start: "start_state initial_hash 64 False =
    [1795745351, 3144134277, 1013904242, 2773480762, 1359893119, 2600822924, 528734635, 1541459225, 
      1779033703, 3144134277, 1013904242, 2773480762, 1359893055, 2600822924, 528734635, 1541459225]"
  by (simp add: start_state_def initial_hash_def melodi_blake2s_iv_def)

lemma first_compression:
  "compress_nat [1869374829, 1848469860, 1986622561, 1869360485, 1869898083, 829828466, 0, 0, 0, 0, 0, 0, 0, 0, 33686017, 
      33686018]
    [1795745351, 3144134277, 1013904242, 2773480762, 1359893119, 2600822924, 528734635, 1541459225]
    [1795745351, 3144134277, 1013904242, 2773480762, 1359893119, 2600822924, 528734635, 1541459225, 
      1779033703, 3144134277, 1013904242, 2773480762, 1359893055, 2600822924, 528734635, 1541459225] =
    [1549545831, 4102471676, 3173073559, 976066945, 1876106240, 880283598, 2427714506, 3280582942]"
  by (simp add: evaluate_hash cong: let_weak_cong quarter_nat_cong)

lemma unat_list_eqI: "map unat xs = map unat ys \<Longrightarrow> xs = (ys :: u32 list)"
  by (rule map_injective) (auto intro: injI word_unat_eq_iff [THEN iffD2])

lemma first_hash:
  "blake2s_F initial_hash first_block 64 False = first_hash"
  by (rule unat_list_eqI)
     (subst compress_nat, simp add: initial_hash_def, simp add: first_words first_start, simp add: initial_hash_def first_hash_def first_compression)

lemma second_start: "start_state first_hash 93 True =
    [1549545831, 4102471676, 3173073559, 976066945, 1876106240, 880283598, 2427714506, 3280582942, 
      1779033703, 3144134277, 1013904242, 2773480762, 1359893026, 2600822924, 3766232660, 1541459225]"
  by (simp add: start_state_def first_hash_def melodi_blake2s_iv_def)

definition sample_block :: bytes where
  "sample_block = [2, 2, 2, 2, 2, 2, 2, 2, 2, 2, 2, 2, 2, 2, 2, 2, 2, 2, 2, 2, 2, 2, 2, 2, 2, 0, 0, 0, 0]"

definition sample_hash :: "u32 list" where
  "sample_hash = [1708578614, 1714705083, 645397283, 3326549204, 3004344601, 2155751580, 1981246711, 2245104902]"

lemma sample_words: "block_words (sample_block @ replicate 35 0) = [33686018, 33686018, 33686018, 33686018, 33686018, 33686018, 2, 0, 0, 0, 0, 0, 0, 0, 0, 0]"
  by (simp add: block_words_def sample_block_def melodi_load32_def)

lemma sample_compression:
  "compress_nat [33686018, 33686018, 33686018, 33686018, 33686018, 33686018, 2, 0, 0, 0, 0, 0, 0, 0, 0, 0]
    [1549545831, 4102471676, 3173073559, 976066945, 1876106240, 880283598, 2427714506, 3280582942]
    [1549545831, 4102471676, 3173073559, 976066945, 1876106240, 880283598, 2427714506, 3280582942, 
      1779033703, 3144134277, 1013904242, 2773480762, 1359893026, 2600822924, 3766232660, 1541459225] =
    [1708578614, 1714705083, 645397283, 3326549204, 3004344601, 2155751580, 1981246711, 2245104902]"
  by (simp add: evaluate_hash cong: let_weak_cong quarter_nat_cong)

lemma sample_hash: "blake2s_F first_hash (sample_block @ replicate 35 0) 93 True = sample_hash"
  by (rule unat_list_eqI)
     (subst compress_nat, simp add: first_hash_def, simp add: sample_words second_start, simp add: first_hash_def sample_hash_def sample_compression)

lemma sample_split: "length sample_message = 93" "take 64 sample_message = first_block" "drop 64 sample_message = sample_block"
  "length sample_block = 29"
  by code_simp+

lemma sample_locator: "locator_of (replicate 32 0) (sample_node 2) 0 = 920114789"
proof -
  have "blake2s_blocks initial_hash 0 sample_message = blake2s_blocks first_hash 64 sample_block"
    by (subst blake2s_blocks.simps) (simp add: sample_split first_hash)
  also have "\<dots> = sample_hash"
    by (subst blake2s_blocks.simps) (simp add: sample_split sample_hash)
  finally have "locator_of (replicate 32 0) (sample_node 2) 0 = digest_locator (concat (map melodi_store32 sample_hash))"
    by (simp only: locator_of_def blake2s_def initial_hash sample_message_def)
  also have "\<dots> = 920114789" by code_simp
  finally show ?thesis .
qed

definition other_block :: bytes where
  "other_block = [2, 2, 2, 2, 2, 2, 2, 2, 2, 2, 2, 2, 2, 2, 2, 2, 2, 2, 2, 2, 2, 2, 2, 2, 3, 0, 0, 0, 0]"

definition other_hash :: "u32 list" where
  "other_hash = [899371208, 1812989526, 4112054523, 1338690396, 3075211676, 1836697197, 4079507162, 3590434452]"

lemma other_words: "block_words (other_block @ replicate 35 0) = [33686018, 33686018, 33686018, 33686018, 33686018, 33686018, 3, 0, 0, 0, 0, 0, 0, 0, 0, 0]"
  by (simp add: block_words_def other_block_def melodi_load32_def)

lemma other_compression:
  "compress_nat [33686018, 33686018, 33686018, 33686018, 33686018, 33686018, 3, 0, 0, 0, 0, 0, 0, 0, 0, 0]
    [1549545831, 4102471676, 3173073559, 976066945, 1876106240, 880283598, 2427714506, 3280582942]
    [1549545831, 4102471676, 3173073559, 976066945, 1876106240, 880283598, 2427714506, 3280582942, 
      1779033703, 3144134277, 1013904242, 2773480762, 1359893026, 2600822924, 3766232660, 1541459225] =
    [899371208, 1812989526, 4112054523, 1338690396, 3075211676, 1836697197, 4079507162, 3590434452]"
  by (simp add: evaluate_hash cong: let_weak_cong quarter_nat_cong)

lemma other_hash: "blake2s_F first_hash (other_block @ replicate 35 0) 93 True = other_hash"
  by (rule unat_list_eqI)
     (subst compress_nat, simp add: first_hash_def, simp add: other_words second_start, simp add: first_hash_def other_hash_def other_compression)

lemma other_split: "length other_message = 93" "take 64 other_message = first_block" "drop 64 other_message = other_block"
  "length other_block = 29"
  by code_simp+

lemma other_locator: "locator_of (replicate 32 0) other_node 0 = 3360725813"
proof -
  have "blake2s_blocks initial_hash 0 other_message = blake2s_blocks first_hash 64 other_block"
    by (subst blake2s_blocks.simps) (simp add: other_split first_hash)
  also have "\<dots> = other_hash"
    by (subst blake2s_blocks.simps) (simp add: other_split other_hash)
  finally have "locator_of (replicate 32 0) other_node 0 = digest_locator (concat (map melodi_store32 other_hash))"
    by (simp only: locator_of_def blake2s_def initial_hash other_message_def)
  also have "\<dots> = 3360725813" by code_simp
  finally show ?thesis .
qed

text \<open>The second node in the next round.\<close>

definition moved_block :: bytes where
  "moved_block = [2, 2, 2, 2, 2, 2, 2, 2, 2, 2, 2, 2, 2, 2, 2, 2, 2, 2, 2, 2, 2, 2, 2, 2, 3, 0, 0, 0, 1]"

definition moved_hash :: "u32 list" where
  "moved_hash = [1689758571, 1074868163, 1610946630, 2155022901, 4166636068, 2877788289, 3206002331, 2904719669]"

lemma moved_words: "block_words (moved_block @ replicate 35 0) = [33686018, 33686018, 33686018, 33686018, 33686018, 33686018, 3, 1, 0, 0, 0, 0, 0, 0, 0, 0]"
  by (simp add: block_words_def moved_block_def melodi_load32_def)

lemma moved_compression:
  "compress_nat [33686018, 33686018, 33686018, 33686018, 33686018, 33686018, 3, 1, 0, 0, 0, 0, 0, 0, 0, 0]
    [1549545831, 4102471676, 3173073559, 976066945, 1876106240, 880283598, 2427714506, 3280582942]
    [1549545831, 4102471676, 3173073559, 976066945, 1876106240, 880283598, 2427714506, 3280582942, 
      1779033703, 3144134277, 1013904242, 2773480762, 1359893026, 2600822924, 3766232660, 1541459225] =
    [1689758571, 1074868163, 1610946630, 2155022901, 4166636068, 2877788289, 3206002331, 2904719669]"
  by (simp add: evaluate_hash cong: let_weak_cong quarter_nat_cong)

lemma moved_hash: "blake2s_F first_hash (moved_block @ replicate 35 0) 93 True = moved_hash"
  by (rule unat_list_eqI)
     (subst compress_nat, simp add: first_hash_def, simp add: moved_words second_start, simp add: first_hash_def moved_hash_def moved_compression [simplified One_nat_def])

lemma moved_split: "length moved_message = 93" "take 64 moved_message = first_block" "drop 64 moved_message = moved_block"
  "length moved_block = 29"
  by code_simp+

lemma moved_locator: "locator_of (replicate 32 0) other_node 1 = 1806415716"
proof -
  have "blake2s_blocks initial_hash 0 moved_message = blake2s_blocks first_hash 64 moved_block"
    by (subst blake2s_blocks.simps) (simp add: moved_split first_hash)
  also have "\<dots> = moved_hash"
    by (subst blake2s_blocks.simps) (simp add: moved_split moved_hash)
  finally have "locator_of (replicate 32 0) other_node 1 = digest_locator (concat (map melodi_store32 moved_hash))"
    by (simp only: locator_of_def blake2s_def initial_hash moved_message_def)
  also have "\<dots> = 1806415716" by code_simp
  finally show ?thesis .
qed

end
