(* ===== verification/Peers.thy ===== *)
theory Peers
  imports Data Blake2s_Eval
begin

text \<open>
  The peers of a device, from \<open>src/kernel/core/discovery.c\<close>: the slots of the table, the epochs of
  sessions, conflicts between locators, the expiry of peers, the choice of another locator by the
  device itself, and the admission of a claim, that is of a signed statement of a node about its
  locator. A peer is named by its index in the table. Every operation runs under \<open>melodi->lock\<close>;
  \<open>jiffies\<close> is an argument, a function of the iteration where a loop reads it repeatedly.
\<close>

abbreviation (input) MELODI_LINK_LOCATOR_BROADCAST :: u32 where "MELODI_LINK_LOCATOR_BROADCAST \<equiv> 0xffffffff"
abbreviation (input) MELODI_ANNOUNCE_JITTER_MS :: u32 where "MELODI_ANNOUNCE_JITTER_MS \<equiv> 3000"
abbreviation (input) MELODI_ANNOUNCE_SLOTS :: u32 where "MELODI_ANNOUNCE_SLOTS \<equiv> 4"

subsection \<open>Slots and sessions\<close>

definition melodi_peer_slot :: "melodi_device \<Rightarrow> bytes \<Rightarrow> nat option" where
  "melodi_peer_slot melodi node_id =
     (case find_slot (\<lambda>peer. pe_authenticated peer \<and> pe_node_id peer = node_id) (dev_peers melodi) of
        Some index \<Rightarrow> Some index
      | None \<Rightarrow> find_slot (\<lambda>peer. \<not> pe_authenticated peer) (dev_peers melodi))"

definition melodi_peer_session_advance :: "melodi_peer \<Rightarrow> melodi_peer" where
  "melodi_peer_session_advance peer =
     (let peer = peer\<lparr>pe_session_epoch := pe_session_epoch peer + 1\<rparr>
      in if pe_session_epoch peer = 0 then peer\<lparr>pe_session_epoch := pe_session_epoch peer + 1\<rparr> else peer)"

definition melodi_peer_observe_locked :: "u64 \<Rightarrow> melodi_peer \<Rightarrow> melodi_rx_meta \<Rightarrow> melodi_peer" where
  "melodi_peer_observe_locked ktime peer meta =
     peer\<lparr>pe_last_seen_ns := (if rm_timestamp_ns meta \<noteq> 0 then rm_timestamp_ns meta else ktime),
       pe_rssi := rm_rssi meta, pe_snr := rm_snr meta, pe_hops := rm_hops meta\<rparr>"

text \<open>An assignment through a pointer to a slot.\<close>

definition peer_update :: "nat \<Rightarrow> (melodi_peer \<Rightarrow> melodi_peer) \<Rightarrow> melodi_device \<Rightarrow> melodi_device" where
  "peer_update index f melodi = melodi\<lparr>dev_peers := (dev_peers melodi)[index := f (dev_peers melodi ! index)]\<rparr>"

definition peer_session_wipe :: "melodi_peer \<Rightarrow> melodi_peer" where
  "peer_session_wipe peer =
     melodi_peer_session_advance (peer\<lparr>pe_transmit_key := replicate 32 0, pe_receive_key := replicate 32 0,
       pe_ephemeral_private := replicate 32 0, pe_receive_replay := melodi_replay_reset,
       pe_session_ready := False, pe_handshake_pending := False\<rparr>)"

definition melodi_peer_session_reset_locked :: "melodi_device \<Rightarrow> nat \<Rightarrow> melodi_device" where
  "melodi_peer_session_reset_locked melodi index =
     peer_update index peer_session_wipe
       (melodi_data_peer_reset_locked melodi (pe_node_id (dev_peers melodi ! index)))"

subsection \<open>Expiry\<close>

text \<open>The delay after which the expiry work runs next; \<open>None\<close> when it is not scheduled.\<close>

definition melodi_peer_expiry_schedule_locked :: "u64 \<Rightarrow> melodi_device \<Rightarrow> u64 option" where
  "melodi_peer_expiry_schedule_locked jiffies melodi =
     (let earliest = fold (\<lambda>peer earliest.
            if pe_authenticated peer \<and> (earliest = 0 \<or> time_before (pe_expires peer) earliest)
            then pe_expires peer else earliest) (dev_peers melodi) 0
      in if earliest = 0 then None
         else Some (if time_after_eq jiffies earliest then 1 else earliest - jiffies))"

subsection \<open>Conflicts\<close>

definition conflicts_pair :: "nat \<Rightarrow> nat \<Rightarrow> melodi_peer list \<Rightarrow> melodi_peer list" where
  "conflicts_pair first second peers =
     (if \<not> pe_authenticated (peers ! second) \<or>
         pe_native_locator (peers ! first) \<noteq> pe_native_locator (peers ! second)
      then peers
      else let peers = peers[first := (peers ! first)\<lparr>pe_conflicted := True\<rparr>]
           in peers[second := (peers ! second)\<lparr>pe_conflicted := True\<rparr>])"

definition conflicts_row :: "nat \<Rightarrow> melodi_peer list \<Rightarrow> melodi_peer list" where
  "conflicts_row first peers =
     (if \<not> pe_authenticated (peers ! first) then peers
      else fold (conflicts_pair first) [first + 1..<MELODI_PEER_LIMIT] peers)"

definition melodi_conflicts_recompute_locked :: "melodi_device \<Rightarrow> melodi_device" where
  "melodi_conflicts_recompute_locked melodi =
     (let peers = map (\<lambda>peer. peer\<lparr>pe_conflicted :=
            pe_authenticated peer \<and> pe_native_locator peer = dev_local_native_locator melodi\<rparr>) (dev_peers melodi)
      in melodi\<lparr>dev_peers := fold conflicts_row [0..<MELODI_PEER_LIMIT] peers\<rparr>)"

text \<open>The section of \<open>melodi_peer_expiry_work\<close> under the lock.\<close>

definition peer_expire :: "(nat \<Rightarrow> u64) \<Rightarrow> nat \<Rightarrow> melodi_device \<Rightarrow> melodi_device" where
  "peer_expire jiffies index melodi =
     (let peer = dev_peers melodi ! index
      in if \<not> pe_authenticated peer \<or> time_before (jiffies index) (pe_expires peer) then melodi
         else peer_update index (\<lambda>_. zero_peer) (melodi_peer_session_reset_locked melodi index))"

definition peer_expiry_locked :: "(nat \<Rightarrow> u64) \<Rightarrow> melodi_device \<Rightarrow> melodi_device" where
  "peer_expiry_locked jiffies melodi =
     melodi_conflicts_recompute_locked (fold (peer_expire jiffies) [0..<MELODI_PEER_LIMIT] melodi)"

subsection \<open>Announcements\<close>

text \<open>The delay in milliseconds that is passed to the announce work; \<open>random\<close> is drawn below the lane.\<close>

definition announce_lane :: "u32 \<Rightarrow> u32" where
  "announce_lane pace_ms = (if pace_ms > MELODI_ANNOUNCE_JITTER_MS then pace_ms else MELODI_ANNOUNCE_JITTER_MS)"

definition announce_slot :: "bytes \<Rightarrow> u32" where
  "announce_slot node_id = fold (\<lambda>b slot. slot + ucast b) node_id 0 mod MELODI_ANNOUNCE_SLOTS"

definition melodi_announce_schedule :: "u32 \<Rightarrow> (u32 \<Rightarrow> u32) \<Rightarrow> melodi_device \<Rightarrow> u32 \<Rightarrow> u32" where
  "melodi_announce_schedule pace_ms random_below melodi base_ms =
     (let lane = announce_lane pace_ms; slot = announce_slot (dev_node_id melodi)
      in base_ms + slot * lane + random_below lane)"

definition melodi_announce_period :: "u32 \<Rightarrow> u32" where
  "melodi_announce_period pace_ms = MELODI_ANNOUNCE_SLOTS * announce_lane pace_ms"

subsection \<open>Reset\<close>

definition peer_reset_authenticated :: "nat \<Rightarrow> melodi_device \<Rightarrow> melodi_device" where
  "peer_reset_authenticated index melodi =
     (if pe_authenticated (dev_peers melodi ! index) then melodi_peer_session_reset_locked melodi index else melodi)"

definition melodi_discovery_reset_locked :: "melodi_device \<Rightarrow> melodi_device" where
  "melodi_discovery_reset_locked melodi =
     (fold peer_reset_authenticated [0..<MELODI_PEER_LIMIT] melodi)
       \<lparr>dev_peers := replicate MELODI_PEER_LIMIT zero_peer\<rparr>"

subsection \<open>The locator of the device\<close>

definition occupied_locators :: "melodi_device \<Rightarrow> u32 list" where
  "occupied_locators melodi = map pe_native_locator (filter pe_authenticated (dev_peers melodi))"

definition melodi_local_reassign_locked :: "melodi_device \<Rightarrow> melodi_device \<times> unit res" where
  "melodi_local_reassign_locked melodi =
     (if dev_local_collision_round melodi = MELODI_U32_MAX then (melodi, Inl EOVERFLOW)
      else case melodi_map_native_locator_available (dev_mesh_domain melodi) (dev_node_id melodi)
                  (dev_local_collision_round melodi + 1) (occupied_locators melodi) of
             Inl error \<Rightarrow> (melodi, Inl error)
           | Inr (native_locator, round) \<Rightarrow>
               (let melodi = melodi\<lparr>dev_local_native_locator := native_locator, dev_local_collision_round := round,
                      dev_conflict_pending := True\<rparr>;
                    melodi = fold peer_reset_authenticated [0..<MELODI_PEER_LIMIT] melodi;
                    melodi = melodi_data_reassembly_reset_locked melodi
                in (melodi_data_order_reset_locked melodi, Inr ())))"

subsection \<open>Claims\<close>

text \<open>
  The result of an admitted claim: the peer, whether the device chose another locator, whether the
  claimed locator was the locator of the device. The table is changed before some of the errors.
\<close>

definition claim_stale :: "melodi_peer \<Rightarrow> u32 \<Rightarrow> u64 \<Rightarrow> bool" where
  "claim_stale peer generation counter \<longleftrightarrow>
     pe_authenticated peer \<and>
     (generation < pe_generation peer \<or> (generation = pe_generation peer \<and> counter \<le> pe_control_counter peer))"

definition claim_resets :: "melodi_peer \<Rightarrow> u32 \<Rightarrow> u32 \<Rightarrow> u32 \<Rightarrow> u32 \<Rightarrow> bool" where
  "claim_resets peer native_locator link_locator round generation \<longleftrightarrow>
     \<not> pe_authenticated peer \<or> generation \<noteq> pe_generation peer \<or> native_locator \<noteq> pe_native_locator peer \<or>
     link_locator \<noteq> pe_link_locator peer \<or> round \<noteq> pe_collision_round peer"

text \<open>The assignments to the slot of the peer.\<close>

definition claim_store ::
  "nat \<Rightarrow> bytes \<Rightarrow> u32 \<Rightarrow> u32 \<Rightarrow> u32 \<Rightarrow> u32 \<Rightarrow> u64 \<Rightarrow> melodi_device \<Rightarrow> melodi_device" where
  "claim_store index node_id native_locator link_locator round generation counter melodi =
     (let peer = dev_peers melodi ! index;
          melodi = (if \<not> pe_authenticated peer then peer_update index (\<lambda>_. zero_peer) melodi
            else if claim_resets peer native_locator link_locator round generation
            then melodi_peer_session_reset_locked melodi index else melodi)
      in peer_update index (\<lambda>peer. peer\<lparr>pe_node_id := node_id, pe_native_locator := native_locator,
           pe_link_locator := link_locator, pe_collision_round := round, pe_generation := generation,
           pe_control_counter := counter, pe_authenticated := True\<rparr>) melodi)"

definition melodi_claim_locked ::
  "melodi_device \<Rightarrow> bytes \<Rightarrow> u32 \<Rightarrow> u32 \<Rightarrow> u32 \<Rightarrow> u32 \<Rightarrow> u64 \<Rightarrow> bool \<Rightarrow> melodi_device \<times> (nat \<times> bool \<times> bool) res" where
  "melodi_claim_locked melodi node_id native_locator link_locator round generation counter resolve_local =
     (if link_locator = 0 \<or> link_locator = MELODI_LINK_LOCATOR_BROADCAST then (melodi, Inl EPROTO)
      else case melodi_map_native_locator (dev_mesh_domain melodi) node_id round of
        Inl error \<Rightarrow> (melodi, Inl error)
      | Inr (derived_locator, selected_round) \<Rightarrow>
         if selected_round \<noteq> round \<or> derived_locator \<noteq> native_locator then (melodi, Inl EPROTO)
         else if node_id = dev_node_id melodi then (melodi, Inl EALREADY)
         else (case melodi_peer_slot melodi node_id of
           None \<Rightarrow> (melodi, Inl ENOSPC)
         | Some index \<Rightarrow>
            if claim_stale (dev_peers melodi ! index) generation counter then (melodi, Inl EALREADY)
            else
             (let melodi = claim_store index node_id native_locator link_locator round generation counter melodi;
                  local_collision = (native_locator = dev_local_native_locator melodi);
                  (melodi, local_changed) =
                    (if local_collision \<and> memcmp node_id (dev_node_id melodi) MELODI_NODE_ID_SIZE < 0 \<and> resolve_local
                     then (case melodi_local_reassign_locked melodi of
                             (melodi, Inl error) \<Rightarrow> (melodi, Inl error)
                           | (melodi, Inr _) \<Rightarrow> (melodi, Inr True))
                     else (melodi, Inr False));
                  melodi = melodi_conflicts_recompute_locked melodi
              in case local_changed of
                   Inl error \<Rightarrow> (melodi, Inl error)
                 | Inr local_changed \<Rightarrow>
                    if pe_conflicted (dev_peers melodi ! index) \<and> \<not> resolve_local then (melodi, Inl EADDRINUSE)
                    else (melodi, Inr (index, local_changed, local_collision)))))"

subsection \<open>What resets keep\<close>

text \<open>A device without its tables of messages; the operations on messages change nothing else.\<close>

definition stripped :: "melodi_device \<Rightarrow> melodi_device" where
  "stripped melodi = melodi\<lparr>dev_reassembly_bytes := 0, dev_reassemblies := [], dev_receipts := [], dev_order_tx := [],
     dev_order_rx := [], dev_order_messages := [], dev_order_bytes := 0, dev_pending := [], dev_discovery_targets := [],
     dev_discovery_pending := [], dev_discovery_bytes := 0, dev_discovery_count := 0\<rparr>"

lemma stripped_fold:
  assumes "\<And>i m. stripped (f i m) = stripped m"
  shows "stripped (fold f xs m) = stripped m"
  using assms by (induction xs arbitrary: m) simp_all

lemma stripped_message_clear: "stripped (melodi_order_message_clear m i) = stripped m"
  by (simp add: melodi_order_message_clear_def stripped_def Let_def)

lemma stripped_reassembly_clear: "stripped (melodi_reassembly_clear m i) = stripped m"
  by (simp add: melodi_reassembly_clear_def stripped_def Let_def)

lemma stripped_tables:
  "stripped (m\<lparr>dev_order_rx := a\<rparr>) = stripped m" "stripped (m\<lparr>dev_order_tx := b\<rparr>) = stripped m"
  "stripped (m\<lparr>dev_receipts := c\<rparr>) = stripped m" "stripped (m\<lparr>dev_order_bytes := d\<rparr>) = stripped m"
  "stripped (m\<lparr>dev_reassembly_bytes := e\<rparr>) = stripped m" "stripped (m\<lparr>dev_pending := f\<rparr>) = stripped m"
  "stripped (m\<lparr>dev_discovery_targets := g\<rparr>) = stripped m" "stripped (m\<lparr>dev_discovery_pending := h\<rparr>) = stripped m"
  "stripped (m\<lparr>dev_discovery_bytes := i\<rparr>) = stripped m" "stripped (m\<lparr>dev_discovery_count := j\<rparr>) = stripped m"
  by (simp_all add: stripped_def)

lemma stripped_pending_clear: "stripped (melodi_pending_clear m i) = stripped m"
  by (simp add: melodi_pending_clear_def stripped_tables)

lemma stripped_discovery_clear: "stripped (melodi_discovery_pending_clear_locked m i) = stripped m"
  by (simp add: melodi_discovery_pending_clear_locked_def melodi_discovery_target_release_locked_def stripped_tables Let_def
      split: option.splits)

lemma stripped_flow_clear: "stripped (melodi_order_flow_clear m i) = stripped m"
  by (simp add: melodi_order_flow_clear_def Let_def stripped_tables stripped_message_clear stripped_fold)

lemma stripped_order_reset: "stripped (melodi_data_order_reset_locked m) = stripped m"
  by (simp add: melodi_data_order_reset_locked_def Let_def stripped_tables stripped_fold stripped_message_clear)

lemma stripped_reassembly_reset: "stripped (melodi_data_reassembly_reset_locked m) = stripped m"
  by (simp add: melodi_data_reassembly_reset_locked_def stripped_tables stripped_fold stripped_reassembly_clear)

lemma stripped_peer_reset: "stripped (melodi_data_peer_reset_locked m node) = stripped m"
  unfolding melodi_data_peer_reset_locked_def Let_def
  by (subst stripped_fold) (auto simp: stripped_tables stripped_flow_clear stripped_reassembly_clear stripped_fold)

lemma stripped_data_reset: "stripped (melodi_data_reset_locked m) = stripped m"
  by (simp add: melodi_data_reset_locked_def Let_def stripped_tables stripped_fold stripped_pending_clear
      stripped_discovery_clear stripped_order_reset stripped_reassembly_reset)

lemma strippedD:
  assumes "stripped a = stripped b"
  shows "dev_peers a = dev_peers b" "dev_node_id a = dev_node_id b" "dev_mesh_domain a = dev_mesh_domain b"
    "dev_identity_ready a = dev_identity_ready b" "dev_transport_ready a = dev_transport_ready b"
    "dev_local_native_locator a = dev_local_native_locator b" "dev_local_link_locator a = dev_local_link_locator b"
    "dev_local_collision_round a = dev_local_collision_round b" "dev_identity_generation a = dev_identity_generation b"
    "dev_transmit_counter a = dev_transmit_counter b" "dev_conflict_pending a = dev_conflict_pending b"
    "dev_last_hello_challenge a = dev_last_hello_challenge b"
    "dev_previous_hello_challenge a = dev_previous_hello_challenge b"
  using arg_cong [OF assms, of dev_peers] arg_cong [OF assms, of dev_node_id] arg_cong [OF assms, of dev_mesh_domain]
    arg_cong [OF assms, of dev_identity_ready] arg_cong [OF assms, of dev_transport_ready]
    arg_cong [OF assms, of dev_local_native_locator] arg_cong [OF assms, of dev_local_link_locator]
    arg_cong [OF assms, of dev_local_collision_round] arg_cong [OF assms, of dev_identity_generation]
    arg_cong [OF assms, of dev_transmit_counter] arg_cong [OF assms, of dev_conflict_pending]
    arg_cong [OF assms, of dev_last_hello_challenge] arg_cong [OF assms, of dev_previous_hello_challenge]
  by (simp_all add: stripped_def)

lemmas data_resets_keep [simp] =
  strippedD [OF stripped_order_reset] strippedD [OF stripped_reassembly_reset] strippedD [OF stripped_peer_reset]
  strippedD [OF stripped_data_reset]

text \<open>What identifies a device to others; the operations on its peers do not change it.\<close>

definition self_of :: "melodi_device \<Rightarrow> bytes \<times> bytes \<times> bool \<times> bool \<times> u32 \<times> u32 \<times> u64 \<times> bytes \<times> bytes" where
  "self_of melodi = (dev_node_id melodi, dev_mesh_domain melodi, dev_identity_ready melodi, dev_transport_ready melodi,
     dev_local_link_locator melodi, dev_identity_generation melodi, dev_transmit_counter melodi,
     dev_last_hello_challenge melodi, dev_previous_hello_challenge melodi)"

definition address_of :: "melodi_device \<Rightarrow> u32 \<times> u32 \<times> bool" where
  "address_of melodi = (dev_local_native_locator melodi, dev_local_collision_round melodi, dev_conflict_pending melodi)"

lemma peer_update_simps [simp]:
  "dev_peers (peer_update i f m) = (dev_peers m)[i := f (dev_peers m ! i)]"
  "self_of (peer_update i f m) = self_of m" "address_of (peer_update i f m) = address_of m"
  by (simp_all add: peer_update_def self_of_def address_of_def)

lemma session_reset_simps [simp]:
  "dev_peers (melodi_peer_session_reset_locked m i) = (dev_peers m)[i := peer_session_wipe (dev_peers m ! i)]"
  "self_of (melodi_peer_session_reset_locked m i) = self_of m"
  "address_of (melodi_peer_session_reset_locked m i) = address_of m"
  by (simp_all add: melodi_peer_session_reset_locked_def) (simp_all add: self_of_def address_of_def)

lemma session_wipe_simps [simp]:
  "pe_authenticated (peer_session_wipe p) = pe_authenticated p" "pe_node_id (peer_session_wipe p) = pe_node_id p"
  "pe_native_locator (peer_session_wipe p) = pe_native_locator p" "pe_link_locator (peer_session_wipe p) = pe_link_locator p"
  "pe_collision_round (peer_session_wipe p) = pe_collision_round p" "pe_generation (peer_session_wipe p) = pe_generation p"
  "pe_control_counter (peer_session_wipe p) = pe_control_counter p" "pe_conflicted (peer_session_wipe p) = pe_conflicted p"
  "pe_session_ready (peer_session_wipe p) = False" "pe_handshake_pending (peer_session_wipe p) = False"
  "pe_ephemeral_private (peer_session_wipe p) = replicate 32 0"
  by (simp_all add: peer_session_wipe_def melodi_peer_session_advance_def Let_def)

text \<open>A loop over all slots that rewrites each of them is a map over the table.\<close>

lemma fold_slots:
  assumes step: "\<And>i m. i < length (g m) \<Longrightarrow> g (F i m) = (g m)[i := h i (g m ! i)]" and "n \<le> length (g m)"
  shows "g (fold F [0..<n] m) = map (\<lambda>i. h i (g m ! i)) [0..<n] @ drop n (g m)"
  using assms(2)
proof (induction n)
  case (Suc n)
  let ?m = "fold F [0..<n] m"
  have IH: "g ?m = map (\<lambda>i. h i (g m ! i)) [0..<n] @ drop n (g m)" using Suc by simp
  then have "n < length (g ?m)" "g ?m ! n = g m ! n" using Suc.prems by (simp_all add: nth_append)
  then show ?case
    using step [of n ?m] Suc.prems by (simp add: IH list_update_append Cons_nth_drop_Suc [symmetric])
qed simp

lemma fold_reset_authenticated:
  assumes "length (dev_peers m) = 64"
  shows "dev_peers (fold peer_reset_authenticated [0..<64] m) =
      map (\<lambda>p. if pe_authenticated p then peer_session_wipe p else p) (dev_peers m)"
    and "self_of (fold peer_reset_authenticated xs m) = self_of m"
    and "address_of (fold peer_reset_authenticated xs m) = address_of m"
proof -
  have "dev_peers (fold peer_reset_authenticated [0..<64] m) =
      map (\<lambda>i. if pe_authenticated (dev_peers m ! i) then peer_session_wipe (dev_peers m ! i) else dev_peers m ! i) [0..<64] @
      drop 64 (dev_peers m)"
    by (rule fold_slots [where h = "\<lambda>_ p. if pe_authenticated p then peer_session_wipe p else p"])
       (simp_all add: peer_reset_authenticated_def assms)
  then show "dev_peers (fold peer_reset_authenticated [0..<64] m) =
      map (\<lambda>p. if pe_authenticated p then peer_session_wipe p else p) (dev_peers m)"
    using assms by (intro nth_equalityI) simp_all
  show "self_of (fold peer_reset_authenticated xs m) = self_of m"
    "address_of (fold peer_reset_authenticated xs m) = address_of m"
    by (induction xs arbitrary: m) (simp_all add: peer_reset_authenticated_def)
qed

subsection \<open>Conflicts are exact\<close>

text \<open>
  A peer is in conflict when it is authenticated and its locator is the locator of the device or of
  another authenticated peer.
\<close>

definition conflicting :: "u32 \<Rightarrow> melodi_peer list \<Rightarrow> nat \<Rightarrow> bool" where
  "conflicting local peers k \<longleftrightarrow> pe_authenticated (peers ! k) \<and>
     (pe_native_locator (peers ! k) = local \<or>
      (\<exists>j<length peers. j \<noteq> k \<and> pe_authenticated (peers ! j) \<and> pe_native_locator (peers ! j) = pe_native_locator (peers ! k)))"

definition clash :: "melodi_peer list \<Rightarrow> nat \<Rightarrow> nat \<Rightarrow> bool" where
  "clash peers i j \<longleftrightarrow> pe_authenticated (peers ! i) \<and> pe_authenticated (peers ! j) \<and>
     pe_native_locator (peers ! i) = pe_native_locator (peers ! j)"

definition raise_conflicts :: "(nat \<Rightarrow> bool) \<Rightarrow> melodi_peer list \<Rightarrow> melodi_peer list" where
  "raise_conflicts C peers = map (\<lambda>k. (peers ! k)\<lparr>pe_conflicted := pe_conflicted (peers ! k) \<or> C k\<rparr>) [0..<length peers]"

lemma raise_conflicts_simps [simp]:
  "length (raise_conflicts C peers) = length peers"
  "k < length peers \<Longrightarrow> raise_conflicts C peers ! k = (peers ! k)\<lparr>pe_conflicted := pe_conflicted (peers ! k) \<or> C k\<rparr>"
  by (simp_all add: raise_conflicts_def)

lemma raise_conflicts_twice: "raise_conflicts D (raise_conflicts C peers) = raise_conflicts (\<lambda>k. C k \<or> D k) peers"
  by (rule nth_equalityI) simp_all

lemma raise_conflicts_none: "(\<And>k. k < length peers \<Longrightarrow> \<not> C k) \<Longrightarrow> raise_conflicts C peers = peers"
  by (rule nth_equalityI) simp_all

lemma raise_conflicts_cong:
  "(\<And>k. k < length peers \<Longrightarrow> C k = D k) \<Longrightarrow> raise_conflicts C peers = raise_conflicts D peers"
  by (rule nth_equalityI) simp_all

lemma clash_raise: "i < length peers \<Longrightarrow> j < length peers \<Longrightarrow> clash (raise_conflicts C peers) i j = clash peers i j"
  by (simp add: clash_def)

lemma conflicts_pair_raise:
  assumes "i < length peers" "j < length peers" "i \<noteq> j" "pe_authenticated (peers ! i)"
  shows "conflicts_pair i j peers = raise_conflicts (\<lambda>k. clash peers i j \<and> (k = i \<or> k = j)) peers"
proof (cases "clash peers i j")
  case True
  then have "conflicts_pair i j peers = (peers[i := (peers ! i)\<lparr>pe_conflicted := True\<rparr>])[j := (peers ! j)\<lparr>pe_conflicted := True\<rparr>]"
    using assms by (simp add: conflicts_pair_def clash_def Let_def)
  then show ?thesis using assms True by (intro nth_equalityI) (simp_all add: nth_list_update)
next
  case False
  then have "conflicts_pair i j peers = peers" using assms by (auto simp: conflicts_pair_def clash_def)
  then show ?thesis using False by (simp add: raise_conflicts_none)
qed

lemma conflicts_row_fold:
  assumes "i < length peers" "pe_authenticated (peers ! i)" "\<forall>j\<in>set js. j < length peers \<and> j \<noteq> i"
  shows "fold (conflicts_pair i) js peers = raise_conflicts (\<lambda>k. \<exists>j\<in>set js. clash peers i j \<and> (k = i \<or> k = j)) peers"
  using assms
proof (induction js arbitrary: peers)
  case Nil
  then show ?case by (simp add: raise_conflicts_none)
next
  case (Cons j js)
  let ?peers = "raise_conflicts (\<lambda>k. clash peers i j \<and> (k = i \<or> k = j)) peers"
  have "fold (conflicts_pair i) (j # js) peers = fold (conflicts_pair i) js ?peers"
    using Cons.prems conflicts_pair_raise [of i peers j] by simp
  also have "\<dots> = raise_conflicts (\<lambda>k. \<exists>j'\<in>set js. clash ?peers i j' \<and> (k = i \<or> k = j')) ?peers"
    using Cons.prems by (intro Cons.IH) auto
  also have "\<dots> = raise_conflicts (\<lambda>k. \<exists>j'\<in>set (j # js). clash peers i j' \<and> (k = i \<or> k = j')) peers"
    unfolding raise_conflicts_twice using Cons.prems by (intro raise_conflicts_cong) (auto simp: clash_raise)
  finally show ?case .
qed

lemma conflicts_row_raise:
  assumes "i < length peers" "length peers = 64"
  shows "conflicts_row i peers = raise_conflicts (\<lambda>k. \<exists>j<64. i < j \<and> clash peers i j \<and> (k = i \<or> k = j)) peers"
proof (cases "pe_authenticated (peers ! i)")
  case True
  then show ?thesis
    unfolding conflicts_row_def using assms
    by (subst conflicts_row_fold) (auto intro!: raise_conflicts_cong)
next
  case False
  then show ?thesis by (simp add: conflicts_row_def clash_def raise_conflicts_none)
qed

lemma conflicts_rows_raise:
  assumes "length peers = 64" "\<forall>i\<in>set is. i < 64"
  shows "fold conflicts_row is peers =
    raise_conflicts (\<lambda>k. \<exists>i\<in>set is. \<exists>j<64. i < j \<and> clash peers i j \<and> (k = i \<or> k = j)) peers"
  using assms
proof (induction "is" arbitrary: peers)
  case Nil
  then show ?case by (simp add: raise_conflicts_none)
next
  case (Cons i "is")
  let ?peers = "raise_conflicts (\<lambda>k. \<exists>j<64. i < j \<and> clash peers i j \<and> (k = i \<or> k = j)) peers"
  have "fold conflicts_row (i # is) peers = fold conflicts_row is ?peers"
    using Cons.prems conflicts_row_raise [of i peers] by simp
  also have "\<dots> = raise_conflicts (\<lambda>k. \<exists>i'\<in>set is. \<exists>j<64. i' < j \<and> clash ?peers i' j \<and> (k = i' \<or> k = j)) ?peers"
    using Cons.prems by (intro Cons.IH) auto
  also have "\<dots> = raise_conflicts (\<lambda>k. \<exists>i'\<in>set (i # is). \<exists>j<64. i' < j \<and> clash peers i' j \<and> (k = i' \<or> k = j)) peers"
  proof -
    have "clash ?peers i' j = clash peers i' j" if "i' \<in> set is" "j < 64" for i' j
      using that Cons.prems by (intro clash_raise) auto
    then have "(\<exists>i'\<in>set is. \<exists>j<64. i' < j \<and> clash ?peers i' j \<and> (k = i' \<or> k = j)) \<longleftrightarrow>
        (\<exists>i'\<in>set is. \<exists>j<64. i' < j \<and> clash peers i' j \<and> (k = i' \<or> k = j))" for k by blast
    then show ?thesis unfolding raise_conflicts_twice by simp
  qed
  finally show ?case .
qed

lemma clash_pairs:
  assumes "length peers = 64" "k < 64"
  shows "(\<exists>i<64. \<exists>j<64. i < j \<and> clash peers i j \<and> (k = i \<or> k = j)) \<longleftrightarrow>
    pe_authenticated (peers ! k) \<and>
    (\<exists>j<64. j \<noteq> k \<and> pe_authenticated (peers ! j) \<and> pe_native_locator (peers ! j) = pe_native_locator (peers ! k))"
  (is "?l \<longleftrightarrow> ?r")
proof
  assume ?l
  then show ?r by (auto simp: clash_def)
next
  assume ?r
  then obtain j where j: "j < 64" "j \<noteq> k" "clash peers j k" "clash peers k j" by (auto simp: clash_def)
  then show ?l using assms(2) by (cases "j < k") (metis, metis nat_neq_iff)
qed

lemma conflicts_recompute_peers:
  assumes "length (dev_peers m) = 64"
  shows "dev_peers (melodi_conflicts_recompute_locked m) =
    map (\<lambda>k. (dev_peers m ! k)\<lparr>pe_conflicted := conflicting (dev_local_native_locator m) (dev_peers m) k\<rparr>) [0..<64]"
proof (rule nth_equalityI)
  let ?peers = "map (\<lambda>peer. peer\<lparr>pe_conflicted :=
    pe_authenticated peer \<and> pe_native_locator peer = dev_local_native_locator m\<rparr>) (dev_peers m)"
  have all: "dev_peers (melodi_conflicts_recompute_locked m) =
      raise_conflicts (\<lambda>k. \<exists>i\<in>set [0..<64]. \<exists>j<64. i < j \<and> clash ?peers i j \<and> (k = i \<or> k = j)) ?peers"
    using assms by (simp add: melodi_conflicts_recompute_locked_def Let_def conflicts_rows_raise)
  show "length (dev_peers (melodi_conflicts_recompute_locked m)) = length (map (\<lambda>k. (dev_peers m ! k)
      \<lparr>pe_conflicted := conflicting (dev_local_native_locator m) (dev_peers m) k\<rparr>) [0..<64])"
    using assms by (simp add: all)
  fix k
  assume "k < length (dev_peers (melodi_conflicts_recompute_locked m))"
  then have k: "k < 64" using assms by (simp add: all)
  have "(\<exists>i\<in>set [0..<64]. \<exists>j<64. i < j \<and> clash ?peers i j \<and> (k = i \<or> k = j)) \<longleftrightarrow>
      pe_authenticated (dev_peers m ! k) \<and> (\<exists>j<64. j \<noteq> k \<and> pe_authenticated (dev_peers m ! j) \<and>
        pe_native_locator (dev_peers m ! j) = pe_native_locator (dev_peers m ! k))"
    using clash_pairs [of ?peers k] assms k by (simp add: Bex_def cong: conj_cong)
  then show "dev_peers (melodi_conflicts_recompute_locked m) ! k = map (\<lambda>k. (dev_peers m ! k)
      \<lparr>pe_conflicted := conflicting (dev_local_native_locator m) (dev_peers m) k\<rparr>) [0..<64] ! k"
    using assms k by (auto simp: all conflicting_def)
qed

lemma conflicts_recompute_keeps [simp]:
  "self_of (melodi_conflicts_recompute_locked m) = self_of m"
  "address_of (melodi_conflicts_recompute_locked m) = address_of m"
  by (simp_all add: melodi_conflicts_recompute_locked_def Let_def self_of_def address_of_def)


subsection \<open>The table of peers\<close>

interpretation peer_slots: slot_table pe_authenticated pe_node_id zero_peer
  by unfold_locales (simp add: zero_peer_def)

text \<open>A locator that a node may claim for a round: the hash of its identity in that round.\<close>

definition derived :: "bytes \<Rightarrow> bytes \<Rightarrow> u32 \<Rightarrow> u32 \<Rightarrow> bool" where
  "derived domain node round native \<longleftrightarrow>
     melodi_mapping_node_valid node \<and> native = locator_of domain node round \<and> usable native"

lemma map_native_derived:
  "melodi_map_native_locator domain node round = Inr (native, round) \<longleftrightarrow> derived domain node round native"
proof -
  have fit: "first_fit (locator_of domain node) usable round (melodi_map_native_locator_loop domain node round)"
    by (rule melodi_map_native_locator_loop_first_fit)
  have "melodi_map_native_locator_loop domain node round = Inr (native, round) \<longleftrightarrow>
      native = locator_of domain node round \<and> usable native"
  proof
    assume "melodi_map_native_locator_loop domain node round = Inr (native, round)"
    with fit show "native = locator_of domain node round \<and> usable native" by (auto simp: first_fit_def)
  next
    assume "native = locator_of domain node round \<and> usable native"
    then have "first_fit (locator_of domain node) usable round (Inr (native, round))" by (auto simp: first_fit_def)
    with fit show "melodi_map_native_locator_loop domain node round = Inr (native, round)" by (rule first_fit_unique)
  qed
  then show ?thesis by (auto simp: melodi_map_native_locator_def derived_def)
qed

definition peer_ok :: "melodi_device \<Rightarrow> melodi_peer \<Rightarrow> bool" where
  "peer_ok m p \<longleftrightarrow>
     (if pe_authenticated p
      then pe_node_id p \<noteq> dev_node_id m \<and>
           derived (dev_mesh_domain m) (pe_node_id p) (pe_collision_round p) (pe_native_locator p) \<and>
           pe_link_locator p \<noteq> 0 \<and> pe_link_locator p \<noteq> MELODI_LINK_LOCATOR_BROADCAST
      else p = zero_peer)"

definition peers_core :: "melodi_device \<Rightarrow> bool" where
  "peers_core m \<longleftrightarrow> length (dev_peers m) = 64 \<and> slots_wf pe_authenticated pe_node_id (dev_peers m) \<and>
     (\<forall>p\<in>set (dev_peers m). peer_ok m p)"

definition peers_wf :: "melodi_device \<Rightarrow> bool" where
  "peers_wf m \<longleftrightarrow> peers_core m \<and>
     (\<forall>k<64. pe_conflicted (dev_peers m ! k) = conflicting (dev_local_native_locator m) (dev_peers m) k)"

text \<open>What the table says about a slot, apart from its session.\<close>

definition claim_of :: "melodi_peer \<Rightarrow> bool \<times> bytes \<times> u32 \<times> u32 \<times> u32" where
  "claim_of p = (pe_authenticated p, pe_node_id p, pe_native_locator p, pe_link_locator p, pe_collision_round p)"

lemma claim_of_wipe [simp]: "claim_of (peer_session_wipe p) = claim_of p"
  by (simp add: claim_of_def)

lemma self_ofD:
  assumes "self_of a = self_of b"
  shows "dev_node_id a = dev_node_id b" "dev_mesh_domain a = dev_mesh_domain b"
  using assms by (simp_all add: self_of_def)

lemma address_ofD: "address_of a = address_of b \<Longrightarrow> dev_local_native_locator a = dev_local_native_locator b"
  by (simp add: address_of_def)

lemma slots_wf_claims:
  assumes "map claim_of ps = map claim_of qs" "slots_wf pe_authenticated pe_node_id qs"
  shows "slots_wf pe_authenticated pe_node_id ps"
proof -
  have len: "length ps = length qs" using map_eq_imp_length_eq [OF assms(1)] .
  have nth: "claim_of (ps ! i) = claim_of (qs ! i)" if "i < length qs" for i
    using arg_cong [OF assms(1), of "\<lambda>xs. xs ! i"] that len by simp
  show ?thesis
    unfolding slots_wf_def len
  proof (intro allI impI)
    fix i j
    assume "i < length qs" "j < length qs" "pe_authenticated (ps ! i)" "pe_authenticated (ps ! j)"
      "pe_node_id (ps ! i) = pe_node_id (ps ! j)"
    then show "i = j" using assms(2) nth [of i] nth [of j] by (simp add: slots_wf_def claim_of_def)
  qed
qed

lemma conflicting_claims:
  assumes "map claim_of ps = map claim_of qs" "k < length ps"
  shows "conflicting local ps k = conflicting local qs k"
proof -
  have len: "length ps = length qs" using map_eq_imp_length_eq [OF assms(1)] .
  have nth: "claim_of (ps ! i) = claim_of (qs ! i)" if "i < length qs" for i
    using arg_cong [OF assms(1), of "\<lambda>xs. xs ! i"] that len by simp
  then have "pe_authenticated (ps ! i) = pe_authenticated (qs ! i)" "pe_native_locator (ps ! i) = pe_native_locator (qs ! i)"
    if "i < length qs" for i using that by (simp_all add: claim_of_def)
  then show ?thesis using assms(2) unfolding conflicting_def len by (metis len)
qed

lemma peers_core_claims:
  assumes "map claim_of (dev_peers m') = map claim_of (dev_peers m)" "self_of m' = self_of m" "peers_core m"
    and "\<And>i. i < 64 \<Longrightarrow> \<not> pe_authenticated (dev_peers m ! i) \<Longrightarrow> dev_peers m' ! i = dev_peers m ! i"
  shows "peers_core m'"
proof -
  have len: "length (dev_peers m) = 64" "length (dev_peers m') = 64"
    using assms(3) map_eq_imp_length_eq [OF assms(1)] by (simp_all add: peers_core_def)
  have "peer_ok m' (dev_peers m' ! i)" if i: "i < 64" for i
  proof -
    have ok: "peer_ok m (dev_peers m ! i)" using assms(3) i len by (simp add: peers_core_def)
    have "claim_of (dev_peers m' ! i) = claim_of (dev_peers m ! i)"
      using arg_cong [OF assms(1), of "\<lambda>xs. xs ! i"] i len by simp
    then show ?thesis
      using ok assms(4) [OF i] self_ofD [OF assms(2)]
      by (cases "pe_authenticated (dev_peers m ! i)") (simp_all add: peer_ok_def claim_of_def)
  qed
  then show ?thesis
    using assms(3) len slots_wf_claims [OF assms(1)] by (auto simp: peers_core_def in_set_conv_nth)
qed

lemma peers_wf_recompute:
  assumes "peers_core m"
  shows "peers_wf (melodi_conflicts_recompute_locked m)"
proof -
  let ?m = "melodi_conflicts_recompute_locked m"
  have len: "length (dev_peers m) = 64" using assms by (simp add: peers_core_def)
  note peers = conflicts_recompute_peers [OF len]
  have claims: "map claim_of (dev_peers ?m) = map claim_of (dev_peers m)"
    using len by (intro nth_equalityI) (simp_all add: peers claim_of_def)
  have "dev_peers ?m ! i = dev_peers m ! i" if i: "i < 64" "\<not> pe_authenticated (dev_peers m ! i)" for i
  proof -
    have "dev_peers m ! i = zero_peer" using assms i len by (auto simp: peers_core_def peer_ok_def)
    then show ?thesis using i by (simp add: peers conflicting_def zero_peer_def)
  qed
  then have core: "peers_core ?m" by (intro peers_core_claims [OF claims _ assms]) simp_all
  have "dev_local_native_locator ?m = dev_local_native_locator m" by (rule address_ofD) simp
  then show ?thesis
    using core conflicting_claims [OF claims] by (simp add: peers_wf_def peers)
qed

text \<open>Changing the session of a peer keeps the table well formed.\<close>

lemma peers_wf_session:
  assumes "peers_wf m" "i < 64" "pe_authenticated (dev_peers m ! i)"
    and "dev_peers m' = (dev_peers m)[i := p]" "claim_of p = claim_of (dev_peers m ! i)"
    and "pe_conflicted p = pe_conflicted (dev_peers m ! i)"
    and "self_of m' = self_of m" "dev_local_native_locator m' = dev_local_native_locator m"
  shows "peers_wf m'"
proof -
  have len: "length (dev_peers m) = 64" using assms(1) by (simp add: peers_wf_def peers_core_def)
  have claims: "map claim_of (dev_peers m') = map claim_of (dev_peers m)"
    using assms(2,5) len by (intro nth_equalityI) (auto simp: assms(4) nth_list_update)
  have core: "peers_core m" using assms(1) by (simp add: peers_wf_def)
  have "peers_core m'"
    using assms(2,3) len by (intro peers_core_claims [OF claims assms(7) core]) (auto simp: assms(4) nth_list_update)
  then show ?thesis
    using assms(1,2,6,8) len conflicting_claims [OF claims]
    by (auto simp: peers_wf_def assms(4) nth_list_update)
qed

lemma peers_core_clear:
  assumes "peers_core m" "dev_peers m' = (dev_peers m)[i := zero_peer]" "self_of m' = self_of m"
  shows "peers_core m'"
proof -
  have "peer_ok m' p" if "p \<in> set ((dev_peers m)[i := zero_peer])" for p
  proof -
    have "p = zero_peer \<or> p \<in> set (dev_peers m)" using that set_update_subset_insert by fastforce
    then show ?thesis
      using assms(1) self_ofD [OF assms(3)] by (auto simp: peers_core_def peer_ok_def zero_peer_def)
  qed
  then show ?thesis using assms(1,2) peer_slots.slots_wf_clear by (auto simp: peers_core_def)
qed


subsection \<open>Expiry and reset\<close>

lemma peer_expire_core:
  assumes "peers_core m"
  shows "peers_core (peer_expire jiffies i m)" "self_of (peer_expire jiffies i m) = self_of m"
  using assms by (auto simp: peer_expire_def Let_def intro: peers_core_clear)

lemma expiry_wf:
  assumes "peers_core m"
  shows "peers_wf (peer_expiry_locked jiffies m)"
proof -
  have "peers_core (fold (peer_expire jiffies) xs m)" for xs
    using assms by (induction xs arbitrary: m) (simp_all add: peer_expire_core)
  then show ?thesis by (simp add: peer_expiry_locked_def peers_wf_recompute)
qed

lemma peers_wf_zero:
  assumes "dev_peers m = replicate 64 zero_peer"
  shows "peers_wf m"
  using assms peer_slots.slots_wf_zero [of 64]
  by (auto simp: peers_wf_def peers_core_def peer_ok_def conflicting_def zero_peer_def)

subsection \<open>Choosing another locator\<close>

lemma reassign_result:
  assumes "melodi_local_reassign_locked m = (m', r)" "length (dev_peers m) = 64"
  shows "self_of m' = self_of m"
    and "r = Inl e \<Longrightarrow> m' = m"
    and "r = Inr () \<Longrightarrow> dev_peers m' = map (\<lambda>p. if pe_authenticated p then peer_session_wipe p else p) (dev_peers m)"
    and "r = Inr () \<Longrightarrow> derived (dev_mesh_domain m) (dev_node_id m) (dev_local_collision_round m') (dev_local_native_locator m')"
    and "r = Inr () \<Longrightarrow> dev_local_native_locator m' \<notin> set (occupied_locators m)"
    and "r = Inr () \<Longrightarrow> dev_local_collision_round m < dev_local_collision_round m'"
    and "r = Inr () \<Longrightarrow> dev_conflict_pending m'"
proof -
  let ?available = "melodi_map_native_locator_available (dev_mesh_domain m) (dev_node_id m)
    (dev_local_collision_round m + 1) (occupied_locators m)"
  let ?set = "\<lambda>l s. m\<lparr>dev_local_native_locator := l, dev_local_collision_round := s, dev_conflict_pending := True\<rparr>"
  consider (error) e' where "m' = m" "r = Inl e'"
    | (moved) l s where "dev_local_collision_round m \<noteq> 0xffffffff" "?available = Inr (l, s)" "r = Inr ()"
      "m' = melodi_data_order_reset_locked (melodi_data_reassembly_reset_locked
        (fold peer_reset_authenticated [0..<64] (?set l s)))"
    using assms(1) by (auto simp: melodi_local_reassign_locked_def Let_def split: if_splits sum.splits)
  note cases = this
  have len: "length (dev_peers (?set l s)) = 64" for l s using assms(2) by simp
  have moved: "self_of m' = self_of m \<and>
      dev_peers m' = map (\<lambda>p. if pe_authenticated p then peer_session_wipe p else p) (dev_peers m) \<and>
      address_of m' = (l, s, True)"
    if "m' = melodi_data_order_reset_locked (melodi_data_reassembly_reset_locked
        (fold peer_reset_authenticated [0..<64] (?set l s)))" for l s
  proof -
    let ?f = "fold peer_reset_authenticated [0..<64] (?set l s)"
    have "self_of m' = self_of ?f" "address_of m' = address_of ?f" "dev_peers m' = dev_peers ?f"
      by (simp_all add: that self_of_def address_of_def)
    moreover have "self_of (?set l s) = self_of m" "address_of (?set l s) = (l, s, True)"
      by (simp_all add: self_of_def address_of_def)
    ultimately show ?thesis using fold_reset_authenticated [OF len [of s l]] by simp
  qed
  have fit: "derived (dev_mesh_domain m) (dev_node_id m) s l \<and> l \<notin> set (occupied_locators m) \<and>
      dev_local_collision_round m < s"
    if "dev_local_collision_round m \<noteq> 0xffffffff" "?available = Inr (l, s)" for l s
  proof -
    have loop: "melodi_map_native_locator_available_loop (dev_mesh_domain m) (dev_node_id m) (occupied_locators m)
        (dev_local_collision_round m + 1) = Inr (l, s)"
      using that(2) by (simp add: melodi_map_native_locator_available_def split: if_splits)
    then have valid: "melodi_mapping_node_valid (dev_node_id m)"
      by (subst (asm) melodi_map_native_locator_available_loop.simps)
         (auto simp: melodi_map_native_locator_def split: if_splits)
    have "first_fit (locator_of (dev_mesh_domain m) (dev_node_id m)) (\<lambda>l. usable l \<and> l \<notin> set (occupied_locators m))
        (dev_local_collision_round m + 1) (Inr (l, s))"
      using melodi_map_native_locator_available_loop_first_fit
        [OF valid, of "dev_mesh_domain m" "occupied_locators m" "dev_local_collision_round m + 1"]
      by (simp add: loop)
    then show ?thesis using valid next_round_le [OF that(1)] by (auto simp: first_fit_def derived_def)
  qed
  show "self_of m' = self_of m" using cases moved by cases auto
  show "r = Inl e \<Longrightarrow> m' = m" using cases by cases auto
  show "r = Inr () \<Longrightarrow> dev_peers m' = map (\<lambda>p. if pe_authenticated p then peer_session_wipe p else p) (dev_peers m)"
    using cases moved by cases auto
  show "r = Inr () \<Longrightarrow> derived (dev_mesh_domain m) (dev_node_id m) (dev_local_collision_round m') (dev_local_native_locator m')"
    "r = Inr () \<Longrightarrow> dev_local_native_locator m' \<notin> set (occupied_locators m)"
    "r = Inr () \<Longrightarrow> dev_local_collision_round m < dev_local_collision_round m'"
    "r = Inr () \<Longrightarrow> dev_conflict_pending m'"
    using cases moved fit by (cases; force simp: address_of_def)+
qed


subsection \<open>Claims refine a map from nodes to their newest claims\<close>

definition known :: "melodi_device \<Rightarrow> bytes \<rightharpoonup> u32 \<times> u64" where
  "known m node = map_option (\<lambda>p. (pe_generation p, pe_control_counter p))
     (slot_map pe_authenticated pe_node_id (dev_peers m) node)"

definition newer :: "(u32 \<times> u64) option \<Rightarrow> u32 \<Rightarrow> u64 \<Rightarrow> bool" where
  "newer previous generation counter \<longleftrightarrow>
     (case previous of None \<Rightarrow> True | Some (g, c) \<Rightarrow> g < generation \<or> g = generation \<and> c < counter)"

definition claim_valid :: "melodi_device \<Rightarrow> bytes \<Rightarrow> u32 \<Rightarrow> u32 \<Rightarrow> u32 \<Rightarrow> bool" where
  "claim_valid m node native link round \<longleftrightarrow>
     link \<noteq> 0 \<and> link \<noteq> MELODI_LINK_LOCATOR_BROADCAST \<and> derived (dev_mesh_domain m) node round native \<and>
     node \<noteq> dev_node_id m"

definition claim_peer :: "melodi_peer \<Rightarrow> bytes \<Rightarrow> u32 \<Rightarrow> u32 \<Rightarrow> u32 \<Rightarrow> u32 \<Rightarrow> u64 \<Rightarrow> melodi_peer" where
  "claim_peer p node native link round generation counter =
     (if \<not> pe_authenticated p then zero_peer
      else if claim_resets p native link round generation then peer_session_wipe p else p)
       \<lparr>pe_node_id := node, pe_native_locator := native, pe_link_locator := link, pe_collision_round := round,
        pe_generation := generation, pe_control_counter := counter, pe_authenticated := True\<rparr>"

lemma claim_store_simps:
  assumes "i < length (dev_peers m)"
  shows "dev_peers (claim_store i node native link round generation counter m) =
      (dev_peers m)[i := claim_peer (dev_peers m ! i) node native link round generation counter]"
    and "self_of (claim_store i node native link round generation counter m) = self_of m"
    and "address_of (claim_store i node native link round generation counter m) = address_of m"
  using assms by (simp_all add: claim_store_def claim_peer_def Let_def)

lemma peer_slot_cases:
  assumes "melodi_peer_slot m node = Some i"
  shows "i < length (dev_peers m)"
    and "slot_of pe_authenticated pe_node_id (dev_peers m) node = None \<or>
         slot_of pe_authenticated pe_node_id (dev_peers m) node = Some i"
    and "pe_authenticated (dev_peers m ! i) \<Longrightarrow> pe_node_id (dev_peers m ! i) = node"
    and "pe_authenticated (dev_peers m ! i) \<Longrightarrow> slot_of pe_authenticated pe_node_id (dev_peers m) node = Some i"
    and "\<not> pe_authenticated (dev_peers m ! i) \<Longrightarrow> slot_of pe_authenticated pe_node_id (dev_peers m) node = None"
  using assms by (auto simp: melodi_peer_slot_def slot_of_def find_slot_Some_iff split: option.splits)

lemma known_slot:
  assumes "melodi_peer_slot m node = Some i"
  shows "known m node = (if pe_authenticated (dev_peers m ! i)
    then Some (pe_generation (dev_peers m ! i), pe_control_counter (dev_peers m ! i)) else None)"
  using peer_slot_cases [OF assms] by (auto simp: known_def slot_map_def)

lemma claim_stale_newer:
  assumes "melodi_peer_slot m node = Some i"
  shows "claim_stale (dev_peers m ! i) generation counter \<longleftrightarrow> \<not> newer (known m node) generation counter"
  using known_slot [OF assms] by (auto simp: claim_stale_def newer_def)

lemma claim_store_core:
  assumes "peers_core m" "melodi_peer_slot m node = Some i" "claim_valid m node native link round"
  shows "peers_core (claim_store i node native link round generation counter m)"
    and "known (claim_store i node native link round generation counter m) = (known m)(node \<mapsto> (generation, counter))"
proof -
  let ?m = "claim_store i node native link round generation counter m"
  let ?p = "claim_peer (dev_peers m ! i) node native link round generation counter"
  note slot = peer_slot_cases [OF assms(2)]
  note simps = claim_store_simps [OF slot(1), of node native link round generation counter]
  have p: "pe_authenticated ?p" "pe_node_id ?p = node" "pe_generation ?p = generation" "pe_control_counter ?p = counter"
    by (simp_all add: claim_peer_def)
  have ok: "peer_ok ?m ?p"
    using assms(3) self_ofD [OF simps(2)] by (simp add: peer_ok_def claim_peer_def claim_valid_def)
  have wf: "slots_wf pe_authenticated pe_node_id (dev_peers m)" using assms(1) by (simp add: peers_core_def)
  have "peer_ok ?m p" if "p \<in> set (dev_peers ?m)" for p
  proof -
    have "p = ?p \<or> p \<in> set (dev_peers m)" using that set_update_subset_insert unfolding simps(1) by fastforce
    then show ?thesis
      using ok assms(1) self_ofD [OF simps(2)] by (auto simp: peers_core_def peer_ok_def)
  qed
  moreover have "slots_wf pe_authenticated pe_node_id (dev_peers ?m)"
    unfolding simps(1) using wf slot p by (intro peer_slots.slots_wf_store) auto
  ultimately show "peers_core ?m" using assms(1) simps(1) by (simp add: peers_core_def)
  have "slot_map pe_authenticated pe_node_id (dev_peers ?m) =
      (slot_map pe_authenticated pe_node_id (dev_peers m))(pe_node_id ?p \<mapsto> ?p)"
    unfolding simps(1) using wf slot p by (intro peer_slots.slot_map_store) auto
  then show "known ?m = (known m)(node \<mapsto> (generation, counter))" using p by (auto simp: known_def)
qed

lemma option_eqI:
  assumes "\<And>i. a = Some i \<longleftrightarrow> b = Some i"
  shows "a = b"
proof (cases a)
  case None
  then have "b \<noteq> Some i" for i using assms [of i] by simp
  then show ?thesis using None by (cases b) blast+
next
  case (Some i)
  then show ?thesis using assms [of i] by simp
qed

text \<open>Neither the flags of conflicts nor the sessions matter for what is known.\<close>

lemma known_cong:
  assumes "\<And>i. i < length (dev_peers m) \<Longrightarrow> claim_of (dev_peers m' ! i) = claim_of (dev_peers m ! i) \<and>
      pe_generation (dev_peers m' ! i) = pe_generation (dev_peers m ! i) \<and>
      pe_control_counter (dev_peers m' ! i) = pe_control_counter (dev_peers m ! i)"
    and "length (dev_peers m') = length (dev_peers m)"
  shows "known m' = known m"
proof
  fix node
  let ?P = "\<lambda>p. pe_authenticated p \<and> pe_node_id p = node"
  have same: "find_slot ?P (dev_peers m') = Some i \<longleftrightarrow> find_slot ?P (dev_peers m) = Some i" for i
    using assms by (auto simp: find_slot_Some_iff claim_of_def)
  have "find_slot ?P (dev_peers m') = find_slot ?P (dev_peers m)"
    by (rule option_eqI) (rule same)
  then show "known m' node = known m node"
    using assms find_slot_lessD(1) [of ?P "dev_peers m"]
    by (cases "find_slot ?P (dev_peers m)") (auto simp: known_def slot_map_def slot_of_def)
qed

lemma known_recompute:
  "length (dev_peers m) = 64 \<Longrightarrow> known (melodi_conflicts_recompute_locked m) = known m"
  by (rule known_cong) (simp_all add: conflicts_recompute_peers claim_of_def)

lemma reassign_core:
  assumes "melodi_local_reassign_locked m = (m', r)" "peers_core m"
  shows "peers_core m'" "known m' = known m" "length (dev_peers m') = 64"
proof -
  have len: "length (dev_peers m) = 64" using assms(2) by (simp add: peers_core_def)
  note result = reassign_result [OF assms(1) len]
  show "peers_core m'"
  proof (cases r)
    case (Inl e)
    then show ?thesis using result(2) assms(2) by simp
  next
    case (Inr u)
    then have peers: "dev_peers m' = map (\<lambda>p. if pe_authenticated p then peer_session_wipe p else p) (dev_peers m)"
      using result(3) by simp
    show ?thesis
      using len
      by (intro peers_core_claims [OF _ result(1) assms(2)]) (auto simp: peers)
  qed
  show "length (dev_peers m') = 64" "known m' = known m"
  proof -
    show "length (dev_peers m') = 64" using \<open>peers_core m'\<close> by (simp add: peers_core_def)
    show "known m' = known m"
    proof (cases r)
      case (Inl e)
      then show ?thesis using result(2) by simp
    next
      case (Inr u)
      then show ?thesis using result(3) len by (intro known_cong) auto
    qed
  qed
qed

text \<open>The state after the slot is written and the device has possibly moved, before conflicts are recomputed.\<close>

definition claim_moves :: "melodi_device \<Rightarrow> bytes \<Rightarrow> u32 \<Rightarrow> bool \<Rightarrow> bool" where
  "claim_moves m node native resolve \<longleftrightarrow>
     native = dev_local_native_locator m \<and> memcmp node (dev_node_id m) MELODI_NODE_ID_SIZE < 0 \<and> resolve"

lemma claim_cases:
  assumes "melodi_claim_locked m node native link round generation counter resolve = (m', r)" "peers_core m"
  obtains (refused) e where "m' = m" "r = Inl e"
      "\<not> (claim_valid m node native link round \<and> melodi_peer_slot m node \<noteq> None \<and> newer (known m node) generation counter)"
  | (failed) e i s where "claim_valid m node native link round" "melodi_peer_slot m node = Some i"
      "newer (known m node) generation counter" "claim_moves m node native resolve"
      "s = claim_store i node native link round generation counter m"
      "melodi_local_reassign_locked s = (s, Inl e)" "m' = melodi_conflicts_recompute_locked s" "r = Inl e"
  | (moved) i s t where "claim_valid m node native link round" "melodi_peer_slot m node = Some i"
      "newer (known m node) generation counter" "claim_moves m node native resolve"
      "s = claim_store i node native link round generation counter m"
      "melodi_local_reassign_locked s = (t, Inr ())" "m' = melodi_conflicts_recompute_locked t"
      "r = Inr (i, True, True)"
  | (stayed) i s where "claim_valid m node native link round" "melodi_peer_slot m node = Some i"
      "newer (known m node) generation counter" "\<not> claim_moves m node native resolve"
      "s = claim_store i node native link round generation counter m" "m' = melodi_conflicts_recompute_locked s"
      "r = (if pe_conflicted (dev_peers m' ! i) \<and> \<not> resolve then Inl EADDRINUSE
            else Inr (i, False, native = dev_local_native_locator m))"
proof (cases "claim_valid m node native link round \<and> melodi_peer_slot m node \<noteq> None \<and> newer (known m node) generation counter")
  case False
  have "\<exists>e. m' = m \<and> r = Inl e"
  proof (cases "claim_valid m node native link round")
    case True
    then have "melodi_map_native_locator (dev_mesh_domain m) node round = Inr (native, round)"
      by (simp add: claim_valid_def map_native_derived)
    with True False assms(1) claim_stale_newer [of m node] show ?thesis
      by (auto simp: melodi_claim_locked_def claim_valid_def split: option.splits if_splits)
  next
    case invalid: False
    then show ?thesis
      using assms(1) map_native_derived [of "dev_mesh_domain m" node round native]
      by (auto simp: melodi_claim_locked_def claim_valid_def split: if_splits sum.splits)
  qed
  with False refused show ?thesis by blast
next
  case True
  then obtain i where i: "melodi_peer_slot m node = Some i" by blast
  define s where "s = claim_store i node native link round generation counter m"
  have len: "length (dev_peers s) = 64"
    using claim_store_core(1) [OF assms(2) i] True by (simp add: s_def peers_core_def)
  note simps = claim_store_simps [OF peer_slot_cases(1) [OF i], of node native link round generation counter, folded s_def]
  have map: "melodi_map_native_locator (dev_mesh_domain m) node round = Inr (native, round)"
    using True by (simp add: claim_valid_def map_native_derived)
  have fresh: "\<not> claim_stale (dev_peers m ! i) generation counter" using claim_stale_newer [OF i] True by simp
  have same: "dev_local_native_locator s = dev_local_native_locator m" "dev_node_id s = dev_node_id m"
    using address_ofD [OF simps(3)] self_ofD [OF simps(2)] by simp_all
  note unfolded = assms(1) [unfolded melodi_claim_locked_def]
  have valid: "link \<noteq> 0" "link \<noteq> 0xffffffff" "node \<noteq> dev_node_id m" using True by (simp_all add: claim_valid_def)
  show ?thesis
  proof (cases "claim_moves m node native resolve")
    case move: True
    obtain t q where t: "melodi_local_reassign_locked s = (t, q)" by (cases "melodi_local_reassign_locked s")
    show ?thesis
    proof (cases q)
      case (Inl e)
      then have "t = s" using reassign_result(2) [OF t len] by simp
      with Inl t unfolded valid map i fresh move same have "m' = melodi_conflicts_recompute_locked s" "r = Inl e"
        by (simp_all add: Let_def claim_moves_def flip: s_def)
      with failed [OF _ i] True move s_def t Inl \<open>t = s\<close> show ?thesis by blast
    next
      case (Inr u)
      with t unfolded valid map i fresh move same have "m' = melodi_conflicts_recompute_locked t" "r = Inr (i, True, True)"
        by (simp_all add: Let_def claim_moves_def flip: s_def)
      with moved [OF _ i] True move s_def t Inr show ?thesis by auto
    qed
  next
    case stay: False
    have "(if native = dev_local_native_locator s \<and> memcmp node (dev_node_id s) 33 < 0 \<and> resolve then X else Y) = Y" for X Y :: "melodi_device \<times> bool res"
      using stay same by (auto simp: claim_moves_def)
    with unfolded valid map i fresh same have "m' = melodi_conflicts_recompute_locked s"
      "r = (if pe_conflicted (dev_peers m' ! i) \<and> \<not> resolve then Inl EADDRINUSE
            else Inr (i, False, native = dev_local_native_locator m))"
      by (auto simp: Let_def split: if_splits simp flip: s_def)
    with stayed [OF _ i] True stay s_def show ?thesis by blast
  qed
qed


subsection \<open>Properties\<close>

lemma claim_wf:
  assumes "melodi_claim_locked m node native link round generation counter resolve = (m', r)" "peers_wf m"
  shows "peers_wf m'" "self_of m' = self_of m"
proof -
  have core: "peers_core m" using assms(2) by (simp add: peers_wf_def)
  have "peers_wf m' \<and> self_of m' = self_of m"
    using assms(1) core
  proof (cases rule: claim_cases)
    case refused
    then show ?thesis using assms(2) by simp
  next
    case (failed e i s)
    then show ?thesis
      using claim_store_core(1) [OF core] peers_wf_recompute claim_store_simps(2) [OF peer_slot_cases(1) [of m node i]] by simp
  next
    case (moved i s t)
    then have s: "peers_core s" "self_of s = self_of m"
      using claim_store_core(1) [OF core] claim_store_simps(2) [OF peer_slot_cases(1) [of m node i]] by simp_all
    then have "peers_core t" "self_of t = self_of s"
      using reassign_core(1) [OF moved(6)] reassign_result(1) [OF moved(6)] by (simp_all add: peers_core_def)
    then show ?thesis using moved(7) s peers_wf_recompute by simp
  next
    case (stayed i s)
    then show ?thesis
      using claim_store_core(1) [OF core] peers_wf_recompute claim_store_simps(2) [OF peer_slot_cases(1) [of m node i]] by simp
  qed
  then show "peers_wf m'" "self_of m' = self_of m" by simp_all
qed

lemma claim_known:
  assumes "melodi_claim_locked m node native link round generation counter resolve = (m', r)" "peers_wf m"
    and "claim_valid m node native link round" "melodi_peer_slot m node \<noteq> None" "newer (known m node) generation counter"
  shows "known m' = (known m)(node \<mapsto> (generation, counter))"
proof -
  have core: "peers_core m" using assms(2) by (simp add: peers_wf_def)
  have len: "length (dev_peers (claim_store i node native link round generation counter m)) = 64"
    if "melodi_peer_slot m node = Some i" for i
    using claim_store_core(1) [OF core that assms(3)] by (simp add: peers_core_def)
  show ?thesis
    using assms(1) core
  proof (cases rule: claim_cases)
    case refused
    then show ?thesis using assms(3-5) by blast
  next
    case (failed e i s)
    then show ?thesis using claim_store_core(2) [OF core] len known_recompute by simp
  next
    case (moved i s t)
    have "peers_core s" using moved claim_store_core(1) [OF core] by simp
    then have "known t = known s" "length (dev_peers t) = 64" using reassign_core(2,3) [OF moved(6)] by simp_all
    then show ?thesis using moved claim_store_core(2) [OF core] known_recompute by simp
  next
    case (stayed i s)
    then show ?thesis using claim_store_core(2) [OF core] len known_recompute by simp
  qed
qed

text \<open>
  C32. The table of peers refines a map from nodes to the newest claim each of them has made. A claim
  that is valid, for which there is a slot, and whose generation and counter are strictly newer than
  what is known of the node, replaces exactly the entry of the node; every other claim, in particular
  a replayed one, leaves the device as it is and is an error. The table stays well formed in all cases:
  at most one slot for a node, none for the device itself, every locator derived from the identity that
  claims it, exact conflict flags, and unused slots zero.
\<close>

theorem claim_refines_newest:
  assumes "peers_wf m" "melodi_claim_locked m node native link round generation counter resolve = (m', r)"
  shows "peers_wf m' \<and>
    (if claim_valid m node native link round \<and> melodi_peer_slot m node \<noteq> None \<and> newer (known m node) generation counter
     then known m' = (known m)(node \<mapsto> (generation, counter))
     else m' = m \<and> (\<exists>error. r = Inl error))"
proof -
  have core: "peers_core m" using assms(1) by (simp add: peers_wf_def)
  show ?thesis
  proof (cases "claim_valid m node native link round \<and> melodi_peer_slot m node \<noteq> None \<and> newer (known m node) generation counter")
    case True
    then show ?thesis using claim_wf(1) [OF assms(2,1)] claim_known [OF assms(2,1)] by simp
  next
    case False
    from assms(2) core have "m' = m \<and> (\<exists>error. r = Inl error)"
      by (cases rule: claim_cases) (use False in auto)
    then show ?thesis using assms(1) False by auto
  qed
qed

lemma peers_core_free: "peers_core m \<Longrightarrow> k < 64 \<Longrightarrow> \<not> pe_authenticated (dev_peers m ! k) \<Longrightarrow> dev_peers m ! k = zero_peer"
  using nth_mem [of k "dev_peers m"] by (auto simp: peers_core_def peer_ok_def split: if_splits)

lemma filter_map_pairs:
  assumes "map f xs = map f ys" "map P xs = map P ys"
  shows "map f (filter P xs) = map f (filter P ys)"
  using assms
proof (induction xs arbitrary: ys)
  case (Cons x xs)
  then obtain y ys' where "ys = y # ys'" by (cases ys) auto
  with Cons show ?case by auto
qed simp

lemma memcmp_less:
  "length xs = n \<Longrightarrow> length ys = n \<Longrightarrow> memcmp xs ys n < 0 \<longleftrightarrow> xs < ys"
proof (induction xs ys n rule: memcmp.induct)
  case (1 x xs y ys n)
  then show ?case by auto
qed auto

text \<open>
  C33. When the locator a node claims is the locator of the device, exactly one of the two moves: the
  device moves when its identity is the larger one, and otherwise it stays where it is. After a move its
  locator is one that its own identity gives in a later round and that no authenticated peer uses, it
  is going to announce the conflict, and no session is left.
\<close>

theorem collision_larger_moves:
  assumes "peers_wf m" "length node = 33" "length (dev_node_id m) = 33"
    and "melodi_claim_locked m node native link round generation counter True = (m', Inr (index, changed, collision))"
  shows "(collision = (native = dev_local_native_locator m)) \<and>
      (changed = (native = dev_local_native_locator m \<and> node < dev_node_id m)) \<and>
      (if changed
       then derived (dev_mesh_domain m') (dev_node_id m') (dev_local_collision_round m') (dev_local_native_locator m') \<and>
         dev_local_native_locator m' \<notin> set (occupied_locators m') \<and>
         dev_local_collision_round m < dev_local_collision_round m' \<and> dev_conflict_pending m' \<and>
         filter pe_session_ready (dev_peers m') = []
       else address_of m' = address_of m)"
proof -
  have core: "peers_core m" using assms(1) by (simp add: peers_wf_def)
  have moves: "claim_moves m node native True \<longleftrightarrow> native = dev_local_native_locator m \<and> node < dev_node_id m"
    using memcmp_less [OF assms(2,3)] by (auto simp: claim_moves_def)
  show ?thesis
    using assms(4) core
  proof (cases rule: claim_cases)
    case (moved i s t)
    have s: "peers_core s" "address_of s = address_of m" "self_of s = self_of m"
      using moved claim_store_core(1) [OF core] claim_store_simps(2,3) [OF peer_slot_cases(1) [of m node i]] by simp_all
    have len: "length (dev_peers s) = 64" using s(1) by (simp add: peers_core_def)
    note result = reassign_result [OF moved(6) len, simplified]
    have t: "length (dev_peers t) = 64" "peers_core t" using reassign_core(1,3) [OF moved(6) s(1)] by simp_all
    have same: "address_of m' = address_of t" "self_of m' = self_of t" using moved(7) by simp_all
    have "map pe_authenticated (dev_peers m') = map pe_authenticated (dev_peers s)"
      "map pe_native_locator (dev_peers m') = map pe_native_locator (dev_peers s)"
      using moved(7) result(3) len by (auto simp: conflicts_recompute_peers [OF t(1)] intro!: nth_equalityI split: if_splits)
    then have "occupied_locators m' = occupied_locators s"
      unfolding occupied_locators_def by (metis filter_map_pairs)
    moreover have "filter pe_session_ready (dev_peers m') = []"
    proof -
      have "\<not> pe_session_ready (dev_peers t ! k)" if "k < 64" for k
        using that len result(3) peers_core_free [OF s(1) that] by (auto simp: zero_peer_def)
      then show ?thesis using moved(7) by (auto simp: conflicts_recompute_peers [OF t(1)] filter_empty_conv)
    qed
    ultimately show ?thesis
      using moved same s result moves by (simp add: address_of_def self_of_def claim_moves_def)
  next
    case (stayed i s)
    then have "address_of m' = address_of m"
      using claim_store_simps(3) [OF peer_slot_cases(1) [of m node i]] by simp
    then show ?thesis using stayed moves by (auto split: if_splits)
  qed auto
qed


text \<open>A device with the larger identity whose locator another node is about to claim.\<close>

definition colliding_device :: melodi_device where
  "colliding_device = zero_device\<lparr>dev_node_id := other_node, dev_mesh_domain := replicate 32 0,
     dev_local_native_locator := 920114789\<rparr>"

lemma colliding_wf: "peers_wf colliding_device"
  by (rule peers_wf_zero) (simp add: colliding_device_def zero_device_def)

lemma other_node_valid: "melodi_mapping_node_valid other_node"
  by code_simp

lemma colliding_order: "length (sample_node 2) = 33" "length other_node = 33" "sample_node 2 < other_node"
  by code_simp+

lemma colliding_claim: "claim_valid colliding_device (sample_node 2) 920114789 7 0"
  using colliding_order
  by (auto simp: claim_valid_def colliding_device_def derived_def sample_locator sample_node_valid usable_def)

lemma replicate_first: "(replicate 64 x)[0 := y] = y # replicate 63 x"
  by (simp add: numeral_eq_Suc)

lemma find_slot_replicate: "find_slot P (replicate n x) = (if P x \<and> 0 < n then Some 0 else None)"
  by (auto simp: find_slot_Some_iff find_slot_None_iff)

lemma colliding_slot: "melodi_peer_slot colliding_device node = Some 0"
  by (simp add: melodi_peer_slot_def colliding_device_def zero_device_def zero_peer_def find_slot_replicate)

lemma colliding_known: "newer (known colliding_device node) generation counter"
  by (simp add: known_def newer_def slot_map_def slot_of_def colliding_device_def zero_device_def zero_peer_def find_slot_replicate)


lemma claim_refines_newest_witness:
  "\<exists>m' r. melodi_claim_locked colliding_device (sample_node 2) 920114789 7 0 1 5 True = (m', r) \<and> peers_wf m' \<and>
     known m' = (known colliding_device)(sample_node 2 \<mapsto> (1, 5))"
proof -
  obtain m' r where claim: "melodi_claim_locked colliding_device (sample_node 2) 920114789 7 0 1 5 True = (m', r)"
    by (cases "melodi_claim_locked colliding_device (sample_node 2) 920114789 7 0 1 5 True")
  show ?thesis using claim claim_refines_newest [OF colliding_wf claim] colliding_claim colliding_slot colliding_known by auto
qed


lemma colliding_store:
  "dev_peers (claim_store 0 (sample_node 2) 920114789 7 0 1 5 colliding_device) =
     claim_peer zero_peer (sample_node 2) 920114789 7 0 1 5 # replicate 63 zero_peer"
  "self_of (claim_store 0 (sample_node 2) 920114789 7 0 1 5 colliding_device) = self_of colliding_device"
  "address_of (claim_store 0 (sample_node 2) 920114789 7 0 1 5 colliding_device) = address_of colliding_device"
  using claim_store_simps [of 0 colliding_device "sample_node 2" 920114789 7 0 1 5]
  by (simp_all add: colliding_device_def zero_device_def replicate_first)

lemma colliding_reassign:
  "\<exists>t. melodi_local_reassign_locked (claim_store 0 (sample_node 2) 920114789 7 0 1 5 colliding_device) = (t, Inr ())"
proof -
  let ?s = "claim_store 0 (sample_node 2) 920114789 7 0 1 5 colliding_device"
  have "dev_mesh_domain ?s = replicate 32 0" "dev_node_id ?s = other_node" "dev_local_collision_round ?s = 0"
    using self_ofD [OF colliding_store(2)] colliding_store(3) by (simp_all add: colliding_device_def zero_device_def address_of_def)
  moreover have "occupied_locators ?s = [920114789]"
    by (simp add: occupied_locators_def colliding_store(1) claim_peer_def zero_peer_def)
  moreover have "derived (replicate 32 0) other_node 1 1806415716"
    by (simp add: derived_def moved_locator usable_def other_node_valid)
  ultimately show ?thesis
    by (simp add: melodi_local_reassign_locked_def melodi_map_native_locator_available_def
      melodi_map_native_locator_available_loop.simps flip: map_native_derived)
qed

lemma collision_larger_moves_witness:
  "\<exists>m'. melodi_claim_locked colliding_device (sample_node 2) 920114789 7 0 1 5 True = (m', Inr (0, True, True)) \<and>
     dev_local_native_locator m' \<notin> set (occupied_locators m') \<and> dev_conflict_pending m' \<and>
     filter pe_session_ready (dev_peers m') = []"
proof -
  obtain m' r where claim: "melodi_claim_locked colliding_device (sample_node 2) 920114789 7 0 1 5 True = (m', r)"
    by (cases "melodi_claim_locked colliding_device (sample_node 2) 920114789 7 0 1 5 True")
  have core: "peers_core colliding_device" using colliding_wf by (simp add: peers_wf_def)
  have moves: "claim_moves colliding_device (sample_node 2) 920114789 True"
    by (simp add: claim_moves_def colliding_device_def memcmp_less colliding_order)
  have result: "r = Inr (0, True, True)"
    using claim core
  proof (cases rule: claim_cases)
    case (refused e)
    then show ?thesis using colliding_claim colliding_slot colliding_known by simp
  next
    case (failed e i s)
    then show ?thesis using colliding_reassign colliding_slot by auto
  qed (use moves colliding_slot in simp_all)
  have lengths: "length (sample_node 2) = 33" "length (dev_node_id colliding_device) = 33"
    by (simp_all add: colliding_device_def colliding_order)
  have native: "dev_local_native_locator colliding_device = 920114789" "dev_node_id colliding_device = other_node"
    by (simp_all add: colliding_device_def)
  note moved = collision_larger_moves [OF colliding_wf lengths claim [unfolded result]]
  show ?thesis using claim result moved by (simp add: native colliding_order)
qed


end
