(* ===== verification/Link.thy ===== *)
theory Link
  imports Peers Queue Identity Genl
begin

text \<open>
  The life cycle of an interface, from \<open>src/kernel/core/main.c\<close>, with \<open>melodi_data_fail_pending\<close> of
  \<open>src/kernel/core/data.c\<close>: the queue of logical messages, opening and stopping, transports that
  attach, get configured, become ready, fail and detach, and the change of the identity.

  \<open>melodi_netdev\<close> is the network device with its private data: the part under the device lock, the
  part under the queue lock, the fields only this file uses, the flags of \<open>struct net_device\<close>, and
  the messages the device has sent to user space, in order. An operation runs from its first to
  its last line; it is a sequence of locked sections, between which the sections of other
  operations may run as well. Scheduling and cancelling of work, reference counts, allocation and
  the registration with the kernel have no counterpart. A transport is its operations.
\<close>

abbreviation (input) MELODI_LOGICAL_QUEUE_LIMIT :: nat where "MELODI_LOGICAL_QUEUE_LIMIT \<equiv> 128"
abbreviation (input) MELODI_LOGICAL_MAGIC :: u32 where "MELODI_LOGICAL_MAGIC \<equiv> 0x4d454c51"
abbreviation (input) MELODI_LOGICAL_VERSION :: u8 where "MELODI_LOGICAL_VERSION \<equiv> 1"
abbreviation (input) MELODI_AIRTIME_WINDOW_US :: u64 where "MELODI_AIRTIME_WINDOW_US \<equiv> 3600000000"
abbreviation (input) MELODI_CORE_ABI_VERSION :: u32 where "MELODI_CORE_ABI_VERSION \<equiv> 10"

datatype melodi_link_state =
    MELODI_LINK_DISCONNECTED | MELODI_LINK_CONFIGURING | MELODI_LINK_READY | MELODI_LINK_FAILED

datatype melodi_link_failure =
    MELODI_LINK_FAILURE_NONE | MELODI_LINK_FAILURE_TRANSPORT | MELODI_LINK_FAILURE_STREAM
  | MELODI_LINK_FAILURE_PROTOBUF | MELODI_LINK_FAILURE_FIRMWARE | MELODI_LINK_FAILURE_REGION
  | MELODI_LINK_FAILURE_MODEM | MELODI_LINK_FAILURE_HOP_LIMIT | MELODI_LINK_FAILURE_RADIO_TX
  | MELODI_LINK_FAILURE_MQTT | MELODI_LINK_FAILURE_CHANNEL | MELODI_LINK_FAILURE_CONFIG_NONCE
  | MELODI_LINK_FAILURE_NODE_NUMBER | MELODI_LINK_FAILURE_PRIVATE_PORT | MELODI_LINK_FAILURE_PAYLOAD_BUDGET
  | MELODI_LINK_FAILURE_QUEUE_STATUS | MELODI_LINK_FAILURE_ROUTING_RESULTS | MELODI_LINK_FAILURE_TIMEOUT
  | MELODI_LINK_FAILURE_INTERNAL

record melodi_link_config =
  lc_mesh_domain :: bytes
  lc_locator :: u32

record melodi_link_info =
  li_abi_version :: u32
  li_frame_mtu :: u32
  li_frame_pace_us :: u32
  li_transmit_pending :: u32

text \<open>The operations of a transport; an absent operation is \<open>None\<close>, its answers are its value.\<close>

record melodi_link_ops =
  lo_xmit :: "bytes \<Rightarrow> melodi_tx_meta \<Rightarrow> unit res"
  lo_configure :: "(melodi_link_config \<Rightarrow> unit res) option"
  lo_get_info :: "(melodi_link_info \<Rightarrow> melodi_link_info) option"
  lo_airtime :: "(bytes \<Rightarrow> melodi_tx_meta \<Rightarrow> melodi_airtime_charge res) option"

record sk_buff =
  sk_protocol :: u16
  sk_headlen :: nat
  sk_data :: bytes

record melodi_logical_header =
  lh_destination :: bytes
  lh_reservation_id :: u64
  lh_cookie :: u64
  lh_binding_generation :: u64
  lh_magic :: u32
  lh_flags :: u32
  lh_ttl_ms :: u32
  lh_binding_portid :: u32
  lh_payload_length :: u32
  lh_source_service :: u16
  lh_destination_service :: u16
  lh_header_length :: u16
  lh_priority :: u8
  lh_version :: u8

datatype user_message = Delivery_Error delivery_error | Link_Error errno

record melodi_netdev =
  nd_melodi :: melodi_device
  nd_tx :: melodi_tx
  nd_identity_key :: "kernel_key option"
  nd_transport :: "melodi_link_ops option"
  nd_radio_serial :: bytes
  nd_persistent :: bool
  nd_link_state :: melodi_link_state
  nd_link_failure :: melodi_link_failure
  nd_link_error :: "errno option"
  nd_logical_tx_stopping :: bool
  nd_logical_tx_queue :: "sk_buff list"
  nd_running :: bool
  nd_carrier :: bool
  nd_dormant :: bool
  nd_queues_stopped :: bool
  nd_messages :: "user_message list"

subsection \<open>Lifting the operations of the parts\<close>

definition notices_of :: "melodi_queue_notice list \<Rightarrow> user_message list" where
  "notices_of notices = [Delivery_Error e. Some e \<leftarrow> notices]"

definition netdev_queue :: "(melodi_tx \<Rightarrow> melodi_tx \<times> melodi_queue_notice list) \<Rightarrow> melodi_netdev \<Rightarrow> melodi_netdev" where
  "netdev_queue f dev =
     (case f (nd_tx dev) of (tx, notices) \<Rightarrow> dev\<lparr>nd_tx := tx, nd_messages := nd_messages dev @ notices_of notices\<rparr>)"

definition netdev_lock :: "(melodi_device \<Rightarrow> melodi_device) \<Rightarrow> melodi_netdev \<Rightarrow> melodi_netdev" where
  "netdev_lock f dev = dev\<lparr>nd_melodi := f (nd_melodi dev)\<rparr>"

definition tell :: "user_message list \<Rightarrow> melodi_netdev \<Rightarrow> melodi_netdev" where
  "tell messages dev = dev\<lparr>nd_messages := nd_messages dev @ messages\<rparr>"

definition link_set ::
  "melodi_link_state \<Rightarrow> melodi_link_failure \<Rightarrow> errno option \<Rightarrow> melodi_netdev \<Rightarrow> melodi_netdev" where
  "link_set state failure error dev = dev\<lparr>nd_link_state := state, nd_link_failure := failure, nd_link_error := error\<rparr>"

definition transport_set :: "bool \<Rightarrow> u32 \<Rightarrow> melodi_netdev \<Rightarrow> melodi_netdev" where
  "transport_set ready locator =
     netdev_lock (\<lambda>melodi. melodi\<lparr>dev_transport_ready := ready, dev_local_link_locator := locator\<rparr>)"

subsection \<open>Messages that fail\<close>

text \<open>
  The two loops of \<open>melodi_data_fail_pending\<close>. Each clears the first entry in use and reports its
  failure; it ends when there is none, or when the service of the entry it cleared is zero.
\<close>

definition pending_in_use :: "melodi_device \<Rightarrow> nat" where
  "pending_in_use melodi = length (filter pm_allocated (dev_pending melodi))"

definition discovery_in_use :: "melodi_device \<Rightarrow> nat" where
  "discovery_in_use melodi = length (filter dp_active (dev_discovery_pending melodi))"

lemma pending_clear_less:
  "find_slot pm_allocated (dev_pending melodi) = Some index \<Longrightarrow>
    pending_in_use (melodi_pending_clear melodi index) < pending_in_use melodi"
  using length_filter_clear [of index "dev_pending melodi" pm_allocated zero_pending]
  by (auto simp: pending_in_use_def melodi_pending_clear_def zero_pending_def find_slot_Some_iff)

lemma discovery_clear_less:
  "find_slot dp_active (dev_discovery_pending melodi) = Some index \<Longrightarrow>
    discovery_in_use (melodi_discovery_pending_clear_locked melodi index) < discovery_in_use melodi"
  using length_filter_clear [of index "dev_discovery_pending melodi" dp_active zero_discovery_pending]
  by (auto simp: discovery_in_use_def melodi_discovery_pending_clear_locked_def zero_discovery_pending_def
      find_slot_Some_iff Let_def)

function fail_reliable :: "errno \<Rightarrow> melodi_device \<Rightarrow> melodi_device \<times> delivery_error list" where
  "fail_reliable error melodi =
     (case find_slot pm_allocated (dev_pending melodi) of
        None \<Rightarrow> (melodi, [])
      | Some index \<Rightarrow>
         (let pending = dev_pending melodi ! index; melodi' = melodi_pending_clear melodi index
          in if pm_source_service pending = 0 then (melodi', [])
             else (let (melodi'', errors) = fail_reliable error melodi' in (melodi'', pending_error pending error # errors))))"
  by pat_completeness auto
termination
  by (relation "measure (\<lambda>(_, melodi). pending_in_use melodi)") (auto intro: pending_clear_less)

function fail_discovery :: "errno \<Rightarrow> melodi_device \<Rightarrow> melodi_device \<times> delivery_error list" where
  "fail_discovery error melodi =
     (case find_slot dp_active (dev_discovery_pending melodi) of
        None \<Rightarrow> (melodi, [])
      | Some index \<Rightarrow>
         (let pending = dev_discovery_pending melodi ! index; melodi' = melodi_discovery_pending_clear_locked melodi index
          in if dp_source_service pending = 0 then (melodi', [])
             else (let (melodi'', errors) = fail_discovery error melodi' in (melodi'', discovery_error pending error # errors))))"
  by pat_completeness auto
termination
  by (relation "measure (\<lambda>(_, melodi). discovery_in_use melodi)") (auto intro: discovery_clear_less)

declare fail_reliable.simps [simp del] fail_discovery.simps [simp del]

definition melodi_data_fail_pending :: "errno \<Rightarrow> melodi_netdev \<Rightarrow> melodi_netdev" where
  "melodi_data_fail_pending error dev =
     (case fail_reliable error (nd_melodi dev) of
        (melodi, reliable) \<Rightarrow>
          (case fail_discovery error melodi of
             (melodi, discovery) \<Rightarrow>
               tell (map Delivery_Error (reliable @ discovery)) (dev\<lparr>nd_melodi := melodi\<rparr>)))"

subsection \<open>The queue of logical messages\<close>

text \<open>The header is copied from memory: the layout of the structure on a 64 bit little endian host.\<close>

definition host_get64 :: "bytes \<Rightarrow> u64" where
  "host_get64 b = ucast (host_get32 b) OR push_bit 32 (ucast (host_get32 (drop 4 b)))"

abbreviation (input) LOGICAL_HEADER_SIZE :: nat where "LOGICAL_HEADER_SIZE \<equiv> 96"

definition logical_header :: "bytes \<Rightarrow> melodi_logical_header" where
  "logical_header b =
     \<lparr>lh_destination = chunk 0 MELODI_NODE_ID_SIZE b, lh_reservation_id = host_get64 (drop 40 b),
      lh_cookie = host_get64 (drop 48 b), lh_binding_generation = host_get64 (drop 56 b),
      lh_magic = host_get32 (drop 64 b), lh_flags = host_get32 (drop 68 b), lh_ttl_ms = host_get32 (drop 72 b),
      lh_binding_portid = host_get32 (drop 76 b), lh_payload_length = host_get32 (drop 80 b),
      lh_source_service = host_get16 (drop 84 b), lh_destination_service = host_get16 (drop 86 b),
      lh_header_length = host_get16 (drop 88 b), lh_priority = b ! 90, lh_version = b ! 91\<rparr>"

definition melodi_logical_skb_valid :: "sk_buff \<Rightarrow> melodi_logical_header option" where
  "melodi_logical_skb_valid skb =
     (if sk_protocol skb \<noteq> 0 \<or> sk_headlen skb < LOGICAL_HEADER_SIZE then None
      else let header = logical_header (sk_data skb)
           in if lh_magic header = MELODI_LOGICAL_MAGIC \<and> lh_version header = MELODI_LOGICAL_VERSION \<and>
                 unat (lh_header_length header) = LOGICAL_HEADER_SIZE \<and> lh_reservation_id header \<noteq> 0 \<and>
                 unat (lh_payload_length header) \<le> MELODI_MESSAGE_MTU \<and>
                 length (sk_data skb) = LOGICAL_HEADER_SIZE + unat (lh_payload_length header)
              then Some header else None)"

definition melodi_logical_start :: "melodi_netdev \<Rightarrow> melodi_netdev" where
  "melodi_logical_start dev = dev\<lparr>nd_logical_tx_stopping := False\<rparr>"

definition logical_discard :: "errno \<Rightarrow> sk_buff \<Rightarrow> melodi_netdev \<Rightarrow> melodi_netdev" where
  "logical_discard error skb dev =
     (let dev = (case melodi_logical_skb_valid skb of
            None \<Rightarrow> dev
          | Some header \<Rightarrow>
              netdev_queue (\<lambda>tx. case melodi_queue_reservation_cancel tx (lh_reservation_id header) error True of
                (tx, notice) \<Rightarrow> (tx, [notice])) dev)
      in dev\<lparr>nd_tx := queue_drop (nd_tx dev)\<rparr>)"

definition melodi_logical_stop :: "errno \<Rightarrow> melodi_netdev \<Rightarrow> melodi_netdev" where
  "melodi_logical_stop error dev =
     (fold (logical_discard error) (nd_logical_tx_queue dev) (dev\<lparr>nd_logical_tx_stopping := True\<rparr>))
       \<lparr>nd_logical_tx_queue := []\<rparr>"

definition melodi_start_xmit :: "sk_buff \<Rightarrow> melodi_netdev \<Rightarrow> melodi_netdev" where
  "melodi_start_xmit skb dev =
     (if melodi_logical_skb_valid skb = None \<or> nd_logical_tx_stopping dev \<or>
         length (nd_logical_tx_queue dev) \<ge> MELODI_LOGICAL_QUEUE_LIMIT
      then dev\<lparr>nd_tx := queue_drop (nd_tx dev)\<rparr>
      else dev\<lparr>nd_logical_tx_queue := nd_logical_tx_queue dev @ [skb]\<rparr>)"

subsection \<open>Opening and stopping\<close>

definition melodi_open :: "melodi_netdev \<Rightarrow> melodi_netdev" where
  "melodi_open dev =
     (let dev = (melodi_logical_start dev)\<lparr>nd_queues_stopped := False\<rparr>
      in if nd_carrier dev then netdev_queue (\<lambda>tx. (melodi_queue_start tx, [])) dev else dev)"

definition melodi_stop :: "melodi_netdev \<Rightarrow> melodi_netdev" where
  "melodi_stop dev =
     (let connected = nd_carrier dev;
          dev = dev\<lparr>nd_queues_stopped := True\<rparr>;
          dev = (if connected then tell [Link_Error ENETDOWN] dev else dev);
          dev = melodi_logical_stop ENETDOWN dev;
          dev = netdev_queue melodi_queue_pause dev
      in melodi_data_fail_pending ENETDOWN dev)"

definition melodi_device_init :: "bool \<Rightarrow> melodi_netdev \<Rightarrow> melodi_netdev" where
  "melodi_device_init persistent dev =
     dev\<lparr>nd_logical_tx_queue := [], nd_logical_tx_stopping := True, nd_tx := melodi_queue_init (nd_tx dev),
       nd_melodi := (nd_melodi dev)\<lparr>dev_broadcast_allowed := True\<rparr>, nd_persistent := persistent,
       nd_link_state := MELODI_LINK_DISCONNECTED, nd_carrier := False\<rparr>"

subsection \<open>The transport\<close>

text \<open>What the device passes down: \<open>melodi_core_xmit\<close>, \<open>melodi_core_airtime\<close>, \<open>melodi_core_link_info\<close>.\<close>

definition melodi_core_xmit :: "melodi_netdev \<Rightarrow> bytes \<Rightarrow> melodi_tx_meta \<Rightarrow> unit res" where
  "melodi_core_xmit dev frame meta =
     (if \<not> nd_running dev \<or> \<not> nd_carrier dev then Inl ENETDOWN
      else case nd_transport dev of
             None \<Rightarrow> Inl ENETDOWN
           | Some ops \<Rightarrow> lo_xmit ops frame meta)"

definition melodi_core_airtime :: "melodi_netdev \<Rightarrow> bytes \<Rightarrow> melodi_tx_meta \<Rightarrow> melodi_airtime_charge res" where
  "melodi_core_airtime dev frame meta =
     (case nd_transport dev of
        None \<Rightarrow> Inl ENETDOWN
      | Some ops \<Rightarrow>
         (case lo_airtime ops of
            None \<Rightarrow> Inr \<lparr>ac_duration_us = 0, ac_budget_us = 0, ac_broadcast_budget_us = 0\<rparr>
          | Some airtime \<Rightarrow>
             (case airtime frame meta of
                Inl error \<Rightarrow> Inl error
              | Inr charge \<Rightarrow>
                 if ac_duration_us charge = 0 \<or> ac_budget_us charge = 0 \<or> ac_broadcast_budget_us charge = 0 \<or>
                    ac_budget_us charge > MELODI_AIRTIME_WINDOW_US \<or>
                    ac_broadcast_budget_us charge > ac_budget_us charge \<or>
                    ac_duration_us charge > MELODI_AIRTIME_WINDOW_US
                 then Inl EPROTO else Inr charge)))"

definition melodi_core_link_info :: "melodi_netdev \<Rightarrow> melodi_link_info res" where
  "melodi_core_link_info dev =
     (case nd_transport dev of
        None \<Rightarrow> Inl ENETDOWN
      | Some ops \<Rightarrow>
         (let link = \<lparr>li_abi_version = MELODI_CORE_ABI_VERSION, li_frame_mtu = of_nat MELODI_FRAME_MTU_MAX,
                li_frame_pace_us = 0, li_transmit_pending = 0\<rparr>;
              link = (case lo_get_info ops of None \<Rightarrow> link | Some get_info \<Rightarrow> get_info link)
          in if li_abi_version link \<noteq> MELODI_CORE_ABI_VERSION \<or> unat (li_frame_mtu link) > MELODI_FRAME_MTU_MAX
             then Inl EPROTO else Inr link))"

definition melodi_core_frame_mtu :: "melodi_netdev \<Rightarrow> u32" where
  "melodi_core_frame_mtu dev = (case melodi_core_link_info dev of Inl _ \<Rightarrow> 0 | Inr info \<Rightarrow> li_frame_mtu info)"

definition melodi_core_frame_pace_ms :: "melodi_netdev \<Rightarrow> u32" where
  "melodi_core_frame_pace_ms dev =
     (case melodi_core_link_info dev of Inl _ \<Rightarrow> 0 | Inr info \<Rightarrow> li_frame_pace_us info div 1000)"

definition melodi_core_link_busy :: "melodi_netdev \<Rightarrow> bool" where
  "melodi_core_link_busy dev =
     (case melodi_core_link_info dev of Inl _ \<Rightarrow> False | Inr info \<Rightarrow> li_transmit_pending info \<noteq> 0)"

text \<open>The error number is positive here, so the test of \<open>melodi_link_failed\<close> on its sign has no counterpart.\<close>

definition melodi_link_failed :: "melodi_link_failure \<Rightarrow> errno \<Rightarrow> melodi_netdev \<Rightarrow> melodi_netdev" where
  "melodi_link_failed failure error dev =
     (if failure = MELODI_LINK_FAILURE_NONE then dev
      else
        let notify = nd_carrier dev;
            dev = dev\<lparr>nd_carrier := False, nd_queues_stopped := True\<rparr>;
            dev = melodi_logical_stop error dev;
            dev = netdev_queue (melodi_queue_fail error) dev;
            dev = (if notify then tell [Link_Error error] dev else dev);
            dev = link_set MELODI_LINK_FAILED failure (Some error) (transport_set False 0 dev)
        in dev\<lparr>nd_dormant := False\<rparr>)"

text \<open>What \<open>melodi_transport_configure\<close> does before it calls the transport.\<close>

definition link_configuring :: "melodi_netdev \<Rightarrow> melodi_netdev" where
  "link_configuring dev =
     (let dev = link_set MELODI_LINK_CONFIGURING MELODI_LINK_FAILURE_NONE None (transport_set False 0 dev);
          dev = dev\<lparr>nd_carrier := False, nd_dormant := True, nd_queues_stopped := True\<rparr>;
          dev = melodi_logical_stop ENETDOWN dev;
          dev = netdev_queue (melodi_queue_fail ENETDOWN) dev
      in melodi_data_fail_pending ENETDOWN dev)"

definition melodi_transport_configure :: "melodi_netdev \<Rightarrow> melodi_netdev \<times> unit res" where
  "melodi_transport_configure dev =
     (if \<not> dev_identity_ready (nd_melodi dev) then (dev, Inl EAGAIN)
      else case nd_transport dev of
        None \<Rightarrow> (dev, Inl EOPNOTSUPP)
      | Some ops \<Rightarrow>
         (case lo_configure ops of
            None \<Rightarrow> (dev, Inl EOPNOTSUPP)
          | Some configure \<Rightarrow>
             (case configure \<lparr>lc_mesh_domain = dev_mesh_domain (nd_melodi dev),
                     lc_locator = dev_local_native_locator (nd_melodi dev)\<rparr> of
                Inl error \<Rightarrow> (melodi_link_failed MELODI_LINK_FAILURE_TRANSPORT error (link_configuring dev), Inl error)
              | Inr _ \<Rightarrow> (link_configuring dev, Inr ()))))"

definition melodi_link_ready :: "bool \<Rightarrow> u32 \<Rightarrow> melodi_netdev \<Rightarrow> melodi_netdev" where
  "melodi_link_ready ready local_locator dev =
     (if ready \<and> (local_locator = 0 \<or> local_locator = MELODI_LINK_LOCATOR_BROADCAST) then dev
      else
        let notify = (\<not> ready \<and> nd_carrier dev);
            dev = transport_set ready (if ready then local_locator else 0) dev;
            link_ready = (ready \<and> dev_identity_ready (nd_melodi dev));
            dev = link_set (if link_ready then MELODI_LINK_READY else MELODI_LINK_CONFIGURING)
                    MELODI_LINK_FAILURE_NONE None dev
        in if link_ready
           then (let dev = dev\<lparr>nd_dormant := False, nd_carrier := True\<rparr>;
                     dev = netdev_queue (\<lambda>tx. (melodi_queue_start tx, [])) dev
                 in if nd_running dev then (melodi_logical_start dev)\<lparr>nd_queues_stopped := False\<rparr> else dev)
           else (let dev = dev\<lparr>nd_carrier := False, nd_dormant := True, nd_queues_stopped := True\<rparr>;
                     dev = melodi_logical_stop ENETDOWN dev;
                     dev = netdev_queue melodi_queue_pause dev
                 in if notify then tell [Link_Error ENETDOWN] dev else dev))"

text \<open>
  Attaching: the search over the interfaces is in the callers; this is what they do to the one that
  gets the transport. \<open>melodi_link_attach\<close> is given the interface.
\<close>

definition transport_attach :: "melodi_link_ops \<Rightarrow> melodi_netdev \<Rightarrow> melodi_netdev" where
  "transport_attach ops dev =
     (link_set MELODI_LINK_CONFIGURING MELODI_LINK_FAILURE_NONE None (dev\<lparr>nd_transport := Some ops\<rparr>))\<lparr>nd_dormant := True\<rparr>"

definition melodi_link_attach :: "bool \<Rightarrow> melodi_link_ops \<Rightarrow> melodi_netdev \<Rightarrow> melodi_netdev \<times> unit res" where
  "melodi_link_attach memory ops dev =
     (if \<not> memory then (dev, Inl ENOMEM)
      else if nd_transport dev \<noteq> None then (dev, Inl EBUSY)
      else (transport_attach ops dev, Inr ()))"

definition melodi_detach_transport :: "melodi_netdev \<Rightarrow> melodi_netdev" where
  "melodi_detach_transport dev =
     (let dev = dev\<lparr>nd_carrier := False, nd_queues_stopped := True\<rparr>;
          dev = melodi_logical_stop ENETDOWN dev;
          dev = netdev_queue (melodi_queue_fail ENETDOWN) dev;
          dev = melodi_data_fail_pending ENETDOWN dev
      in if nd_transport dev = None then dev
         else
           let dev = transport_set False 0 (dev\<lparr>nd_transport := None\<rparr>);
               dev = link_set MELODI_LINK_DISCONNECTED MELODI_LINK_FAILURE_NONE None dev;
               dev = dev\<lparr>nd_dormant := False\<rparr>
           in netdev_lock (\<lambda>melodi. melodi_discovery_reset_locked (melodi_data_reset_locked melodi)) dev)"

subsection \<open>Identity and namespace\<close>

definition melodi_namespace_reset :: "melodi_netdev \<Rightarrow> melodi_netdev" where
  "melodi_namespace_reset dev =
     (let dev = dev\<lparr>nd_queues_stopped := True\<rparr>;
          dev = melodi_logical_stop ENONET dev;
          dev = netdev_queue (melodi_queue_fail ENONET) dev;
          dev = melodi_data_fail_pending ENONET dev;
          dev = netdev_lock (\<lambda>melodi. (melodi_discovery_reset_locked (melodi_data_reset_locked melodi))
            \<lparr>dev_policy_peers := replicate MELODI_POLICY_PEER_LIMIT zero_policy_peer,
             dev_policy_services := replicate MELODI_POLICY_SERVICE_LIMIT zero_policy_service,
             dev_policy_mode := MELODI_POLICY_ALLOW_AUTHENTICATED, dev_broadcast_allowed := True\<rparr>) dev
      in if dev_identity_ready (nd_melodi dev) \<and> dev_transport_ready (nd_melodi dev) \<and> nd_running dev
         then (melodi_logical_start (netdev_queue (\<lambda>tx. (melodi_queue_start tx, [])) dev))\<lparr>nd_queues_stopped := False\<rparr>
         else dev)"

text \<open>The check of \<open>melodi_device_set_identity\<close>: the locator and the round of the new identity.\<close>

definition identity_admit ::
  "(bytes \<Rightarrow> int) \<Rightarrow> melodi_device \<Rightarrow> bytes \<Rightarrow> u32 \<Rightarrow> bytes option \<Rightarrow> (u32 \<times> u32) res" where
  "identity_admit check melodi node_id generation previous_node_id =
     (if \<not> melodi_node_id_valid check node_id \<or> generation = 0 then Inl EINVAL
      else case melodi_map_native_locator (dev_mesh_domain melodi) node_id 0 of
        Inl error \<Rightarrow> Inl error
      | Inr located \<Rightarrow>
         (let replacing = (dev_identity_ready melodi \<and> dev_node_id melodi \<noteq> node_id)
          in if dev_identity_ready melodi \<and> \<not> replacing \<and> generation \<le> dev_identity_generation melodi then Inl ESTALE
             else if previous_node_id \<noteq> None \<and> (\<not> replacing \<or> previous_node_id \<noteq> Some (dev_node_id melodi))
             then Inl ESTALE else Inr located))"

definition identity_store :: "bytes \<Rightarrow> u32 \<Rightarrow> bytes option \<Rightarrow> bool \<Rightarrow> u32 \<times> u32 \<Rightarrow> melodi_device \<Rightarrow> melodi_device" where
  "identity_store node_id generation previous_node_id replacing located melodi =
     (case located of (native_locator, collision_round) \<Rightarrow>
        let melodi = melodi\<lparr>dev_node_id := node_id, dev_identity_ready := True, dev_identity_generation := generation,
              dev_local_native_locator := native_locator, dev_local_collision_round := collision_round,
              dev_conflict_pending := False, dev_transmit_counter := 0\<rparr>;
            melodi = melodi_discovery_reset_locked (melodi_data_reset_locked melodi)
        in if replacing \<and> previous_node_id = None
           then melodi\<lparr>dev_policy_peers := replicate MELODI_POLICY_PEER_LIMIT zero_policy_peer\<rparr> else melodi)"

text \<open>The first half of \<open>melodi_device_set_identity\<close>: everything that was sent under the old identity fails, and
  the new one is stored.\<close>

definition identity_replace ::
  "bytes \<Rightarrow> kernel_key \<Rightarrow> u32 \<Rightarrow> bytes option \<Rightarrow> u32 \<times> u32 \<Rightarrow> melodi_netdev \<Rightarrow> melodi_netdev" where
  "identity_replace node_id identity_key generation previous_node_id located dev =
     (let replacing = (dev_identity_ready (nd_melodi dev) \<and> dev_node_id (nd_melodi dev) \<noteq> node_id);
          connected = nd_carrier dev;
          dev = dev\<lparr>nd_carrier := False, nd_queues_stopped := True\<rparr>;
          dev = melodi_logical_stop EKEYREVOKED dev;
          dev = netdev_queue (melodi_queue_fail EKEYREVOKED) dev;
          dev = melodi_data_fail_pending EKEYREVOKED dev;
          dev = (if connected then tell [Link_Error EKEYREVOKED] dev else dev);
          dev = dev\<lparr>nd_identity_key := Some identity_key\<rparr>
      in netdev_lock (identity_store node_id generation previous_node_id replacing located) dev)"

text \<open>The second half: the transport is configured again, or the link that was ready resumes.\<close>

definition identity_resume :: "bool \<Rightarrow> melodi_netdev \<Rightarrow> melodi_netdev" where
  "identity_resume configure dev =
     (if configure
      then (link_set MELODI_LINK_CONFIGURING MELODI_LINK_FAILURE_NONE None (transport_set False 0 dev))
             \<lparr>nd_carrier := False, nd_dormant := True, nd_queues_stopped := True\<rparr>
      else if dev_transport_ready (nd_melodi dev)
      then (let dev = (link_set MELODI_LINK_READY MELODI_LINK_FAILURE_NONE None dev)
                  \<lparr>nd_dormant := False, nd_carrier := True\<rparr>;
                dev = netdev_queue (\<lambda>tx. (melodi_queue_start tx, [])) dev
            in if nd_running dev then (melodi_logical_start dev)\<lparr>nd_queues_stopped := False\<rparr> else dev)
      else dev)"

definition melodi_device_set_identity ::
  "(bytes \<Rightarrow> int) \<Rightarrow> bytes \<Rightarrow> kernel_key \<Rightarrow> u32 \<Rightarrow> bytes option \<Rightarrow> melodi_netdev \<Rightarrow> melodi_netdev \<times> unit res" where
  "melodi_device_set_identity check node_id identity_key generation previous_node_id dev =
     (case identity_admit check (nd_melodi dev) node_id generation previous_node_id of
        Inl error \<Rightarrow> (dev, Inl error)
      | Inr located \<Rightarrow>
         (let dev = identity_replace node_id identity_key generation previous_node_id located dev;
              configure = (case nd_transport dev of None \<Rightarrow> False | Some ops \<Rightarrow> lo_configure ops \<noteq> None);
              dev = identity_resume configure dev
          in (if configure then fst (melodi_transport_configure dev) else dev, Inr ())))"

subsection \<open>What the operations keep\<close>

text \<open>The parts of the device that decide whether it may transmit.\<close>

definition link_view ::
  "melodi_netdev \<Rightarrow> bool \<times> melodi_link_state \<times> melodi_link_failure \<times> errno option \<times> melodi_link_ops option \<times> bool" where
  "link_view dev = (nd_carrier dev, nd_link_state dev, nd_link_failure dev, nd_link_error dev, nd_transport dev, nd_running dev)"

lemma link_view_updates [simp]:
  "link_view (dev\<lparr>nd_tx := a\<rparr>) = link_view dev" "link_view (dev\<lparr>nd_melodi := b\<rparr>) = link_view dev"
  "link_view (dev\<lparr>nd_messages := c\<rparr>) = link_view dev" "link_view (dev\<lparr>nd_logical_tx_queue := d\<rparr>) = link_view dev"
  "link_view (dev\<lparr>nd_logical_tx_stopping := e\<rparr>) = link_view dev" "link_view (dev\<lparr>nd_dormant := f\<rparr>) = link_view dev"
  "link_view (dev\<lparr>nd_queues_stopped := g\<rparr>) = link_view dev" "link_view (dev\<lparr>nd_identity_key := h\<rparr>) = link_view dev"
  by (simp_all add: link_view_def)

lemma stripped_fail_reliable: "stripped (fst (fail_reliable error m)) = stripped m"
proof (induction error m rule: fail_reliable.induct)
  case (1 error m)
  show ?case
  proof (cases "find_slot pm_allocated (dev_pending m)")
    case (Some i)
    then show ?thesis
      using 1 [OF Some refl refl] by (subst fail_reliable.simps) (simp add: stripped_pending_clear Let_def case_prod_beta)
  qed (subst fail_reliable.simps, simp)
qed

lemma stripped_fail_discovery: "stripped (fst (fail_discovery error m)) = stripped m"
proof (induction error m rule: fail_discovery.induct)
  case (1 error m)
  show ?case
  proof (cases "find_slot dp_active (dev_discovery_pending m)")
    case (Some i)
    then show ?thesis
      using 1 [OF Some refl refl] by (subst fail_discovery.simps) (simp add: stripped_discovery_clear Let_def case_prod_beta)
  qed (subst fail_discovery.simps, simp)
qed

lemma fail_pending_simps [simp]:
  "link_view (melodi_data_fail_pending error dev) = link_view dev"
  "nd_tx (melodi_data_fail_pending error dev) = nd_tx dev"
  "nd_logical_tx_stopping (melodi_data_fail_pending error dev) = nd_logical_tx_stopping dev"
  "nd_queues_stopped (melodi_data_fail_pending error dev) = nd_queues_stopped dev"
  "stripped (nd_melodi (melodi_data_fail_pending error dev)) = stripped (nd_melodi dev)"
  using stripped_fail_reliable [of error "nd_melodi dev"]
    stripped_fail_discovery [of error "fst (fail_reliable error (nd_melodi dev))"]
  by (auto simp: melodi_data_fail_pending_def tell_def link_view_def split: prod.splits)

lemma reservation_remove_stopping [simp]:
  "tx_queue_stopping (melodi_reservation_remove_locked tx i) = tx_queue_stopping tx"
  by (simp add: melodi_reservation_remove_locked_def queue_release_turns_def namespace_release_def
      melodi_namespace_queue_put_def Let_def split: option.splits)

lemma queue_remove_stopping [simp]: "tx_queue_stopping (melodi_queue_remove_locked tx i) = tx_queue_stopping tx"
  by (simp add: melodi_queue_remove_locked_def queue_release_turns_def namespace_release_def
      melodi_namespace_queue_put_def Let_def split: option.splits)

lemma reservation_cancel_stopping [simp]:
  "tx_queue_stopping (fst (melodi_queue_reservation_cancel tx rid error notify)) = tx_queue_stopping tx"
  by (simp add: melodi_queue_reservation_cancel_def queue_drop_def Let_def split: option.splits)

lemma cancel_all_stopping: "tx_queue_stopping (fst (queue_cancel_all error tx)) = tx_queue_stopping tx"
proof (induction error tx rule: queue_cancel_all.induct)
  case (1 error tx)
  show ?case
  proof (cases "find_slot rv_active (tx_reservations tx)")
    case (Some i)
    then show ?thesis using 1 [OF Some _ refl] by (subst queue_cancel_all.simps) (simp add: Let_def case_prod_beta)
  qed (subst queue_cancel_all.simps, simp)
qed

lemma drain_stopping [simp]: "tx_queue_stopping (fst (melodi_queue_drain error tx))"
proof -
  have "tx_queue_stopping (fold (\<lambda>index tx. if qe_active (tx_queue tx ! index) then melodi_queue_remove_locked tx index else tx) xs t) =
      tx_queue_stopping t" for xs t
    by (induction xs arbitrary: t) simp_all
  then show ?thesis
    using cancel_all_stopping [of error "tx\<lparr>tx_queue_stopping := True\<rparr>"]
    by (simp add: melodi_queue_drain_def Let_def case_prod_beta)
qed

lemmas queue_stops = melodi_queue_pause_def melodi_queue_fail_def melodi_queue_stop_def

lemma netdev_queue_simps [simp]:
  "link_view (netdev_queue f dev) = link_view dev" "nd_melodi (netdev_queue f dev) = nd_melodi dev"
  "nd_tx (netdev_queue f dev) = fst (f (nd_tx dev))"
  "nd_logical_tx_stopping (netdev_queue f dev) = nd_logical_tx_stopping dev"
  "nd_queues_stopped (netdev_queue f dev) = nd_queues_stopped dev"
  by (simp_all add: netdev_queue_def link_view_def split: prod.splits)

lemma logical_discard_simps [simp]:
  "link_view (logical_discard error skb dev) = link_view dev" "nd_melodi (logical_discard error skb dev) = nd_melodi dev"
  "nd_logical_tx_stopping (logical_discard error skb dev) = nd_logical_tx_stopping dev"
  "nd_queues_stopped (logical_discard error skb dev) = nd_queues_stopped dev"
  "tx_queue_stopping (nd_tx (logical_discard error skb dev)) = tx_queue_stopping (nd_tx dev)"
proof -
  have "tx_queue_stopping (nd_tx (netdev_queue (\<lambda>tx. case melodi_queue_reservation_cancel tx rid error True of
      (tx, notice) \<Rightarrow> (tx, [notice])) dev)) = tx_queue_stopping (nd_tx dev)" for rid
    using reservation_cancel_stopping [of "nd_tx dev" rid error True] by (simp add: case_prod_beta)
  then show "link_view (logical_discard error skb dev) = link_view dev" "nd_melodi (logical_discard error skb dev) = nd_melodi dev"
    "nd_logical_tx_stopping (logical_discard error skb dev) = nd_logical_tx_stopping dev"
    "nd_queues_stopped (logical_discard error skb dev) = nd_queues_stopped dev"
    "tx_queue_stopping (nd_tx (logical_discard error skb dev)) = tx_queue_stopping (nd_tx dev)"
    by (simp_all add: logical_discard_def Let_def queue_drop_def split: option.splits)
qed

lemma logical_stop_simps [simp]:
  "link_view (melodi_logical_stop error dev) = link_view dev" "nd_melodi (melodi_logical_stop error dev) = nd_melodi dev"
  "nd_logical_tx_stopping (melodi_logical_stop error dev)"
  "nd_queues_stopped (melodi_logical_stop error dev) = nd_queues_stopped dev"
  "tx_queue_stopping (nd_tx (melodi_logical_stop error dev)) = tx_queue_stopping (nd_tx dev)"
proof -
  have "link_view (fold (logical_discard error) xs d) = link_view d \<and> nd_melodi (fold (logical_discard error) xs d) = nd_melodi d \<and>
      nd_logical_tx_stopping (fold (logical_discard error) xs d) = nd_logical_tx_stopping d \<and>
      nd_queues_stopped (fold (logical_discard error) xs d) = nd_queues_stopped d \<and>
      tx_queue_stopping (nd_tx (fold (logical_discard error) xs d)) = tx_queue_stopping (nd_tx d)" for xs d
    by (induction xs arbitrary: d) simp_all
  note this [of "nd_logical_tx_queue dev" "dev\<lparr>nd_logical_tx_stopping := True\<rparr>"]
  then show "link_view (melodi_logical_stop error dev) = link_view dev" "nd_melodi (melodi_logical_stop error dev) = nd_melodi dev"
    "nd_logical_tx_stopping (melodi_logical_stop error dev)"
    "nd_queues_stopped (melodi_logical_stop error dev) = nd_queues_stopped dev"
    "tx_queue_stopping (nd_tx (melodi_logical_stop error dev)) = tx_queue_stopping (nd_tx dev)"
    by (simp_all add: melodi_logical_stop_def)
qed


lemma link_viewD:
  assumes "link_view a = link_view b"
  shows "nd_carrier a = nd_carrier b" "nd_link_state a = nd_link_state b" "nd_link_failure a = nd_link_failure b"
    "nd_link_error a = nd_link_error b" "nd_transport a = nd_transport b" "nd_running a = nd_running b"
  using assms by (simp_all add: link_view_def)

lemmas link_keeps [simp] =
  link_viewD [OF fail_pending_simps(1)] link_viewD [OF netdev_queue_simps(1)] link_viewD [OF logical_stop_simps(1)]
  strippedD [OF fail_pending_simps(5)]

lemma set_simps [simp]:
  "nd_link_state (link_set s f e dev) = s" "nd_link_failure (link_set s f e dev) = f" "nd_link_error (link_set s f e dev) = e"
  "nd_carrier (link_set s f e dev) = nd_carrier dev" "nd_transport (link_set s f e dev) = nd_transport dev"
  "nd_running (link_set s f e dev) = nd_running dev" "nd_melodi (link_set s f e dev) = nd_melodi dev"
  "nd_tx (link_set s f e dev) = nd_tx dev" "nd_logical_tx_stopping (link_set s f e dev) = nd_logical_tx_stopping dev"
  "nd_queues_stopped (link_set s f e dev) = nd_queues_stopped dev"
  "nd_melodi (netdev_lock g dev) = g (nd_melodi dev)" "link_view (netdev_lock g dev) = link_view dev"
  "nd_tx (netdev_lock g dev) = nd_tx dev" "nd_logical_tx_stopping (netdev_lock g dev) = nd_logical_tx_stopping dev"
  "nd_queues_stopped (netdev_lock g dev) = nd_queues_stopped dev"
  "nd_melodi (transport_set r l dev) = (nd_melodi dev)\<lparr>dev_transport_ready := r, dev_local_link_locator := l\<rparr>"
  "link_view (transport_set r l dev) = link_view dev" "nd_tx (transport_set r l dev) = nd_tx dev"
  "nd_logical_tx_stopping (transport_set r l dev) = nd_logical_tx_stopping dev"
  "nd_queues_stopped (transport_set r l dev) = nd_queues_stopped dev"
  "nd_melodi (tell ms dev) = nd_melodi dev" "link_view (tell ms dev) = link_view dev" "nd_tx (tell ms dev) = nd_tx dev"
  "nd_logical_tx_stopping (tell ms dev) = nd_logical_tx_stopping dev" "nd_queues_stopped (tell ms dev) = nd_queues_stopped dev"
  by (simp_all add: link_set_def netdev_lock_def transport_set_def tell_def)

lemmas set_keeps [simp] =
  link_viewD [OF set_simps(12)] link_viewD [OF set_simps(17)] link_viewD [OF set_simps(22)]

lemma discovery_reset_simps [simp]:
  "self_of (melodi_discovery_reset_locked m) = self_of m" "address_of (melodi_discovery_reset_locked m) = address_of m"
  "dev_peers (melodi_discovery_reset_locked m) = replicate 64 zero_peer"
proof -
  have "self_of (fold peer_reset_authenticated xs m) = self_of m \<and> address_of (fold peer_reset_authenticated xs m) = address_of m" for xs m
    by (induction xs arbitrary: m) (simp_all add: peer_reset_authenticated_def)
  moreover have "self_of (m\<lparr>dev_peers := p\<rparr>) = self_of m" "address_of (m\<lparr>dev_peers := p\<rparr>) = address_of m" for m p
    by (simp_all add: self_of_def address_of_def)
  ultimately show "self_of (melodi_discovery_reset_locked m) = self_of m" "address_of (melodi_discovery_reset_locked m) = address_of m"
    "dev_peers (melodi_discovery_reset_locked m) = replicate 64 zero_peer"
    by (simp_all add: melodi_discovery_reset_locked_def)
qed

lemma discovery_reset_ready [simp]:
  "dev_identity_ready (melodi_discovery_reset_locked m) = dev_identity_ready m"
  "dev_transport_ready (melodi_discovery_reset_locked m) = dev_transport_ready m"
  "dev_node_id (melodi_discovery_reset_locked m) = dev_node_id m"
  "dev_mesh_domain (melodi_discovery_reset_locked m) = dev_mesh_domain m"
  "dev_local_native_locator (melodi_discovery_reset_locked m) = dev_local_native_locator m"
  "dev_local_collision_round (melodi_discovery_reset_locked m) = dev_local_collision_round m"
  using discovery_reset_simps(1,2) [of m] by (simp_all add: self_of_def address_of_def)

subsection \<open>The state of the link\<close>

definition link_inv :: "melodi_netdev \<Rightarrow> bool" where
  "link_inv dev \<longleftrightarrow>
     (nd_carrier dev \<longleftrightarrow> nd_link_state dev = MELODI_LINK_READY) \<and>
     (nd_carrier dev \<longleftrightarrow> dev_transport_ready (nd_melodi dev) \<and> dev_identity_ready (nd_melodi dev)) \<and>
     (dev_transport_ready (nd_melodi dev) \<longrightarrow> nd_transport dev \<noteq> None) \<and>
     (nd_link_state dev = MELODI_LINK_FAILED \<longleftrightarrow> nd_link_failure dev \<noteq> MELODI_LINK_FAILURE_NONE) \<and>
     (nd_link_failure dev \<noteq> MELODI_LINK_FAILURE_NONE \<longleftrightarrow> nd_link_error dev \<noteq> None) \<and>
     (\<not> nd_carrier dev \<longrightarrow> tx_queue_stopping (nd_tx dev)) \<and>
     (nd_carrier dev \<and> nd_running dev \<longrightarrow>
        \<not> tx_queue_stopping (nd_tx dev) \<and> \<not> nd_logical_tx_stopping dev \<and> \<not> nd_queues_stopped dev)"

lemma logical_start_simps [simp]:
  "link_view (melodi_logical_start dev) = link_view dev" "nd_melodi (melodi_logical_start dev) = nd_melodi dev"
  "nd_tx (melodi_logical_start dev) = nd_tx dev" "nd_queues_stopped (melodi_logical_start dev) = nd_queues_stopped dev"
  "nd_logical_tx_stopping (melodi_logical_start dev) = False"
  by (simp_all add: melodi_logical_start_def)

lemmas logical_start_keeps [simp] = link_viewD [OF logical_start_simps(1)]

lemma link_inv_open: "link_inv dev \<Longrightarrow> link_inv (melodi_open (dev\<lparr>nd_running := True\<rparr>))"
  by (auto simp: link_inv_def melodi_open_def Let_def melodi_queue_start_def)

lemma link_inv_stop: "link_inv dev \<Longrightarrow> link_inv (melodi_stop (dev\<lparr>nd_running := False\<rparr>))"
  by (auto simp: link_inv_def melodi_stop_def Let_def queue_stops)

lemma link_inv_failed: "link_inv dev \<Longrightarrow> link_inv (melodi_link_failed failure error dev)"
  by (auto simp: link_inv_def melodi_link_failed_def Let_def queue_stops)

lemma link_inv_configuring: "link_inv dev \<Longrightarrow> link_inv (link_configuring dev)"
  by (auto simp: link_inv_def link_configuring_def Let_def queue_stops)

lemma link_inv_configure: "link_inv dev \<Longrightarrow> link_inv (fst (melodi_transport_configure dev))"
  by (simp add: melodi_transport_configure_def link_inv_configuring link_inv_failed split: option.splits sum.splits)

lemma link_inv_ready:
  "link_inv dev \<Longrightarrow> ready \<longrightarrow> nd_transport dev \<noteq> None \<Longrightarrow> link_inv (melodi_link_ready ready locator dev)"
  by (auto simp: link_inv_def melodi_link_ready_def Let_def queue_stops melodi_queue_start_def)

lemma link_inv_attach: "link_inv dev \<Longrightarrow> link_inv (fst (melodi_link_attach memory ops dev))"
  by (auto simp: link_inv_def melodi_link_attach_def transport_attach_def)

lemma link_inv_detach: "link_inv dev \<Longrightarrow> link_inv (melodi_detach_transport dev)"
  by (auto simp: link_inv_def melodi_detach_transport_def Let_def queue_stops)

lemma link_inv_namespace: "link_inv dev \<Longrightarrow> link_inv (melodi_namespace_reset dev)"
  by (auto simp: link_inv_def melodi_namespace_reset_def Let_def queue_stops melodi_queue_start_def)

lemma link_inv_xmit: "link_inv dev \<Longrightarrow> link_inv (melodi_start_xmit skb dev)"
  by (auto simp: link_inv_def melodi_start_xmit_def queue_drop_def)

lemma identity_store_ready [simp]:
  "dev_identity_ready (identity_store node generation previous replacing located m)"
  "dev_transport_ready (identity_store node generation previous replacing located m) = dev_transport_ready m"
  "dev_node_id (identity_store node generation previous replacing located m) = node"
  "dev_mesh_domain (identity_store node generation previous replacing located m) = dev_mesh_domain m"
  "dev_peers (identity_store node generation previous replacing located m) = replicate 64 zero_peer"
  "dev_local_native_locator (identity_store node generation previous replacing located m) = fst located"
  "dev_local_collision_round (identity_store node generation previous replacing located m) = snd located"
  by (simp_all add: identity_store_def Let_def split: prod.splits)


lemma identity_replace_simps [simp]:
  "\<not> nd_carrier (identity_replace node key generation previous located dev)"
  "nd_link_state (identity_replace node key generation previous located dev) = nd_link_state dev"
  "nd_link_failure (identity_replace node key generation previous located dev) = nd_link_failure dev"
  "nd_link_error (identity_replace node key generation previous located dev) = nd_link_error dev"
  "nd_transport (identity_replace node key generation previous located dev) = nd_transport dev"
  "nd_running (identity_replace node key generation previous located dev) = nd_running dev"
  "tx_queue_stopping (nd_tx (identity_replace node key generation previous located dev))"
  "dev_identity_ready (nd_melodi (identity_replace node key generation previous located dev))"
  "dev_transport_ready (nd_melodi (identity_replace node key generation previous located dev)) = dev_transport_ready (nd_melodi dev)"
  by (simp_all add: identity_replace_def Let_def queue_stops)

lemma link_inv_replace:
  "link_inv dev \<Longrightarrow> configure \<longrightarrow> nd_transport dev \<noteq> None \<Longrightarrow>
     link_inv (identity_resume configure (identity_replace node key generation previous located dev))"
  by (auto simp: link_inv_def identity_resume_def Let_def melodi_queue_start_def)

lemma link_inv_set_identity:
  assumes "link_inv dev"
  shows "link_inv (fst (melodi_device_set_identity check node key generation previous dev))"
  using assms by (auto simp: melodi_device_set_identity_def Let_def intro!: link_inv_configure link_inv_replace
    split: sum.splits option.splits)


end
