(* ===== verification/Discovery.thy ===== *)
theory Discovery
  imports Link Wire
begin

unbundle bit_operations_syntax

text \<open>
  Discovery of peers, from \<open>src/kernel/core/discovery.c\<close>: announcements and probes, and the handling
  of the frames hello, conflict, challenge, response and control. Three frames set up a session:
  a node announces itself with a hello, the node with the larger identity answers with a challenge,
  the first node answers with a response; each side then holds two keys, one for each direction.

  The kernel's Curve25519, keyed BLAKE2s and random numbers, the clocks and the vendored Ed25519 are
  the record \<open>discovery_env\<close>, the answers a handler gets while it runs. \<open>ev_generate_public\<close> returns
  the public key, or on failure what the array then holds. The local buffer of a frame is
  overwritten completely by the encoders and starts as zeros. Wiping of locals has no counterpart.
\<close>

abbreviation (input) MELODI_PEER_EXPIRY_MAX_SECONDS :: u32 where "MELODI_PEER_EXPIRY_MAX_SECONDS \<equiv> 300"
abbreviation (input) MELODI_CONTROL_EXPIRY_SECONDS :: u32 where "MELODI_CONTROL_EXPIRY_SECONDS \<equiv> 30"

record discovery_env =
  ev_memory :: bool
  ev_net :: nat
  ev_now_ms :: u64
  ev_clock_ms :: "nat \<Rightarrow> u64"
  ev_jiffies :: u64
  ev_ktime_ns :: u64
  ev_msecs_to_jiffies :: "u32 \<Rightarrow> u64"
  ev_random_u64 :: u64
  ev_random_bytes :: bytes
  ev_secret :: bytes
  ev_generate_public :: "bytes \<Rightarrow> bytes + bytes"
  ev_curve25519 :: "bytes \<Rightarrow> bytes \<Rightarrow> bytes option"
  ev_blake2s :: "bytes \<Rightarrow> bytes \<Rightarrow> bytes"
  ev_key_pair :: "bytes \<Rightarrow> bytes \<times> bytes"
  ev_sign :: "bytes \<Rightarrow> bytes \<Rightarrow> bytes"
  ev_check :: "bytes \<Rightarrow> bytes \<Rightarrow> bytes \<Rightarrow> int"
  ev_secret0 :: bytes

subsection \<open>Session keys\<close>

definition melodi_hash_u32 :: "u32 \<Rightarrow> bytes" where
  "melodi_hash_u32 value = [ucast (drop_bit 24 value), ucast (drop_bit 16 value), ucast (drop_bit 8 value), ucast value]"

text \<open>The octets of \<open>melodi-session-v1\<close>.\<close>

definition session_label :: bytes where
  "session_label = [109, 101, 108, 111, 100, 105, 45, 115, 101, 115, 115, 105, 111, 110, 45, 118, 49]"

definition melodi_session_key ::
  "(bytes \<Rightarrow> bytes \<Rightarrow> bytes) \<Rightarrow> bytes \<Rightarrow> bytes \<Rightarrow> bytes \<Rightarrow> bytes \<Rightarrow> u32 \<Rightarrow> u32 \<Rightarrow> u32 \<Rightarrow> u32 \<Rightarrow> u32 \<Rightarrow> u32 \<Rightarrow>
     bytes \<Rightarrow> bytes \<Rightarrow> bytes \<Rightarrow> bytes \<Rightarrow> u8 \<Rightarrow> bytes" where
  "melodi_session_key keyed_hash shared domain initiator responder initiator_native_locator responder_native_locator
     initiator_round responder_round initiator_generation responder_generation initiator_ephemeral responder_ephemeral
     initiator_nonce responder_nonce direction =
     keyed_hash shared (session_label @ domain @ initiator @ responder @
       melodi_hash_u32 initiator_native_locator @ melodi_hash_u32 responder_native_locator @
       melodi_hash_u32 initiator_round @ melodi_hash_u32 responder_round @
       melodi_hash_u32 initiator_generation @ melodi_hash_u32 responder_generation @
       initiator_ephemeral @ responder_ephemeral @ initiator_nonce @ responder_nonce @ [direction])"

subsection \<open>Sending\<close>

definition melodi_counter_next_locked :: "melodi_device \<Rightarrow> melodi_device \<times> u64 res" where
  "melodi_counter_next_locked melodi =
     (if dev_transmit_counter melodi = QUEUE_U64_MAX then (melodi, Inl EOVERFLOW)
      else (melodi\<lparr>dev_transmit_counter := dev_transmit_counter melodi + 1\<rparr>, Inr (dev_transmit_counter melodi + 1)))"

definition frame_route :: "melodi_device \<Rightarrow> u32 \<Rightarrow> u32 \<Rightarrow> melodi_tx_meta res" where
  "frame_route melodi source_native_locator destination_native_locator =
     (if \<not> dev_transport_ready melodi \<or> source_native_locator \<noteq> dev_local_native_locator melodi then Inl ENETDOWN
      else
        let metadata = zero_tx_meta\<lparr>tm_source_locator := dev_local_link_locator melodi\<rparr>
        in if destination_native_locator = MELODI_NATIVE_LOCATOR_BROADCAST
           then Inr (metadata\<lparr>tm_destination_locator := MELODI_LINK_LOCATOR_BROADCAST\<rparr>)
           else case find_slot (\<lambda>peer. pe_authenticated peer \<and> pe_native_locator peer = destination_native_locator)
                       (dev_peers melodi) of
                  None \<Rightarrow> Inl EHOSTUNREACH
                | Some index \<Rightarrow> Inr (metadata\<lparr>tm_destination_locator := pe_link_locator (dev_peers melodi ! index)\<rparr>))"

definition melodi_send_frame ::
  "discovery_env \<Rightarrow> melodi_netdev \<Rightarrow> bytes \<Rightarrow> u32 \<Rightarrow> u32 \<Rightarrow> melodi_netdev \<times> unit res" where
  "melodi_send_frame env dev frame source_native_locator destination_native_locator =
     (case frame_route (nd_melodi dev) source_native_locator destination_native_locator of
        Inl error \<Rightarrow> (dev, Inl error)
      | Inr metadata \<Rightarrow>
         if \<not> ev_memory env then (dev, Inl ENOMEM)
         else (case melodi_core_send (ev_memory env) (nd_running dev \<and> nd_carrier dev) (ev_now_ms env) (ev_net env)
                      (nd_melodi dev) (nd_tx dev) frame metadata of
                 (tx, result) \<Rightarrow> (dev\<lparr>nd_tx := tx\<rparr>, result)))"

definition identity_sign :: "discovery_env \<Rightarrow> melodi_netdev \<Rightarrow> bytes \<Rightarrow> bytes res" where
  "identity_sign env dev msg =
     melodi_identity_sign (ev_key_pair env) (ev_sign env) (ev_secret0 env) (nd_identity_key dev) msg"

definition melodi_send_auth :: "discovery_env \<Rightarrow> melodi_netdev \<Rightarrow> melodi_wire_auth \<Rightarrow> melodi_netdev \<times> unit res" where
  "melodi_send_auth env dev auth =
     (case melodi_wire_encode_auth (replicate MELODI_WIRE_AUTH_SIZE 0) (auth\<lparr>u_signature := replicate 64 0\<rparr>) of
        Inl error \<Rightarrow> (dev, Inl error)
      | Inr frame \<Rightarrow>
         (case identity_sign env dev (take MELODI_WIRE_AUTH_SIGNED_SIZE frame) of
            Inl error \<Rightarrow> (dev, Inl error)
          | Inr signature \<Rightarrow>
              melodi_send_frame env dev (poke MELODI_WIRE_AUTH_SIGNED_SIZE signature frame)
                (c_source_native_locator (u_common auth)) (c_destination_native_locator (u_common auth))))"

definition zero_common :: melodi_wire_common where
  "zero_common = \<lparr>c_version = 0, c_frame_class = 0, c_flags = 0, c_header_length = 0, c_payload_length = 0,
     c_source_native_locator = 0, c_destination_native_locator = 0, c_identity_generation = 0, c_message_id = 0,
     c_counter = 0\<rparr>"

text \<open>The section of \<open>melodi_send_challenge\<close> under the lock: it prepares the frame.\<close>

definition challenge_frame :: "melodi_device \<Rightarrow> melodi_peer \<Rightarrow> u64 \<Rightarrow> u64 \<Rightarrow> melodi_wire_auth" where
  "challenge_frame melodi peer message_id counter =
     \<lparr>u_common = zero_common\<lparr>c_frame_class := MELODI_WIRE_CHALLENGE,
        c_source_native_locator := dev_local_native_locator melodi,
        c_destination_native_locator := pe_native_locator peer,
        c_identity_generation := dev_identity_generation melodi, c_message_id := message_id, c_counter := counter\<rparr>,
      u_source_node_id = dev_node_id melodi, u_destination_node_id = pe_node_id peer,
      u_ephemeral_key = pe_ephemeral_public peer, u_challenge = pe_local_challenge peer,
      u_reply_to = pe_remote_hello_challenge peer, u_mesh_domain = dev_mesh_domain melodi,
      u_collision_round = dev_local_collision_round melodi, u_signature = replicate 64 0\<rparr>"

definition challenge_locked ::
  "discovery_env \<Rightarrow> melodi_device \<Rightarrow> melodi_wire_hello \<Rightarrow> melodi_device \<times> melodi_wire_auth res" where
  "challenge_locked env melodi hello =
     (case melodi_peer_slot melodi (h_node_id hello) of
        None \<Rightarrow> (melodi, Inl ENETDOWN)
      | Some index \<Rightarrow>
         if \<not> pe_authenticated (dev_peers melodi ! index) \<or> \<not> dev_identity_ready melodi \<or> \<not> dev_transport_ready melodi
         then (melodi, Inl ENETDOWN)
         else
          (let melodi = peer_update index (\<lambda>peer. peer\<lparr>pe_ephemeral_private := ev_secret env\<rparr>) melodi
           in case ev_generate_public env (ev_secret env) of
                Inl contents \<Rightarrow>
                  (peer_update index (\<lambda>peer. peer\<lparr>pe_ephemeral_public := contents\<rparr>) melodi, Inl EKEYREJECTED)
              | Inr public \<Rightarrow>
                  (let melodi = peer_update index (\<lambda>peer. peer\<lparr>pe_ephemeral_public := public,
                         pe_local_challenge := ev_random_bytes env, pe_remote_hello_challenge := h_challenge hello,
                         pe_handshake_pending := True\<rparr>) melodi
                   in case melodi_counter_next_locked melodi of
                        (melodi, Inl error) \<Rightarrow> (melodi, Inl error)
                      | (melodi, Inr counter) \<Rightarrow>
                          (melodi, Inr (challenge_frame melodi (dev_peers melodi ! index) (ev_random_u64 env) counter)))))"

definition melodi_send_challenge ::
  "discovery_env \<Rightarrow> melodi_netdev \<Rightarrow> melodi_wire_hello \<Rightarrow> melodi_netdev \<times> unit res" where
  "melodi_send_challenge env dev hello =
     (case challenge_locked env (nd_melodi dev) hello of
        (melodi, Inl error) \<Rightarrow> (dev\<lparr>nd_melodi := melodi\<rparr>, Inl error)
      | (melodi, Inr auth) \<Rightarrow> melodi_send_auth env (dev\<lparr>nd_melodi := melodi\<rparr>) auth)"

text \<open>The section of \<open>melodi_discovery_announce\<close> under the lock.\<close>

definition hello_frame :: "melodi_device \<Rightarrow> u64 \<Rightarrow> u64 \<Rightarrow> bytes \<Rightarrow> melodi_wire_hello" where
  "hello_frame melodi message_id counter challenge =
     \<lparr>h_common = zero_common\<lparr>c_flags := MELODI_WIRE_F_BROADCAST,
        c_source_native_locator := dev_local_native_locator melodi,
        c_destination_native_locator := MELODI_NATIVE_LOCATOR_BROADCAST,
        c_identity_generation := dev_identity_generation melodi, c_message_id := message_id, c_counter := counter\<rparr>,
      h_node_id = dev_node_id melodi, h_mesh_domain = dev_mesh_domain melodi,
      h_collision_round = dev_local_collision_round melodi, h_capabilities = 0, h_expiry_seconds = 300,
      h_challenge = challenge, h_signature = replicate 64 0\<rparr>"

definition announce_locked :: "discovery_env \<Rightarrow> melodi_device \<Rightarrow> melodi_device \<times> melodi_wire_hello res" where
  "announce_locked env melodi =
     (if \<not> dev_identity_ready melodi \<or> \<not> dev_transport_ready melodi then (melodi, Inl ENETDOWN)
      else case melodi_counter_next_locked melodi of
        (melodi, Inl error) \<Rightarrow> (melodi, Inl error)
      | (melodi, Inr counter) \<Rightarrow>
          (melodi\<lparr>dev_previous_hello_challenge := dev_last_hello_challenge melodi,
             dev_last_hello_challenge := ev_random_bytes env\<rparr>,
           Inr (hello_frame melodi (ev_random_u64 env) counter (ev_random_bytes env))))"

definition melodi_discovery_announce :: "discovery_env \<Rightarrow> melodi_netdev \<Rightarrow> melodi_netdev \<times> unit res" where
  "melodi_discovery_announce env dev =
     (case announce_locked env (nd_melodi dev) of
        (melodi, Inl error) \<Rightarrow> (dev\<lparr>nd_melodi := melodi\<rparr>, Inl error)
      | (melodi, Inr hello) \<Rightarrow>
         (let round = h_collision_round hello;
              conflict = dev_conflict_pending (nd_melodi dev);
              dev = dev\<lparr>nd_melodi := melodi\<rparr>
          in case (if conflict then melodi_wire_encode_conflict (replicate MELODI_WIRE_HELLO_SIZE 0) hello
                   else melodi_wire_encode_hello (replicate MELODI_WIRE_HELLO_SIZE 0) hello) of
               Inl error \<Rightarrow> (dev, Inl error)
             | Inr frame \<Rightarrow>
                (case identity_sign env dev (take MELODI_WIRE_HELLO_SIGNED_SIZE frame) of
                   Inl error \<Rightarrow> (dev, Inl error)
                 | Inr signature \<Rightarrow>
                    (case melodi_send_frame env dev (poke MELODI_WIRE_HELLO_SIGNED_SIZE signature frame)
                            (c_source_native_locator (h_common hello)) MELODI_NATIVE_LOCATOR_BROADCAST of
                       (dev, Inl error) \<Rightarrow> (dev, Inl error)
                     | (dev, Inr _) \<Rightarrow>
                        (if conflict
                         then netdev_lock (\<lambda>melodi. if dev_local_collision_round melodi = round
                                then melodi\<lparr>dev_conflict_pending := False\<rparr> else melodi) dev
                         else dev, Inr ())))))"

definition probe_locked :: "discovery_env \<Rightarrow> melodi_device \<Rightarrow> melodi_device \<times> melodi_wire_control res" where
  "probe_locked env melodi =
     (if \<not> dev_identity_ready melodi \<or> \<not> dev_transport_ready melodi then (melodi, Inl ENETDOWN)
      else case melodi_counter_next_locked melodi of
        (melodi, Inl error) \<Rightarrow> (melodi, Inl error)
      | (melodi, Inr counter) \<Rightarrow>
          (melodi, Inr \<lparr>t_common = zero_common\<lparr>c_frame_class := MELODI_WIRE_CONTROL, c_flags := MELODI_WIRE_F_BROADCAST,
             c_source_native_locator := dev_local_native_locator melodi,
             c_destination_native_locator := MELODI_NATIVE_LOCATOR_BROADCAST,
             c_identity_generation := dev_identity_generation melodi, c_message_id := ev_random_u64 env,
             c_counter := counter\<rparr>,
           t_node_id = dev_node_id melodi, t_mesh_domain = dev_mesh_domain melodi,
           t_collision_round = dev_local_collision_round melodi, t_opcode = MELODI_CONTROL_PROBE,
           t_data = replicate 32 0, t_signature = replicate 64 0\<rparr>))"

definition melodi_discovery_probe :: "discovery_env \<Rightarrow> melodi_netdev \<Rightarrow> melodi_netdev \<times> unit res" where
  "melodi_discovery_probe env dev =
     (case probe_locked env (nd_melodi dev) of
        (melodi, Inl error) \<Rightarrow> (dev\<lparr>nd_melodi := melodi\<rparr>, Inl error)
      | (melodi, Inr control) \<Rightarrow>
         (let dev = dev\<lparr>nd_melodi := melodi\<rparr>
          in case melodi_wire_encode_control (replicate MELODI_WIRE_CONTROL_SIZE 0) control of
               Inl error \<Rightarrow> (dev, Inl error)
             | Inr frame \<Rightarrow>
                (case identity_sign env dev (take MELODI_WIRE_CONTROL_SIGNED_SIZE frame) of
                   Inl error \<Rightarrow> (dev, Inl error)
                 | Inr signature \<Rightarrow>
                     melodi_send_frame env dev (poke MELODI_WIRE_CONTROL_SIGNED_SIZE signature frame)
                       (c_source_native_locator (t_common control)) MELODI_NATIVE_LOCATOR_BROADCAST)))"

text \<open>The announce work repeats while no session exists; it is scheduled again after the period.\<close>

definition melodi_announce_work :: "discovery_env \<Rightarrow> melodi_netdev \<Rightarrow> melodi_netdev" where
  "melodi_announce_work env dev =
     (if \<not> nd_running dev \<or> \<not> nd_carrier dev then dev
      else if filter pe_session_ready (dev_peers (nd_melodi dev)) \<noteq> [] then dev
      else fst (melodi_discovery_announce env dev))"

subsection \<open>Receiving\<close>

definition melodi_responder_locked :: "melodi_device \<Rightarrow> bytes \<Rightarrow> bool" where
  "melodi_responder_locked melodi peer \<longleftrightarrow> memcmp (dev_node_id melodi) peer MELODI_NODE_ID_SIZE > 0"

text \<open>\<open>melodi_queue_state_changed\<close> and then \<open>melodi_data_state_changed\<close>.\<close>

definition state_changed :: "discovery_env \<Rightarrow> melodi_netdev \<Rightarrow> melodi_netdev" where
  "state_changed env dev =
     (case melodi_queue_state_changed (nd_melodi dev, nd_tx dev) of
        ((melodi, tx), notices) \<Rightarrow>
          (case melodi_data_state_changed (ev_clock_ms env) 0 melodi of
             (melodi, errors) \<Rightarrow>
               tell (notices_of notices @ map Delivery_Error errors) (dev\<lparr>nd_melodi := melodi, nd_tx := tx\<rparr>)))"

definition melodi_peer_expiry_work :: "discovery_env \<Rightarrow> (nat \<Rightarrow> u64) \<Rightarrow> melodi_netdev \<Rightarrow> melodi_netdev" where
  "melodi_peer_expiry_work env jiffies dev = state_changed env (netdev_lock (peer_expiry_locked jiffies) dev)"

text \<open>What both handlers of claims do after the device has chosen another locator.\<close>

definition locator_changed :: "melodi_netdev \<Rightarrow> melodi_netdev \<times> unit res" where
  "locator_changed dev =
     melodi_transport_configure (melodi_data_fail_pending EADDRINUSE (melodi_link_ready False 0 dev))"

text \<open>
  The section of \<open>melodi_receive_hello\<close> under the lock. The result is the five flags the rest of the
  handler uses: the peer is in conflict, the device is the responder, a session was dropped, the
  device chose another locator, the claimed locator was the locator of the device.
\<close>

record hello_outcome =
  ho_conflicted :: bool
  ho_responder :: bool
  ho_stale :: bool
  ho_local_changed :: bool
  ho_local_collision :: bool

definition hello_locked ::
  "discovery_env \<Rightarrow> melodi_device \<Rightarrow> melodi_wire_hello \<Rightarrow> melodi_rx_meta \<Rightarrow> melodi_device \<times> hello_outcome res" where
  "hello_locked env melodi hello meta =
     (if h_mesh_domain hello \<noteq> dev_mesh_domain melodi then (melodi, Inl EXDEV)
      else case melodi_claim_locked melodi (h_node_id hello) (c_source_native_locator (h_common hello))
                  (rm_source_locator meta) (h_collision_round hello) (c_identity_generation (h_common hello))
                  (c_counter (h_common hello)) True of
        (melodi, Inl error) \<Rightarrow> (melodi, Inl error)
      | (melodi, Inr (index, local_changed, local_collision)) \<Rightarrow>
         (let melodi = peer_update index (\<lambda>peer. melodi_peer_observe_locked (ev_ktime_ns env)
                (peer\<lparr>pe_capabilities := h_capabilities hello,
                  pe_expires := ev_jiffies env + ev_msecs_to_jiffies env (h_expiry_seconds hello * 1000)\<rparr>) meta) melodi;
              peer = dev_peers melodi ! index;
              stale = pe_session_ready peer;
              outcome = \<lparr>ho_conflicted = pe_conflicted peer, ho_responder = melodi_responder_locked melodi (pe_node_id peer),
                ho_stale = stale, ho_local_changed = local_changed, ho_local_collision = local_collision\<rparr>
          in (if stale then melodi_peer_session_reset_locked melodi index else melodi, Inr outcome)))"

definition melodi_receive_hello ::
  "discovery_env \<Rightarrow> melodi_netdev \<Rightarrow> bytes \<Rightarrow> bool \<Rightarrow> melodi_rx_meta \<Rightarrow> melodi_netdev \<times> unit res" where
  "melodi_receive_hello env dev frame conflict meta =
     (case (if conflict then melodi_wire_decode_conflict frame else melodi_wire_decode_hello frame) of
        Inl error \<Rightarrow> (dev, Inl error)
      | Inr hello \<Rightarrow>
         if h_expiry_seconds hello = 0 \<or> h_expiry_seconds hello > MELODI_PEER_EXPIRY_MAX_SECONDS then (dev, Inl EPROTO)
         else (case melodi_identity_verify (ev_check env) (h_node_id hello) (take MELODI_WIRE_HELLO_SIGNED_SIZE frame)
                      (h_signature hello) of
           Inl error \<Rightarrow> (dev, Inl error)
         | Inr _ \<Rightarrow>
            (case hello_locked env (nd_melodi dev) hello meta of
               (melodi, Inl error) \<Rightarrow> (dev\<lparr>nd_melodi := melodi\<rparr>, Inl error)
             | (melodi, Inr outcome) \<Rightarrow>
                (let dev = dev\<lparr>nd_melodi := melodi\<rparr>;
                     dev = (if ho_stale outcome then state_changed env dev else dev)
                 in if ho_local_changed outcome then locator_changed dev
                    else if ho_conflicted outcome
                    then (if ho_local_collision outcome \<and> nd_running dev \<and> nd_carrier dev
                          then melodi_discovery_announce env dev else (dev, Inr ()))
                    else if \<not> nd_running dev \<or> \<not> nd_carrier dev then (dev, Inr ())
                    else if ho_responder outcome then melodi_send_challenge env dev hello
                    else (dev, Inr ())))))"

definition melodi_auth_validate ::
  "melodi_device \<Rightarrow> melodi_wire_auth \<Rightarrow> melodi_rx_meta \<Rightarrow> melodi_device \<times> nat res" where
  "melodi_auth_validate melodi auth meta =
     (if u_mesh_domain auth \<noteq> dev_mesh_domain melodi \<or> u_destination_node_id auth \<noteq> dev_node_id melodi \<or>
         c_destination_native_locator (u_common auth) \<noteq> dev_local_native_locator melodi \<or>
         rm_destination_locator meta \<noteq> dev_local_link_locator melodi
      then (melodi, Inl EPROTO)
      else case melodi_peer_by_node melodi (u_source_node_id auth) of
        None \<Rightarrow> (melodi, Inl ENOENT)
      | Some slot \<Rightarrow>
         if pe_link_locator (dev_peers melodi ! slot) \<noteq> rm_source_locator meta then (melodi, Inl EHOSTUNREACH)
         else (case melodi_claim_locked melodi (u_source_node_id auth) (c_source_native_locator (u_common auth))
                      (rm_source_locator meta) (u_collision_round auth) (c_identity_generation (u_common auth))
                      (c_counter (u_common auth)) False of
                 (melodi, Inl error) \<Rightarrow> (melodi, Inl error)
               | (melodi, Inr (index, _, _)) \<Rightarrow> (melodi, Inr index)))"

text \<open>The frame that answers a challenge.\<close>

definition response_frame ::
  "melodi_device \<Rightarrow> melodi_peer \<Rightarrow> melodi_wire_auth \<Rightarrow> bytes \<Rightarrow> bytes \<Rightarrow> u64 \<Rightarrow> melodi_wire_auth" where
  "response_frame melodi peer auth ephemeral_public announced counter =
     \<lparr>u_common = zero_common\<lparr>c_frame_class := MELODI_WIRE_RESPONSE,
        c_source_native_locator := dev_local_native_locator melodi,
        c_destination_native_locator := pe_native_locator peer,
        c_identity_generation := dev_identity_generation melodi, c_message_id := c_message_id (u_common auth),
        c_counter := counter\<rparr>,
      u_source_node_id = dev_node_id melodi, u_destination_node_id = pe_node_id peer,
      u_ephemeral_key = ephemeral_public, u_challenge = announced, u_reply_to = u_challenge auth,
      u_mesh_domain = dev_mesh_domain melodi, u_collision_round = dev_local_collision_round melodi,
      u_signature = replicate 64 0\<rparr>"

text \<open>The keys of the initiator, that is of the node that sent the hello.\<close>

definition initiator_session ::
  "discovery_env \<Rightarrow> melodi_device \<Rightarrow> bytes \<Rightarrow> bytes \<Rightarrow> bytes \<Rightarrow> melodi_wire_auth \<Rightarrow> melodi_peer \<Rightarrow> melodi_peer" where
  "initiator_session env melodi shared ephemeral_public announced auth peer =
     (let key = melodi_session_key (ev_blake2s env) shared (dev_mesh_domain melodi) (dev_node_id melodi) (pe_node_id peer)
            (dev_local_native_locator melodi) (pe_native_locator peer)
            (dev_local_collision_round melodi) (pe_collision_round peer)
            (dev_identity_generation melodi) (pe_generation peer)
            ephemeral_public (u_ephemeral_key auth) announced (u_challenge auth)
      in (melodi_peer_session_advance (peer\<lparr>pe_transmit_key := key 0, pe_receive_key := key 1,
            pe_receive_replay := melodi_replay_reset\<rparr>))\<lparr>pe_session_ready := True\<rparr>)"

definition challenge_answer_locked ::
  "discovery_env \<Rightarrow> melodi_device \<Rightarrow> melodi_wire_auth \<Rightarrow> melodi_rx_meta \<Rightarrow> bytes \<Rightarrow> bytes \<Rightarrow>
     melodi_device \<times> melodi_wire_auth res" where
  "challenge_answer_locked env melodi auth meta ephemeral_public shared =
     (case melodi_auth_validate melodi auth meta of
        (melodi, Inl error) \<Rightarrow> (melodi, Inl error)
      | (melodi, Inr index) \<Rightarrow>
         (let melodi = peer_update index (\<lambda>peer. melodi_peer_observe_locked (ev_ktime_ns env) peer meta) melodi
          in case (if u_reply_to auth = dev_last_hello_challenge melodi then Some (dev_last_hello_challenge melodi)
                   else if u_reply_to auth = dev_previous_hello_challenge melodi
                   then Some (dev_previous_hello_challenge melodi) else None) of
               None \<Rightarrow> (melodi, Inl EKEYREJECTED)
             | Some announced \<Rightarrow>
                (let melodi = melodi_data_peer_reset_locked melodi (pe_node_id (dev_peers melodi ! index));
                     melodi = peer_update index (initiator_session env melodi shared ephemeral_public announced auth) melodi
                 in case melodi_counter_next_locked melodi of
                      (melodi, Inl error) \<Rightarrow> (melodi, Inl error)
                    | (melodi, Inr counter) \<Rightarrow>
                        (melodi, Inr (response_frame melodi (dev_peers melodi ! index) auth ephemeral_public announced counter)))))"

definition melodi_receive_challenge ::
  "discovery_env \<Rightarrow> melodi_netdev \<Rightarrow> bytes \<Rightarrow> melodi_rx_meta \<Rightarrow> melodi_netdev \<times> unit res" where
  "melodi_receive_challenge env dev frame meta =
     (case melodi_wire_decode_auth frame of
        Inl error \<Rightarrow> (dev, Inl error)
      | Inr auth \<Rightarrow>
         if c_frame_class (u_common auth) \<noteq> MELODI_WIRE_CHALLENGE then (dev, Inl EPROTO)
         else (case melodi_identity_verify (ev_check env) (u_source_node_id auth)
                      (take MELODI_WIRE_AUTH_SIGNED_SIZE frame) (u_signature auth) of
           Inl error \<Rightarrow> (dev, Inl error)
         | Inr _ \<Rightarrow>
            (case ev_generate_public env (ev_secret env) of
               Inl _ \<Rightarrow> (dev, Inl EKEYREJECTED)
             | Inr ephemeral_public \<Rightarrow>
                (case ev_curve25519 env (ev_secret env) (u_ephemeral_key auth) of
                   None \<Rightarrow> (dev, Inl EKEYREJECTED)
                 | Some shared \<Rightarrow>
                    (case challenge_answer_locked env (nd_melodi dev) auth meta ephemeral_public shared of
                       (melodi, Inl error) \<Rightarrow> (dev\<lparr>nd_melodi := melodi\<rparr>, Inl error)
                     | (melodi, Inr response) \<Rightarrow> melodi_send_auth env (dev\<lparr>nd_melodi := melodi\<rparr>) response)))))"

text \<open>The keys of the responder, that is of the node that sent the challenge.\<close>

definition responder_session ::
  "discovery_env \<Rightarrow> melodi_device \<Rightarrow> bytes \<Rightarrow> melodi_wire_auth \<Rightarrow> melodi_peer \<Rightarrow> melodi_peer" where
  "responder_session env melodi shared auth peer =
     (let key = melodi_session_key (ev_blake2s env) shared (dev_mesh_domain melodi) (pe_node_id peer) (dev_node_id melodi)
            (pe_native_locator peer) (dev_local_native_locator melodi)
            (pe_collision_round peer) (dev_local_collision_round melodi)
            (pe_generation peer) (dev_identity_generation melodi)
            (u_ephemeral_key auth) (pe_ephemeral_public peer)
            (pe_remote_hello_challenge peer) (pe_local_challenge peer)
      in (melodi_peer_session_advance (peer\<lparr>pe_receive_key := key 0, pe_transmit_key := key 1,
            pe_receive_replay := melodi_replay_reset\<rparr>))
           \<lparr>pe_session_ready := True, pe_handshake_pending := False, pe_ephemeral_private := replicate 32 0\<rparr>)"

definition response_locked ::
  "discovery_env \<Rightarrow> melodi_device \<Rightarrow> melodi_wire_auth \<Rightarrow> melodi_rx_meta \<Rightarrow> melodi_device \<times> unit res" where
  "response_locked env melodi auth meta =
     (case melodi_peer_slot melodi (u_source_node_id auth) of
        None \<Rightarrow> (melodi, Inl EKEYREJECTED)
      | Some slot \<Rightarrow>
         if \<not> pe_handshake_pending (dev_peers melodi ! slot) \<or>
            u_challenge auth \<noteq> pe_remote_hello_challenge (dev_peers melodi ! slot) \<or>
            u_reply_to auth \<noteq> pe_local_challenge (dev_peers melodi ! slot)
         then (melodi, Inl EKEYREJECTED)
         else (case melodi_auth_validate melodi auth meta of
           (melodi, Inl error) \<Rightarrow> (melodi, Inl error)
         | (melodi, Inr index) \<Rightarrow>
            (let melodi = peer_update index (\<lambda>peer. melodi_peer_observe_locked (ev_ktime_ns env) peer meta) melodi
             in case ev_curve25519 env (pe_ephemeral_private (dev_peers melodi ! index)) (u_ephemeral_key auth) of
                  None \<Rightarrow> (melodi, Inl EKEYREJECTED)
                | Some shared \<Rightarrow>
                   (let melodi = melodi_data_peer_reset_locked melodi (pe_node_id (dev_peers melodi ! index))
                    in (peer_update index (responder_session env melodi shared auth) melodi, Inr ())))))"

definition melodi_receive_response ::
  "discovery_env \<Rightarrow> melodi_netdev \<Rightarrow> bytes \<Rightarrow> melodi_rx_meta \<Rightarrow> melodi_netdev \<times> unit res" where
  "melodi_receive_response env dev frame meta =
     (case melodi_wire_decode_auth frame of
        Inl error \<Rightarrow> (dev, Inl error)
      | Inr auth \<Rightarrow>
         if c_frame_class (u_common auth) \<noteq> MELODI_WIRE_RESPONSE then (dev, Inl EPROTO)
         else (case melodi_identity_verify (ev_check env) (u_source_node_id auth)
                      (take MELODI_WIRE_AUTH_SIGNED_SIZE frame) (u_signature auth) of
           Inl error \<Rightarrow> (dev, Inl error)
         | Inr _ \<Rightarrow>
            (case response_locked env (nd_melodi dev) auth meta of
               (melodi, result) \<Rightarrow> (dev\<lparr>nd_melodi := melodi\<rparr>, result))))"

definition control_locked ::
  "discovery_env \<Rightarrow> melodi_device \<Rightarrow> melodi_wire_control \<Rightarrow> melodi_rx_meta \<Rightarrow> melodi_device \<times> bool res" where
  "control_locked env melodi control meta =
     (if t_mesh_domain control \<noteq> dev_mesh_domain melodi then (melodi, Inl EXDEV)
      else case melodi_claim_locked melodi (t_node_id control) (c_source_native_locator (t_common control))
                  (rm_source_locator meta) (t_collision_round control) (c_identity_generation (t_common control))
                  (c_counter (t_common control)) True of
        (melodi, Inl error) \<Rightarrow> (melodi, Inl error)
      | (melodi, Inr (index, local_changed, _)) \<Rightarrow>
         (let expires = ev_jiffies env + ev_msecs_to_jiffies env (MELODI_CONTROL_EXPIRY_SECONDS * 1000)
          in (peer_update index (\<lambda>peer. melodi_peer_observe_locked (ev_ktime_ns env)
                (if pe_expires peer = 0 \<or> time_before (pe_expires peer) expires
                 then peer\<lparr>pe_expires := expires\<rparr> else peer) meta) melodi,
              Inr local_changed)))"

definition melodi_receive_control ::
  "discovery_env \<Rightarrow> melodi_netdev \<Rightarrow> bytes \<Rightarrow> melodi_rx_meta \<Rightarrow> melodi_netdev \<times> unit res" where
  "melodi_receive_control env dev frame meta =
     (case melodi_wire_decode_control frame of
        Inl error \<Rightarrow> (dev, Inl error)
      | Inr control \<Rightarrow>
         if t_opcode control \<noteq> MELODI_CONTROL_PROBE then (dev, Inl EPROTO)
         else (case melodi_identity_verify (ev_check env) (t_node_id control)
                      (take MELODI_WIRE_CONTROL_SIGNED_SIZE frame) (t_signature control) of
           Inl error \<Rightarrow> (dev, Inl error)
         | Inr _ \<Rightarrow>
            (case control_locked env (nd_melodi dev) control meta of
               (melodi, Inl error) \<Rightarrow> (dev\<lparr>nd_melodi := melodi\<rparr>, Inl error)
             | (melodi, Inr local_changed) \<Rightarrow>
                (let dev = dev\<lparr>nd_melodi := melodi\<rparr>
                 in if local_changed then locator_changed dev
                    else if nd_running dev \<and> nd_carrier dev then melodi_discovery_announce env dev
                    else (dev, Inr ())))))"

definition melodi_discovery_receive ::
  "discovery_env \<Rightarrow> melodi_netdev \<Rightarrow> bytes \<Rightarrow> melodi_rx_meta \<Rightarrow> melodi_netdev \<times> unit res" where
  "melodi_discovery_receive env dev frame meta =
     (case melodi_wire_decode_common frame of
        Inl error \<Rightarrow> (dev, Inl error)
      | Inr common \<Rightarrow>
         (let handled =
            (if c_frame_class common = MELODI_WIRE_HELLO then Some (melodi_receive_hello env dev frame False meta)
             else if c_frame_class common = MELODI_WIRE_CONFLICT then Some (melodi_receive_hello env dev frame True meta)
             else if c_frame_class common = MELODI_WIRE_CHALLENGE then Some (melodi_receive_challenge env dev frame meta)
             else if c_frame_class common = MELODI_WIRE_RESPONSE then Some (melodi_receive_response env dev frame meta)
             else if c_frame_class common = MELODI_WIRE_CONTROL then Some (melodi_receive_control env dev frame meta)
             else None)
          in case handled of
               None \<Rightarrow> (dev, Inl EPROTO)
             | Some (dev, result) \<Rightarrow> (state_changed env dev, result)))"

end
