(* ===== verification/Sessions.thy ===== *)
theory Sessions
  imports Discovery
begin

text \<open>
  Properties of devices that discover each other: the invariant of the link and of the table of
  peers over every sequence of operations, the agreement of both ends of a session on its keys, and
  what happens to the secret of a handshake that is interrupted by a claim.
\<close>

subsection \<open>What changes of state keep\<close>

lemma stripped_cancel_pending: "stripped (fst (melodi_data_cancel_pending_locked m destination mid rid)) = stripped m"
  by (simp add: melodi_data_cancel_pending_locked_def stripped_pending_clear split: option.splits)

lemma cancel_entry_stopping: "tx_queue_stopping (fst (queue_cancel_entry g e owned i s)) = tx_queue_stopping (fst s)"
  by (cases s) (simp add: queue_cancel_entry_def Let_def queue_drop_def)

lemma cancel_entries_stopping: "tx_queue_stopping (fst (fold (queue_cancel_entry g e owned) xs s)) = tx_queue_stopping (fst s)"
  by (induction xs arbitrary: s) (simp_all add: cancel_entry_stopping)

lemma cancel_group_keeps:
  "stripped (fst (fst (melodi_queue_cancel_group_locked m tx g owned error notice))) = stripped m"
  "tx_queue_stopping (snd (fst (melodi_queue_cancel_group_locked m tx g owned error notice))) = tx_queue_stopping tx"
  by (simp_all add: melodi_queue_cancel_group_locked_def Let_def case_prod_beta stripped_cancel_pending cancel_entries_stopping
      split: option.splits)

lemma queue_round_keeps:
  assumes "queue_state_round (m, tx) = Some ((m', tx'), notice)"
  shows "stripped m' = stripped m \<and> tx_queue_stopping tx' = tx_queue_stopping tx"
proof (cases "find_slot (reservation_invalid m) (tx_reservations tx)")
  case None
  then obtain i where i: "find_slot (entry_invalid m) (tx_queue tx) = Some i"
    using assms by (auto simp: queue_state_round_def split: option.splits)
  let ?c = "melodi_queue_cancel_group_locked m tx (qe_group_id (tx_queue tx ! i)) None (error_of (entry_check m (tx_queue tx ! i))) None"
  have "(m', tx') = fst ?c" using assms None i by (auto simp: queue_state_round_def Let_def case_prod_beta split: if_splits)
  then have "m' = fst (fst ?c)" "tx' = snd (fst ?c)" by (simp_all add: prod_eq_iff)
  then show ?thesis by (simp add: cancel_group_keeps)
qed (use assms in \<open>auto simp: queue_state_round_def Let_def stripped_cancel_pending queue_drop_def\<close>)

lemma queue_state_keeps:
  "stripped (fst (fst (melodi_queue_state_changed s))) = stripped (fst s) \<and>
     tx_queue_stopping (snd (fst (melodi_queue_state_changed s))) = tx_queue_stopping (snd s)"
proof (induction s rule: melodi_queue_state_changed.induct)
  case (1 s)
  show ?case
  proof (cases "queue_state_round s")
    case None
    then show ?thesis by (subst (1 2) melodi_queue_state_changed.simps) simp
  next
    case (Some r)
    obtain m' tx' notice where r: "r = ((m', tx'), notice)" by (metis prod.collapse)
    have round: "stripped m' = stripped (fst s)" "tx_queue_stopping tx' = tx_queue_stopping (snd s)"
      using queue_round_keeps [of "fst s" "snd s" m' tx' notice] Some r by simp_all
    show ?thesis
      using 1 [OF Some r [symmetric]] round
      by (subst (1 2) melodi_queue_state_changed.simps) (simp add: Some r Let_def case_prod_beta)
  qed
qed

lemma data_round_keeps: "data_state_round now m = Some (m', e) \<Longrightarrow> stripped m' = stripped m"
  by (auto simp: data_state_round_def Let_def stripped_pending_clear stripped_discovery_clear split: option.splits)

lemma data_state_keeps: "stripped (fst (melodi_data_state_changed now n m)) = stripped m"
proof (induction now n m rule: melodi_data_state_changed.induct)
  case (1 now n m)
  show ?case
  proof (cases "data_state_round (now n) m")
    case None
    then show ?thesis by (subst melodi_data_state_changed.simps) simp
  next
    case (Some r)
    obtain m' e where r: "r = (m', e)" by (cases r)
    show ?thesis
      using 1 [OF Some r [symmetric]] data_round_keeps [of "now n" m m' e] Some r
      by (subst melodi_data_state_changed.simps) (simp add: Let_def case_prod_beta)
  qed
qed

lemma state_changed_simps [simp]:
  "link_view (state_changed env dev) = link_view dev"
  "stripped (nd_melodi (state_changed env dev)) = stripped (nd_melodi dev)"
  "tx_queue_stopping (nd_tx (state_changed env dev)) = tx_queue_stopping (nd_tx dev)"
  "nd_logical_tx_stopping (state_changed env dev) = nd_logical_tx_stopping dev"
  "nd_queues_stopped (state_changed env dev) = nd_queues_stopped dev"
proof -
  let ?q = "melodi_queue_state_changed (nd_melodi dev, nd_tx dev)"
  have state: "state_changed env dev = tell (notices_of (snd ?q) @ map Delivery_Error (snd (melodi_data_state_changed (ev_clock_ms env) 0 (fst (fst ?q)))))
      (dev\<lparr>nd_melodi := fst (melodi_data_state_changed (ev_clock_ms env) 0 (fst (fst ?q))), nd_tx := snd (fst ?q)\<rparr>)"
    by (simp add: state_changed_def case_prod_beta)
  show "link_view (state_changed env dev) = link_view dev"
    "stripped (nd_melodi (state_changed env dev)) = stripped (nd_melodi dev)"
    "tx_queue_stopping (nd_tx (state_changed env dev)) = tx_queue_stopping (nd_tx dev)"
    "nd_logical_tx_stopping (state_changed env dev) = nd_logical_tx_stopping dev"
    "nd_queues_stopped (state_changed env dev) = nd_queues_stopped dev"
    using queue_state_keeps [of "(nd_melodi dev, nd_tx dev)"] by (simp_all add: state data_state_keeps)
qed

subsection \<open>The invariant of the device\<close>

text \<open>
  The table of peers is well formed, and a device with an identity has a locator that its identity
  gives it in its round.
\<close>

definition device_ok :: "melodi_device \<Rightarrow> bool" where
  "device_ok m \<longleftrightarrow> peers_wf m \<and>
     (dev_identity_ready m \<longrightarrow>
        derived (dev_mesh_domain m) (dev_node_id m) (dev_local_collision_round m) (dev_local_native_locator m))"

definition peers_view :: "melodi_device \<Rightarrow> melodi_peer list \<times> bytes \<times> bytes \<times> bool \<times> u32 \<times> u32" where
  "peers_view m = (dev_peers m, dev_node_id m, dev_mesh_domain m, dev_identity_ready m, dev_local_native_locator m,
     dev_local_collision_round m)"

lemma device_ok_view: "peers_view a = peers_view b \<Longrightarrow> device_ok a \<longleftrightarrow> device_ok b"
  by (simp add: peers_view_def device_ok_def peers_wf_def peers_core_def peer_ok_def)

lemma peers_view_stripped: "stripped a = stripped b \<Longrightarrow> peers_view a = peers_view b"
  using strippedD [of a b] by (simp add: peers_view_def)

definition ready_of :: "melodi_device \<Rightarrow> bool \<times> bool" where
  "ready_of m = (dev_identity_ready m, dev_transport_ready m)"

text \<open>A section under the lock keeps the invariant and the two flags that decide about the carrier.\<close>

definition keeps :: "melodi_device \<Rightarrow> melodi_device \<Rightarrow> bool" where
  "keeps m m' \<longleftrightarrow> device_ok m \<longrightarrow> device_ok m' \<and> ready_of m' = ready_of m"

lemma keeps_refl [simp]: "keeps m m"
  by (simp add: keeps_def)

lemma keeps_trans: "keeps a b \<Longrightarrow> keeps b c \<Longrightarrow> keeps a c"
  by (simp add: keeps_def)

lemma keeps_view: "peers_view m' = peers_view m \<Longrightarrow> dev_transport_ready m' = dev_transport_ready m \<Longrightarrow> keeps m m'"
  using device_ok_view [of m' m] by (simp add: keeps_def ready_of_def peers_view_def)

lemma keeps_stripped:
  assumes "stripped m' = stripped m"
  shows "keeps m m'"
  by (rule keeps_view [OF peers_view_stripped [OF assms] strippedD(5) [OF assms]])

lemma keeps_claim:
  assumes "melodi_claim_locked m node native link round generation counter resolve = (m', r)"
  shows "keeps m m'"
  unfolding keeps_def
proof
  assume ok: "device_ok m"
  then have wf: "peers_wf m" and core: "peers_core m" by (simp_all add: device_ok_def peers_wf_def)
  note claim = claim_wf [OF assms wf]
  have self: "dev_mesh_domain m' = dev_mesh_domain m" "dev_node_id m' = dev_node_id m" "ready_of m' = ready_of m"
    using claim(2) by (simp_all add: self_of_def ready_of_def)
  have "derived (dev_mesh_domain m) (dev_node_id m) (dev_local_collision_round m') (dev_local_native_locator m') \<or>
      address_of m' = address_of m"
    using assms core
  proof (cases rule: claim_cases)
    case (failed e i s)
    then show ?thesis using claim_store_simps(3) [OF peer_slot_cases(1) [of m node i]] by simp
  next
    case (moved i s t)
    have s: "peers_core s" "self_of s = self_of m"
      using moved claim_store_core(1) [OF core] claim_store_simps(2) [OF peer_slot_cases(1) [of m node i]] by simp_all
    have "length (dev_peers s) = 64" using s(1) by (simp add: peers_core_def)
    note reassign_result(4) [OF moved(6) this refl]
    moreover have "address_of m' = address_of t" using moved(7) by simp
    ultimately show ?thesis using self_ofD [OF s(2)] by (simp add: address_of_def)
  next
    case (stayed i s)
    then show ?thesis using claim_store_simps(3) [OF peer_slot_cases(1) [of m node i]] by simp
  qed simp
  then show "device_ok m' \<and> ready_of m' = ready_of m"
    using ok claim(1) self by (auto simp: device_ok_def ready_of_def address_of_def)
qed

lemma claim_entry:
  assumes "melodi_claim_locked m node native link round generation counter resolve = (m', Inr (i, changed, collision))"
    and "device_ok m"
  shows "melodi_peer_slot m node = Some i" "i < length (dev_peers m)" "length (dev_peers m') = length (dev_peers m)"
    and "\<exists>b. dev_peers m' ! i = (if changed then peer_session_wipe (claim_peer (dev_peers m ! i) node native link round generation counter)
      else claim_peer (dev_peers m ! i) node native link round generation counter)\<lparr>pe_conflicted := b\<rparr>"
    and "changed \<Longrightarrow> resolve" "\<not> changed \<Longrightarrow> address_of m' = address_of m"
    and "claim_valid m node native link round" "newer (known m node) generation counter"
proof -
  have core: "peers_core m" using assms(2) by (simp add: device_ok_def peers_wf_def)
  then have len: "length (dev_peers m) = 64" by (simp add: peers_core_def)
  let ?p = "claim_peer (dev_peers m ! i) node native link round generation counter"
  have *: "melodi_peer_slot m node = Some i \<and> length (dev_peers m') = 64 \<and>
      (\<exists>b. dev_peers m' ! i = (if changed then peer_session_wipe ?p else ?p)\<lparr>pe_conflicted := b\<rparr>) \<and>
      (changed \<longrightarrow> resolve) \<and> (\<not> changed \<longrightarrow> address_of m' = address_of m) \<and>
      claim_valid m node native link round \<and> newer (known m node) generation counter"
    using assms(1) core
  proof (cases rule: claim_cases)
    case (moved j s t)
    have j: "j = i" "changed" "i < 64" "melodi_peer_slot m node = Some i"
      using peer_slot_cases(1) [OF moved(2)] moved(2,8) len by simp_all
    have s: "peers_core s" "dev_peers s = (dev_peers m)[i := ?p]"
      using moved(5) j(1,3) claim_store_core(1) [OF core j(4) moved(1)] claim_store_simps(1) [of i m] len by simp_all
    then have t: "length (dev_peers t) = 64" "dev_peers t ! i = peer_session_wipe ?p"
      using reassign_core(3) [OF moved(6)] reassign_result(3) [OF moved(6) _ refl] j(3) len by (simp_all add: claim_peer_def)
    have m': "dev_peers m' ! i = (peer_session_wipe ?p)\<lparr>pe_conflicted := conflicting (dev_local_native_locator t) (dev_peers t) i\<rparr>"
      "length (dev_peers m') = 64"
      using conflicts_recompute_peers [OF t(1)] moved(7) t(2) j(3) by simp_all
    have "resolve" using moved(4) by (simp add: claim_moves_def)
    then show ?thesis using j(2,4) m' moved(1,3) by auto
  next
    case (stayed j s)
    have j: "j = i" "\<not> changed" "i < 64" "melodi_peer_slot m node = Some i"
      using peer_slot_cases(1) [OF stayed(2)] stayed(2,7) len by (simp_all split: if_splits)
    have s: "dev_peers s = (dev_peers m)[i := ?p]" "address_of s = address_of m"
      using stayed(5) j(1,3) claim_store_simps(1,3) [of i m] len by simp_all
    have m': "dev_peers m' ! i = ?p\<lparr>pe_conflicted := conflicting (dev_local_native_locator s) (dev_peers s) i\<rparr>"
      "length (dev_peers m') = 64" "address_of m' = address_of m"
      using conflicts_recompute_peers [of s] stayed(6) s j(3) len by simp_all
    then show ?thesis using j(2,4) stayed(1,3) by auto
  next
    case (refused e)
    then show ?thesis by blast
  next
    case (failed e j s)
    then show ?thesis by blast
  qed
  then show "melodi_peer_slot m node = Some i" "i < length (dev_peers m)" "length (dev_peers m') = length (dev_peers m)"
    "\<exists>b. dev_peers m' ! i = (if changed then peer_session_wipe ?p else ?p)\<lparr>pe_conflicted := b\<rparr>"
    "changed \<Longrightarrow> resolve" "\<not> changed \<Longrightarrow> address_of m' = address_of m"
    "claim_valid m node native link round" "newer (known m node) generation counter"
    using peer_slot_cases(1) [of m node i] len by simp_all
qed

lemma claim_slot:
  assumes "melodi_claim_locked m node native link round generation counter resolve = (m', Inr (i, changed, collision))" "device_ok m"
  shows "i < length (dev_peers m')" "pe_authenticated (dev_peers m' ! i)" "pe_node_id (dev_peers m' ! i) = node"
  using claim_entry(2,3,4) [OF assms] by (auto simp: claim_peer_def)

lemma keeps_update:
  assumes "i < length (dev_peers m)" "pe_authenticated (dev_peers m ! i)"
    and "claim_of (f (dev_peers m ! i)) = claim_of (dev_peers m ! i)" "pe_conflicted (f (dev_peers m ! i)) = pe_conflicted (dev_peers m ! i)"
  shows "keeps m (peer_update i f m)"
  unfolding keeps_def
proof
  assume ok: "device_ok m"
  then have "length (dev_peers m) = 64" by (simp add: device_ok_def peers_wf_def peers_core_def)
  then have "peers_wf (peer_update i f m)"
    using ok assms by (intro peers_wf_session [of m i "peer_update i f m" "f (dev_peers m ! i)"])
      (simp_all add: device_ok_def peer_update_def self_of_def)
  then show "device_ok (peer_update i f m) \<and> ready_of (peer_update i f m) = ready_of m"
    using ok by (simp add: device_ok_def ready_of_def peer_update_def)
qed

lemma keepsI: "(device_ok m \<Longrightarrow> keeps m m') \<Longrightarrow> keeps m m'"
  by (simp add: keeps_def)

lemma keeps_ok: "keeps m m' \<Longrightarrow> device_ok m \<Longrightarrow> device_ok m'"
  by (simp add: keeps_def)

lemma observe_simps [simp]:
  "claim_of (melodi_peer_observe_locked now p meta) = claim_of p"
  "pe_conflicted (melodi_peer_observe_locked now p meta) = pe_conflicted p"
  "pe_authenticated (melodi_peer_observe_locked now p meta) = pe_authenticated p"
  "pe_node_id (melodi_peer_observe_locked now p meta) = pe_node_id p"
  "pe_native_locator (melodi_peer_observe_locked now p meta) = pe_native_locator p"
  "pe_link_locator (melodi_peer_observe_locked now p meta) = pe_link_locator p"
  "pe_collision_round (melodi_peer_observe_locked now p meta) = pe_collision_round p"
  "pe_generation (melodi_peer_observe_locked now p meta) = pe_generation p"
  "pe_ephemeral_private (melodi_peer_observe_locked now p meta) = pe_ephemeral_private p"
  "pe_ephemeral_public (melodi_peer_observe_locked now p meta) = pe_ephemeral_public p"
  "pe_remote_hello_challenge (melodi_peer_observe_locked now p meta) = pe_remote_hello_challenge p"
  "pe_local_challenge (melodi_peer_observe_locked now p meta) = pe_local_challenge p"
  by (simp_all add: melodi_peer_observe_locked_def claim_of_def)

lemma keeps_observe:
  "i < length (dev_peers m) \<Longrightarrow> pe_authenticated (dev_peers m ! i) \<Longrightarrow>
     keeps m (peer_update i (\<lambda>peer. melodi_peer_observe_locked now peer meta) m)"
  by (rule keeps_update) simp_all

lemma advance_simps [simp]:
  "claim_of (melodi_peer_session_advance p) = claim_of p" "pe_conflicted (melodi_peer_session_advance p) = pe_conflicted p"
  "pe_transmit_key (melodi_peer_session_advance p) = pe_transmit_key p"
  "pe_receive_key (melodi_peer_session_advance p) = pe_receive_key p"
  by (simp_all add: melodi_peer_session_advance_def claim_of_def Let_def)

lemma session_simps [simp]:
  "claim_of (initiator_session env m shared public announced auth p) = claim_of p"
  "pe_conflicted (initiator_session env m shared public announced auth p) = pe_conflicted p"
  "claim_of (responder_session env m shared auth p) = claim_of p"
  "pe_conflicted (responder_session env m shared auth p) = pe_conflicted p"
proof -
  have "claim_of (q\<lparr>pe_session_ready := b\<rparr>) = claim_of q"
    "claim_of (q\<lparr>pe_session_ready := b, pe_handshake_pending := c, pe_ephemeral_private := d\<rparr>) = claim_of q"
    "claim_of (q\<lparr>pe_transmit_key := e, pe_receive_key := f, pe_receive_replay := g\<rparr>) = claim_of q"
    "claim_of (q\<lparr>pe_receive_key := f, pe_transmit_key := e, pe_receive_replay := g\<rparr>) = claim_of q" for q b c d e f g
    by (simp_all add: claim_of_def)
  then show "claim_of (initiator_session env m shared public announced auth p) = claim_of p"
    "pe_conflicted (initiator_session env m shared public announced auth p) = pe_conflicted p"
    "claim_of (responder_session env m shared auth p) = claim_of p"
    "pe_conflicted (responder_session env m shared auth p) = pe_conflicted p"
    by (simp_all add: initiator_session_def responder_session_def Let_def)
qed

lemma keeps_counter: "melodi_counter_next_locked m = (m', r) \<Longrightarrow> keeps m m'"
  by (rule keeps_view) (auto simp: melodi_counter_next_locked_def peers_view_def split: if_splits)

lemma keeps_peer_reset: "keeps m (melodi_data_peer_reset_locked m node)"
  by (rule keeps_stripped [OF stripped_peer_reset])

lemma keeps_session_reset:
  assumes "i < length (dev_peers m)" "pe_authenticated (dev_peers m ! i)"
  shows "keeps m (melodi_peer_session_reset_locked m i)"
proof -
  have "keeps (melodi_data_peer_reset_locked m (pe_node_id (dev_peers m ! i)))
      (peer_update i peer_session_wipe (melodi_data_peer_reset_locked m (pe_node_id (dev_peers m ! i))))"
    using assms by (intro keeps_update) simp_all
  from keeps_trans [OF keeps_peer_reset this] show ?thesis by (simp add: melodi_peer_session_reset_locked_def)
qed

lemma keeps_hello:
  assumes "hello_locked env m hello meta = (m', r)"
  shows "keeps m m'"
proof (rule keepsI)
  assume ok: "device_ok m"
  let ?claim = "melodi_claim_locked m (h_node_id hello) (c_source_native_locator (h_common hello))
    (rm_source_locator meta) (h_collision_round hello) (c_identity_generation (h_common hello)) (c_counter (h_common hello)) True"
  obtain n q where c: "?claim = (n, q)" by (cases ?claim)
  note kept = keeps_claim [OF c]
  show "keeps m m'"
  proof (cases "h_mesh_domain hello = dev_mesh_domain m")
    case True
    show ?thesis
    proof (cases q)
      case (Inl e)
      then show ?thesis using assms True c kept by (simp add: hello_locked_def)
    next
      case (Inr t)
      obtain i changed collision where t: "t = (i, changed, collision)" by (metis prod.collapse)
      note slot = claim_slot [OF c [unfolded Inr t] ok]
      let ?f = "\<lambda>peer. melodi_peer_observe_locked (ev_ktime_ns env) (peer\<lparr>pe_capabilities := h_capabilities hello,
        pe_expires := ev_jiffies env + ev_msecs_to_jiffies env (h_expiry_seconds hello * 1000)\<rparr>) meta"
      have u: "keeps n (peer_update i ?f n)" using slot by (intro keeps_update) (simp_all add: claim_of_def)
      have "keeps (peer_update i ?f n) m'"
        using assms True c Inr t slot keeps_session_reset [of i "peer_update i ?f n"]
        by (auto simp: hello_locked_def Let_def split: if_splits)
      with kept u show ?thesis by (blast intro: keeps_trans)
    qed
  qed (use assms in \<open>simp add: hello_locked_def\<close>)
qed

lemma keeps_control:
  assumes "control_locked env m control meta = (m', r)"
  shows "keeps m m'"
proof (rule keepsI)
  assume ok: "device_ok m"
  let ?claim = "melodi_claim_locked m (t_node_id control) (c_source_native_locator (t_common control))
    (rm_source_locator meta) (t_collision_round control) (c_identity_generation (t_common control)) (c_counter (t_common control)) True"
  obtain n q where c: "?claim = (n, q)" by (cases ?claim)
  note kept = keeps_claim [OF c]
  show "keeps m m'"
  proof (cases "t_mesh_domain control = dev_mesh_domain m")
    case True
    show ?thesis
    proof (cases q)
      case (Inl e)
      then show ?thesis using assms True c kept by (simp add: control_locked_def)
    next
      case (Inr t)
      obtain i changed collision where t: "t = (i, changed, collision)" by (metis prod.collapse)
      note slot = claim_slot [OF c [unfolded Inr t] ok]
      have "keeps n m'"
        using assms True c Inr t slot by (auto simp: control_locked_def Let_def claim_of_def intro!: keeps_update split: if_splits)
      with kept show ?thesis by (rule keeps_trans)
    qed
  qed (use assms in \<open>simp add: control_locked_def\<close>)
qed

lemma auth_validate_claim:
  assumes "melodi_auth_validate m auth meta = (m', Inr i)"
  shows "\<exists>changed collision. melodi_claim_locked m (u_source_node_id auth) (c_source_native_locator (u_common auth))
      (rm_source_locator meta) (u_collision_round auth) (c_identity_generation (u_common auth)) (c_counter (u_common auth)) False =
      (m', Inr (i, changed, collision))"
    and "u_mesh_domain auth = dev_mesh_domain m" "u_destination_node_id auth = dev_node_id m"
    and "c_destination_native_locator (u_common auth) = dev_local_native_locator m"
    and "melodi_peer_by_node m (u_source_node_id auth) \<noteq> None"
  using assms by (auto simp: melodi_auth_validate_def split: if_splits option.splits prod.splits sum.splits)

lemma keeps_auth: "melodi_auth_validate m auth meta = (m', r) \<Longrightarrow> keeps m m'"
  by (auto simp: melodi_auth_validate_def intro: keeps_claim split: if_splits option.splits prod.splits sum.splits)

lemma auth_slot:
  assumes "melodi_auth_validate m auth meta = (m', Inr i)" "device_ok m"
  shows "i < length (dev_peers m')" "pe_authenticated (dev_peers m' ! i)"
proof -
  obtain changed collision where "melodi_claim_locked m (u_source_node_id auth) (c_source_native_locator (u_common auth))
      (rm_source_locator meta) (u_collision_round auth) (c_identity_generation (u_common auth)) (c_counter (u_common auth)) False =
      (m', Inr (i, changed, collision))"
    using auth_validate_claim(1) [OF assms(1)] by blast
  from claim_slot(1,2) [OF this assms(2)] show "i < length (dev_peers m')" "pe_authenticated (dev_peers m' ! i)" .
qed

lemma keeps_challenge:
  assumes "challenge_locked env m hello = (m', r)"
  shows "keeps m m'"
proof (rule keepsI)
  assume "device_ok m"
  have update: "keeps m (peer_update i f (peer_update i g m))"
    if "melodi_peer_slot m node = Some i" "pe_authenticated (dev_peers m ! i)"
      "\<And>p. claim_of (f (g p)) = claim_of p" "\<And>p. pe_conflicted (f (g p)) = pe_conflicted p" for node i f g
  proof -
    have i: "i < length (dev_peers m)" by (rule peer_slot_cases(1) [OF that(1)])
    then have "peer_update i f (peer_update i g m) = peer_update i (\<lambda>p. f (g p)) m" by (simp add: peer_update_def)
    then show ?thesis using keeps_update [OF i that(2), of "\<lambda>p. f (g p)"] that(3,4) by simp
  qed
  show "keeps m m'"
  proof (cases "melodi_peer_slot m (h_node_id hello)")
    case None
    then show ?thesis using assms by (simp add: challenge_locked_def)
  next
    case (Some i)
    show ?thesis
    proof (cases "pe_authenticated (dev_peers m ! i) \<and> dev_identity_ready m \<and> dev_transport_ready m")
      case False
      then show ?thesis using assms Some by (auto simp: challenge_locked_def)
    next
      case True
      show ?thesis
      proof (cases "ev_generate_public env (ev_secret env)")
        case (Inl contents)
        then show ?thesis
          using assms Some True by (auto simp: challenge_locked_def Let_def claim_of_def intro!: update)
      next
        case (Inr public)
        let ?n = "peer_update i (\<lambda>peer. peer\<lparr>pe_ephemeral_public := public, pe_local_challenge := ev_random_bytes env,
            pe_remote_hello_challenge := h_challenge hello, pe_handshake_pending := True\<rparr>)
          (peer_update i (\<lambda>peer. peer\<lparr>pe_ephemeral_private := ev_secret env\<rparr>) m)"
        have "keeps m ?n" using Some True by (intro update) (simp_all add: claim_of_def)
        moreover have "keeps ?n m'"
          using assms Some True Inr keeps_counter [of ?n]
          by (auto simp: challenge_locked_def Let_def split: prod.splits sum.splits)
        ultimately show ?thesis by (rule keeps_trans)
      qed
    qed
  qed
qed

lemma keeps_announce: "announce_locked env m = (m', r) \<Longrightarrow> keeps m m'"
  by (rule keeps_view) (auto simp: announce_locked_def melodi_counter_next_locked_def peers_view_def split: if_splits)

lemma keeps_probe: "probe_locked env m = (m', r) \<Longrightarrow> keeps m m'"
  by (rule keeps_view) (auto simp: probe_locked_def melodi_counter_next_locked_def peers_view_def split: if_splits)

lemma keeps_answer:
  assumes "challenge_answer_locked env m auth meta public shared = (m', r)"
  shows "keeps m m'"
proof (rule keepsI)
  assume ok: "device_ok m"
  obtain n q where v: "melodi_auth_validate m auth meta = (n, q)" by (cases "melodi_auth_validate m auth meta")
  note kept = keeps_auth [OF v]
  show "keeps m m'"
  proof (cases q)
    case (Inl e)
    then show ?thesis using assms v kept by (simp add: challenge_answer_locked_def)
  next
    case (Inr i)
    note slot = auth_slot [OF v [unfolded Inr] ok]
    let ?o = "peer_update i (\<lambda>peer. melodi_peer_observe_locked (ev_ktime_ns env) peer meta) n"
    let ?d = "melodi_data_peer_reset_locked ?o (pe_node_id (dev_peers ?o ! i))"
    let ?s = "\<lambda>announced. peer_update i (initiator_session env ?d shared public announced auth) ?d"
    have o: "keeps n ?o" by (rule keeps_observe [OF slot])
    have d: "keeps ?o ?d" by (rule keeps_peer_reset)
    have s: "keeps ?d (?s announced)" for announced using slot by (intro keeps_update) simp_all
    have all: "keeps m (?s announced)" for announced
      by (rule keeps_trans [OF kept keeps_trans [OF o keeps_trans [OF d s]]])
    have "m' = ?o \<or> (\<exists>announced r. melodi_counter_next_locked (?s announced) = (m', r))"
      using assms v Inr by (auto simp: challenge_answer_locked_def Let_def split: if_splits prod.splits sum.splits)
    then show ?thesis using keeps_trans [OF kept o] keeps_trans [OF all keeps_counter] by blast
  qed
qed

lemma keeps_response:
  assumes "response_locked env m auth meta = (m', r)"
  shows "keeps m m'"
proof (rule keepsI)
  assume ok: "device_ok m"
  obtain n q where v: "melodi_auth_validate m auth meta = (n, q)" by (cases "melodi_auth_validate m auth meta")
  note kept = keeps_auth [OF v]
  show "keeps m m'"
  proof (cases q)
    case (Inl e)
    then show ?thesis using assms v kept by (auto simp: response_locked_def split: option.splits if_splits)
  next
    case (Inr i)
    note slot = auth_slot [OF v [unfolded Inr] ok]
    let ?o = "peer_update i (\<lambda>peer. melodi_peer_observe_locked (ev_ktime_ns env) peer meta) n"
    let ?d = "melodi_data_peer_reset_locked ?o (pe_node_id (dev_peers ?o ! i))"
    have o: "keeps n ?o" by (rule keeps_observe [OF slot])
    have s: "keeps ?d (peer_update i (responder_session env ?d shared auth) ?d)" for shared
      using slot by (intro keeps_update) simp_all
    have all: "keeps m (peer_update i (responder_session env ?d shared auth) ?d)" for shared
      by (rule keeps_trans [OF kept keeps_trans [OF o keeps_trans [OF keeps_peer_reset s]]])
    have "m' = m \<or> m' = ?o \<or> (\<exists>shared. m' = peer_update i (responder_session env ?d shared auth) ?d)"
      using assms v Inr by (auto simp: response_locked_def Let_def split: option.splits if_splits)
    then show ?thesis using keeps_trans [OF kept o] all by auto
  qed
qed

lemma keeps_expiry: "keeps m (peer_expiry_locked jiffies m)"
  unfolding keeps_def
proof
  assume ok: "device_ok m"
  have same: "self_of (peer_expiry_locked jiffies m) = self_of m" "address_of (peer_expiry_locked jiffies m) = address_of m"
  proof -
    have "self_of (fold (peer_expire jiffies) xs m) = self_of m \<and> address_of (fold (peer_expire jiffies) xs m) = address_of m" for xs m
      by (induction xs arbitrary: m) (simp_all add: peer_expire_def Let_def)
    then show "self_of (peer_expiry_locked jiffies m) = self_of m" "address_of (peer_expiry_locked jiffies m) = address_of m"
      by (simp_all add: peer_expiry_locked_def)
  qed
  have "peers_wf (peer_expiry_locked jiffies m)"
    using ok by (intro expiry_wf) (simp add: device_ok_def peers_wf_def)
  then show "device_ok (peer_expiry_locked jiffies m) \<and> ready_of (peer_expiry_locked jiffies m) = ready_of m"
    using ok same by (simp add: device_ok_def ready_of_def self_of_def address_of_def)
qed

subsection \<open>The invariant of the interface\<close>

lemma queue_insert_stopping: "tx_queue_stopping (fold (queue_insert ns fill) xs tx) = tx_queue_stopping tx"
  by (induction xs arbitrary: tx) (simp_all add: queue_insert_def namespace_add_def Let_def split: prod.splits option.splits)

lemma namespace_stopping:
  "tx_queue_stopping (fst (melodi_namespace_queue_get memory tx net)) = tx_queue_stopping tx"
  "tx_queue_stopping (queue_put_namespace tx ns) = tx_queue_stopping tx"
  "tx_queue_stopping (queue_open_turns locator request peer flow tx) = tx_queue_stopping tx"
  by (simp_all add: melodi_namespace_queue_get_def queue_put_namespace_def melodi_namespace_queue_put_def queue_open_turns_def
      Let_def split: option.splits)

lemma capacity_stopping:
  "tx_queue_stopping (fst (melodi_queue_capacity_locked memory tx net locator request count bytes)) = tx_queue_stopping tx"
  using namespace_stopping(1) [of memory tx net]
  by (auto simp: melodi_queue_capacity_locked_def split: prod.splits option.splits)

lemma core_send_stopping:
  "tx_queue_stopping (fst (melodi_core_send memory running now net m tx frame meta)) = tx_queue_stopping tx"
proof -
  let ?request = "zero_request\<lparr>rq_ttl_ms := MELODI_TX_CONTROL_TTL_MS, rq_service := MELODI_SERVICE_CONTROL, rq_priority := 0,
    rq_control := True\<rparr>"
  have *: "tx_queue_stopping tx' = tx_queue_stopping tx"
    if "melodi_queue_capacity_locked memory tx net (tm_destination_locator meta) ?request 1 bytes = (tx', ns, r)" for bytes tx' ns r
    using capacity_stopping [of memory tx net "tm_destination_locator meta" ?request 1 bytes] that by simp
  show ?thesis
    using * by (auto simp: melodi_core_send_def melodi_core_send_batch_def Let_def namespace_stopping queue_insert_stopping
        split: sum.splits prod.splits)
qed

definition netdev_inv :: "melodi_netdev \<Rightarrow> bool" where
  "netdev_inv dev \<longleftrightarrow> link_inv dev \<and> device_ok (nd_melodi dev)"

text \<open>What the invariant of the link reads of an interface, apart from the lock.\<close>

definition outer_view where
  "outer_view dev = (link_view dev, tx_queue_stopping (nd_tx dev), nd_logical_tx_stopping dev, nd_queues_stopped dev)"

lemma netdev_inv_keeps:
  assumes "netdev_inv dev" "keeps (nd_melodi dev) (nd_melodi dev')" "outer_view dev' = outer_view dev"
  shows "netdev_inv dev'"
  using assms by (auto simp: netdev_inv_def link_inv_def keeps_def ready_of_def outer_view_def link_view_def)

lemma netdev_inv_locked:
  "netdev_inv dev \<Longrightarrow> keeps (nd_melodi dev) m \<Longrightarrow> netdev_inv (dev\<lparr>nd_melodi := m\<rparr>)"
  by (erule netdev_inv_keeps) (simp_all add: outer_view_def)

lemma netdev_inv_state_changed: "netdev_inv dev \<Longrightarrow> netdev_inv (state_changed env dev)"
  by (erule netdev_inv_keeps) (simp_all add: outer_view_def keeps_stripped)

lemma netdev_inv_send_frame:
  assumes "netdev_inv dev"
  shows "netdev_inv (fst (melodi_send_frame env dev frame source destination))"
proof (rule netdev_inv_keeps [OF assms])
  let ?send = "\<lambda>meta. melodi_core_send (ev_memory env) (nd_running dev \<and> nd_carrier dev) (ev_now_ms env) (ev_net env)
    (nd_melodi dev) (nd_tx dev) frame meta"
  have "tx_queue_stopping tx = tx_queue_stopping (nd_tx dev)" if "?send meta = (tx, r)" for meta tx r
    using core_send_stopping [of "ev_memory env" "nd_running dev \<and> nd_carrier dev" "ev_now_ms env" "ev_net env" "nd_melodi dev"
        "nd_tx dev" frame meta] that by simp
  then show "outer_view (fst (melodi_send_frame env dev frame source destination)) = outer_view dev"
    by (auto simp: melodi_send_frame_def outer_view_def split: sum.splits prod.splits)
  show "keeps (nd_melodi dev) (nd_melodi (fst (melodi_send_frame env dev frame source destination)))"
    by (auto simp: melodi_send_frame_def split: sum.splits prod.splits)
qed

lemma netdev_inv_send_auth: "netdev_inv dev \<Longrightarrow> netdev_inv (fst (melodi_send_auth env dev auth))"
  by (simp add: melodi_send_auth_def netdev_inv_send_frame split: sum.splits)

lemma netdev_inv_send_challenge: "netdev_inv dev \<Longrightarrow> netdev_inv (fst (melodi_send_challenge env dev hello))"
  by (auto simp: melodi_send_challenge_def intro!: netdev_inv_send_auth netdev_inv_locked intro: keeps_challenge
      split: prod.splits sum.splits)

lemma netdev_inv_conflict_announced:
  "netdev_inv dev \<Longrightarrow> netdev_inv (netdev_lock (\<lambda>m. if dev_local_collision_round m = round then m\<lparr>dev_conflict_pending := False\<rparr> else m) dev)"
  by (erule netdev_inv_keeps) (auto simp: outer_view_def peers_view_def intro!: keeps_view)

lemma netdev_inv_announce:
  assumes "netdev_inv dev"
  shows "netdev_inv (fst (melodi_discovery_announce env dev))"
proof -
  obtain m q where a: "announce_locked env (nd_melodi dev) = (m, q)" by (cases "announce_locked env (nd_melodi dev)")
  have inv: "netdev_inv (dev\<lparr>nd_melodi := m\<rparr>)" by (rule netdev_inv_locked [OF assms keeps_announce [OF a]])
  have sent: "netdev_inv d" if "melodi_send_frame env (dev\<lparr>nd_melodi := m\<rparr>) frame source destination = (d, r)" for frame source destination d r
    using netdev_inv_send_frame [OF inv, of env frame source destination] that by simp
  show ?thesis
    using inv sent
    by (auto simp: melodi_discovery_announce_def a Let_def intro!: netdev_inv_conflict_announced split: sum.splits prod.splits)
qed

lemma netdev_inv_probe:
  assumes "netdev_inv dev"
  shows "netdev_inv (fst (melodi_discovery_probe env dev))"
proof -
  obtain m q where a: "probe_locked env (nd_melodi dev) = (m, q)" by (cases "probe_locked env (nd_melodi dev)")
  have inv: "netdev_inv (dev\<lparr>nd_melodi := m\<rparr>)" by (rule netdev_inv_locked [OF assms keeps_probe [OF a]])
  show ?thesis
    using inv netdev_inv_send_frame [OF inv] by (auto simp: melodi_discovery_probe_def a Let_def split: sum.splits)
qed

lemma netdev_inv_announce_work: "netdev_inv dev \<Longrightarrow> netdev_inv (melodi_announce_work env dev)"
  by (simp add: melodi_announce_work_def netdev_inv_announce)

lemma netdev_inv_expiry_work: "netdev_inv dev \<Longrightarrow> netdev_inv (melodi_peer_expiry_work env jiffies dev)"
  unfolding melodi_peer_expiry_work_def
  by (rule netdev_inv_state_changed, erule netdev_inv_keeps) (simp_all add: keeps_expiry outer_view_def)

lemma device_ok_link_view:
  "device_ok (nd_melodi dev) \<Longrightarrow> peers_view (nd_melodi dev') = peers_view (nd_melodi dev) \<Longrightarrow> device_ok (nd_melodi dev')"
  using device_ok_view by blast

lemma view_fail_pending [simp]: "peers_view (nd_melodi (melodi_data_fail_pending error dev)) = peers_view (nd_melodi dev)"
  by (rule peers_view_stripped) simp

lemma view_transport [simp]: "peers_view (m\<lparr>dev_transport_ready := r, dev_local_link_locator := l\<rparr>) = peers_view m"
  by (simp add: peers_view_def)

lemma view_open [simp]: "peers_view (nd_melodi (melodi_open dev)) = peers_view (nd_melodi dev)"
  by (simp add: melodi_open_def Let_def)

lemma view_stop [simp]: "peers_view (nd_melodi (melodi_stop dev)) = peers_view (nd_melodi dev)"
  by (simp add: melodi_stop_def Let_def)

lemma view_failed [simp]: "peers_view (nd_melodi (melodi_link_failed failure error dev)) = peers_view (nd_melodi dev)"
  by (simp add: melodi_link_failed_def Let_def)

lemma view_configuring [simp]: "peers_view (nd_melodi (link_configuring dev)) = peers_view (nd_melodi dev)"
  by (simp add: link_configuring_def Let_def)

lemma view_configure [simp]: "peers_view (nd_melodi (fst (melodi_transport_configure dev))) = peers_view (nd_melodi dev)"
  by (simp add: melodi_transport_configure_def split: option.splits sum.splits)

lemma view_ready [simp]: "peers_view (nd_melodi (melodi_link_ready ready locator dev)) = peers_view (nd_melodi dev)"
  by (simp add: melodi_link_ready_def Let_def)

lemma view_attach [simp]: "peers_view (nd_melodi (fst (melodi_link_attach memory ops dev))) = peers_view (nd_melodi dev)"
  by (simp add: melodi_link_attach_def transport_attach_def)

lemma view_xmit [simp]: "peers_view (nd_melodi (melodi_start_xmit skb dev)) = peers_view (nd_melodi dev)"
  by (simp add: melodi_start_xmit_def)

lemma netdev_inv_link:
  "netdev_inv dev \<Longrightarrow> link_inv dev' \<Longrightarrow> peers_view (nd_melodi dev') = peers_view (nd_melodi dev) \<Longrightarrow> netdev_inv dev'"
  using device_ok_view [of "nd_melodi dev'" "nd_melodi dev"] by (simp add: netdev_inv_def)

lemma netdev_inv_fail_pending: "netdev_inv dev \<Longrightarrow> netdev_inv (melodi_data_fail_pending error dev)"
  by (erule netdev_inv_keeps) (simp_all add: keeps_stripped outer_view_def)

lemma netdev_inv_locator_changed:
  assumes "netdev_inv dev"
  shows "netdev_inv (fst (locator_changed dev))"
proof -
  have "netdev_inv (melodi_link_ready False 0 dev)"
    using assms by (intro netdev_inv_link [OF assms] link_inv_ready) (simp_all add: netdev_inv_def)
  then have inv: "netdev_inv (melodi_data_fail_pending EADDRINUSE (melodi_link_ready False 0 dev))"
    by (rule netdev_inv_fail_pending)
  then have "link_inv (melodi_data_fail_pending EADDRINUSE (melodi_link_ready False 0 dev))" by (simp add: netdev_inv_def)
  from netdev_inv_link [OF inv link_inv_configure [OF this]] show ?thesis unfolding locator_changed_def by simp
qed

lemma netdev_inv_hello_outcome:
  assumes "netdev_inv dev"
  shows "netdev_inv (fst (if ho_local_changed outcome then locator_changed dev
    else if ho_conflicted outcome
    then (if ho_local_collision outcome \<and> nd_running dev \<and> nd_carrier dev
          then melodi_discovery_announce env dev else (dev, Inr ()))
    else if \<not> nd_running dev \<or> \<not> nd_carrier dev then (dev, Inr ())
    else if ho_responder outcome then melodi_send_challenge env dev hello
    else (dev, Inr ())))"
  using assms by (simp add: netdev_inv_locator_changed netdev_inv_announce netdev_inv_send_challenge)

lemma netdev_inv_receive_hello:
  assumes "netdev_inv dev"
  shows "netdev_inv (fst (melodi_receive_hello env dev frame conflict meta))"
proof -
  have handled: "netdev_inv (fst (case hello_locked env (nd_melodi dev) hello meta of
       (melodi, Inl error) \<Rightarrow> (dev\<lparr>nd_melodi := melodi\<rparr>, Inl error)
     | (melodi, Inr outcome) \<Rightarrow>
        (let dev = dev\<lparr>nd_melodi := melodi\<rparr>;
             dev = (if ho_stale outcome then state_changed env dev else dev)
         in if ho_local_changed outcome then locator_changed dev
            else if ho_conflicted outcome
            then (if ho_local_collision outcome \<and> nd_running dev \<and> nd_carrier dev
                  then melodi_discovery_announce env dev else (dev, Inr ()))
            else if \<not> nd_running dev \<or> \<not> nd_carrier dev then (dev, Inr ())
            else if ho_responder outcome then melodi_send_challenge env dev hello
            else (dev, Inr ()))))" for hello
  proof -
    obtain m q where h: "hello_locked env (nd_melodi dev) hello meta = (m, q)" by (cases "hello_locked env (nd_melodi dev) hello meta")
    have locked: "netdev_inv (dev\<lparr>nd_melodi := m\<rparr>)" by (rule netdev_inv_locked [OF assms keeps_hello [OF h]])
    show ?thesis
    proof (cases q)
      case (Inr outcome)
      let ?d = "if ho_stale outcome then state_changed env (dev\<lparr>nd_melodi := m\<rparr>) else dev\<lparr>nd_melodi := m\<rparr>"
      have d: "netdev_inv ?d" using locked netdev_inv_state_changed [OF locked] by simp
      show ?thesis
        unfolding h Inr prod.case sum.case Let_def by (rule netdev_inv_hello_outcome [OF d])
    qed (simp add: h locked)
  qed
  show ?thesis using assms handled by (simp only: melodi_receive_hello_def split: sum.split if_split) simp
qed

lemma netdev_inv_receive_challenge:
  assumes "netdev_inv dev"
  shows "netdev_inv (fst (melodi_receive_challenge env dev frame meta))"
proof -
  have locked: "netdev_inv (dev\<lparr>nd_melodi := m\<rparr>)"
    if "challenge_answer_locked env (nd_melodi dev) auth meta public shared = (m, r)" for auth public shared m r
    by (rule netdev_inv_locked [OF assms keeps_answer [OF that]])
  show ?thesis
    using assms locked
    by (auto simp: melodi_receive_challenge_def intro!: netdev_inv_send_auth split: sum.splits prod.splits option.splits)
qed

lemma netdev_inv_receive_response:
  assumes "netdev_inv dev"
  shows "netdev_inv (fst (melodi_receive_response env dev frame meta))"
proof -
  have locked: "netdev_inv (dev\<lparr>nd_melodi := m\<rparr>)" if "response_locked env (nd_melodi dev) auth meta = (m, r)" for auth m r
    by (rule netdev_inv_locked [OF assms keeps_response [OF that]])
  show ?thesis using assms locked by (auto simp: melodi_receive_response_def split: sum.splits prod.splits)
qed

lemma netdev_inv_receive_control:
  assumes "netdev_inv dev"
  shows "netdev_inv (fst (melodi_receive_control env dev frame meta))"
proof -
  have locked: "netdev_inv (dev\<lparr>nd_melodi := m\<rparr>)" if "control_locked env (nd_melodi dev) control meta = (m, r)" for control m r
    by (rule netdev_inv_locked [OF assms keeps_control [OF that]])
  show ?thesis
    using assms locked
    by (auto simp: melodi_receive_control_def Let_def intro!: netdev_inv_locator_changed netdev_inv_announce split: sum.splits prod.splits)
qed

lemmas netdev_inv_handlers =
  netdev_inv_receive_hello netdev_inv_receive_challenge netdev_inv_receive_response netdev_inv_receive_control

lemma netdev_inv_receive:
  assumes "netdev_inv dev"
  shows "netdev_inv (fst (melodi_discovery_receive env dev frame meta))"
  using netdev_inv_handlers [OF assms] assms
  by (auto simp: melodi_discovery_receive_def Let_def case_prod_beta intro!: netdev_inv_state_changed split: sum.splits)

subsection \<open>Operations that empty the table\<close>

lemma device_ok_zero:
  assumes "dev_peers m = replicate 64 zero_peer"
    and "dev_identity_ready m \<Longrightarrow>
      derived (dev_mesh_domain m) (dev_node_id m) (dev_local_collision_round m) (dev_local_native_locator m)"
  shows "device_ok m"
  using assms peers_wf_zero by (simp add: device_ok_def)

lemma device_ok_reset: "device_ok m \<Longrightarrow> device_ok (melodi_discovery_reset_locked (melodi_data_reset_locked m))"
  by (rule device_ok_zero) (simp_all add: device_ok_def)

lemma device_ok_transport:
  "device_ok (m\<lparr>dev_transport_ready := r, dev_local_link_locator := l\<rparr>) = device_ok m"
  by (rule device_ok_view) simp

lemma netdev_inv_detach:
  assumes "netdev_inv dev"
  shows "netdev_inv (melodi_detach_transport dev)"
proof -
  have "device_ok (nd_melodi (melodi_data_fail_pending ENETDOWN d)) = device_ok (nd_melodi d)" for d
    by (rule device_ok_view) simp
  then have "device_ok (nd_melodi (melodi_detach_transport dev))"
    using assms by (simp add: melodi_detach_transport_def Let_def netdev_inv_def device_ok_reset device_ok_transport)
  then show ?thesis using assms link_inv_detach by (simp add: netdev_inv_def)
qed

lemma netdev_inv_namespace:
  assumes "netdev_inv dev"
  shows "netdev_inv (melodi_namespace_reset dev)"
proof -
  have fails: "device_ok (nd_melodi (melodi_data_fail_pending ENONET d)) = device_ok (nd_melodi d)" for d
    by (rule device_ok_view) simp
  have policy: "device_ok (m\<lparr>dev_policy_peers := a, dev_policy_services := b, dev_policy_mode := c, dev_broadcast_allowed := e\<rparr>) =
      device_ok m" for m a b c e
    by (rule device_ok_view) (simp add: peers_view_def)
  have "device_ok (nd_melodi (melodi_namespace_reset dev))"
    using assms by (simp add: melodi_namespace_reset_def Let_def netdev_inv_def device_ok_reset fails policy)
  then show ?thesis using assms link_inv_namespace by (simp add: netdev_inv_def)
qed

lemma map_native_locator_derived:
  assumes "melodi_map_native_locator domain node first = Inr (native, round)"
  shows "derived domain node round native"
proof -
  have valid: "melodi_mapping_node_valid node" and loop: "melodi_map_native_locator_loop domain node first = Inr (native, round)"
    using assms by (simp_all add: melodi_map_native_locator_def split: if_splits)
  then show ?thesis
    using melodi_map_native_locator_loop_first_fit [of domain node first] by (auto simp: first_fit_def derived_def)
qed

lemma device_ok_identity_store:
  assumes "derived (dev_mesh_domain m) node (snd located) (fst located)"
  shows "device_ok (identity_store node generation previous replacing located m)"
  by (rule device_ok_zero) (use assms in \<open>simp_all add: identity_store_def Let_def case_prod_beta\<close>)

lemma netdev_inv_set_identity:
  assumes "netdev_inv dev"
  shows "netdev_inv (fst (melodi_device_set_identity check node key generation previous dev))"
proof -
  have "device_ok (nd_melodi (fst (melodi_device_set_identity check node key generation previous dev)))"
  proof (cases "identity_admit check (nd_melodi dev) node generation previous")
    case (Inl error)
    then show ?thesis using assms by (simp add: melodi_device_set_identity_def netdev_inv_def)
  next
    case (Inr located)
    let ?r = "identity_replace node key generation previous located dev"
    have "melodi_map_native_locator (dev_mesh_domain (nd_melodi dev)) node 0 = Inr located"
      using Inr by (auto simp: identity_admit_def Let_def split: if_splits sum.splits)
    then have "derived (dev_mesh_domain (nd_melodi dev)) node (snd located) (fst located)"
      using map_native_locator_derived [of "dev_mesh_domain (nd_melodi dev)" node 0 "fst located" "snd located"] by simp
    then have r: "device_ok (nd_melodi ?r)"
      unfolding identity_replace_def Let_def by (simp add: device_ok_identity_store)
    have resume: "peers_view (nd_melodi (identity_resume b d)) = peers_view (nd_melodi d)" for b d
      by (simp add: identity_resume_def Let_def)
    have "peers_view (nd_melodi (fst (melodi_device_set_identity check node key generation previous dev))) = peers_view (nd_melodi ?r)"
      by (simp add: melodi_device_set_identity_def Inr Let_def resume)
    from device_ok_link_view [OF r this] show ?thesis .
  qed
  then show ?thesis using assms link_inv_set_identity by (simp add: netdev_inv_def)
qed

subsection \<open>Every sequence of operations\<close>

text \<open>
  The operations on an interface in any order: the kernel opens and stops it and hands it messages,
  a transport attaches, reports its state and detaches, the administrator sets the identity and moves
  the interface to another namespace, frames arrive and work items run. Only a transport that is
  attached reports that it is ready. The kernel sets and clears its flag of a running interface
  before it calls the driver.
\<close>

inductive netdev_step :: "melodi_netdev \<Rightarrow> melodi_netdev \<Rightarrow> bool" where
  Open: "netdev_step dev (melodi_open (dev\<lparr>nd_running := True\<rparr>))"
| Stop: "netdev_step dev (melodi_stop (dev\<lparr>nd_running := False\<rparr>))"
| Transmit: "netdev_step dev (melodi_start_xmit skb dev)"
| Attach: "netdev_step dev (fst (melodi_link_attach memory ops dev))"
| Configure: "netdev_step dev (fst (melodi_transport_configure dev))"
| Ready: "nd_transport dev \<noteq> None \<Longrightarrow> netdev_step dev (melodi_link_ready True locator dev)"
| Unready: "netdev_step dev (melodi_link_ready False locator dev)"
| Failed: "netdev_step dev (melodi_link_failed failure error dev)"
| Detach: "netdev_step dev (melodi_detach_transport dev)"
| Namespace: "netdev_step dev (melodi_namespace_reset dev)"
| Identity: "netdev_step dev (fst (melodi_device_set_identity check node key generation previous dev))"
| Receive: "netdev_step dev (fst (melodi_discovery_receive env dev frame meta))"
| Probe: "netdev_step dev (fst (melodi_discovery_probe env dev))"
| Announce: "netdev_step dev (melodi_announce_work env dev)"
| Expire: "netdev_step dev (melodi_peer_expiry_work env jiffies dev)"
| Changed: "netdev_step dev (state_changed env dev)"

inductive_cases netdev_stepE: "netdev_step dev dev'"

lemma netdev_inv_step:
  assumes "netdev_step dev dev'" "netdev_inv dev"
  shows "netdev_inv dev'"
proof -
  have link: "link_inv dev" using assms(2) by (simp add: netdev_inv_def)
  note lift = netdev_inv_link [OF assms(2)]
  from assms(1) show ?thesis
  proof cases
    case Open
    then show ?thesis using lift [OF link_inv_open [OF link]] by simp
  next
    case Stop
    then show ?thesis using lift [OF link_inv_stop [OF link]] by simp
  next
    case (Transmit skb)
    then show ?thesis using lift [OF link_inv_xmit [OF link]] by simp
  next
    case (Attach memory ops)
    then show ?thesis using lift [OF link_inv_attach [OF link]] by simp
  next
    case Configure
    then show ?thesis using lift [OF link_inv_configure [OF link]] by simp
  next
    case (Ready locator)
    then show ?thesis using lift [OF link_inv_ready [OF link, of True]] by simp
  next
    case (Unready locator)
    then show ?thesis using lift [OF link_inv_ready [OF link, of False]] by simp
  next
    case (Failed failure error)
    then show ?thesis using lift [OF link_inv_failed [OF link]] by simp
  qed (use assms(2) in \<open>simp_all only: netdev_inv_detach netdev_inv_namespace netdev_inv_set_identity netdev_inv_receive
    netdev_inv_probe netdev_inv_announce_work netdev_inv_expiry_work netdev_inv_state_changed\<close>)
qed

text \<open>A device as it is allocated.\<close>

definition zero_netdev :: melodi_netdev where
  "zero_netdev = \<lparr>nd_melodi = zero_device, nd_tx = zero_tx, nd_identity_key = None, nd_transport = None, nd_radio_serial = [],
     nd_persistent = False, nd_link_state = MELODI_LINK_DISCONNECTED, nd_link_failure = MELODI_LINK_FAILURE_NONE,
     nd_link_error = None, nd_logical_tx_stopping = False, nd_logical_tx_queue = [], nd_running = False, nd_carrier = True,
     nd_dormant = False, nd_queues_stopped = False, nd_messages = []\<rparr>"

lemma netdev_inv_init: "netdev_inv (melodi_device_init persistent zero_netdev)"
proof -
  have "device_ok (zero_device\<lparr>dev_broadcast_allowed := True\<rparr>)"
    by (rule device_ok_zero) (simp_all add: zero_device_def)
  then show ?thesis
    by (simp add: netdev_inv_def link_inv_def melodi_device_init_def zero_netdev_def melodi_queue_init_def zero_device_def)
qed

lemma netdev_inv_steps:
  "netdev_step\<^sup>*\<^sup>* dev dev' \<Longrightarrow> netdev_inv dev \<Longrightarrow> netdev_inv dev'"
  by (induction rule: rtranclp_induct) (auto intro: netdev_inv_step)

text \<open>
  C99. Whatever sequence of operations an interface sees after it is set up: the carrier is on exactly in
  the state ready, and exactly when both the transport and the identity are ready; a ready transport is
  an attached one; the interface has a failure and an error exactly in the state failed; without
  carrier the transmit queue takes no frame, and with carrier a running interface has no queue stopped.
  The table of peers is well formed, the locator of every peer belongs to its identity, and
  so does the locator of the device itself.
\<close>

theorem netdev_always_consistent:
  assumes "netdev_step\<^sup>*\<^sup>* (melodi_device_init persistent zero_netdev) dev"
  shows "(nd_carrier dev \<longleftrightarrow> nd_link_state dev = MELODI_LINK_READY) \<and>
     (nd_carrier dev \<longleftrightarrow> dev_transport_ready (nd_melodi dev) \<and> dev_identity_ready (nd_melodi dev)) \<and>
     (dev_transport_ready (nd_melodi dev) \<longrightarrow> nd_transport dev \<noteq> None) \<and>
     (nd_link_state dev = MELODI_LINK_FAILED \<longleftrightarrow> nd_link_failure dev \<noteq> MELODI_LINK_FAILURE_NONE) \<and>
     (nd_link_failure dev \<noteq> MELODI_LINK_FAILURE_NONE \<longleftrightarrow> nd_link_error dev \<noteq> None) \<and>
     (\<not> nd_carrier dev \<longrightarrow> tx_queue_stopping (nd_tx dev)) \<and>
     (nd_carrier dev \<and> nd_running dev \<longrightarrow>
        \<not> tx_queue_stopping (nd_tx dev) \<and> \<not> nd_logical_tx_stopping dev \<and> \<not> nd_queues_stopped dev) \<and>
     peers_wf (nd_melodi dev) \<and>
     (dev_identity_ready (nd_melodi dev) \<longrightarrow>
        derived (dev_mesh_domain (nd_melodi dev)) (dev_node_id (nd_melodi dev)) (dev_local_collision_round (nd_melodi dev))
          (dev_local_native_locator (nd_melodi dev)))"
  using netdev_inv_steps [OF assms netdev_inv_init] unfolding netdev_inv_def link_inv_def device_ok_def by blast

text \<open>A run that ends with a carrier: the identity is set, a transport attaches and is ready, the interface is opened.\<close>

definition sample_key :: kernel_key where
  "sample_key = \<lparr>key_is_user = True, key_validation = Inr (), key_payload = Some (replicate 32 7)\<rparr>"

lemma sample_node_id_valid: "melodi_node_id_valid (\<lambda>_. 0) (sample_node 2)"
  by code_simp

definition sample_ops :: melodi_link_ops where
  "sample_ops = \<lparr>lo_xmit = \<lambda>frame meta. Inr (), lo_configure = None, lo_get_info = None, lo_airtime = None\<rparr>"

lemma netdev_always_consistent_witness:
  "\<exists>dev. netdev_step\<^sup>*\<^sup>* (melodi_device_init False zero_netdev) dev \<and> nd_carrier dev \<and> nd_running dev \<and>
     nd_link_state dev = MELODI_LINK_READY \<and> \<not> tx_queue_stopping (nd_tx dev) \<and> peers_wf (nd_melodi dev)"
proof -
  let ?a = "melodi_device_init False zero_netdev"
  let ?b = "fst (melodi_device_set_identity (\<lambda>_. 0) (sample_node 2) sample_key 1 None ?a)"
  let ?c = "fst (melodi_link_attach True sample_ops ?b)"
  let ?d = "melodi_link_ready True 5 ?c"
  let ?e = "melodi_open (?d\<lparr>nd_running := True\<rparr>)"
  have "derived (replicate 32 0) (sample_node 2) 0 920114789"
    by (simp add: derived_def sample_locator sample_node_valid usable_def)
  then have "melodi_map_native_locator (replicate 32 0) (sample_node 2) 0 = Inr (920114789, 0)"
    by (simp add: map_native_derived)
  then have admit: "identity_admit (\<lambda>_. 0) (nd_melodi ?a) (sample_node 2) 1 None = Inr (920114789, 0)"
    by (simp add: identity_admit_def melodi_device_init_def zero_netdev_def zero_device_def sample_node_id_valid)
  have a: "nd_transport ?a = None" by (simp add: melodi_device_init_def zero_netdev_def)
  then have b: "nd_transport ?b = None" "dev_identity_ready (nd_melodi ?b)"
    by (simp_all add: melodi_device_set_identity_def admit Let_def identity_resume_def)
  then have c: "nd_transport ?c = Some sample_ops" "dev_identity_ready (nd_melodi ?c)"
    by (simp_all add: melodi_link_attach_def transport_attach_def)
  have "netdev_step ?a ?b" by (rule Identity)
  moreover have "netdev_step ?b ?c" by (rule Attach)
  moreover have "netdev_step ?c ?d" by (rule Ready) (simp add: c)
  moreover have "netdev_step ?d ?e" by (rule Open)
  ultimately have run: "netdev_step\<^sup>*\<^sup>* ?a ?e"
    by (meson converse_rtranclp_into_rtranclp rtranclp.rtrancl_refl)
  have "nd_carrier ?e" "nd_running ?e"
    using c(2) by (simp_all add: melodi_link_ready_def melodi_open_def Let_def)
  then show ?thesis using run netdev_always_consistent [OF run] by blast
qed

end
