(* ===== verification/Spec2Isabelle.thy ===== *)
theory Spec2Isabelle
  imports Prelude Replay Airtime Ordering Reliability Locators Wire Radio NodeId Identity Genl Usb_Contract
    Policy Reassembly Data Queue_System Sessions
begin

text \<open>
  Verification of the protocol components of Melodi, a mesh network stack for LoRa radios.
\<close>

end
